(* ===== verification/Prelude.thy ===== *)
theory Prelude
  imports Main "HOL-Library.Char_ord" "HOL-Library.List_Lexorder"
begin

text \<open>
  What every component shares: the theorem collections, Go's 64-bit integers, the functions of
  Go's \<^verbatim>\<open>strings\<close> and \<^verbatim>\<open>strconv\<close> packages that the sources call, and lemmas on lists.

  A Go string is a sequence of bytes, here a \<^verbatim>\<open>char list\<close> (HOL's characters are bytes), and a
  \<^verbatim>\<open>[]byte\<close> is the same type under the name \<open>bytes\<close>. Strings are ordered as Go and SQLite's
  BINARY collation order them, byte by byte (\<^theory_text>\<open>List_Lexorder\<close> over \<^theory_text>\<open>Char_ord\<close>).
  Case folding and trimming act on ASCII, which is what the literals the code compares with need.
\<close>

named_theorems go_defs \<open>definitions of library functions, unfolded to evaluate them\<close>
named_theorems go_str \<open>facts on the string functions\<close>

type_synonym bytes = "char list"

subsection \<open>64-bit integers\<close>

text \<open>\<open>i64 x\<close> is the value a Go \<^verbatim>\<open>int64\<close> (or \<^verbatim>\<open>int\<close>) holds after an operation whose exact
  result is \<open>x\<close>: two's complement wrap-around.\<close>

definition i64 :: "int \<Rightarrow> int" where
  "i64 x = (x + 9223372036854775808) mod 18446744073709551616 - 9223372036854775808"

definition in_i64 :: "int \<Rightarrow> bool" where
  "in_i64 x \<longleftrightarrow> -9223372036854775808 \<le> x \<and> x < 9223372036854775808"

lemma i64_id [simp]: "in_i64 x \<Longrightarrow> i64 x = x"
  by (simp add: i64_def in_i64_def mod_pos_pos_trivial)

lemma in_i64_i64 [simp]: "in_i64 (i64 x)"
proof -
  have "0 \<le> (x + 9223372036854775808) mod 18446744073709551616"
    and "(x + 9223372036854775808) mod 18446744073709551616 < 18446744073709551616"
    by simp_all
  then show ?thesis by (simp add: i64_def in_i64_def)
qed

lemma in_i64_between:
  "in_i64 a \<Longrightarrow> in_i64 b \<Longrightarrow> a \<le> x \<Longrightarrow> x \<le> b \<Longrightarrow> in_i64 x"
  by (auto simp: in_i64_def)

lemma in_i64_0 [simp]: "in_i64 0" and in_i64_1 [simp]: "in_i64 1"
  and in_i64_numeral: "in_i64 (numeral n) \<longleftrightarrow> numeral n < (9223372036854775808 :: int)"
  by (simp_all add: in_i64_def)

text \<open>Go's integer division truncates towards zero.\<close>

definition quot :: "int \<Rightarrow> int \<Rightarrow> int" where
  "quot a b = sgn a * sgn b * (\<bar>a\<bar> div \<bar>b\<bar>)"

lemma quot_nonneg [simp]: "0 \<le> a \<Longrightarrow> 0 < b \<Longrightarrow> quot a b = a div b"
  by (cases "a = 0") (simp_all add: quot_def)

subsection \<open>Package strings\<close>

definition HasPrefix :: "string \<Rightarrow> string \<Rightarrow> bool" where
  "HasPrefix s p \<longleftrightarrow> take (length p) s = p"

definition HasSuffix :: "string \<Rightarrow> string \<Rightarrow> bool" where
  "HasSuffix s p \<longleftrightarrow> length p \<le> length s \<and> drop (length s - length p) s = p"

definition TrimPrefix :: "string \<Rightarrow> string \<Rightarrow> string" where
  "TrimPrefix s p = (if HasPrefix s p then drop (length p) s else s)"

definition TrimSuffix :: "string \<Rightarrow> string \<Rightarrow> string" where
  "TrimSuffix s p = (if HasSuffix s p then take (length s - length p) s else s)"

text \<open>\<^verbatim>\<open>strings.Index\<close>: \<open>None\<close> stands for -1.\<close>

fun Index :: "string \<Rightarrow> string \<Rightarrow> nat option" where
  "Index [] sep = (if sep = [] then Some 0 else None)"
| "Index (c # s) sep = (if HasPrefix (c # s) sep then Some 0 else map_option Suc (Index s sep))"

definition Contains :: "string \<Rightarrow> string \<Rightarrow> bool" where
  "Contains s sep \<longleftrightarrow> Index s sep \<noteq> None"

definition LastIndex :: "string \<Rightarrow> string \<Rightarrow> nat option" where
  "LastIndex s sep =
     map_option (\<lambda>i. length s - length sep - i) (Index (rev s) (rev sep))"

definition Cut :: "string \<Rightarrow> string \<Rightarrow> string \<times> string \<times> bool" where
  "Cut s sep = (case Index s sep of
       None \<Rightarrow> (s, [], False)
     | Some i \<Rightarrow> (take i s, drop (i + length sep) s, True))"

text \<open>\<^verbatim>\<open>strings.SplitN(s, sep, 2)\<close>.\<close>

definition SplitN2 :: "string \<Rightarrow> string \<Rightarrow> string list" where
  "SplitN2 s sep = (case Cut s sep of (a, b, found) \<Rightarrow> if found then [a, b] else [a])"

text \<open>\<^verbatim>\<open>strings.Split\<close> and \<^verbatim>\<open>strings.Join\<close> with a separator of one byte.\<close>

fun Split :: "string \<Rightarrow> char \<Rightarrow> string list" where
  "Split [] d = [[]]"
| "Split (c # s) d =
     (if c = d then [] # Split s d
      else (case Split s d of [] \<Rightarrow> [[c]] | p # ps \<Rightarrow> (c # p) # ps))"

fun Join :: "string list \<Rightarrow> string \<Rightarrow> string" where
  "Join [] sep = []"
| "Join [p] sep = p"
| "Join (p # q # ps) sep = p @ sep @ Join (q # ps) sep"

definition lower :: "char \<Rightarrow> char" where
  "lower c = (if of_char c \<ge> (65 :: nat) \<and> of_char c \<le> (90 :: nat)
              then char_of (of_char c + 32 :: nat) else c)"

definition upper :: "char \<Rightarrow> char" where
  "upper c = (if of_char c \<ge> (97 :: nat) \<and> of_char c \<le> (122 :: nat)
              then char_of (of_char c - 32 :: nat) else c)"

definition ToLower :: "string \<Rightarrow> string" where "ToLower s = map lower s"
definition ToUpper :: "string \<Rightarrow> string" where "ToUpper s = map upper s"

definition EqualFold :: "string \<Rightarrow> string \<Rightarrow> bool" where
  "EqualFold a b \<longleftrightarrow> ToLower a = ToLower b"

definition is_space :: "char \<Rightarrow> bool" where
  "is_space c \<longleftrightarrow> of_char c = (32 :: nat) \<or> (9 \<le> (of_char c :: nat) \<and> (of_char c :: nat) \<le> 13)"

definition trim_by :: "(char \<Rightarrow> bool) \<Rightarrow> string \<Rightarrow> string" where
  "trim_by p s = rev (dropWhile p (rev (dropWhile p s)))"

definition TrimSpace :: "string \<Rightarrow> string" where "TrimSpace = trim_by is_space"

definition Trim :: "string \<Rightarrow> string \<Rightarrow> string" where
  "Trim s cutset = trim_by (\<lambda>c. c \<in> set cutset) s"

definition TrimRight :: "string \<Rightarrow> string \<Rightarrow> string" where
  "TrimRight s cutset = rev (dropWhile (\<lambda>c. c \<in> set cutset) (rev s))"

definition TrimLeft :: "string \<Rightarrow> string \<Rightarrow> string" where
  "TrimLeft s cutset = dropWhile (\<lambda>c. c \<in> set cutset) s"

text \<open>\<^verbatim>\<open>strings.NewReplacer(old1, new1, ...).Replace(s)\<close> for non-empty old strings: one pass from
  the left, at each position the first pair that matches.\<close>

function Replacer :: "(string \<times> string) list \<Rightarrow> string \<Rightarrow> string" where
  "Replacer ps [] = []"
| "Replacer ps (c # s) =
     (case find (\<lambda>p. fst p \<noteq> [] \<and> HasPrefix (c # s) (fst p)) ps of
        None \<Rightarrow> c # Replacer ps s
      | Some p \<Rightarrow> snd p @ Replacer ps (drop (length (fst p) - 1) s))"
  by pat_completeness auto
termination
  by (relation "measure (\<lambda>(ps, s). length s)") auto

text \<open>\<^verbatim>\<open>strings.ReplaceAll(s, old, new)\<close> for a non-empty old string.\<close>

definition ReplaceAll :: "string \<Rightarrow> string \<Rightarrow> string \<Rightarrow> string" where
  "ReplaceAll s old new = Replacer [(old, new)] s"

text \<open>\<^verbatim>\<open>%q\<close>. It occurs in texts of errors and logs, and around entity tags, which are hexadecimal; the escapes inside the quotes are left out.\<close>

definition Quote :: "string \<Rightarrow> string" where
  "Quote s = CHR 0x22 # s @ [CHR 0x22]"

lemmas string_defs [go_defs] =
  HasPrefix_def HasSuffix_def TrimPrefix_def TrimSuffix_def Contains_def LastIndex_def Cut_def
  SplitN2_def lower_def upper_def ToLower_def ToUpper_def EqualFold_def is_space_def trim_by_def
  TrimSpace_def Trim_def TrimRight_def TrimLeft_def

subsection \<open>Package strconv\<close>

definition digit_value :: "char \<Rightarrow> int option" where
  "digit_value c = 
     (let n = (of_char c :: nat) in if 48 \<le> n \<and> n \<le> 57 then Some (int n - 48) else None)"

fun digits_value :: "int \<Rightarrow> string \<Rightarrow> int option" where
  "digits_value acc [] = Some acc"
| "digits_value acc (c # s) =
     (case digit_value c of None \<Rightarrow> None | Some d \<Rightarrow> digits_value (10 * acc + d) s)"

text \<open>\<^verbatim>\<open>strconv.ParseInt(s, 10, 64)\<close> and \<^verbatim>\<open>strconv.Atoi\<close>: an optional sign, at least one digit,
  and a value an \<^verbatim>\<open>int64\<close> holds; \<open>None\<close> is the error.\<close>

definition ParseInt :: "string \<Rightarrow> int option" where
  "ParseInt s =
     (let (neg, ds) = (case s of
             c # r \<Rightarrow> (if c = CHR ''-'' then (True, r) else if c = CHR ''+'' then (False, r)
                       else (False, s))
           | [] \<Rightarrow> (False, []))
      in if ds = [] then None
         else (case digits_value 0 ds of
                 None \<Rightarrow> None
               | Some v \<Rightarrow> (let w = (if neg then - v else v) in if in_i64 w then Some w else None)))"

function nat_digits :: "nat \<Rightarrow> string" where
  "nat_digits n = (if n < 10 then [char_of (48 + n)] else nat_digits (n div 10) @ [char_of (48 + n mod 10)])"
  by pat_completeness auto
termination
  by (relation "measure id") auto

declare nat_digits.simps [simp del]

text \<open>\<^verbatim>\<open>strconv.Itoa\<close>, \<^verbatim>\<open>strconv.FormatInt(n, 10)\<close> and \<^verbatim>\<open>%d\<close>.\<close>

definition Itoa :: "int \<Rightarrow> string" where
  "Itoa n = (if n < 0 then CHR ''-'' # nat_digits (nat (- n)) else nat_digits (nat n))"

lemmas strconv_defs [go_defs] = digit_value_def ParseInt_def Itoa_def

subsection \<open>Facts on the string functions\<close>

lemma HasPrefix_append [go_str, simp]: "HasPrefix (p @ s) p"
  by (simp add: HasPrefix_def)

lemma HasPrefix_iff: "HasPrefix s p \<longleftrightarrow> (\<exists>r. s = p @ r)"
  unfolding HasPrefix_def by (metis append_eq_conv_conj)

lemma HasPrefix_Nil [simp]: "HasPrefix s []"
  by (simp add: HasPrefix_def)

lemma TrimPrefix_append [go_str, simp]: "TrimPrefix (p @ s) p = s"
  by (simp add: TrimPrefix_def)

lemma TrimPrefix_Nil [simp]: "TrimPrefix s [] = s"
  by (simp add: TrimPrefix_def)

lemma HasSuffix_append [go_str, simp]: "HasSuffix (s @ p) p"
  by (simp add: HasSuffix_def)

lemma HasSuffix_iff: "HasSuffix s p \<longleftrightarrow> (\<exists>r. s = r @ p)"
proof
  assume "HasSuffix s p"
  then have "s = take (length s - length p) s @ p"
    unfolding HasSuffix_def by (metis append_take_drop_id)
  then show "\<exists>r. s = r @ p" by blast
qed auto

lemma TrimSuffix_append [go_str, simp]: "TrimSuffix (s @ p) p = s"
  by (simp add: TrimSuffix_def)

lemma Index_SomeD:
  "Index s sep = Some i \<Longrightarrow> i + length sep \<le> length s \<and> take (length sep) (drop i s) = sep"
proof (induction s arbitrary: i)
  case Nil
  then show ?case by (auto split: if_splits)
next
  case (Cons c s)
  show ?case
  proof (cases "HasPrefix (c # s) sep")
    case True
    with Cons.prems have i: "i = 0" by simp
    from True have "take (length sep) (c # s) = sep" by (simp add: HasPrefix_def)
    moreover from this have "length sep \<le> length (c # s)"
      by (metis length_take min.absorb_iff2 min.commute)
    ultimately show ?thesis using i by simp
  next
    case False
    with Cons.prems obtain j where "Index s sep = Some j" and i: "i = Suc j" by auto
    with Cons.IH show ?thesis by simp
  qed
qed

text \<open>The text before a found separator, the separator and the text after it make up the string.\<close>

lemma Index_split: "Index s sep = Some i \<Longrightarrow> s = take i s @ sep @ drop (i + length sep) s"
  by (drule Index_SomeD) (metis append_take_drop_id drop_drop add.commute)

lemma Cut_found: "Cut s sep = (a, b, True) \<Longrightarrow> s = a @ sep @ b"
  by (auto simp: Cut_def split: option.splits dest: Index_split)

lemma Cut_not_found: "Cut s sep = (a, b, False) \<Longrightarrow> a = s \<and> b = []"
  by (auto simp: Cut_def split: option.splits)

lemma Split_nonempty [simp]: "Split s d \<noteq> []"
  by (induction s) (auto split: list.splits)

lemma Join_Split: "Join (Split s d) [d] = s"
proof (induction s)
  case (Cons c s)
  obtain p ps where s: "Split s d = p # ps" by (meson Split_nonempty list.exhaust)
  with Cons.IH show ?case by (cases ps) auto
qed simp

lemma dropWhile_idem_hd: "s = [] \<or> \<not> p (hd s) \<Longrightarrow> dropWhile p s = s"
  by (cases s) auto

subsection \<open>Searching for one byte, printing and parsing numbers\<close>

lemma HasPrefix_single [simp]: "HasPrefix (x # s) [c] \<longleftrightarrow> x = c"
  by (simp add: HasPrefix_def)

lemma Index_single_None [go_str]: "Index s [c] = None \<longleftrightarrow> c \<notin> set s"
  by (induction s) (auto simp: HasPrefix_def)

lemma Index_single_append [go_str]: "c \<notin> set a \<Longrightarrow> Index (a @ c # b) [c] = Some (length a)"
  by (induction a) (auto simp: HasPrefix_def)

lemma Contains_single [go_str]: "Contains s [c] \<longleftrightarrow> c \<in> set s"
  by (simp add: Contains_def Index_single_None)

lemma SplitN2_single [go_str]: "c \<notin> set a \<Longrightarrow> SplitN2 (a @ c # b) [c] = [a, b]"
  by (simp add: SplitN2_def Cut_def Index_single_append)

lemma Cut_single [go_str]: "c \<notin> set a \<Longrightarrow> Cut (a @ c # b) [c] = (a, b, True)"
  by (simp add: Cut_def Index_single_append)

lemma Cut_single_None [go_str]: "c \<notin> set a \<Longrightarrow> Cut a [c] = (a, [], False)"
  using Index_single_None [of a c] by (simp add: Cut_def)

lemma digits_value_append:
  "digits_value acc (xs @ ys) =
     (case digits_value acc xs of None \<Rightarrow> None | Some a \<Rightarrow> digits_value a ys)"
  by (induction xs arbitrary: acc) (auto split: option.splits)

lemma digit_value_digit [simp]: "d < 10 \<Longrightarrow> digit_value (char_of (48 + d :: nat)) = Some (int d)"
proof -
  assume "d < 10"
  then have "d \<in> {0, 1, 2, 3, 4, 5, 6, 7, 8, 9}" by auto
  then show ?thesis by (auto simp: digit_value_def Let_def)
qed

lemma digits_value_nat_digits [simp]: "digits_value 0 (nat_digits n) = Some (int n)"
proof (induction n rule: nat_digits.induct)
  case (1 n)
  show ?case
  proof (cases "n < 10")
    case True
    then show ?thesis by (simp add: nat_digits.simps [of n])
  next
    case False
    moreover have "10 * int (n div 10) + int (n mod 10) = int n" by presburger
    ultimately show ?thesis using "1.IH"
      by (simp add: nat_digits.simps [of n] digits_value_append digit_value_digit)
  qed
qed

lemma nat_digits_nonempty [simp]: "nat_digits n \<noteq> []"
  by (subst nat_digits.simps) simp

lemma nat_digits_are_digits:
  "c \<in> set (nat_digits n) \<Longrightarrow> 48 \<le> (of_char c :: nat) \<and> (of_char c :: nat) \<le> 57"
proof (induction n rule: nat_digits.induct)
  case (1 n)
  then show ?case
    by (cases "n < 10") (auto simp: nat_digits.simps [of n] of_char_of take_bit_nat_def)
qed

lemma nat_digits_avoid [simp]:
  "CHR ''-'' \<notin> set (nat_digits n)" "CHR ''+'' \<notin> set (nat_digits n)"
  "CHR '','' \<notin> set (nat_digits n)" "CHR ''/'' \<notin> set (nat_digits n)"
  by (auto dest!: nat_digits_are_digits)

text \<open>Parsing what \<^verbatim>\<open>strconv\<close> printed gives the number back.\<close>

lemma ParseInt_nat_digits [simp]: "in_i64 (int n) \<Longrightarrow> ParseInt (nat_digits n) = Some (int n)"
proof -
  assume n: "in_i64 (int n)"
  obtain c r where cr: "nat_digits n = c # r" by (meson nat_digits_nonempty list.exhaust)
  then have "c \<noteq> CHR ''-''" "c \<noteq> CHR ''+''"
    using nat_digits_avoid(1,2) [of n] by auto
  moreover have "digits_value 0 (c # r) = Some (int n)"
    using digits_value_nat_digits [of n] unfolding cr .
  ultimately show ?thesis using n by (simp add: ParseInt_def cr Let_def del: digits_value.simps)
qed

lemma Itoa_nonneg: "0 \<le> n \<Longrightarrow> Itoa n = nat_digits (nat n)"
  by (simp add: Itoa_def)

lemma ParseInt_Itoa [simp]: "0 \<le> n \<Longrightarrow> in_i64 n \<Longrightarrow> ParseInt (Itoa n) = Some n"
  by (simp add: Itoa_nonneg)

subsection \<open>One-pass replacement\<close>

lemma Replacer_literal:
  "(\<And>p. p \<in> set ps \<Longrightarrow> fst p \<noteq> [] \<and> hd (fst p) \<noteq> c) \<Longrightarrow> Replacer ps (c # s) = c # Replacer ps s"
proof -
  assume h: "\<And>p. p \<in> set ps \<Longrightarrow> fst p \<noteq> [] \<and> hd (fst p) \<noteq> c"
  have "find (\<lambda>p. fst p \<noteq> [] \<and> HasPrefix (c # s) (fst p)) ps = None"
  proof (rule find_None_iff [THEN iffD2], rule notI, elim exE conjE)
    fix p assume p: "p \<in> set ps" "fst p \<noteq> []" "HasPrefix (c # s) (fst p)"
    from h [OF p(1)] p(3) show False by (cases "fst p") (auto simp: HasPrefix_def)
  qed
  then show ?thesis by simp
qed

text \<open>If no old string is a prefix of another, the pair for the old string at hand is used.\<close>

lemma Replacer_match:
  assumes "(old, new) \<in> set ps" and "old \<noteq> []"
    and "\<And>p. p \<in> set ps \<Longrightarrow> HasPrefix (old @ s) (fst p) \<Longrightarrow> fst p \<noteq> [] \<Longrightarrow> p = (old, new)"
  shows "Replacer ps (old @ s) = new @ Replacer ps s"
proof -
  obtain c o' where old: "old = c # o'" using assms(2) by (cases old) auto
  let ?P = "\<lambda>p. fst p \<noteq> [] \<and> HasPrefix (old @ s) (fst p)"
  have "find ?P ps \<noteq> None"
    using assms(1,2) by (auto simp: find_None_iff)
  then obtain p where p: "find ?P ps = Some p" by blast
  then have "p \<in> set ps" "?P p" by (auto simp: find_Some_iff)
  with assms(3) have "p = (old, new)" by blast
  with p show ?thesis by (simp add: old)
qed

subsection \<open>Lists\<close>

lemma filter_filter_conj: "filter p (filter q xs) = filter (\<lambda>x. q x \<and> p x) xs"
  by (induction xs) auto

lemma distinct_map_filter_key: "distinct (map f xs) \<Longrightarrow> distinct (map f (filter p xs))"
  by (rule distinct_map_filter)

end
