(* ===== verification/Runtime.thy ===== *)
theory Runtime
  imports Prelude
begin

text \<open>
  Go's error values and readers, and the error types of \<^verbatim>\<open>telegram/types.go\<close> and
  \<^verbatim>\<open>telegram/client.go\<close>.

  An \<^verbatim>\<open>error\<close> is a value of \<open>gerror\<close>: a package variable made with \<^verbatim>\<open>errors.New\<close> (a
  \<open>sentinel\<close>, identified by its name, so that two with the same text stay different), a fresh
  error with a text, \<^verbatim>\<open>fmt.Errorf("text: %w", err)\<close>, or one of the error structs.
  A function that returns \<^verbatim>\<open>(T, error)\<close> returns \<open>gerror + 'a\<close>.
\<close>

subsection \<open>Errors\<close>

datatype sentinel =
    ErrNotImplemented | ErrEntityTooLarge | ErrNoSuchBucket | ErrNoSuchKey
  | ErrMissingContentLength | ErrInvalidRange | ErrNoSuchUpload | ErrInvalidPart
  | ErrInvalidPartOrder | ErrInvalidArgument | ErrUnavailable
  | MetaErrNotFound
  | ErrInvalidAccessKeyID | ErrSignatureDoesNotMatch | ErrInvalidArgumentValue
  | ErrServiceUnavailableValue
  | DavErrBadRequest | DavErrConflict | DavErrNotFound
  | WebdavErrForbidden | OsErrNotExist | IoEOF | IoErrUnexpectedEOF
  | ContextCanceled | ContextDeadlineExceeded

fun sentinel_text :: "sentinel \<Rightarrow> string" where
  "sentinel_text ErrNotImplemented = ''not implemented''"
| "sentinel_text ErrEntityTooLarge = ''entity too large''"
| "sentinel_text ErrNoSuchBucket = ''no such bucket''"
| "sentinel_text ErrNoSuchKey = ''no such key''"
| "sentinel_text ErrMissingContentLength = ''missing content length''"
| "sentinel_text ErrInvalidRange = ''invalid range''"
| "sentinel_text ErrNoSuchUpload = ''no such upload''"
| "sentinel_text ErrInvalidPart = ''invalid part''"
| "sentinel_text ErrInvalidPartOrder = ''invalid part order''"
| "sentinel_text ErrInvalidArgument = ''invalid argument''"
| "sentinel_text ErrUnavailable = ''bucket unavailable''"
| "sentinel_text MetaErrNotFound = ''metadata not found''"
| "sentinel_text ErrInvalidAccessKeyID = ''invalid access key id''"
| "sentinel_text ErrSignatureDoesNotMatch = ''signature does not match''"
| "sentinel_text ErrInvalidArgumentValue = ''invalid argument''"
| "sentinel_text ErrServiceUnavailableValue = ''service unavailable''"
| "sentinel_text DavErrBadRequest = ''bad request''"
| "sentinel_text DavErrConflict = ''conflict''"
| "sentinel_text DavErrNotFound = ''not found''"
| "sentinel_text WebdavErrForbidden = ''webdav: forbidden''"
| "sentinel_text OsErrNotExist = ''file does not exist''"
| "sentinel_text IoEOF = ''EOF''"
| "sentinel_text IoErrUnexpectedEOF = ''unexpected EOF''"
| "sentinel_text ContextCanceled = ''context canceled''"
| "sentinel_text ContextDeadlineExceeded = ''context deadline exceeded''"

text \<open>\<open>RequestError op status reason cause\<close> and \<open>RateLimitError cause retryAfter\<close> (nanoseconds)
  are the structs of package telegram, \<open>PathError op path err\<close> is \<^verbatim>\<open>os.PathError\<close>.\<close>

datatype gerror =
    Sent sentinel
  | Msg string
  | Wrapf string gerror
  | RequestError string int string "gerror option"
  | RateLimitError gerror int
  | PathError string string gerror

fun Error :: "gerror \<Rightarrow> string" where
  "Error (Sent x) = sentinel_text x"
| "Error (Msg t) = t"
| "Error (Wrapf t e) = t @ '': '' @ Error e"
| "Error (RequestError op st reason None) = ''telegram request failed''"
| "Error (RequestError op st reason (Some e)) = Error e"
| "Error (RateLimitError e d) = Error e"
| "Error (PathError op p e) = op @ '' '' @ p @ '': '' @ Error e"

fun Unwrap :: "gerror \<Rightarrow> gerror option" where
  "Unwrap (Wrapf t e) = Some e"
| "Unwrap (RequestError op st reason c) = c"
| "Unwrap (RateLimitError e d) = Some e"
| "Unwrap (PathError op p e) = Some e"
| "Unwrap e = None"

text \<open>\<^verbatim>\<open>errors.Is\<close> against a sentinel, and \<^verbatim>\<open>errors.As\<close> for the two struct types: both walk the
  chain of wrapped errors.\<close>

fun errors_Is :: "gerror \<Rightarrow> sentinel \<Rightarrow> bool" where
  "errors_Is (Sent x) y \<longleftrightarrow> x = y"
| "errors_Is (Msg t) y \<longleftrightarrow> False"
| "errors_Is (Wrapf t e) y \<longleftrightarrow> errors_Is e y"
| "errors_Is (RequestError op st reason None) y \<longleftrightarrow> False"
| "errors_Is (RequestError op st reason (Some e)) y \<longleftrightarrow> errors_Is e y"
| "errors_Is (RateLimitError e d) y \<longleftrightarrow> errors_Is e y"
| "errors_Is (PathError op p e) y \<longleftrightarrow> errors_Is e y"

text \<open>\<open>ClassifyRequestError\<close> returns operation, status and reason of the first
  \<^verbatim>\<open>*RequestError\<close> in the chain, \<open>IsRateLimitError\<close> the delay of the first \<^verbatim>\<open>*rateLimitError\<close>.\<close>

fun ClassifyRequestError :: "gerror \<Rightarrow> (string \<times> int \<times> string) option" where
  "ClassifyRequestError (RequestError op st reason c) = Some (op, st, reason)"
| "ClassifyRequestError (Wrapf t e) = ClassifyRequestError e"
| "ClassifyRequestError (RateLimitError e d) = ClassifyRequestError e"
| "ClassifyRequestError (PathError op p e) = ClassifyRequestError e"
| "ClassifyRequestError e = None"

fun IsRateLimitError :: "gerror \<Rightarrow> int option" where
  "IsRateLimitError (RateLimitError e d) = Some d"
| "IsRateLimitError (Wrapf t e) = IsRateLimitError e"
| "IsRateLimitError (RequestError op st reason None) = None"
| "IsRateLimitError (RequestError op st reason (Some e)) = IsRateLimitError e"
| "IsRateLimitError (PathError op p e) = IsRateLimitError e"
| "IsRateLimitError e = None"

definition NewRequestError :: "string \<Rightarrow> int \<Rightarrow> string \<Rightarrow> gerror option \<Rightarrow> gerror" where
  "NewRequestError operation statusCode reason cause =
     (let cause' = (case cause of None \<Rightarrow> Msg ''telegram request failed'' | Some c \<Rightarrow> c)
      in RequestError operation statusCode reason (Some cause'))"

definition NewRateLimitError :: "gerror option \<Rightarrow> int \<Rightarrow> gerror option" where
  "NewRateLimitError cause retryAfter =
     (case cause of
        None \<Rightarrow> None
      | Some c \<Rightarrow> if retryAfter \<le> 0 then Some c else Some (RateLimitError c retryAfter))"

definition wrapRateLimitError :: "gerror option \<Rightarrow> bool \<Rightarrow> int \<Rightarrow> gerror option" where
  "wrapRateLimitError err retry delay =
     (if err = None \<or> \<not> retry \<or> delay \<le> 0 then err else NewRateLimitError err delay)"

text \<open>Wrapping keeps the cause visible to \<^verbatim>\<open>errors.Is\<close> and to the error text.\<close>

lemma wrapRateLimitError_Some:
  "wrapRateLimitError (Some e) retry d = Some e' \<Longrightarrow>
     Error e' = Error e \<and> errors_Is e' x = errors_Is e x \<and>
     ClassifyRequestError e' = ClassifyRequestError e"
  by (auto simp: wrapRateLimitError_def NewRateLimitError_def split: if_splits)

subsection \<open>Readers\<close>

text \<open>
  An \<^verbatim>\<open>io.Reader\<close> is the bytes it still delivers and the error that ends it (\<open>None\<close>: EOF). An
  error arrives after the last byte, on a call of its own.
\<close>

record reader =
  rd_data :: bytes
  rd_err :: "gerror option"

text \<open>\<^verbatim>\<open>io.ReadFull\<close> into a buffer of \<open>n\<close> bytes: the bytes and the rest of the reader, or the error.\<close>

definition ReadFull :: "nat \<Rightarrow> reader \<Rightarrow> gerror + bytes \<times> reader" where
  "ReadFull n r =
     (if n \<le> length (rd_data r) then Inr (take n (rd_data r), r\<lparr>rd_data := drop n (rd_data r)\<rparr>)
      else (case rd_err r of
              Some e \<Rightarrow> Inl e
            | None \<Rightarrow> if rd_data r = [] then Inl (Sent IoEOF) else Inl (Sent IoErrUnexpectedEOF)))"

definition ReadAll :: "reader \<Rightarrow> gerror + bytes" where
  "ReadAll r = (case rd_err r of None \<Rightarrow> Inr (rd_data r) | Some e \<Rightarrow> Inl e)"

text \<open>\<^verbatim>\<open>io.Copy(dst, io.LimitReader(r, n))\<close>: the bytes that reach \<open>dst\<close>, the error, and \<open>r\<close> after
  it. The limit counts down to 0, so an error behind the limit is not seen.\<close>

definition CopyLimit :: "int \<Rightarrow> reader \<Rightarrow> bytes \<times> gerror option \<times> reader" where
  "CopyLimit n r =
     (let m = nat n in
      if m \<le> length (rd_data r)
      then (take m (rd_data r), None, r\<lparr>rd_data := drop m (rd_data r)\<rparr>)
      else (rd_data r, rd_err r, r\<lparr>rd_data := []\<rparr>))"

text \<open>\<^verbatim>\<open>io.Copy(dst, r)\<close>.\<close>

definition CopyAll :: "reader \<Rightarrow> bytes \<times> gerror option" where
  "CopyAll r = (rd_data r, rd_err r)"

lemma ReadFull_Inr:
  "ReadFull n r = Inr (d, r') \<longleftrightarrow>
     n \<le> length (rd_data r) \<and> d = take n (rd_data r) \<and> r' = r\<lparr>rd_data := drop n (rd_data r)\<rparr>"
  by (auto simp: ReadFull_def split: if_splits option.splits)

lemma ReadAll_Inr: "ReadAll r = Inr d \<longleftrightarrow> rd_err r = None \<and> d = rd_data r"
  by (auto simp: ReadAll_def split: option.splits)

subsection \<open>Fallible steps over a state\<close>

text \<open>A method that changes state and may fail: it returns its error or result and the state left
  behind. \<open>sbind\<close> is Go's \<^verbatim>\<open>if err != nil { return err }\<close> between two calls.\<close>

type_synonym ('s, 'a) st = "'s \<Rightarrow> (gerror + 'a) \<times> 's"

definition sret :: "'a \<Rightarrow> ('s, 'a) st" where "sret x s = (Inr x, s)"
definition sfail :: "gerror \<Rightarrow> ('s, 'a) st" where "sfail e s = (Inl e, s)"

definition sbind :: "('s, 'a) st \<Rightarrow> ('a \<Rightarrow> ('s, 'b) st) \<Rightarrow> ('s, 'b) st" where
  "sbind m k s = (case m s of (Inl e, s') \<Rightarrow> (Inl e, s') | (Inr x, s') \<Rightarrow> k x s')"

fun sfor :: "'a list \<Rightarrow> ('a \<Rightarrow> ('s, unit) st) \<Rightarrow> ('s, unit) st" where
  "sfor [] f = sret ()"
| "sfor (x # xs) f = sbind (f x) (\<lambda>_. sfor xs f)"

lemma sbind_Inr:
  "sbind m k s = (Inr y, s'') \<longleftrightarrow> (\<exists>x s'. m s = (Inr x, s') \<and> k x s' = (Inr y, s''))"
  by (auto simp: sbind_def split: prod.splits sum.splits)

lemma sbind_Inl:
  "sbind m k s = (Inl e, s'') \<longleftrightarrow>
     m s = (Inl e, s'') \<or> (\<exists>x s'. m s = (Inr x, s') \<and> k x s' = (Inl e, s''))"
  by (auto simp: sbind_def split: prod.splits sum.splits)

lemma sret_eq [simp]: "sret x s = (r, s') \<longleftrightarrow> r = Inr x \<and> s' = s"
  by (auto simp: sret_def)

lemma sfail_eq [simp]: "sfail e s = (r, s') \<longleftrightarrow> r = Inl e \<and> s' = s"
  by (auto simp: sfail_def)

text \<open>A call whose error the caller looks at, reading the state, and changing it.\<close>

definition stry :: "('s, 'a) st \<Rightarrow> ('s, gerror + 'a) st" where
  "stry m s = (case m s of (r, s') \<Rightarrow> (Inr r, s'))"

definition sget :: "('s \<Rightarrow> 'a) \<Rightarrow> ('s, 'a) st" where "sget f s = (Inr (f s), s)"
definition smodify :: "('s \<Rightarrow> 's) \<Rightarrow> ('s, unit) st" where "smodify f s = (Inr (), f s)"
definition slift :: "gerror + 'a \<Rightarrow> ('s, 'a) st" where "slift r s = (r, s)"
definition swhen :: "bool \<Rightarrow> ('s, unit) st \<Rightarrow> ('s, unit) st" where "swhen c m = (if c then m else sret ())"

lemma sget_eq [simp]: "sget f s = (r, s') \<longleftrightarrow> r = Inr (f s) \<and> s' = s"
  by (auto simp: sget_def)

lemma smodify_eq [simp]: "smodify f s = (r, s') \<longleftrightarrow> r = Inr () \<and> s' = f s"
  by (auto simp: smodify_def)

lemma slift_eq [simp]: "slift q s = (r, s') \<longleftrightarrow> r = q \<and> s' = s"
  by (auto simp: slift_def)

lemma stry_Inr: "stry m s = (q, s') \<longleftrightarrow> (\<exists>r. m s = (r, s') \<and> q = Inr r)"
  by (auto simp: stry_def split: prod.splits)

text \<open>An invariant that a step keeps on both outcomes is kept by a sequence of steps.\<close>

definition keeps :: "('s \<Rightarrow> bool) \<Rightarrow> ('s, 'a) st \<Rightarrow> bool" where
  "keeps P m \<longleftrightarrow> (\<forall>s. P s \<longrightarrow> P (snd (m s)))"

named_theorems keeps_intro \<open>steps that keep an invariant\<close>

lemma keeps_sret [keeps_intro, intro]: "keeps P (sret x)"
  by (simp add: keeps_def sret_def)

lemma keeps_sfail [keeps_intro, intro]: "keeps P (sfail e)"
  by (simp add: keeps_def sfail_def)

lemma keeps_sbind [keeps_intro, intro]:
  "keeps P m \<Longrightarrow> (\<And>x. keeps P (k x)) \<Longrightarrow> keeps P (sbind m k)"
  by (auto simp: keeps_def sbind_def split: prod.splits sum.splits)

lemma keeps_sfor [keeps_intro, intro]: "(\<And>x. x \<in> set xs \<Longrightarrow> keeps P (f x)) \<Longrightarrow> keeps P (sfor xs f)"
  by (induction xs) auto

lemma keeps_sget [keeps_intro, intro]: "keeps P (sget f)"
  by (simp add: keeps_def sget_def)

lemma keeps_slift [keeps_intro, intro]: "keeps P (slift r)"
  by (simp add: keeps_def slift_def)

lemma keeps_stry [keeps_intro, intro]: "keeps P m \<Longrightarrow> keeps P (stry m)"
  by (auto simp: keeps_def stry_def split: prod.splits)

lemma keeps_smodify: "(\<And>s. P s \<Longrightarrow> P (f s)) \<Longrightarrow> keeps P (smodify f)"
  by (simp add: keeps_def smodify_def)

lemma keepsD: "keeps P m \<Longrightarrow> m s = (r, s') \<Longrightarrow> P s \<Longrightarrow> P s'"
  by (auto simp: keeps_def)

subsection \<open>Postconditions\<close>

text \<open>\<open>wp m Q E s\<close>: the step \<open>m\<close> from \<open>s\<close> either returns and \<open>Q\<close> holds of the result and the new
  state, or fails and \<open>E\<close> holds of the error and the new state.\<close>

definition wp :: "('s, 'a) st \<Rightarrow> ('a \<Rightarrow> 's \<Rightarrow> bool) \<Rightarrow> (gerror \<Rightarrow> 's \<Rightarrow> bool) \<Rightarrow> 's \<Rightarrow> bool" where
  "wp m Q E s = (case m s of (Inr x, s') \<Rightarrow> Q x s' | (Inl e, s') \<Rightarrow> E e s')"

named_theorems wp_simps \<open>postconditions of the steps\<close>

lemma wp_sret [wp_simps]: "wp (sret x) Q E s = Q x s"
  by (simp add: wp_def sret_def)

lemma wp_sfail [wp_simps]: "wp (sfail e) Q E s = E e s"
  by (simp add: wp_def sfail_def)

lemma wp_sbind [wp_simps]: "wp (sbind m k) Q E s = wp m (\<lambda>x. wp (k x) Q E) E s"
  by (simp add: wp_def sbind_def split: prod.splits sum.splits)

lemma wp_sget [wp_simps]: "wp (sget f) Q E s = Q (f s) s"
  by (simp add: wp_def sget_def)

lemma wp_smodify [wp_simps]: "wp (smodify f) Q E s = Q () (f s)"
  by (simp add: wp_def smodify_def)

lemma wp_slift [wp_simps]: "wp (slift r) Q E s = (case r of Inr x \<Rightarrow> Q x s | Inl e \<Rightarrow> E e s)"
  by (simp add: wp_def slift_def split: sum.splits)

lemma wp_stry [wp_simps]: "wp (stry m) Q E s = wp m (\<lambda>x. Q (Inr x)) (\<lambda>e. Q (Inl e)) s"
  by (simp add: wp_def stry_def split: prod.splits sum.splits)

lemma wp_if [wp_simps]: "wp (if c then m else m') Q E s = (if c then wp m Q E s else wp m' Q E s)"
  by simp

lemma wp_mono: "wp m Q E s \<Longrightarrow> (\<And>x s'. Q x s' \<Longrightarrow> Q' x s') \<Longrightarrow> (\<And>e s'. E e s' \<Longrightarrow> E' e s') \<Longrightarrow> wp m Q' E' s"
  by (auto simp: wp_def split: prod.splits sum.splits)

lemma wpI: "(\<And>x s'. m s = (Inr x, s') \<Longrightarrow> Q x s') \<Longrightarrow> (\<And>e s'. m s = (Inl e, s') \<Longrightarrow> E e s') \<Longrightarrow> wp m Q E s"
  by (auto simp: wp_def split: prod.splits sum.splits)

lemma wp_Inr: "wp m Q E s \<Longrightarrow> m s = (Inr x, s') \<Longrightarrow> Q x s'"
  by (simp add: wp_def)

lemma wp_Inl: "wp m Q E s \<Longrightarrow> m s = (Inl e, s') \<Longrightarrow> E e s'"
  by (simp add: wp_def)

lemma keeps_wp: "keeps P m \<longleftrightarrow> (\<forall>s. P s \<longrightarrow> wp m (\<lambda>_. P) (\<lambda>_. P) s)"
  by (simp add: keeps_def wp_def case_prod_beta split: sum.split)

end
