(* ===== verification/Ranges.thy ===== *)
theory Ranges
  imports Runtime
begin

text \<open>
  \<^verbatim>\<open>store/range.go\<close>: the HTTP \<^verbatim>\<open>Range\<close> header and the selection of the chunks a range touches.
  \<open>ParseRange\<close> is followed branch by branch; \<open>SelectChunksForRange\<close> is the loop over the chunks
  with its \<^verbatim>\<open>continue\<close>. The lemmas show that a parsed range lies inside the object, and that the
  selected pieces of a contiguous chunk layout, put together, are exactly the requested bytes.
\<close>

record ByteRange =
  br_start :: int
  br_end :: int

definition Length :: "ByteRange \<Rightarrow> int" where
  "Length r = (if br_start r < 0 \<or> br_end r < br_start r then 0
               else i64 (i64 (br_end r - br_start r) + 1))"

definition ParseRange :: "string \<Rightarrow> int \<Rightarrow> gerror + ByteRange" where
  "ParseRange header sz =
     (if header = '''' then
        (if sz \<le> 0 then Inl (Sent ErrInvalidRange)
         else Inr \<lparr>br_start = 0, br_end = i64 (sz - 1)\<rparr>)
      else if sz \<le> 0 then Inl (Sent ErrInvalidRange)
      else if \<not> HasPrefix header ''bytes='' then Inl (Sent ErrInvalidRange)
      else let spec = TrimPrefix header ''bytes='' in
      if spec = '''' \<or> Contains spec '','' then Inl (Sent ErrInvalidRange)
      else (case SplitN2 spec ''-'' of
        [p0, p1] \<Rightarrow>
          if p0 = '''' then
            (case ParseInt p1 of
               None \<Rightarrow> Inl (Sent ErrInvalidRange)
             | Some suffix \<Rightarrow>
                 if suffix \<le> 0 then Inl (Sent ErrInvalidRange)
                 else let suffix = (if suffix > sz then sz else suffix) in
                   Inr \<lparr>br_start = i64 (sz - suffix), br_end = i64 (sz - 1)\<rparr>)
          else
            (case ParseInt p0 of
               None \<Rightarrow> Inl (Sent ErrInvalidRange)
             | Some start \<Rightarrow>
                 if start < 0 \<or> start \<ge> sz then Inl (Sent ErrInvalidRange)
                 else if p1 \<noteq> '''' then
                   (case ParseInt p1 of
                      None \<Rightarrow> Inl (Sent ErrInvalidRange)
                    | Some end \<Rightarrow>
                        if end < start then Inl (Sent ErrInvalidRange)
                        else Inr \<lparr>br_start = start,
                                  br_end = (if end \<ge> sz then i64 (sz - 1) else end)\<rparr>)
                 else Inr \<lparr>br_start = start, br_end = i64 (sz - 1)\<rparr>)
      | _ \<Rightarrow> Inl (Sent ErrInvalidRange)))"

record ChunkRef =
  cr_part :: int
  cr_fileID :: string
  cr_offset :: int
  cr_size :: int

record SelectedChunk = ChunkRef +
  sc_skip :: int
  sc_take :: int

definition minInt64 :: "int \<Rightarrow> int \<Rightarrow> int" where
  "minInt64 a b = (if a < b then a else b)"

definition maxInt64 :: "int \<Rightarrow> int \<Rightarrow> int" where
  "maxInt64 a b = (if a > b then a else b)"

fun SelectChunksForRange :: "ChunkRef list \<Rightarrow> ByteRange \<Rightarrow> SelectedChunk list" where
  "SelectChunksForRange [] r = []"
| "SelectChunksForRange (chunk # chunks) r =
     (let chunkStart = cr_offset chunk;
          chunkEnd = i64 (i64 (cr_offset chunk + cr_size chunk) - 1)
      in if cr_size chunk \<le> 0 \<or> chunkEnd < br_start r \<or> chunkStart > br_end r
         then SelectChunksForRange chunks r
         else let overlapStart = maxInt64 chunkStart (br_start r);
                  overlapEnd = minInt64 chunkEnd (br_end r)
              in ChunkRef.extend chunk
                   \<lparr>sc_skip = i64 (overlapStart - chunkStart),
                    sc_take = i64 (i64 (overlapEnd - overlapStart) + 1)\<rparr>
                 # SelectChunksForRange chunks r)"

subsection \<open>Parsed ranges\<close>

definition range_within :: "int \<Rightarrow> ByteRange \<Rightarrow> bool" where
  "range_within sz r \<longleftrightarrow> 0 \<le> br_start r \<and> br_start r \<le> br_end r \<and> br_end r < sz"

lemma range_within_Length:
  assumes "range_within sz r" and "in_i64 sz"
  shows "Length r = br_end r - br_start r + 1" and "0 < Length r" and "Length r \<le> sz"
proof -
  from assms have "in_i64 (br_end r - br_start r)" "in_i64 (br_end r - br_start r + 1)"
    by (auto simp: range_within_def in_i64_def)
  with assms show "Length r = br_end r - br_start r + 1"
    by (simp add: Length_def range_within_def)
  with assms show "0 < Length r" and "Length r \<le> sz"
    by (auto simp: range_within_def)
qed

lemma SplitN2_cases: "SplitN2 s sep = [s] \<or> (\<exists>a b. SplitN2 s sep = [a, b] \<and> s = a @ sep @ b)"
  by (auto simp: SplitN2_def split: prod.splits dest: Cut_found Cut_not_found)

text \<open>Whatever the header, a range the parser accepts is a non-empty range inside the object.\<close>

lemma ParseRange_within:
  assumes "ParseRange header sz = Inr r" and "in_i64 sz"
  shows "range_within sz r"
proof -
  have sub: "in_i64 (sz - x)" if "0 \<le> x" "x \<le> sz" for x
    using assms(2) that by (auto simp: in_i64_def)
  show ?thesis
    using assms(1) sub
    by (auto simp: ParseRange_def range_within_def Let_def
        split: if_splits option.splits list.splits)
qed

lemma ParseRange_errors: "ParseRange header sz = Inl e \<Longrightarrow> e = Sent ErrInvalidRange"
  by (auto simp: ParseRange_def Let_def split: if_splits option.splits list.splits)

lemma ParseRange_empty_object: "sz \<le> 0 \<Longrightarrow> ParseRange header sz = Inl (Sent ErrInvalidRange)"
  by (simp add: ParseRange_def)

text \<open>The three forms of the header, on the numbers a client prints.\<close>

lemma ParseRange_closed:
  assumes "0 \<le> a" "a < sz" "a \<le> b" "in_i64 sz" "in_i64 b"
  shows "ParseRange (''bytes='' @ Itoa a @ ''-'' @ Itoa b) sz =
    Inr \<lparr>br_start = a, br_end = (if b \<ge> sz then sz - 1 else b)\<rparr>"
proof -
  have "in_i64 a" "in_i64 (sz - 1)" using assms by (auto simp: in_i64_def)
  with assms show ?thesis
    using TrimPrefix_append [of "''bytes=''" "Itoa a @ ''-'' @ Itoa b"]
      HasPrefix_append [of "''bytes=''" "Itoa a @ ''-'' @ Itoa b"]
    by (simp add: ParseRange_def Let_def Itoa_nonneg go_str)
qed

lemma ParseRange_from:
  assumes "0 \<le> a" "a < sz" "in_i64 sz"
  shows "ParseRange (''bytes='' @ Itoa a @ ''-'') sz = Inr \<lparr>br_start = a, br_end = sz - 1\<rparr>"
proof -
  have "in_i64 a" "in_i64 (sz - 1)" using assms by (auto simp: in_i64_def)
  with assms show ?thesis
    using TrimPrefix_append [of "''bytes=''" "Itoa a @ ''-''"]
      HasPrefix_append [of "''bytes=''" "Itoa a @ ''-''"]
    by (simp add: ParseRange_def Let_def Itoa_nonneg go_str)
qed

lemma ParseRange_suffix:
  assumes "0 < n" "0 < sz" "in_i64 sz" "in_i64 n"
  shows "ParseRange (''bytes=-'' @ Itoa n) sz = Inr \<lparr>br_start = sz - min n sz, br_end = sz - 1\<rparr>"
proof -
  have "n \<le> sz \<Longrightarrow> in_i64 (sz - n)" "in_i64 (sz - 1)" using assms by (auto simp: in_i64_def)
  moreover have "SplitN2 (''-'' @ Itoa n) ''-'' = ['''', Itoa n]"
    using SplitN2_single [of "CHR ''-''" "''''" "Itoa n"] by simp
  ultimately show ?thesis
    using assms TrimPrefix_append [of "''bytes=''" "''-'' @ Itoa n"]
      HasPrefix_append [of "''bytes=''" "''-'' @ Itoa n"]
    by (simp add: ParseRange_def Let_def Itoa_nonneg go_str min_def)
qed

subsection \<open>Selected chunks\<close>

text \<open>A layout without gaps, starting at \<open>off\<close>: what an upload stores.\<close>

fun contiguous :: "int \<Rightarrow> ChunkRef list \<Rightarrow> bool" where
  "contiguous off [] \<longleftrightarrow> True"
| "contiguous off (c # cs) \<longleftrightarrow>
     cr_offset c = off \<and> 0 \<le> cr_size c \<and> contiguous (off + cr_size c) cs"

definition total_size :: "ChunkRef list \<Rightarrow> int" where
  "total_size cs = sum_list (map cr_size cs)"

text \<open>The bytes a selected chunk contributes when the file it refers to holds \<open>blob\<close>.\<close>

definition piece :: "(string \<Rightarrow> bytes) \<Rightarrow> SelectedChunk \<Rightarrow> bytes" where
  "piece blob s = take (nat (sc_take s)) (drop (nat (sc_skip s)) (blob (cr_fileID s)))"

definition blob_fits :: "(string \<Rightarrow> bytes) \<Rightarrow> ChunkRef list \<Rightarrow> bool" where
  "blob_fits blob cs \<longleftrightarrow> (\<forall>c \<in> set cs. int (length (blob (cr_fileID c))) = cr_size c)"

definition whole :: "(string \<Rightarrow> bytes) \<Rightarrow> ChunkRef list \<Rightarrow> bytes" where
  "whole blob cs = concat (map (\<lambda>c. blob (cr_fileID c)) cs)"

lemma length_whole: "blob_fits blob cs \<Longrightarrow> int (length (whole blob cs)) = total_size cs"
  by (induction cs) (auto simp: whole_def total_size_def blob_fits_def)

lemma total_size_nonneg: "contiguous off cs \<Longrightarrow> 0 \<le> total_size cs"
  by (induction cs arbitrary: off) (force simp: total_size_def)+

text \<open>The slice of a concatenation, split at the boundary of the first part.\<close>

lemma slice_append:
  "take n (drop k (a @ b)) =
     take n (drop k a) @ take (n - (length a - k)) (drop (k - length a) b)"
  by simp

lemma fields_extend [simp]:
  "cr_fileID (ChunkRef.extend c e) = cr_fileID c" "cr_size (ChunkRef.extend c e) = cr_size c"
  "cr_offset (ChunkRef.extend c e) = cr_offset c" "cr_part (ChunkRef.extend c e) = cr_part c"
  "sc_skip (ChunkRef.extend c \<lparr>sc_skip = k, sc_take = t\<rparr>) = k"
  "sc_take (ChunkRef.extend c \<lparr>sc_skip = k, sc_take = t\<rparr>) = t"
  by (simp_all add: ChunkRef.defs)

lemma piece_extend:
  "piece blob (ChunkRef.extend c \<lparr>sc_skip = k, sc_take = t\<rparr>) =
     take (nat t) (drop (nat k) (blob (cr_fileID c)))"
  by (simp add: piece_def)

lemma select_slice:
  assumes "contiguous off cs" and "blob_fits blob cs" and "0 \<le> off"
    and "in_i64 (off + total_size cs)" and "0 \<le> br_start r" and "br_start r \<le> br_end r"
    and "in_i64 (br_end r)"
  shows "concat (map (piece blob) (SelectChunksForRange cs r)) =
    take (nat (br_end r + 1 - max off (br_start r))) (drop (nat (br_start r - off)) (whole blob cs))"
  using assms
proof (induction cs arbitrary: off)
  case Nil
  then show ?case by (simp add: whole_def)
next
  case (Cons c cs)
  let ?n = "cr_size c" and ?b = "blob (cr_fileID c)"
  from Cons.prems have c: "cr_offset c = off" "0 \<le> ?n" "contiguous (off + ?n) cs"
    and len: "int (length ?b) = ?n" and fits: "blob_fits blob cs"
    by (auto simp: blob_fits_def)
  have tot: "total_size (c # cs) = ?n + total_size cs" by (simp add: total_size_def)
  have nonneg: "0 \<le> total_size cs" using c(3) by (rule total_size_nonneg)
  have wr: "in_i64 (off + ?n)" "in_i64 (off + ?n + total_size cs)"
    using Cons.prems(3,4) tot c(2) nonneg by (auto simp: in_i64_def)
  have IH: "concat (map (piece blob) (SelectChunksForRange cs r)) =
      take (nat (br_end r + 1 - max (off + ?n) (br_start r)))
        (drop (nat (br_start r - (off + ?n))) (whole blob cs))"
    using Cons.IH [OF c(3) fits _ wr(2)] Cons.prems(3,5,6,7) c(2) by simp
  have wsplit: "whole blob (c # cs) = ?b @ whole blob cs" by (simp add: whole_def)
  have in_end: "in_i64 (off + ?n - 1)" using wr(1) Cons.prems(3) c(2) by (auto simp: in_i64_def)
  have lb: "length ?b = nat ?n" using len by simp
  show ?case
  proof (cases "?n \<le> 0 \<or> off + ?n - 1 < br_start r \<or> off > br_end r")
    case skip: True
    then have sel: "SelectChunksForRange (c # cs) r = SelectChunksForRange cs r"
      using c(1) wr(1) in_end by auto
    show ?thesis
    proof (cases "off > br_end r")
      case True
      then have "nat (br_end r + 1 - max off (br_start r)) = 0"
        and "nat (br_end r + 1 - max (off + ?n) (br_start r)) = 0"
        using c(2) by auto
      then show ?thesis by (simp add: sel IH del: SelectChunksForRange.simps)
    next
      case False
      with skip have out: "off + ?n \<le> br_start r \<or> ?n = 0" using c(2) by auto
      have "nat ?n \<le> nat (br_start r - off) \<or> ?n = 0" using out by auto
      then have "drop (nat (br_start r - off)) ?b = []" using lb by auto
      moreover have "nat (br_start r - off) - length ?b = nat (br_start r - (off + ?n))"
        using out lb c(2) by auto
      moreover have "nat (br_end r + 1 - max off (br_start r)) -
          (length ?b - nat (br_start r - off)) = nat (br_end r + 1 - max (off + ?n) (br_start r))"
        using out lb c(2) by auto
      ultimately show ?thesis by (simp add: sel IH wsplit del: SelectChunksForRange.simps)
    qed
  next
    case hit: False
    let ?s = "max off (br_start r)" and ?e = "min (off + ?n - 1) (br_end r)"
    have se: "off \<le> ?s" "?s \<le> ?e" using hit Cons.prems(6) by auto
    have "maxInt64 off (br_start r) = ?s" and "minInt64 (off + ?n - 1) (br_end r) = ?e"
      by (auto simp: maxInt64_def minInt64_def)
    moreover have "in_i64 (?s - off)" "in_i64 (?e - ?s)" "in_i64 (?e - ?s + 1)"
      using se Cons.prems(3,5,7) wr(1) by (auto simp: in_i64_def)
    ultimately have sel: "SelectChunksForRange (c # cs) r =
        ChunkRef.extend c \<lparr>sc_skip = ?s - off, sc_take = ?e - ?s + 1\<rparr> # SelectChunksForRange cs r"
      using hit c(1) wr(1) in_end by (simp add: Let_def)
    have skip: "nat (?s - off) = nat (br_start r - off)" by auto
    have "take (nat (?e - ?s + 1)) (drop (nat (br_start r - off)) ?b) =
        take (nat (br_end r + 1 - ?s)) (drop (nat (br_start r - off)) ?b)"
    proof (cases "br_end r \<le> off + ?n - 1")
      case True
      then have "?e - ?s + 1 = br_end r + 1 - ?s" by simp
      then show ?thesis by presburger
    next
      case False
      then have "length (drop (nat (br_start r - off)) ?b) \<le> nat (?e - ?s + 1)"
        and "length (drop (nat (br_start r - off)) ?b) \<le> nat (br_end r + 1 - ?s)"
        using lb se by auto
      then show ?thesis by simp
    qed
    moreover have "nat (br_start r - off) - length ?b = nat (br_start r - (off + ?n))"
      using lb c(2) by auto
    moreover have "nat (br_end r + 1 - ?s) - (length ?b - nat (br_start r - off)) =
        nat (br_end r + 1 - max (off + ?n) (br_start r))"
      using lb c(2) hit by auto
    ultimately show ?thesis
      by (simp add: sel IH wsplit skip piece_extend del: SelectChunksForRange.simps)
  qed
qed

text \<open>Every selected chunk skips and takes within its own size.\<close>

lemma select_bounds:
  assumes "contiguous off cs" and "0 \<le> off" and "in_i64 (off + total_size cs)"
    and "0 \<le> br_start r" and "br_start r \<le> br_end r" and "in_i64 (br_end r)"
    and "s \<in> set (SelectChunksForRange cs r)"
  shows "0 \<le> sc_skip s \<and> 0 < sc_take s \<and> sc_skip s + sc_take s \<le> cr_size s"
  using assms
proof (induction cs arbitrary: off)
  case (Cons c cs)
  let ?n = "cr_size c"
  from Cons.prems have c: "cr_offset c = off" "0 \<le> ?n" "contiguous (off + ?n) cs" by auto
  have nonneg: "0 \<le> total_size cs" using c(3) by (rule total_size_nonneg)
  have wr: "in_i64 (off + ?n)" "in_i64 (off + ?n + total_size cs)" "in_i64 (off + ?n - 1)"
    using Cons.prems(2,3) c(2) nonneg by (auto simp: in_i64_def total_size_def)
  note IH = Cons.IH [OF c(3) _ wr(2) Cons.prems(4,5,6)]
  show ?case
  proof (cases "?n \<le> 0 \<or> off + ?n - 1 < br_start r \<or> off > br_end r")
    case True
    then have "SelectChunksForRange (c # cs) r = SelectChunksForRange cs r"
      using c(1) wr by auto
    with Cons.prems(2,7) c(2) IH show ?thesis by simp
  next
    case hit: False
    let ?s = "max off (br_start r)" and ?e = "min (off + ?n - 1) (br_end r)"
    have ms: "maxInt64 off (br_start r) = ?s" "minInt64 (off + ?n - 1) (br_end r) = ?e"
      by (auto simp: maxInt64_def minInt64_def)
    have rng: "in_i64 (?s - off)" "in_i64 (?e - ?s)" "in_i64 (?e - ?s + 1)"
      using hit Cons.prems(2,4,5,6) wr(1) by (auto simp: in_i64_def)
    have "s = ChunkRef.extend c \<lparr>sc_skip = ?s - off, sc_take = ?e - ?s + 1\<rparr> \<or>
        s \<in> set (SelectChunksForRange cs r)"
      using Cons.prems(7) hit c(1) wr ms rng by (simp add: Let_def)
    then show ?thesis
    proof
      assume "s = ChunkRef.extend c \<lparr>sc_skip = ?s - off, sc_take = ?e - ?s + 1\<rparr>"
      with hit Cons.prems(5) show ?thesis by auto
    next
      assume "s \<in> set (SelectChunksForRange cs r)"
      with Cons.prems(2) c(2) IH show ?thesis by simp
    qed
  qed
qed simp

text \<open>Selecting for the range of the whole object returns everything.\<close>

lemma select_whole:
  assumes "contiguous 0 cs" and "blob_fits blob cs" and "in_i64 (total_size cs)"
    and "0 < total_size cs"
  shows "concat (map (piece blob) (SelectChunksForRange cs \<lparr>br_start = 0, br_end = total_size cs - 1\<rparr>))
    = whole blob cs"
proof -
  have "in_i64 (total_size cs - 1)" using assms(3,4) by (auto simp: in_i64_def)
  with assms have "concat (map (piece blob)
      (SelectChunksForRange cs \<lparr>br_start = 0, br_end = total_size cs - 1\<rparr>)) =
      take (nat (total_size cs)) (whole blob cs)"
    using select_slice [of 0 cs blob "\<lparr>br_start = 0, br_end = total_size cs - 1\<rparr>"] by simp
  also have "\<dots> = whole blob cs"
    using length_whole [OF assms(2)] by simp
  finally show ?thesis .
qed

end
