(* ===== verification/UploadStrategies.thy ===== *)
theory UploadStrategies
  imports Runtime
begin

text \<open>
  \<^verbatim>\<open>store/upload_strategy.go\<close> and the upload configuration of \<^verbatim>\<open>store/types.go\<close>: how an
  object of a given name, content type and size is sent to Telegram: as a typed message, as one
  document, or as several documents. \<^verbatim>\<open>TypeLimits\<close> is a Go map, so a missing entry reads as 0
  (\<open>limit_of\<close>). The lemmas bound the size of what each strategy sends in one message.
\<close>

record UploadConfig =
  uc_Strategy :: string
  uc_EnableChunking :: bool
  uc_MaxFileSize :: int
  uc_ChunkSize :: int
  uc_TypeLimits :: "(string \<rightharpoonup> int) option" \<comment> \<open>\<open>None\<close> is the nil map\<close>
  uc_PutBufferSize :: int

definition DefaultTypeLimits :: "string \<rightharpoonup> int" where
  "DefaultTypeLimits =
     [''photo'' \<mapsto> 10 * 1024 * 1024, ''video'' \<mapsto> 20 * 1024 * 1024, ''audio'' \<mapsto> 20 * 1024 * 1024,
      ''animation'' \<mapsto> 20 * 1024 * 1024, ''document'' \<mapsto> 20 * 1024 * 1024]"

definition DefaultUploadConfig :: UploadConfig where
  "DefaultUploadConfig =
     \<lparr>uc_Strategy = ''document'', uc_EnableChunking = True,
      uc_MaxFileSize = 50 * 1024 * 1024, uc_ChunkSize = 20 * 1024 * 1024,
      uc_TypeLimits = Some DefaultTypeLimits, uc_PutBufferSize = 1024 * 1024\<rparr>"

definition limit_of :: "UploadConfig \<Rightarrow> string \<Rightarrow> int" where
  "limit_of c t = (case uc_TypeLimits c of
      None \<Rightarrow> 0
    | Some m \<Rightarrow> (case m t of None \<Rightarrow> 0 | Some n \<Rightarrow> n))"

record UploadStrategy =
  us_TelegramType :: string
  us_UploadStrategy :: string
  us_Chunked :: bool
  us_ChunkSize :: int

definition withinLimit :: "int \<Rightarrow> int \<Rightarrow> bool" where
  "withinLimit sz limit \<longleftrightarrow> limit \<le> 0 \<or> sz \<le> limit"

text \<open>\<^verbatim>\<open>filepath.Ext\<close>: from the last dot of the last path element.\<close>

fun ext_rev :: "string \<Rightarrow> string \<Rightarrow> string" where
  "ext_rev acc [] = []"
| "ext_rev acc (c # s) =
     (if c = CHR ''/'' then [] else if c = CHR ''.'' then c # acc else ext_rev (c # acc) s)"

definition Ext :: "string \<Rightarrow> string" where
  "Ext path = ext_rev [] (rev path)"

definition inferTelegramType :: "string \<Rightarrow> string \<Rightarrow> string" where
  "inferTelegramType filename contentType =
     (let mediaType = ToLower (TrimSpace contentType) in
      if mediaType = ''image/gif'' then ''animation''
      else if HasPrefix mediaType ''image/'' then ''photo''
      else if HasPrefix mediaType ''video/'' then ''video''
      else if HasPrefix mediaType ''audio/'' then ''audio''
      else if mediaType \<noteq> '''' then ''document''
      else let e = ToLower (Ext filename) in
        if e = ''.gif'' then ''animation''
        else if e \<in> {''.jpg'', ''.jpeg'', ''.png'', ''.webp'', ''.bmp'', ''.tif'', ''.tiff''} then ''photo''
        else if e \<in> {''.mp4'', ''.mov'', ''.mkv'', ''.avi'', ''.webm'', ''.m4v''} then ''video''
        else if e \<in> {''.mp3'', ''.wav'', ''.flac'', ''.m4a'', ''.ogg'', ''.aac''} then ''audio''
        else ''document'')"

definition resolveDocument :: "UploadConfig \<Rightarrow> int \<Rightarrow> gerror + UploadStrategy" where
  "resolveDocument config sz =
     (let documentLimit = limit_of config ''document'' in
      if withinLimit sz documentLimit then
        Inr \<lparr>us_TelegramType = ''document'', us_UploadStrategy = ''document'',
             us_Chunked = False, us_ChunkSize = 0\<rparr>
      else if uc_EnableChunking config then
        let chunkSize = uc_ChunkSize config;
            chunkSize = (if chunkSize \<le> 0 then uc_ChunkSize DefaultUploadConfig else chunkSize)
        in Inr \<lparr>us_TelegramType = ''document'', us_UploadStrategy = ''chunked_document'',
                us_Chunked = True, us_ChunkSize = chunkSize\<rparr>
      else Inl (Sent ErrEntityTooLarge))"

definition resolveAuto :: "UploadConfig \<Rightarrow> string \<Rightarrow> string \<Rightarrow> int \<Rightarrow> gerror + UploadStrategy" where
  "resolveAuto config filename contentType sz =
     (let telegramType = inferTelegramType filename contentType in
      if telegramType \<noteq> ''document'' \<and> withinLimit sz (limit_of config telegramType) then
        Inr \<lparr>us_TelegramType = telegramType, us_UploadStrategy = ''typed'',
             us_Chunked = False, us_ChunkSize = 0\<rparr>
      else resolveDocument config sz)"

definition Resolve :: "UploadConfig \<Rightarrow> string \<Rightarrow> string \<Rightarrow> int \<Rightarrow> gerror + UploadStrategy" where
  "Resolve config filename contentType sz =
     (if uc_MaxFileSize config > 0 \<and> sz > uc_MaxFileSize config then Inl (Sent ErrEntityTooLarge)
      else let strategy = (if uc_Strategy config = '''' then ''document'' else uc_Strategy config) in
        if strategy = ''auto'' then resolveAuto config filename contentType sz
        else resolveDocument config sz)"

text \<open>The defaults \<^verbatim>\<open>NewObjectStore\<close> fills in: all of them when nothing is set, else field by field.\<close>

definition fillUploadDefaults :: "UploadConfig \<Rightarrow> UploadConfig" where
  "fillUploadDefaults upload =
     (if uc_Strategy upload = '''' \<and> uc_MaxFileSize upload = 0 \<and> uc_ChunkSize upload = 0 \<and>
         uc_TypeLimits upload = None \<and> uc_PutBufferSize upload = 0
      then DefaultUploadConfig
      else let defaults = DefaultUploadConfig in
        upload\<lparr>uc_Strategy := (if uc_Strategy upload = '''' then uc_Strategy defaults else uc_Strategy upload),
               uc_MaxFileSize := (if uc_MaxFileSize upload = 0 then uc_MaxFileSize defaults else uc_MaxFileSize upload),
               uc_ChunkSize := (if uc_ChunkSize upload = 0 then uc_ChunkSize defaults else uc_ChunkSize upload),
               uc_TypeLimits := (if uc_TypeLimits upload = None then uc_TypeLimits defaults else uc_TypeLimits upload),
               uc_PutBufferSize := (if uc_PutBufferSize upload = 0 then uc_PutBufferSize defaults else uc_PutBufferSize upload)\<rparr>)"

subsection \<open>What a resolved strategy promises\<close>

text \<open>What a strategy is for an object: one message of the type the name and the content type suggest, if the
  strategy is \<^verbatim>\<open>auto\<close> and the size is within the limit of the type; else one document, if the size is within the
  limit of documents; else documents of the configured chunk size. (The chunk size is not compared with the limit of
  documents.)\<close>

definition typed_fits :: "UploadConfig \<Rightarrow> string \<Rightarrow> string \<Rightarrow> int \<Rightarrow> bool" where
  "typed_fits config filename contentType sz \<longleftrightarrow> uc_Strategy config = ''auto'' \<and>
     inferTelegramType filename contentType \<noteq> ''document'' \<and>
     withinLimit sz (limit_of config (inferTelegramType filename contentType))"

definition one_message :: "UploadConfig \<Rightarrow> string \<Rightarrow> string \<Rightarrow> int \<Rightarrow> UploadStrategy \<Rightarrow> bool" where
  "one_message config filename contentType sz u \<longleftrightarrow> withinLimit sz (limit_of config (us_TelegramType u)) \<and>
     us_TelegramType u = (if typed_fits config filename contentType sz then inferTelegramType filename contentType
       else ''document'')"

definition cut_up :: "UploadConfig \<Rightarrow> string \<Rightarrow> string \<Rightarrow> int \<Rightarrow> UploadStrategy \<Rightarrow> bool" where
  "cut_up config filename contentType sz u \<longleftrightarrow> uc_EnableChunking config \<and> us_TelegramType u = ''document'' \<and>
     \<not> typed_fits config filename contentType sz \<and> 0 < limit_of config ''document'' \<and> limit_of config ''document'' < sz \<and>
     0 < us_ChunkSize u \<and> us_ChunkSize u = uc_ChunkSize (if 0 < uc_ChunkSize config then config else DefaultUploadConfig)"

lemma resolveDocument_cases:
  "resolveDocument config sz = Inr u \<Longrightarrow>
     us_TelegramType u = ''document'' \<and> us_UploadStrategy u \<noteq> ''typed'' \<and>
     (if us_Chunked u then uc_EnableChunking config \<and> 0 < limit_of config ''document'' \<and> limit_of config ''document'' < sz \<and>
        0 < us_ChunkSize u \<and> us_ChunkSize u = uc_ChunkSize (if 0 < uc_ChunkSize config then config else DefaultUploadConfig)
      else withinLimit sz (limit_of config ''document''))"
  by (auto simp: resolveDocument_def withinLimit_def Let_def DefaultUploadConfig_def split: if_splits)

lemma resolveDocument_error:
  "resolveDocument config sz = Inl e \<longleftrightarrow>
     e = Sent ErrEntityTooLarge \<and> \<not> uc_EnableChunking config \<and>
     0 < limit_of config ''document'' \<and> limit_of config ''document'' < sz"
  by (auto simp: resolveDocument_def withinLimit_def Let_def)

lemma Resolve_cases:
  assumes "Resolve config f c sz = Inr u"
  shows "(uc_MaxFileSize config > 0 \<longrightarrow> sz \<le> uc_MaxFileSize config) \<and>
    (if us_Chunked u then cut_up config f c sz u else one_message config f c sz u)"
  using assms resolveDocument_cases [of config sz u]
  by (auto simp: Resolve_def resolveAuto_def cut_up_def one_message_def typed_fits_def Let_def split: if_splits)

lemma Resolve_typed:
  "Resolve config f c sz = Inr u \<Longrightarrow> us_UploadStrategy u = ''typed'' \<longleftrightarrow> us_TelegramType u \<noteq> ''document''"
  using resolveDocument_cases [of config sz u] by (auto simp: Resolve_def resolveAuto_def Let_def split: if_splits)

lemma Resolve_error:
  assumes "Resolve config f c sz = Inl e"
  shows "e = Sent ErrEntityTooLarge \<and>
    (0 < uc_MaxFileSize config \<and> uc_MaxFileSize config < sz \<or>
     \<not> uc_EnableChunking config \<and> \<not> typed_fits config f c sz \<and>
     0 < limit_of config ''document'' \<and> limit_of config ''document'' < sz)"
  using assms
  by (auto simp: Resolve_def resolveAuto_def resolveDocument_error typed_fits_def Let_def split: if_splits)

text \<open>An object within the maximum size is always accepted when chunking is on.\<close>

lemma Resolve_accepts:
  "uc_EnableChunking config \<Longrightarrow> uc_MaxFileSize config \<le> 0 \<or> sz \<le> uc_MaxFileSize config \<Longrightarrow>
     \<exists>u. Resolve config f c sz = Inr u"
  using Resolve_error [of config f c sz] by (cases "Resolve config f c sz") auto

lemma fillUploadDefaults_filled:
  "uc_Strategy (fillUploadDefaults c) \<noteq> '''' \<and> uc_MaxFileSize (fillUploadDefaults c) \<noteq> 0 \<and>
   uc_ChunkSize (fillUploadDefaults c) \<noteq> 0 \<and> uc_TypeLimits (fillUploadDefaults c) \<noteq> None \<and>
   uc_PutBufferSize (fillUploadDefaults c) \<noteq> 0"
  by (auto simp: fillUploadDefaults_def DefaultUploadConfig_def Let_def)

lemma fillUploadDefaults_idem: "fillUploadDefaults (fillUploadDefaults c) = fillUploadDefaults c"
  by (auto simp: fillUploadDefaults_def DefaultUploadConfig_def Let_def)

end
