(* ===== verification/Captions.thy ===== *)
theory Captions
  imports Runtime
begin

text \<open>
  \<^verbatim>\<open>telegram/caption.go\<close>: the caption template of a Telegram message, its parser, its rendering
  and the truncation to 1024 runes. Runes are decoded as Go decodes UTF-8: an invalid byte is a
  rune of one byte. A parsed template is its raw text; \<open>None\<close> is the nil template.
\<close>

definition CaptionLimit :: int where "CaptionLimit = 1024"

record CaptionData =
  cd_Bucket :: string
  cd_Key :: string
  cd_Name :: string
  cd_Size :: string
  cd_Bytes :: int
  cd_Part :: int
  cd_Parts :: int

definition captionVariables :: "string list" where
  "captionVariables =
     [''bucket'', ''key'', ''name'', ''size'', ''bytes'', ''part'', ''parts'', ''chunk'']"

text \<open>The loop of \<^verbatim>\<open>ParseCaptionTemplate\<close>, on the text from index \<open>i\<close> on.\<close>

function scanCaption :: "string \<Rightarrow> gerror option" where
  "scanCaption [] = None"
| "scanCaption (c # s) =
     (if c \<noteq> CHR 0x7B then scanCaption s
      else (case Index s [CHR 0x7D] of
              None \<Rightarrow> scanCaption s
            | Some k \<Rightarrow>
                let name = take k s in
                if name = [] then scanCaption s
                else if name \<notin> set captionVariables
                then Some (Msg (''unknown caption variable '' @ Quote name))
                else scanCaption (drop (Suc k) s)))"
  by pat_completeness auto
termination
  by (relation "measure length") auto

definition ParseCaptionTemplate :: "string \<Rightarrow> gerror + string" where
  "ParseCaptionTemplate raw = (case scanCaption raw of Some e \<Rightarrow> Inl e | None \<Rightarrow> Inr raw)"

definition normalizeParts :: "int \<Rightarrow> int \<Rightarrow> int \<times> int" where
  "normalizeParts part parts = ((if part < 1 then 1 else part), (if parts < 1 then 1 else parts))"

text \<open>The width in bytes of the first rune (\<^verbatim>\<open>utf8.DecodeRuneInString\<close>).\<close>

definition byte_in :: "nat \<Rightarrow> nat \<Rightarrow> char \<Rightarrow> bool" where
  "byte_in lo hi c \<longleftrightarrow> lo \<le> of_char c \<and> of_char c \<le> hi"

definition follow2 :: "(char \<Rightarrow> bool) \<Rightarrow> bytes \<Rightarrow> nat" where
  "follow2 p s = (if 1 \<le> length s \<and> p (s ! 0) then 2 else 1)"

definition follow3 :: "(char \<Rightarrow> bool) \<Rightarrow> bytes \<Rightarrow> nat" where
  "follow3 p s = (if 2 \<le> length s \<and> p (s ! 0) \<and> byte_in 128 191 (s ! 1) then 3 else 1)"

definition follow4 :: "(char \<Rightarrow> bool) \<Rightarrow> bytes \<Rightarrow> nat" where
  "follow4 p s =
     (if 3 \<le> length s \<and> p (s ! 0) \<and> byte_in 128 191 (s ! 1) \<and> byte_in 128 191 (s ! 2) then 4 else 1)"

fun rune_width :: "bytes \<Rightarrow> nat" where
  "rune_width [] = 0"
| "rune_width (c # s) =
     (if byte_in 194 223 c then follow2 (byte_in 128 191) s
      else if byte_in 224 239 c then
        follow3 (byte_in (if of_char c = (224 :: nat) then 160 else 128)
                   (if of_char c = (237 :: nat) then 159 else 191)) s
      else if byte_in 240 244 c then
        follow4 (byte_in (if of_char c = (240 :: nat) then 144 else 128)
                   (if of_char c = (244 :: nat) then 143 else 191)) s
      else 1)"

lemma follow_range: "1 \<le> follow2 p s \<and> follow2 p s \<le> Suc (length s)"
  "1 \<le> follow3 p s \<and> follow3 p s \<le> Suc (length s)"
  "1 \<le> follow4 p s \<and> follow4 p s \<le> Suc (length s)"
  by (auto simp: follow2_def follow3_def follow4_def)

text \<open>Decoding looks at the bytes of the rune only.\<close>

lemma follow_prefix:
  "follow2 p s \<le> Suc m \<Longrightarrow> follow2 p (take m s) = follow2 p s"
  "follow3 p s \<le> Suc m \<Longrightarrow> follow3 p (take m s) = follow3 p s"
  "follow4 p s \<le> Suc m \<Longrightarrow> follow4 p (take m s) = follow4 p s"
  by (auto simp: follow2_def follow3_def follow4_def split: if_splits)

lemma rune_width_pos: "s \<noteq> [] \<Longrightarrow> 0 < rune_width s"
  using follow_range by (cases s) (auto simp: Suc_le_eq)

lemma rune_width_le: "rune_width s \<le> length s"
  using follow_range by (cases s) auto

function RuneCount :: "bytes \<Rightarrow> nat" where
  "RuneCount s = (if s = [] then 0 else Suc (RuneCount (drop (rune_width s) s)))"
  by pat_completeness auto
termination
  by (relation "measure length") (auto simp: rune_width_pos)

text \<open>The prefix of the first \<open>n\<close> runes: \<^verbatim>\<open>value[:i]\<close> when the loop's count reaches the limit.\<close>

fun take_runes :: "nat \<Rightarrow> bytes \<Rightarrow> bytes" where
  "take_runes 0 s = []"
| "take_runes (Suc n) s =
     (if s = [] then [] else take (rune_width s) s @ take_runes n (drop (rune_width s) s))"

definition truncateRunes :: "string \<Rightarrow> int \<Rightarrow> string" where
  "truncateRunes v limit =
     (if limit < 0 \<or> int (RuneCount v) \<le> limit then v else take_runes (nat limit) v)"

definition caption_pairs :: "CaptionData \<Rightarrow> (string \<times> string) list" where
  "caption_pairs d =
     (let (part, parts) = normalizeParts (cd_Part d) (cd_Parts d);
          chunk = (if \<not> (part = 1 \<and> parts = 1) then Itoa part @ ''/'' @ Itoa parts else '''')
      in [(''{bucket}'', cd_Bucket d), (''{key}'', cd_Key d), (''{name}'', cd_Name d),
          (''{size}'', cd_Size d), (''{bytes}'', Itoa (cd_Bytes d)), (''{part}'', Itoa part),
          (''{parts}'', Itoa parts), (''{chunk}'', chunk)])"

definition RenderWithLimit :: "string option \<Rightarrow> CaptionData \<Rightarrow> int \<Rightarrow> string" where
  "RenderWithLimit t d limit =
     (case t of
        None \<Rightarrow> ''''
      | Some raw \<Rightarrow>
          if raw = '''' \<or> limit = 0 then ''''
          else let rendered = Replacer (caption_pairs d) raw in
            if limit < 0 then rendered else truncateRunes rendered limit)"

definition Render :: "string option \<Rightarrow> CaptionData \<Rightarrow> string" where
  "Render t d = RenderWithLimit t d CaptionLimit"

subsection \<open>Truncation\<close>

declare RuneCount.simps [simp del]

lemma RuneCount_Nil [simp]: "RuneCount [] = 0"
  by (simp add: RuneCount.simps)

lemma RuneCount_step: "s \<noteq> [] \<Longrightarrow> RuneCount s = Suc (RuneCount (drop (rune_width s) s))"
  by (subst RuneCount.simps) simp

text \<open>Decoding a rune looks at its own bytes only: what follows does not matter.\<close>

lemma rune_width_prefix: "rune_width s \<le> m \<Longrightarrow> rune_width (take m s) = rune_width s"
proof (cases s)
  case (Cons c s')
  assume m: "rune_width s \<le> m"
  with Cons obtain m' where m': "m = Suc m'" using rune_width_pos [of s] by (cases m) auto
  with m Cons show ?thesis
    by (simp add: follow_prefix split: if_splits)
qed simp

lemma RuneCount_take_runes: "RuneCount (take_runes n s) \<le> n"
proof (induction n arbitrary: s)
  case (Suc n)
  show ?case
  proof (cases "s = []")
    case False
    let ?w = "rune_width s" and ?t = "take_runes n (drop (rune_width s) s)"
    have pre: "\<exists>m. take_runes (Suc n) s = take m s \<and> ?w \<le> m"
    proof -
      have "\<exists>k. take_runes n u = take k u" for u :: bytes
      proof (induction n arbitrary: u)
        case (Suc n)
        show ?case
        proof (cases "u = []")
          case False
          from Suc obtain k where "take_runes n (drop (rune_width u) u) = take k (drop (rune_width u) u)"
            by blast
          with False have "take_runes (Suc n) u = take (rune_width u + k) u"
            by (simp add: take_add)
          then show ?thesis by blast
        qed simp
      qed simp
      then obtain k where "?t = take k (drop ?w s)" by blast
      with False have "take_runes (Suc n) s = take (?w + k) s" by (simp add: take_add)
      then show ?thesis using le_add1 by blast
    qed
    then obtain m where m: "take_runes (Suc n) s = take m s" "?w \<le> m" by blast
    have w: "rune_width (take_runes (Suc n) s) = ?w"
      unfolding m(1) by (rule rune_width_prefix) (rule m(2))
    have ne: "take_runes (Suc n) s \<noteq> []" using False rune_width_pos [of s] by auto
    have "drop ?w (take_runes (Suc n) s) = ?t"
      using False rune_width_le [of s] by simp
    then have "RuneCount (take_runes (Suc n) s) = Suc (RuneCount ?t)"
      using RuneCount_step [OF ne] w by simp
    with Suc.IH show ?thesis by simp
  qed simp
qed simp

lemma truncateRunes_count: "0 \<le> limit \<Longrightarrow> int (RuneCount (truncateRunes v limit)) \<le> limit"
  using RuneCount_take_runes [of "nat limit" v] by (auto simp: truncateRunes_def)

lemma take_runes_prefix: "\<exists>r. v = take_runes n v @ r"
proof (induction n arbitrary: v)
  case (Suc n)
  obtain r where "drop (rune_width v) v = take_runes n (drop (rune_width v) v) @ r"
    using Suc.IH by blast
  then have "v = take (rune_width v) v @ take_runes n (drop (rune_width v) v) @ r"
    by (metis append_take_drop_id)
  then show ?case by (auto simp: append_assoc)
qed simp

lemma truncateRunes_prefix: "\<exists>r. v = truncateRunes v limit @ r"
  using take_runes_prefix [of v] by (auto simp: truncateRunes_def)

subsection \<open>Parsing and rendering\<close>

text \<open>An accepted template has no unknown variable: every \<open>{name}\<close> in it is one the renderer
  replaces.\<close>

lemma scanCaption_known:
  "scanCaption raw = None \<Longrightarrow> raw = a @ CHR 0x7B # name @ CHR 0x7D # b \<Longrightarrow>
     CHR 0x7B \<notin> set name \<Longrightarrow> CHR 0x7D \<notin> set name \<Longrightarrow> name \<noteq> [] \<Longrightarrow> name \<in> set captionVariables"
proof (induction raw arbitrary: a rule: scanCaption.induct)
  case (2 c s)
  show ?case
  proof (cases a)
    case Nil
    then have "Index s [CHR 0x7D] = Some (length name)" "c = CHR 0x7B" "take (length name) s = name"
      using 2(5-) Index_single_append [of "CHR 0x7D" name b] by auto
    with "2.prems"(1,5) show ?thesis by (auto split: if_splits simp: Let_def)
  next
    case (Cons x a')
    with "2.prems"(2) have s: "s = a' @ CHR 0x7B # name @ CHR 0x7D # b" and x: "x = c" by auto
    have skip: "scanCaption s = None \<Longrightarrow> ?thesis"
      if "\<And>a. scanCaption s = None \<Longrightarrow> s = a @ CHR 0x7B # name @ CHR 0x7D # b \<Longrightarrow> name \<in> set captionVariables"
      using that s by blast
    show ?thesis
    proof (cases "c = CHR 0x7B")
      case False
      with 2 s show ?thesis by auto
    next
      case brace: True
      have "CHR 0x7D \<in> set s" using s by simp
      then obtain k where k: "Index s [CHR 0x7D] = Some k"
        using Index_single_None [of s "CHR 0x7D"] by (cases "Index s [CHR 0x7D]") auto
      let ?n = "take k s"
      show ?thesis
      proof (cases "?n = []")
        case True
        with 2 s k brace show ?thesis by auto
      next
        case nonempty: False
        with "2.prems"(1) k brace have known: "?n \<in> set captionVariables"
          and rest: "scanCaption (drop (Suc k) s) = None"
          by (auto simp: Let_def split: if_splits)
        have "CHR 0x7B \<notin> set ?n" using known by (auto simp: captionVariables_def)
        then have le: "k \<le> length a'"
          unfolding s by (cases "k \<le> length a'") (auto simp: take_Cons' split: if_splits)
        have at_k: "take 1 (drop k s) = [CHR 0x7D]" using Index_SomeD [OF k] by simp
        have "k \<noteq> length a'"
        proof
          assume "k = length a'"
          with at_k show False by (simp add: s)
        qed
        with le have "Suc k \<le> length a'" by simp
        then have "drop (Suc k) s = drop (Suc k) a' @ CHR 0x7B # name @ CHR 0x7D # b"
          by (simp add: s)
        from "2.IH"(4) [OF _ k refl nonempty _ rest this] brace known "2.prems"(3-)
        show ?thesis by simp
      qed
    qed
  qed
qed simp

lemma ParseCaptionTemplate_known:
  assumes "ParseCaptionTemplate raw = Inr t" and "raw = a @ CHR 0x7B # name @ CHR 0x7D # b"
    and "CHR 0x7B \<notin> set name" and "CHR 0x7D \<notin> set name" and "name \<noteq> []"
  shows "t = raw \<and> name \<in> set captionVariables"
  using assms scanCaption_known [of raw a name b]
  by (auto simp: ParseCaptionTemplate_def split: option.splits)

text \<open>Rendering, on templates written as a list of literal texts and variables.\<close>

datatype caption_token = Lit string | Var string

fun token_text :: "caption_token \<Rightarrow> string" where
  "token_text (Lit s) = s"
| "token_text (Var v) = CHR 0x7B # v @ [CHR 0x7D]"

definition caption_value :: "CaptionData \<Rightarrow> string \<Rightarrow> string" where
  "caption_value d v =
     (case map_of (caption_pairs d) (CHR 0x7B # v @ [CHR 0x7D]) of None \<Rightarrow> '''' | Some s \<Rightarrow> s)"

fun token_value :: "CaptionData \<Rightarrow> caption_token \<Rightarrow> string" where
  "token_value d (Lit s) = s"
| "token_value d (Var v) = caption_value d v"

fun token_ok :: "caption_token \<Rightarrow> bool" where
  "token_ok (Lit s) \<longleftrightarrow> CHR 0x7B \<notin> set s"
| "token_ok (Var v) \<longleftrightarrow> v \<in> set captionVariables"

lemma caption_pairs_keys:
  "map fst (caption_pairs d) = map (\<lambda>v. CHR 0x7B # v @ [CHR 0x7D]) captionVariables"
  by (simp add: caption_pairs_def captionVariables_def Let_def split: prod.splits)

lemma caption_pairs_hd: "p \<in> set (caption_pairs d) \<Longrightarrow> fst p \<noteq> [] \<and> hd (fst p) = CHR 0x7B"
proof -
  assume "p \<in> set (caption_pairs d)"
  then have "fst p \<in> set (map fst (caption_pairs d))" by simp
  then show ?thesis unfolding caption_pairs_keys by auto
qed

lemma Replacer_caption_literal:
  "CHR 0x7B \<notin> set l \<Longrightarrow> Replacer (caption_pairs d) (l @ s) = l @ Replacer (caption_pairs d) s"
proof (induction l)
  case (Cons c l)
  then have "c \<noteq> CHR 0x7B" by auto
  with caption_pairs_hd have "\<And>p. p \<in> set (caption_pairs d) \<Longrightarrow> fst p \<noteq> [] \<and> hd (fst p) \<noteq> c"
    by fastforce
  then have "Replacer (caption_pairs d) (c # (l @ s)) = c # Replacer (caption_pairs d) (l @ s)"
    by (rule Replacer_literal)
  with Cons show ?case by simp
qed simp

lemma braced_prefix_eq:
  assumes "v \<in> set captionVariables" and "w \<in> set captionVariables"
    and "HasPrefix (CHR 0x7B # v @ CHR 0x7D # s) (CHR 0x7B # w @ [CHR 0x7D])"
  shows "w = v"
proof -
  from assms(3) obtain r where "v @ CHR 0x7D # s = w @ CHR 0x7D # r"
    by (auto simp: HasPrefix_iff)
  moreover have "CHR 0x7D \<notin> set v" "CHR 0x7D \<notin> set w"
    using assms(1,2) by (auto simp: captionVariables_def)
  ultimately show ?thesis
    by (metis Index_single_append append_eq_append_conv option.inject)
qed

lemma Replacer_caption_variable:
  assumes "v \<in> set captionVariables"
  shows "Replacer (caption_pairs d) ((CHR 0x7B # v @ [CHR 0x7D]) @ s) =
    caption_value d v @ Replacer (caption_pairs d) s"
proof -
  let ?k = "CHR 0x7B # v @ [CHR 0x7D]"
  have dist: "distinct (map fst (caption_pairs d))"
    unfolding caption_pairs_keys by (simp add: captionVariables_def)
  have "?k \<in> set (map fst (caption_pairs d))" unfolding caption_pairs_keys using assms by simp
  then obtain x where x: "(?k, x) \<in> set (caption_pairs d)" by auto
  then have val: "caption_value d v = x"
    using map_of_is_SomeI [OF dist] by (simp add: caption_value_def)
  have uniq: "p = (?k, x)" if p: "p \<in> set (caption_pairs d)" "HasPrefix (?k @ s) (fst p)" for p
  proof -
    from p(1) have "fst p \<in> set (map fst (caption_pairs d))" by simp
    then obtain w where w: "fst p = CHR 0x7B # w @ [CHR 0x7D]" "w \<in> set captionVariables"
      unfolding caption_pairs_keys by auto
    with p(2) braced_prefix_eq [OF assms w(2), of s] have "fst p = ?k" by simp
    with p(1) x dist show ?thesis
      by (metis eq_key_imp_eq_value prod.collapse)
  qed
  show ?thesis unfolding val
    by (rule Replacer_match [OF x]) (use uniq in auto)
qed

lemma Replacer_caption_tokens:
  "list_all token_ok ts \<Longrightarrow>
     Replacer (caption_pairs d) (concat (map token_text ts)) = concat (map (token_value d) ts)"
proof (induction ts)
  case (Cons t ts)
  then show ?case
    using Replacer_caption_variable Replacer_caption_literal
    by (cases t) auto
qed simp

lemma Render_runes: "int (RuneCount (Render t d)) \<le> 1024"
  using truncateRunes_count [of 1024]
  by (auto simp: Render_def RenderWithLimit_def CaptionLimit_def Let_def split: option.splits)

end
