(* ===== verification/Locks.thy ===== *)
theory Locks
  imports Prelude
begin

text \<open>
  \<^verbatim>\<open>store/locks.go\<close>: the lock per (bucket, key) with reference counts. Goroutines run it
  concurrently, so it is a step relation: a state machine whose atomic steps are the two critical
  sections under \<^verbatim>\<open>l.mu\<close> and the lock and unlock of one \<^verbatim>\<open>keyedMutex\<close>. A \<^verbatim>\<open>*keyedMutex\<close> is an
  address; \<open>lk_refs\<close> and \<open>lk_held\<close> are the fields of the mutex at it, and \<open>lk_next\<close> is the next
  fresh address. Any number of goroutines, numbered by \<open>nat\<close>, is at one of the program points.
\<close>

datatype pc =
    Idle                     \<comment> \<open>outside\<close>
  | Waiting string nat       \<comment> \<open>counted in \<^verbatim>\<open>refs\<close>, before \<^verbatim>\<open>m.mu.Lock()\<close> returned\<close>
  | Holding string nat       \<comment> \<open>\<^verbatim>\<open>Lock\<close> has returned\<close>
  | Releasing string nat     \<comment> \<open>after \<^verbatim>\<open>m.mu.Unlock()\<close>, before the second critical section\<close>

record locker =
  lk_locks :: "string \<rightharpoonup> nat"
  lk_refs :: "nat \<Rightarrow> int"
  lk_held :: "nat \<Rightarrow> bool"
  lk_next :: nat
  lk_pc :: "nat \<Rightarrow> pc"

definition NewKeyedLocker :: locker where
  "NewKeyedLocker =
     \<lparr>lk_locks = Map.empty, lk_refs = (\<lambda>_. 0), lk_held = (\<lambda>_. False), lk_next = 0, lk_pc = (\<lambda>_. Idle)\<rparr>"

definition composite :: "string \<Rightarrow> string \<Rightarrow> string" where
  "composite bucket key = bucket @ CHR 0x00 # key"

text \<open>The four atomic steps of a goroutine \<open>t\<close>; the state \<open>None\<close> is a step that is not enabled.\<close>

definition lock_enter :: "nat \<Rightarrow> string \<Rightarrow> string \<Rightarrow> locker \<Rightarrow> locker option" where
  "lock_enter t bucket key s =
     (if lk_pc s t \<noteq> Idle then None
      else let c = composite bucket key;
               (m, s1) = (case lk_locks s c of
                   Some m \<Rightarrow> (m, s)
                 | None \<Rightarrow> (lk_next s,
                     s\<lparr>lk_refs := (lk_refs s)(lk_next s := 0), lk_held := (lk_held s)(lk_next s := False),
                       lk_next := Suc (lk_next s), lk_locks := (lk_locks s)(c \<mapsto> lk_next s)\<rparr>))
           in Some (s1\<lparr>lk_refs := (lk_refs s1)(m := lk_refs s1 m + 1),
                       lk_pc := (lk_pc s1)(t := Waiting c m)\<rparr>))"

definition lock_acquire :: "nat \<Rightarrow> locker \<Rightarrow> locker option" where
  "lock_acquire t s =
     (case lk_pc s t of
        Waiting c m \<Rightarrow>
          if lk_held s m then None
          else Some (s\<lparr>lk_held := (lk_held s)(m := True), lk_pc := (lk_pc s)(t := Holding c m)\<rparr>)
      | _ \<Rightarrow> None)"

definition lock_release :: "nat \<Rightarrow> locker \<Rightarrow> locker option" where
  "lock_release t s =
     (case lk_pc s t of
        Holding c m \<Rightarrow>
          Some (s\<lparr>lk_held := (lk_held s)(m := False), lk_pc := (lk_pc s)(t := Releasing c m)\<rparr>)
      | _ \<Rightarrow> None)"

definition lock_leave :: "nat \<Rightarrow> locker \<Rightarrow> locker option" where
  "lock_leave t s =
     (case lk_pc s t of
        Releasing c m \<Rightarrow>
          let refs = (lk_refs s)(m := lk_refs s m - 1) in
          Some (s\<lparr>lk_refs := refs,
                  lk_locks := (if refs m = 0 \<and> lk_locks s c = Some m then (lk_locks s)(c := None)
                               else lk_locks s),
                  lk_pc := (lk_pc s)(t := Idle)\<rparr>)
      | _ \<Rightarrow> None)"

inductive lock_step :: "locker \<Rightarrow> locker \<Rightarrow> bool" where
  enter: "lock_enter t bucket key s = Some s' \<Longrightarrow> lock_step s s'"
| acquire: "lock_acquire t s = Some s' \<Longrightarrow> lock_step s s'"
| release: "lock_release t s = Some s' \<Longrightarrow> lock_step s s'"
| leave: "lock_leave t s = Some s' \<Longrightarrow> lock_step s s'"

inductive lock_reachable :: "locker \<Rightarrow> bool" where
  start: "lock_reachable NewKeyedLocker"
| step: "lock_reachable s \<Longrightarrow> lock_step s s' \<Longrightarrow> lock_reachable s'"

inductive_cases lock_stepE: "lock_step s s'"

subsection \<open>The invariant\<close>

fun uses :: "pc \<Rightarrow> string \<Rightarrow> nat \<Rightarrow> bool" where
  "uses Idle c m \<longleftrightarrow> False"
| "uses (Waiting c' m') c m \<longleftrightarrow> c' = c \<and> m' = m"
| "uses (Holding c' m') c m \<longleftrightarrow> c' = c \<and> m' = m"
| "uses (Releasing c' m') c m \<longleftrightarrow> c' = c \<and> m' = m"

definition users :: "locker \<Rightarrow> string \<Rightarrow> nat \<Rightarrow> nat set" where
  "users s c m = {t. uses (lk_pc s t) c m}"

definition holders :: "locker \<Rightarrow> nat \<Rightarrow> nat set" where
  "holders s m = {t. \<exists>c. lk_pc s t = Holding c m}"

text \<open>The map holds exactly the mutexes in use, each under one key; the count of a mutex is the
  number of goroutines that use it, and it is locked iff exactly one of them holds it.\<close>

definition lock_inv :: "locker \<Rightarrow> bool" where
  "lock_inv s \<longleftrightarrow>
     (\<forall>t c m. uses (lk_pc s t) c m \<longrightarrow> lk_locks s c = Some m) \<and>
     (\<forall>c m. lk_locks s c = Some m \<longrightarrow>
        m < lk_next s \<and> finite (users s c m) \<and> users s c m \<noteq> {} \<and>
        lk_refs s m = int (card (users s c m))) \<and>
     (\<forall>c c' m. lk_locks s c = Some m \<longrightarrow> lk_locks s c' = Some m \<longrightarrow> c = c') \<and>
     (\<forall>m. if lk_held s m then \<exists>t. holders s m = {t} else holders s m = {})"

lemma lock_inv_start: "lock_inv NewKeyedLocker"
  by (simp add: lock_inv_def NewKeyedLocker_def users_def holders_def)

lemma lock_invD:
  assumes "lock_inv s"
  shows "uses (lk_pc s t) c m \<Longrightarrow> lk_locks s c = Some m"
    and "lk_locks s c = Some m \<Longrightarrow> m < lk_next s"
    and "lk_locks s c = Some m \<Longrightarrow> finite (users s c m)"
    and "lk_locks s c = Some m \<Longrightarrow> users s c m \<noteq> {}"
    and "lk_locks s c = Some m \<Longrightarrow> lk_refs s m = int (card (users s c m))"
    and "lk_locks s c = Some m \<Longrightarrow> lk_locks s c' = Some m \<Longrightarrow> c = c'"
    and "lk_held s m \<Longrightarrow> \<exists>t. holders s m = {t}"
    and "\<not> lk_held s m \<Longrightarrow> holders s m = {}"
  using assms unfolding lock_inv_def by (blast, blast, blast, blast, blast, blast, metis, metis)

lemma lock_invI:
  assumes "\<And>t c m. uses (lk_pc s t) c m \<Longrightarrow> lk_locks s c = Some m"
    and "\<And>c m. lk_locks s c = Some m \<Longrightarrow> m < lk_next s \<and> finite (users s c m) \<and>
      users s c m \<noteq> {} \<and> lk_refs s m = int (card (users s c m))"
    and "\<And>c c' m. lk_locks s c = Some m \<Longrightarrow> lk_locks s c' = Some m \<Longrightarrow> c = c'"
    and "\<And>m. if lk_held s m then \<exists>t. holders s m = {t} else holders s m = {}"
  shows "lock_inv s"
  using assms unfolding lock_inv_def by blast

lemma uses_Waiting_iff [simp]: "uses (Waiting c m) c' m' \<longleftrightarrow> c = c' \<and> m = m'"
  by auto

text \<open>Entering: the key has a mutex already, or gets a fresh one.\<close>

lemma lock_enter_old_inv:
  assumes inv: "lock_inv s" and st: "lock_enter t bucket key s = Some s'" and Some: "lk_locks s (composite bucket key) = Some m"
  shows "lock_inv s'"
proof -
  let ?c = "composite bucket key"
  have idle: "lk_pc s t = Idle" using st by (simp add: lock_enter_def split: if_splits)
  have t_free: "t \<notin> users s c m" for c m using idle by (simp add: users_def)
  have s': "s' = s\<lparr>lk_refs := (lk_refs s)(m := lk_refs s m + 1), lk_pc := (lk_pc s)(t := Waiting ?c m)\<rparr>"
    using st idle Some by (simp add: lock_enter_def)
  have us: "users s' c' m' = (if c' = ?c \<and> m' = m then insert t (users s c' m') else users s c' m')" for c' m'
    using idle by (auto simp: s' users_def)
  have ho: "holders s' m' = holders s m'" for m' using idle by (auto simp: s' holders_def)
  show ?thesis
  proof (rule lock_invI)
    fix t' c' m' assume "uses (lk_pc s' t') c' m'"
    then show "lk_locks s' c' = Some m'"
      using lock_invD(1) [OF inv, of t'] Some by (auto simp: s' split: if_splits)
  next
    fix c' m' assume "lk_locks s' c' = Some m'"
    then have l: "lk_locks s c' = Some m'" by (simp add: s')
    show "m' < lk_next s' \<and> finite (users s' c' m') \<and> users s' c' m' \<noteq> {} \<and>
        lk_refs s' m' = int (card (users s' c' m'))"
      using lock_invD(2-5) [OF inv l] lock_invD(6) [OF inv l, of ?c] Some t_free
      unfolding us by (auto simp: s')
  next
    show "lk_locks s' c1 = Some m' \<Longrightarrow> lk_locks s' c2 = Some m' \<Longrightarrow> c1 = c2" for c1 c2 m'
      using lock_invD(6) [OF inv] by (simp add: s')
  next
    show "if lk_held s' m' then \<exists>t. holders s' m' = {t} else holders s' m' = {}" for m'
      using lock_invD(7,8) [OF inv, of m'] unfolding ho by (simp add: s')
  qed
qed

lemma lock_enter_new_inv:
  assumes inv: "lock_inv s" and st: "lock_enter t bucket key s = Some s'" and None: "lk_locks s (composite bucket key) = None"
  shows "lock_inv s'"
proof -
  let ?c = "composite bucket key"
  have idle: "lk_pc s t = Idle" using st by (simp add: lock_enter_def split: if_splits)
  let ?m = "lk_next s"
  have s': "s' = s\<lparr>lk_refs := (lk_refs s)(?m := 1), lk_held := (lk_held s)(?m := False),
      lk_next := Suc ?m, lk_locks := (lk_locks s)(?c \<mapsto> ?m), lk_pc := (lk_pc s)(t := Waiting ?c ?m)\<rparr>"
    using st idle None by (auto simp: lock_enter_def Let_def)
  have fresh: "lk_locks s c' \<noteq> Some ?m" for c' using lock_invD(2) [OF inv, of c' ?m] by auto
  then have unused: "\<not> uses (lk_pc s t') c' ?m" for t' c' using lock_invD(1) [OF inv, of t' c'] by blast
  then have "holders s ?m = {}"
  proof -
    have "t' \<notin> holders s ?m" for t'
    proof
      assume "t' \<in> holders s ?m"
      then obtain c' where "lk_pc s t' = Holding c' ?m" by (auto simp: holders_def)
      with unused [of t' c'] show False by simp
    qed
    then show ?thesis by blast
  qed
  then have ho: "holders s' m' = holders s m'" for m' using idle by (auto simp: s' holders_def)
  have us: "users s' c' m' = (if c' = ?c \<and> m' = ?m then {t} else users s c' m')" for c' m'
    using idle unused by (auto simp: s' users_def)
  show ?thesis
  proof (rule lock_invI)
    fix t' c' m' assume "uses (lk_pc s' t') c' m'"
    then show "lk_locks s' c' = Some m'"
      using lock_invD(1) [OF inv, of t' c' m'] None by (auto simp: s' split: if_splits)
  next
    fix c' m' assume l: "lk_locks s' c' = Some m'"
    show "m' < lk_next s' \<and> finite (users s' c' m') \<and> users s' c' m' \<noteq> {} \<and>
        lk_refs s' m' = int (card (users s' c' m'))"
    proof (cases "c' = ?c")
      case True
      with l have "m' = ?m" by (simp add: s')
      with True show ?thesis unfolding us by (simp add: s')
    next
      case False
      with l have l': "lk_locks s c' = Some m'" by (simp add: s')
      with fresh [of c'] have "m' \<noteq> ?m" by auto
      with False lock_invD(2-5) [OF inv l'] show ?thesis unfolding us by (simp add: s')
    qed
  next
    show "lk_locks s' c1 = Some m' \<Longrightarrow> lk_locks s' c2 = Some m' \<Longrightarrow> c1 = c2" for c1 c2 m'
      using lock_invD(6) [OF inv, of c1 m' c2] fresh [of c1] fresh [of c2]
      by (auto simp: s' split: if_splits)
  next
    show "if lk_held s' m' then \<exists>t. holders s' m' = {t} else holders s' m' = {}" for m'
      using lock_invD(7,8) [OF inv, of m'] \<open>holders s ?m = {}\<close> unfolding ho by (auto simp: s')
  qed
qed

lemma lock_enter_inv: "lock_inv s \<Longrightarrow> lock_enter t bucket key s = Some s' \<Longrightarrow> lock_inv s'"
  by (cases "lk_locks s (composite bucket key)") (blast intro: lock_enter_old_inv lock_enter_new_inv)+

text \<open>A step of the mutex itself moves a goroutine between program points with the same key and
  mutex, so only the last clause of the invariant is at stake.\<close>

lemma lock_inv_move:
  assumes inv: "lock_inv s" and same: "\<And>c m. uses p c m = uses (lk_pc s t) c m"
    and held: "\<And>m. if h m then \<exists>t'. holders (s\<lparr>lk_pc := (lk_pc s)(t := p)\<rparr>) m = {t'}
      else holders (s\<lparr>lk_pc := (lk_pc s)(t := p)\<rparr>) m = {}"
  shows "lock_inv (s\<lparr>lk_held := h, lk_pc := (lk_pc s)(t := p)\<rparr>)"
proof -
  let ?s = "s\<lparr>lk_held := h, lk_pc := (lk_pc s)(t := p)\<rparr>"
  have us: "users ?s = users s" using same by (auto simp: users_def fun_eq_iff)
  have ho: "holders ?s m = holders (s\<lparr>lk_pc := (lk_pc s)(t := p)\<rparr>) m" for m
    by (simp add: holders_def)
  show ?thesis
  proof (rule lock_invI)
    show "uses (lk_pc ?s t') c m \<Longrightarrow> lk_locks ?s c = Some m" for t' c m
      using lock_invD(1) [OF inv, of t' c m] same by (auto split: if_splits)
    show "lk_locks ?s c = Some m \<Longrightarrow> m < lk_next ?s \<and> finite (users ?s c m) \<and> users ?s c m \<noteq> {} \<and>
        lk_refs ?s m = int (card (users ?s c m))" for c m
      using lock_invD(2-5) [OF inv, of c m] unfolding us by simp
    show "lk_locks ?s c = Some m \<Longrightarrow> lk_locks ?s c' = Some m \<Longrightarrow> c = c'" for c c' m
      using lock_invD(6) [OF inv] by simp
    show "if lk_held ?s m then \<exists>t. holders ?s m = {t} else holders ?s m = {}" for m
      using held [of m] unfolding ho by simp
  qed
qed

lemma lock_acquire_inv:
  assumes inv: "lock_inv s" and st: "lock_acquire t s = Some s'"
  shows "lock_inv s'"
proof -
  from st obtain c m where pc: "lk_pc s t = Waiting c m" and free: "\<not> lk_held s m"
    and s': "s' = s\<lparr>lk_held := (lk_held s)(m := True), lk_pc := (lk_pc s)(t := Holding c m)\<rparr>"
    by (auto simp: lock_acquire_def split: pc.splits if_splits)
  show ?thesis unfolding s'
  proof (rule lock_inv_move [OF inv])
    show "uses (Holding c m) c' m' = uses (lk_pc s t) c' m'" for c' m' by (simp add: pc)
    fix m'
    have "holders (s\<lparr>lk_pc := (lk_pc s)(t := Holding c m)\<rparr>) m' =
        (if m' = m then insert t (holders s m') else holders s m')"
      using pc by (auto simp: holders_def)
    then show "if ((lk_held s)(m := True)) m'
        then \<exists>t'. holders (s\<lparr>lk_pc := (lk_pc s)(t := Holding c m)\<rparr>) m' = {t'}
        else holders (s\<lparr>lk_pc := (lk_pc s)(t := Holding c m)\<rparr>) m' = {}"
      using lock_invD(7,8) [OF inv, of m'] free lock_invD(8) [OF inv, of m] by auto
  qed
qed

lemma lock_release_inv:
  assumes inv: "lock_inv s" and st: "lock_release t s = Some s'"
  shows "lock_inv s'"
proof -
  from st obtain c m where pc: "lk_pc s t = Holding c m"
    and s': "s' = s\<lparr>lk_held := (lk_held s)(m := False), lk_pc := (lk_pc s)(t := Releasing c m)\<rparr>"
    by (auto simp: lock_release_def split: pc.splits)
  have t: "t \<in> holders s m" using pc by (simp add: holders_def)
  show ?thesis unfolding s'
  proof (rule lock_inv_move [OF inv])
    show "uses (Releasing c m) c' m' = uses (lk_pc s t) c' m'" for c' m' by (simp add: pc)
    fix m'
    have "holders (s\<lparr>lk_pc := (lk_pc s)(t := Releasing c m)\<rparr>) m' =
        (if m' = m then holders s m' - {t} else holders s m')"
      using pc by (auto simp: holders_def)
    then show "if ((lk_held s)(m := False)) m'
        then \<exists>t'. holders (s\<lparr>lk_pc := (lk_pc s)(t := Releasing c m)\<rparr>) m' = {t'}
        else holders (s\<lparr>lk_pc := (lk_pc s)(t := Releasing c m)\<rparr>) m' = {}"
      using lock_invD(7,8) [OF inv, of m'] t by (cases "lk_held s m'") auto
  qed
qed

lemma lock_leave_inv:
  assumes inv: "lock_inv s" and st: "lock_leave t s = Some s'"
  shows "lock_inv s'"
proof -
  from st obtain c m where pc: "lk_pc s t = Releasing c m"
    by (auto simp: lock_leave_def split: pc.splits)
  let ?r = "(lk_refs s)(m := lk_refs s m - 1)"
  let ?l = "if ?r m = 0 \<and> lk_locks s c = Some m then (lk_locks s)(c := None) else lk_locks s"
  have s': "s' = s\<lparr>lk_refs := ?r, lk_locks := ?l, lk_pc := (lk_pc s)(t := Idle)\<rparr>"
    using st pc by (simp add: lock_leave_def Let_def)
  have l: "lk_locks s c = Some m" using lock_invD(1) [OF inv, of t c m] pc by simp
  have t: "t \<in> users s c m" using pc by (simp add: users_def)
  have fin: "finite (users s c m)" and cnt: "lk_refs s m = int (card (users s c m))"
    using lock_invD(3,5) [OF inv l] by auto
  have us: "users s' c' m' = (if c' = c \<and> m' = m then users s c m - {t} else users s c' m')" for c' m'
    using pc by (auto simp: s' users_def)
  have ho: "holders s' m' = holders s m'" for m' using pc by (auto simp: s' holders_def)
  have cnt': "?r m = int (card (users s c m - {t}))"
  proof -
    have "0 < card (users s c m)" using t fin by (auto simp: card_gt_0_iff)
    then show ?thesis using cnt t by (simp add: card_Diff_singleton of_nat_diff)
  qed
  have gone: "?r m = 0 \<longleftrightarrow> users s c m - {t} = {}" unfolding cnt' using fin by simp
  have l': "lk_locks s' c' = (if c' = c \<and> users s c m - {t} = {} then None else lk_locks s c')" for c'
    using gone l by (simp add: s')
  show ?thesis
  proof (rule lock_invI)
    fix t' c' m' assume u: "uses (lk_pc s' t') c' m'"
    then have "t' \<noteq> t" and "uses (lk_pc s t') c' m'" by (auto simp: s' split: if_splits)
    moreover from this have "lk_locks s c' = Some m'" using lock_invD(1) [OF inv] by blast
    ultimately show "lk_locks s' c' = Some m'" using l unfolding l' by (auto simp: users_def)
  next
    fix c' m' assume "lk_locks s' c' = Some m'"
    then have k: "lk_locks s c' = Some m'" and ne: "c' = c \<Longrightarrow> users s c m - {t} \<noteq> {}"
      unfolding l' by (auto split: if_splits)
    show "m' < lk_next s' \<and> finite (users s' c' m') \<and> users s' c' m' \<noteq> {} \<and>
        lk_refs s' m' = int (card (users s' c' m'))"
    proof (cases "c' = c")
      case True
      with k l have "m' = m" by simp
      moreover have "m < lk_next s'" using lock_invD(2) [OF inv l] by (simp add: s')
      moreover have "lk_refs s' m = int (card (users s c m - {t}))" using cnt' by (simp add: s')
      ultimately show ?thesis using True ne fin unfolding us by simp
    next
      case False
      with lock_invD(6) [OF inv k] l have "m' \<noteq> m" by blast
      with False lock_invD(2-5) [OF inv k] show ?thesis unfolding us by (simp add: s')
    qed
  next
    show "lk_locks s' c1 = Some m' \<Longrightarrow> lk_locks s' c2 = Some m' \<Longrightarrow> c1 = c2" for c1 c2 m'
      using lock_invD(6) [OF inv, of c1 m' c2] unfolding l' by (auto split: if_splits)
  next
    show "if lk_held s' m' then \<exists>t. holders s' m' = {t} else holders s' m' = {}" for m'
      using lock_invD(7,8) [OF inv, of m'] unfolding ho by (simp add: s')
  qed
qed

lemma lock_step_inv: "lock_step s s' \<Longrightarrow> lock_inv s \<Longrightarrow> lock_inv s'"
  by (induction rule: lock_step.induct)
    (erule (1) lock_enter_inv lock_acquire_inv lock_release_inv lock_leave_inv)+

lemma lock_reachable_inv: "lock_reachable s \<Longrightarrow> lock_inv s"
  by (induction rule: lock_reachable.induct) (auto intro: lock_inv_start lock_step_inv)

subsection \<open>What the lock guarantees\<close>

lemma lock_mutual_exclusion:
  assumes inv: "lock_inv s" and "lk_pc s t = Holding c m" and "lk_pc s t' = Holding c m'"
  shows "t = t'"
proof -
  have "lk_locks s c = Some m" "lk_locks s c = Some m'"
    using lock_invD(1) [OF inv, of t c m] lock_invD(1) [OF inv, of t' c m'] assms(2,3) by auto
  then have "t \<in> holders s m" "t' \<in> holders s m" using assms(2,3) by (auto simp: holders_def)
  then show ?thesis using lock_invD(7,8) [OF inv, of m] by (cases "lk_held s m") auto
qed

text \<open>The map is as small as the set of keys in use: an idle locker holds no mutex.\<close>

lemma lock_no_leak: "lock_inv s \<Longrightarrow> dom (lk_locks s) = {c. \<exists>t m. uses (lk_pc s t) c m}"
  using lock_invD(1) [of s] lock_invD(4) [of s] by (auto simp: users_def dom_def) metis

text \<open>No goroutine is stuck forever by the locker itself: while one is inside, some step is enabled.\<close>

lemma lock_enabled:
  "lk_pc s t = Waiting c m \<Longrightarrow> \<not> lk_held s m \<Longrightarrow> \<exists>s'. lock_step s s'"
  "lk_pc s t = Holding c m \<Longrightarrow> \<exists>s'. lock_step s s'"
  "lk_pc s t = Releasing c m \<Longrightarrow> \<exists>s'. lock_step s s'"
  by (rule exI, rule lock_step.acquire [of t], simp add: lock_acquire_def)
    (rule exI, rule lock_step.release [of t], simp add: lock_release_def,
     rule exI, rule lock_step.leave [of t], simp add: lock_leave_def Let_def)

lemma lock_progress:
  assumes inv: "lock_inv s" and "lk_pc s t \<noteq> Idle"
  shows "\<exists>s'. lock_step s s'"
proof (cases "lk_pc s t")
  case (Waiting c m)
  show ?thesis
  proof (cases "lk_held s m")
    case True
    then obtain t' where "t' \<in> holders s m" using lock_invD(7) [OF inv] by blast
    then obtain c' where "lk_pc s t' = Holding c' m" by (auto simp: holders_def)
    then show ?thesis by (rule lock_enabled(2))
  next
    case False
    with Waiting show ?thesis by (rule lock_enabled(1))
  qed
next
  case (Holding c m)
  then show ?thesis by (rule lock_enabled(2))
next
  case (Releasing c m)
  then show ?thesis by (rule lock_enabled(3))
qed (use assms(2) in simp)

text \<open>Keys of buckets whose names have no NUL byte never share a lock.\<close>

lemma composite_inj:
  "CHR 0x00 \<notin> set b \<Longrightarrow> CHR 0x00 \<notin> set b' \<Longrightarrow> composite b k = composite b' k' \<Longrightarrow> b = b' \<and> k = k'"
proof (induction b arbitrary: b')
  case Nil
  then show ?case by (cases b') (auto simp: composite_def)
next
  case (Cons x b)
  then show ?case by (cases b') (auto simp: composite_def)
qed

end
