(* ===== verification/CoreProps.thy ===== *)
theory CoreProps
  imports Ranges UploadStrategies Captions Locks
begin

text \<open>
  The properties of the pure components: byte ranges, upload strategies, captions and the per-key
  locks. Each one is the component's lemmas put together, with a run on concrete values.
\<close>

text \<open>Sample values: a layout of three chunks with its files, and a locker that one goroutine holds
  while another waits.\<close>

definition demo_refs :: "ChunkRef list" where
  "demo_refs = [\<lparr>cr_part = 1, cr_fileID = ''a'', cr_offset = 0, cr_size = 3\<rparr>,
    \<lparr>cr_part = 2, cr_fileID = ''b'', cr_offset = 3, cr_size = 3\<rparr>,
    \<lparr>cr_part = 3, cr_fileID = ''c'', cr_offset = 6, cr_size = 2\<rparr>]"

definition demo_blob :: "string \<Rightarrow> bytes" where
  "demo_blob f = (if f = ''a'' then ''abc'' else if f = ''b'' then ''def'' else ''gh'')"

definition demo_locked :: locker where
  "demo_locked = the (lock_enter 1 ''b'' ''k'' (the (lock_acquire 0 (the (lock_enter 0 ''b'' ''k'' NewKeyedLocker)))))"

subsection \<open>Ranges\<close>

text \<open>C29: Whatever the client sends as a \<^verbatim>\<open>Range\<close> header: a range the parser accepts is a non-empty
  range inside the object, its length is between one byte and the object's size, and a header it
  refuses is answered with \<^verbatim>\<open>ErrInvalidRange\<close>.\<close>
theorem ParseRange_total:
  assumes "in_i64 sz"
  shows "case ParseRange header sz of
      Inl e \<Rightarrow> e = Sent ErrInvalidRange
    | Inr r \<Rightarrow> range_within sz r \<and> Length r = br_end r - br_start r + 1 \<and> 1 \<le> Length r \<and> Length r \<le> sz"
proof (cases "ParseRange header sz")
  case (Inl e)
  then show ?thesis using ParseRange_errors by simp
next
  case (Inr r)
  from ParseRange_within [OF Inr assms] range_within_Length [OF _ assms, of r] show ?thesis
    by (auto simp: Inr)
qed

theorem ParseRange_total_witness:
  "case ParseRange ''bytes=3-99'' 10 of
      Inl e \<Rightarrow> e = Sent ErrInvalidRange
    | Inr r \<Rightarrow> range_within 10 r \<and> Length r = br_end r - br_start r + 1 \<and> 1 \<le> Length r \<and> Length r \<le> 10"
  by (rule ParseRange_total) (simp add: in_i64_def)

text \<open>The three forms of a range mean what HTTP says: \<^verbatim>\<open>a-b\<close> is cut at the end of the object,
  \<^verbatim>\<open>a-\<close> runs to its end and \<^verbatim>\<open>-n\<close> is the last \<open>n\<close> bytes, all of them if there are fewer.\<close>
lemma ParseRange_forms:
  assumes "0 \<le> a" "a < sz" "a \<le> b" "0 < n" "in_i64 sz" "in_i64 b" "in_i64 n"
  shows "ParseRange (''bytes='' @ Itoa a @ ''-'' @ Itoa b) sz = Inr \<lparr>br_start = a, br_end = min b (sz - 1)\<rparr> \<and>
    ParseRange (''bytes='' @ Itoa a @ ''-'') sz = Inr \<lparr>br_start = a, br_end = sz - 1\<rparr> \<and>
    ParseRange (''bytes=-'' @ Itoa n) sz = Inr \<lparr>br_start = max 0 (sz - n), br_end = sz - 1\<rparr>"
  using ParseRange_closed [of a sz b] ParseRange_from [of a sz] ParseRange_suffix [of n sz] assms
  by (auto simp: min_def max_def)

text \<open>C28: Selecting chunks for a range is slicing the object: for a layout without gaps, the parts
  taken out of the files of the selected chunks are, in order, exactly the bytes of the range.\<close>
theorem SelectChunks_is_slice:
  assumes "contiguous 0 cs" "blob_fits blob cs" "in_i64 (total_size cs)"
    and "range_within (total_size cs) r"
  shows "concat (map (piece blob) (SelectChunksForRange cs r)) =
    take (nat (Length r)) (drop (nat (br_start r)) (whole blob cs))"
proof -
  have "in_i64 (br_end r)" using assms(3,4) by (auto simp: in_i64_def range_within_def)
  moreover have "br_end r + 1 - br_start r = Length r"
    using range_within_Length(1) [OF assms(4,3)] by simp
  ultimately show ?thesis
    using select_slice [of 0 cs blob r] assms by (simp add: range_within_def max_def)
qed

theorem SelectChunks_is_slice_witness:
  "concat (map (piece demo_blob) (SelectChunksForRange demo_refs \<lparr>br_start = 2, br_end = 6\<rparr>)) = ''cdefg''"
proof -
  have "contiguous 0 demo_refs" "blob_fits demo_blob demo_refs" "in_i64 (total_size demo_refs)"
    "range_within (total_size demo_refs) \<lparr>br_start = 2, br_end = 6\<rparr>"
    by (simp_all add: demo_refs_def blob_fits_def demo_blob_def total_size_def in_i64_def range_within_def)
  then have "concat (map (piece demo_blob) (SelectChunksForRange demo_refs \<lparr>br_start = 2, br_end = 6\<rparr>)) =
      take (nat (Length \<lparr>br_start = 2, br_end = 6\<rparr>)) (drop 2 (whole demo_blob demo_refs))"
    using SelectChunks_is_slice [of demo_refs demo_blob "\<lparr>br_start = 2, br_end = 6\<rparr>"] by simp
  also have "Length \<lparr>br_start = 2, br_end = 6\<rparr> = 5"
    by (simp add: Length_def in_i64_def)
  also have "take (nat 5) (drop 2 (whole demo_blob demo_refs)) = ''cdefg''"
    by (simp add: whole_def demo_refs_def demo_blob_def)
  finally show ?thesis .
qed

subsection \<open>Upload strategies\<close>

text \<open>C30: The strategy that \<^verbatim>\<open>Resolve\<close> picks for an object within the maximum size: with the strategy
  \<^verbatim>\<open>auto\<close>, one message of the type that the name and the content type suggest, if the size is within the limit of
  that type; else one document, if the size is within the limit of documents; only an object too large for that is
  cut, and only if chunking is enabled, into documents of the configured chunk size (the default if none is set).
  That size is positive, but it is not compared with the limit of documents: for a configured chunk size above the
  limit the messages are above it too. The only refusal is \<^verbatim>\<open>ErrEntityTooLarge\<close>, and with chunking enabled it means
  that the maximum size is exceeded.\<close>
theorem Resolve_respects_limits:
  "case Resolve config filename contentType sz of
      Inr u \<Rightarrow> (uc_MaxFileSize config \<le> 0 \<or> sz \<le> uc_MaxFileSize config) \<and>
        (if us_Chunked u then cut_up config filename contentType sz u else one_message config filename contentType sz u)
    | Inl e \<Rightarrow> e = Sent ErrEntityTooLarge \<and>
        (0 < uc_MaxFileSize config \<and> uc_MaxFileSize config < sz \<or>
         \<not> uc_EnableChunking config \<and> \<not> typed_fits config filename contentType sz \<and>
           0 < limit_of config ''document'' \<and> limit_of config ''document'' < sz)"
  using Resolve_cases [of config filename contentType sz] Resolve_error [of config filename contentType sz]
  by (auto split: sum.splits)

theorem Resolve_respects_limits_witness:
  "cut_up DefaultUploadConfig ''a.txt'' ''text/plain'' (30 * 1024 * 1024)
     (projr (Resolve DefaultUploadConfig ''a.txt'' ''text/plain'' (30 * 1024 * 1024)))"
proof -
  have "case Resolve DefaultUploadConfig ''a.txt'' ''text/plain'' (30 * 1024 * 1024) of Inr u \<Rightarrow> us_Chunked u | Inl _ \<Rightarrow> False"
    by code_simp
  then show ?thesis
    using Resolve_respects_limits [of DefaultUploadConfig "30 * 1024 * 1024" "''a.txt''" "''text/plain''"]
    by (cases "Resolve DefaultUploadConfig ''a.txt'' ''text/plain'' (30 * 1024 * 1024)") auto
qed

subsection \<open>Captions\<close>

text \<open>What stands for a variable in a caption, whichever way it is looked up.\<close>

definition caption_shows :: "CaptionData \<Rightarrow> string \<Rightarrow> string" where
  "caption_shows d v =
     (let part = max 1 (cd_Part d); parts = max 1 (cd_Parts d) in
      if v = ''bucket'' then cd_Bucket d else if v = ''key'' then cd_Key d else if v = ''name'' then cd_Name d
      else if v = ''size'' then cd_Size d else if v = ''bytes'' then Itoa (cd_Bytes d)
      else if v = ''part'' then Itoa part else if v = ''parts'' then Itoa parts
      else if v = ''chunk'' \<and> (1 < part \<or> 1 < parts) then Itoa part @ ''/'' @ Itoa parts
      else [])"

fun token_shows :: "CaptionData \<Rightarrow> caption_token \<Rightarrow> string" where
  "token_shows d (Lit s) = s"
| "token_shows d (Var v) = caption_shows d v"

lemma caption_value_shows: "v \<in> set captionVariables \<Longrightarrow> caption_value d v = caption_shows d v"
  by (auto simp: captionVariables_def caption_value_def caption_pairs_def caption_shows_def normalizeParts_def Let_def max_def)

lemma token_value_shows: "list_all token_ok ts \<Longrightarrow> map (token_value d) ts = map (token_shows d) ts"
proof (induction ts)
  case (Cons t ts)
  then show ?case by (cases t) (simp_all add: caption_value_shows)
qed simp

lemma take_runes_all: "RuneCount v \<le> n \<Longrightarrow> take_runes n v = v"
proof (induction n arbitrary: v)
  case 0
  then show ?case using RuneCount_step [of v] by (cases "v = []") simp_all
next
  case (Suc n)
  show ?case
  proof (cases "v = []")
    case False
    then have "RuneCount (drop (rune_width v) v) \<le> n" using Suc.prems RuneCount_step [OF False] by simp
    from Suc.IH [OF this] False show ?thesis by simp
  qed simp
qed

lemma truncateRunes_take: "truncateRunes v (int n) = take_runes n v"
  using take_runes_all [of v n] by (auto simp: truncateRunes_def)

text \<open>C31: The caption that a message is sent with, for a template written as texts without an opening brace and
  variables: every variable is replaced by the bucket, the key, the name, the size, the number of bytes, the number of
  the part and of the parts (both at least 1), and \<open>{chunk}\<close> by \<open>part/parts\<close> unless both are 1, then by
  nothing; texts and values stay as they are, values that look like variables included. Of the result the first
  1024 runes are sent, all of it if there are no more.\<close>
theorem caption_rendering:
  assumes "list_all token_ok ts"
  shows "Render (Some (concat (map token_text ts))) d = take_runes 1024 (concat (map (token_shows d) ts)) \<and>
    (RuneCount (concat (map (token_shows d) ts)) \<le> 1024 \<longrightarrow>
       Render (Some (concat (map token_text ts))) d = concat (map (token_shows d) ts))"
proof -
  have "Render (Some (concat (map token_text ts))) d = truncateRunes (concat (map (token_shows d) ts)) 1024"
  proof (cases "concat (map token_text ts) = []")
    case True
    then have "ts = [] \<or> (\<forall>t \<in> set ts. t = Lit [])" by (auto elim: token_text.elims)
    then have "concat (map (token_shows d) ts) = []" by auto
    with True show ?thesis by (simp add: Render_def RenderWithLimit_def truncateRunes_def del: concat_eq_Nil_conv)
  next
    case False
    then show ?thesis
      using Replacer_caption_tokens [OF assms] token_value_shows [OF assms]
      by (simp add: Render_def RenderWithLimit_def CaptionLimit_def Let_def del: concat_eq_Nil_conv)
  qed
  then show ?thesis
    using truncateRunes_take [of "concat (map (token_shows d) ts)" 1024] take_runes_all [of "concat (map (token_shows d) ts)" 1024]
    by simp
qed

theorem caption_rendering_witness:
  "Render (Some ''{name} in {bucket}, {chunk}'')
     \<lparr>cd_Bucket = ''b'', cd_Key = ''d/{size}'', cd_Name = ''{size}'', cd_Size = ''1 KB'', cd_Bytes = 1024,
      cd_Part = 1, cd_Parts = 2\<rparr> = ''{size} in b, 1/2''"
proof -
  let ?d = "\<lparr>cd_Bucket = ''b'', cd_Key = ''d/{size}'', cd_Name = ''{size}'', cd_Size = ''1 KB'', cd_Bytes = 1024,
      cd_Part = 1, cd_Parts = 2\<rparr>"
  let ?ts = "[Var ''name'', Lit '' in '', Var ''bucket'', Lit '', '', Var ''chunk'']"
  have "list_all token_ok ?ts" by (simp add: captionVariables_def)
  moreover have "concat (map (token_shows ?d) ?ts) = ''{size} in b, 1/2''" "RuneCount ''{size} in b, 1/2'' \<le> 1024"
    by code_simp+
  moreover have "concat (map token_text ?ts) = ''{name} in {bucket}, {chunk}''" by simp
  ultimately show ?thesis using caption_rendering [of ?ts ?d] by metis
qed

text \<open>A rendered caption never has more than the 1024 runes Telegram allows, whatever the template
  and the names in it, and cutting it does not tear a rune apart: the result is the first 1024 runes
  of the full text.\<close>
lemma caption_within_limit:
  "RuneCount (Render t d) \<le> 1024 \<and>
   (\<exists>rest. RenderWithLimit t d (-1) = Render t d @ rest \<and> (rest = [] \<or> Render t d = take_runes 1024 (RenderWithLimit t d (-1))))"
proof -
  have "\<exists>rest. v = truncateRunes v 1024 @ rest \<and> (rest = [] \<or> truncateRunes v 1024 = take_runes 1024 v)" for v
    using truncateRunes_prefix [of v 1024] by (auto simp: truncateRunes_def)
  then show ?thesis
    using Render_runes [of t d]
    by (auto simp: Render_def RenderWithLimit_def CaptionLimit_def Let_def split: option.splits)
qed

subsection \<open>Locks\<close>


lemma demo_locked: "lock_reachable demo_locked"
proof -
  let ?s1 = "the (lock_enter 0 ''b'' ''k'' NewKeyedLocker)"
  let ?s2 = "the (lock_acquire 0 ?s1)"
  have 1: "lock_enter 0 ''b'' ''k'' NewKeyedLocker = Some ?s1"
    by (simp add: lock_enter_def NewKeyedLocker_def Let_def)
  have 2: "lock_acquire 0 ?s1 = Some ?s2"
    by (simp add: lock_enter_def lock_acquire_def NewKeyedLocker_def Let_def)
  have 3: "lock_enter 1 ''b'' ''k'' ?s2 = Some demo_locked"
    by (simp add: demo_locked_def lock_enter_def lock_acquire_def NewKeyedLocker_def Let_def)
  show ?thesis
    by (rule lock_reachable.step [OF _ lock_step.enter [OF 3]],
        rule lock_reachable.step [OF _ lock_step.acquire [OF 2]],
        rule lock_reachable.step [OF lock_reachable.start lock_step.enter [OF 1]])
qed


text \<open>C33: A goroutine that waits for a key is never cut off: from every reachable state in which it waits there are
  steps, of itself and of the goroutine that is inside, after which it holds the lock of that key; no
  step of a third one is needed.\<close>
theorem KeyedLocker_waiter_gets_in:
  assumes "lock_reachable s" "lk_pc s t = Waiting c m"
  shows "\<exists>s'. lock_step\<^sup>*\<^sup>* s s' \<and> lk_pc s' t = Holding c m \<and>
    (\<forall>t'. t' \<noteq> t \<and> (\<forall>c'. lk_pc s t' \<noteq> Holding c' m) \<longrightarrow> lk_pc s' t' = lk_pc s t')"
proof (cases "lk_held s m")
  case False
  let ?s = "s\<lparr>lk_held := (lk_held s)(m := True), lk_pc := (lk_pc s)(t := Holding c m)\<rparr>"
  have "lock_acquire t s = Some ?s" using assms(2) False by (simp add: lock_acquire_def)
  then have "lock_step\<^sup>*\<^sup>* s ?s" by (blast intro: lock_step.acquire)
  then show ?thesis by (intro exI [of _ ?s]) simp
next
  case True
  then obtain t' where "t' \<in> holders s m" using lock_invD(7) [OF lock_reachable_inv [OF assms(1)]] by blast
  then obtain c' where h: "lk_pc s t' = Holding c' m" by (auto simp: holders_def)
  then have ne: "t' \<noteq> t" using assms(2) by auto
  let ?s1 = "s\<lparr>lk_held := (lk_held s)(m := False), lk_pc := (lk_pc s)(t' := Releasing c' m)\<rparr>"
  let ?s2 = "?s1\<lparr>lk_held := (lk_held ?s1)(m := True), lk_pc := (lk_pc ?s1)(t := Holding c m)\<rparr>"
  have "lock_release t' s = Some ?s1" using h by (simp add: lock_release_def)
  moreover have "lock_acquire t ?s1 = Some ?s2" using assms(2) ne by (simp add: lock_acquire_def)
  ultimately have "lock_step\<^sup>*\<^sup>* s ?s2"
    by (meson converse_rtranclp_into_rtranclp lock_step.acquire lock_step.release rtranclp.rtrancl_refl)
  then show ?thesis using h by (intro exI [of _ ?s2]) auto
qed

theorem KeyedLocker_waiter_gets_in_witness:
  "\<exists>s'. lock_step\<^sup>*\<^sup>* demo_locked s' \<and> lk_pc s' 1 = Holding (composite ''b'' ''k'') 0"
proof -
  have "lk_pc demo_locked 1 = Waiting (composite ''b'' ''k'') 0"
    by (simp add: demo_locked_def lock_enter_def lock_acquire_def NewKeyedLocker_def Let_def)
  from KeyedLocker_waiter_gets_in [OF demo_locked this] show ?thesis by blast
qed

end
