(* ===== verification/SqlLike.thy ===== *)
theory SqlLike
  imports Prelude
begin

text \<open>
  The prefix filter of the SQL statements: \<^verbatim>\<open>escapeSQLiteLikePattern\<close> of \<^verbatim>\<open>metadata/sqlite.go\<close>
  and the operator \<^verbatim>\<open>LIKE\<close>. SQLite is not part of the repository, so \<^verbatim>\<open>LIKE\<close> (with
  \<^verbatim>\<open>ESCAPE '\'\<close>) is a parameter of the model, and \<open>like_operator\<close> is the one law the code relies
  on: an escaped text followed by \<open>%\<close> matches the strings that start with the text. SQLite
  documents \<^verbatim>\<open>LIKE\<close> as case-insensitive for ASCII letters, and the connection strings of
  \<^verbatim>\<open>OpenSQLite\<close> do not set \<^verbatim>\<open>case_sensitive_like\<close>, so the law compares the letters folded
  (\<open>ci_prefix\<close>). \<open>sqlite_like\<close> is the matcher SQLite's documentation describes; it satisfies the law,
  which is also the proof that the escaping is right.
\<close>

definition escapeSQLiteLikePattern :: "string \<Rightarrow> string" where
  "escapeSQLiteLikePattern v =
     Replacer [([CHR 0x5C], [CHR 0x5C, CHR 0x5C]), (''%'', [CHR 0x5C, CHR ''%'']),
               (''_'', [CHR 0x5C, CHR ''_''])] v"

definition ci_prefix :: "string \<Rightarrow> string \<Rightarrow> bool" where
  "ci_prefix p k \<longleftrightarrow> HasPrefix (ToLower k) (ToLower p)"

locale like_operator =
  fixes like :: "string \<Rightarrow> string \<Rightarrow> bool" \<comment> \<open>pattern, text\<close>
  assumes like_prefix: "like (escapeSQLiteLikePattern p @ ''%'') k \<longleftrightarrow> ci_prefix p k"
begin

lemma like_everything: "like (escapeSQLiteLikePattern [] @ ''%'') k"
  by (simp add: like_prefix ci_prefix_def ToLower_def)

lemma like_own_prefix: "HasPrefix k p \<Longrightarrow> like (escapeSQLiteLikePattern p @ ''%'') k"
  by (auto simp: like_prefix ci_prefix_def ToLower_def HasPrefix_iff)

end

function sqlite_like :: "string \<Rightarrow> string \<Rightarrow> bool" where
  "sqlite_like [] t \<longleftrightarrow> t = []"
| "sqlite_like (p # ps) t \<longleftrightarrow>
     (if p = CHR 0x5C then
        (case ps of [] \<Rightarrow> False
         | q # qs \<Rightarrow> (case t of [] \<Rightarrow> False | c # cs \<Rightarrow> lower q = lower c \<and> sqlite_like qs cs))
      else if p = CHR ''%'' then
        sqlite_like ps t \<or> (case t of [] \<Rightarrow> False | c # cs \<Rightarrow> sqlite_like (p # ps) cs)
      else (case t of [] \<Rightarrow> False
            | c # cs \<Rightarrow> (p = CHR ''_'' \<or> lower p = lower c) \<and> sqlite_like ps cs))"
  by pat_completeness auto
termination
  by (relation "measure (\<lambda>(p, t). length p + length t)") auto

lemma ci_prefix_Nil [simp]: "ci_prefix [] k"
  by (simp add: ci_prefix_def ToLower_def)

lemma ci_prefix_Cons [simp]:
  "ci_prefix (p # ps) [] \<longleftrightarrow> False"
  "ci_prefix (p # ps) (c # cs) \<longleftrightarrow> lower p = lower c \<and> ci_prefix ps cs"
  by (auto simp: ci_prefix_def ToLower_def HasPrefix_def)

lemma ci_prefix_refl: "HasPrefix k p \<Longrightarrow> ci_prefix p k"
  by (auto simp: ci_prefix_def ToLower_def HasPrefix_iff)

lemma ci_prefix_trans: "ci_prefix p q \<Longrightarrow> ci_prefix q k \<Longrightarrow> ci_prefix p k"
  by (auto simp: ci_prefix_def HasPrefix_iff)

lemma ci_prefix_same_fold: "ToLower p = ToLower q \<Longrightarrow> ci_prefix p k = ci_prefix q k"
  by (simp add: ci_prefix_def)

lemma escape_Nil: "escapeSQLiteLikePattern [] = []"
  by (simp add: escapeSQLiteLikePattern_def)

lemma escape_Cons:
  "escapeSQLiteLikePattern (c # s) =
     (if c \<in> {CHR 0x5C, CHR ''%'', CHR ''_''} then [CHR 0x5C, c] else [c]) @ escapeSQLiteLikePattern s"
  by (simp add: escapeSQLiteLikePattern_def)

lemma sqlite_like_percent: "sqlite_like ''%'' t"
  by (induction t) simp_all

lemma sqlite_like_escaped:
  "sqlite_like (escapeSQLiteLikePattern p @ ''%'') k \<longleftrightarrow> ci_prefix p k"
proof (induction p arbitrary: k)
  case Nil
  show ?case using sqlite_like_percent [of k] by (simp only: escape_Nil append_Nil ci_prefix_Nil)
next
  case (Cons c p)
  show ?case
  proof (cases k)
    case Nil
    then show ?thesis by (simp add: escape_Cons)
  next
    case (Cons d k')
    have "sqlite_like (escapeSQLiteLikePattern (c # p) @ ''%'') (d # k') \<longleftrightarrow>
        lower c = lower d \<and> sqlite_like (escapeSQLiteLikePattern p @ ''%'') k'"
      by (simp add: escape_Cons)
    with Cons.IH Cons show ?thesis by simp
  qed
qed

interpretation documented_like: like_operator sqlite_like
  by unfold_locales (rule sqlite_like_escaped)

end
