(* ===== verification/MetaTables.thy ===== *)
theory MetaTables
  imports Runtime SqlLike
begin

text \<open>
  The data of package metadata (\<^verbatim>\<open>metadata/types.go\<close>), the three tables of \<^verbatim>\<open>migrate\<close> and the
  effect of the SQL statements of \<^verbatim>\<open>metadata/sqlite.go\<close> on them, as functions on row lists: a
  \<^verbatim>\<open>DELETE ... WHERE\<close> filters, an \<^verbatim>\<open>INSERT ... ON CONFLICT DO UPDATE\<close> replaces or appends, a plain
  \<^verbatim>\<open>INSERT\<close> fails on a duplicate primary key, \<^verbatim>\<open>ORDER BY\<close> sorts and \<^verbatim>\<open>LIMIT\<close> takes.

  A \<^verbatim>\<open>time.Time\<close> is a number of nanoseconds since 1970. A row has the columns of the struct with
  the times in seconds (\<^verbatim>\<open>Unix()\<close>); \<open>scanObject\<close> and \<open>scanBucket\<close> read it back.
\<close>

subsection \<open>Records\<close>

record Bucket =
  bk_Name :: string
  bk_ChatID :: string
  bk_CreatedAt :: int
  bk_Enabled :: bool

record Object =
  ob_Bucket :: string
  ob_Key :: string
  ob_Size :: int
  ob_ContentType :: string
  ob_ETag :: string
  ob_SHA256 :: string
  ob_LastModified :: int
  ob_ChunkCount :: int
  ob_TelegramType :: string
  ob_UploadStrategy :: string

record Chunk =
  ck_Bucket :: string
  ck_Key :: string
  ck_PartNumber :: int
  ck_Offset :: int
  ck_Size :: int
  ck_TelegramType :: string
  ck_TelegramFileID :: string
  ck_TelegramMessageID :: int
  ck_TelegramFileUniqueID :: string
  ck_SHA256 :: string

record ListQuery =
  lq_Bucket :: string
  lq_Prefix :: string
  lq_AfterKey :: string
  lq_Limit :: int

record BucketRename =
  rn_Buckets :: int
  rn_Objects :: int
  rn_Chunks :: int

record tables =
  tb_buckets :: "Bucket list"
  tb_objects :: "Object list"
  tb_chunks :: "Chunk list"

definition empty_tables :: tables where
  "empty_tables = \<lparr>tb_buckets = [], tb_objects = [], tb_chunks = []\<rparr>"

definition ob_id :: "Object \<Rightarrow> string \<times> string" where "ob_id r = (ob_Bucket r, ob_Key r)"
definition ck_id :: "Chunk \<Rightarrow> string \<times> string" where "ck_id r = (ck_Bucket r, ck_Key r)"
definition ck_pk :: "Chunk \<Rightarrow> string \<times> string \<times> int" where
  "ck_pk r = (ck_Bucket r, ck_Key r, ck_PartNumber r)"

subsection \<open>Times\<close>

definition Unix :: "int \<Rightarrow> int" where "Unix t = t div 1000000000"
definition unixSeconds :: "int \<Rightarrow> int" where "unixSeconds v = v * 1000000000"

definition object_row :: "Object \<Rightarrow> Object" where
  "object_row r = r\<lparr>ob_LastModified := Unix (ob_LastModified r)\<rparr>"

definition scanObject :: "Object \<Rightarrow> Object" where
  "scanObject r = r\<lparr>ob_LastModified := unixSeconds (ob_LastModified r)\<rparr>"

definition bucket_row :: "Bucket \<Rightarrow> Bucket" where
  "bucket_row r = r\<lparr>bk_CreatedAt := Unix (bk_CreatedAt r)\<rparr>"

definition scanBucket :: "Bucket \<Rightarrow> Bucket" where
  "scanBucket r = r\<lparr>bk_CreatedAt := unixSeconds (bk_CreatedAt r)\<rparr>"

subsection \<open>Statements\<close>

definition constraint_error :: gerror where
  "constraint_error = Msg ''constraint failed: UNIQUE constraint failed''"

definition upsert_by :: "('r \<Rightarrow> 'k) \<Rightarrow> 'r \<Rightarrow> 'r list \<Rightarrow> 'r list" where
  "upsert_by f r rs =
     (if f r \<in> f ` set rs then map (\<lambda>x. if f x = f r then r else x) rs else rs @ [r])"

definition sql_upsert_bucket :: "Bucket \<Rightarrow> tables \<Rightarrow> gerror + unit \<times> tables" where
  "sql_upsert_bucket r t = Inr ((), t\<lparr>tb_buckets := upsert_by bk_Name r (tb_buckets t)\<rparr>)"

definition sql_upsert_object :: "Object \<Rightarrow> tables \<Rightarrow> gerror + unit \<times> tables" where
  "sql_upsert_object r t = Inr ((), t\<lparr>tb_objects := upsert_by ob_id r (tb_objects t)\<rparr>)"

definition sql_insert_chunk :: "Chunk \<Rightarrow> tables \<Rightarrow> gerror + unit \<times> tables" where
  "sql_insert_chunk r t =
     (if ck_pk r \<in> ck_pk ` set (tb_chunks t) then Inl constraint_error
      else Inr ((), t\<lparr>tb_chunks := tb_chunks t @ [r]\<rparr>))"

definition sql_delete_chunks :: "(string \<times> string \<Rightarrow> bool) \<Rightarrow> tables \<Rightarrow> gerror + unit \<times> tables" where
  "sql_delete_chunks P t = Inr ((), t\<lparr>tb_chunks := filter (\<lambda>r. \<not> P (ck_id r)) (tb_chunks t)\<rparr>)"

definition sql_delete_objects :: "(string \<times> string \<Rightarrow> bool) \<Rightarrow> tables \<Rightarrow> gerror + unit \<times> tables" where
  "sql_delete_objects P t = Inr ((), t\<lparr>tb_objects := filter (\<lambda>r. \<not> P (ob_id r)) (tb_objects t)\<rparr>)"

definition sql_delete_buckets :: "(string \<Rightarrow> bool) \<Rightarrow> tables \<Rightarrow> gerror + unit \<times> tables" where
  "sql_delete_buckets P t = Inr ((), t\<lparr>tb_buckets := filter (\<lambda>r. \<not> P (bk_Name r)) (tb_buckets t)\<rparr>)"

definition sql_disable_buckets :: "(string \<Rightarrow> bool) \<Rightarrow> tables \<Rightarrow> gerror + unit \<times> tables" where
  "sql_disable_buckets P t =
     Inr ((), t\<lparr>tb_buckets :=
       map (\<lambda>r. if bk_Enabled r \<and> P (bk_Name r) then r\<lparr>bk_Enabled := False\<rparr> else r) (tb_buckets t)\<rparr>)"

text \<open>\<^verbatim>\<open>UPDATE ... SET bucket = new WHERE bucket = old\<close>: a moved row may meet an existing key.\<close>

definition sql_rename_buckets :: "string \<Rightarrow> string \<Rightarrow> tables \<Rightarrow> gerror + unit \<times> tables" where
  "sql_rename_buckets old new t =
     (if (\<exists>r \<in> set (tb_buckets t). bk_Name r = old) \<and> (\<exists>r \<in> set (tb_buckets t). bk_Name r = new)
      then Inl constraint_error
      else Inr ((), t\<lparr>tb_buckets :=
             map (\<lambda>r. if bk_Name r = old then r\<lparr>bk_Name := new\<rparr> else r) (tb_buckets t)\<rparr>))"

definition sql_rename_objects :: "string \<Rightarrow> string \<Rightarrow> tables \<Rightarrow> gerror + unit \<times> tables" where
  "sql_rename_objects old new t =
     (if \<exists>r \<in> set (tb_objects t). ob_Bucket r = old \<and> (new, ob_Key r) \<in> ob_id ` set (tb_objects t)
      then Inl constraint_error
      else Inr ((), t\<lparr>tb_objects :=
             map (\<lambda>r. if ob_Bucket r = old then r\<lparr>ob_Bucket := new\<rparr> else r) (tb_objects t)\<rparr>))"

definition sql_rename_chunks :: "string \<Rightarrow> string \<Rightarrow> tables \<Rightarrow> gerror + unit \<times> tables" where
  "sql_rename_chunks old new t =
     (if \<exists>r \<in> set (tb_chunks t). ck_Bucket r = old \<and>
           (new, ck_Key r, ck_PartNumber r) \<in> ck_pk ` set (tb_chunks t)
      then Inl constraint_error
      else Inr ((), t\<lparr>tb_chunks :=
             map (\<lambda>r. if ck_Bucket r = old then r\<lparr>ck_Bucket := new\<rparr> else r) (tb_chunks t)\<rparr>))"

definition sel_buckets :: "tables \<Rightarrow> Bucket list" where
  "sel_buckets t = sort_key bk_Name (filter bk_Enabled (tb_buckets t))"

definition sel_objects :: "(string \<times> string \<Rightarrow> bool) \<Rightarrow> tables \<Rightarrow> Object list" where
  "sel_objects P t = sort_key ob_Key (filter (\<lambda>r. P (ob_id r)) (tb_objects t))"

definition sel_chunks :: "string \<Rightarrow> string \<Rightarrow> tables \<Rightarrow> Chunk list" where
  "sel_chunks b k t = sort_key ck_PartNumber (filter (\<lambda>r. ck_id r = (b, k)) (tb_chunks t))"

definition find_bucket :: "string \<Rightarrow> tables \<Rightarrow> Bucket option" where
  "find_bucket name t = find (\<lambda>r. bk_Name r = name) (tb_buckets t)"

definition find_object :: "string \<Rightarrow> string \<Rightarrow> tables \<Rightarrow> Object option" where
  "find_object b k t = find (\<lambda>r. ob_id r = (b, k)) (tb_objects t)"

lemmas sql_defs [go_defs] =
  sql_upsert_bucket_def sql_upsert_object_def sql_insert_chunk_def sql_delete_chunks_def
  sql_delete_objects_def sql_delete_buckets_def sql_disable_buckets_def sql_rename_buckets_def
  sql_rename_objects_def sql_rename_chunks_def upsert_by_def ob_id_def ck_id_def ck_pk_def
  sel_buckets_def sel_objects_def sel_chunks_def find_bucket_def find_object_def
  Unix_def unixSeconds_def object_row_def scanObject_def bucket_row_def scanBucket_def
  empty_tables_def constraint_error_def

subsection \<open>Facts on row lists\<close>

lemma image_upsert_by: "f ` set (upsert_by f r rs) = insert (f r) (f ` set rs)"
  by (auto simp: upsert_by_def image_iff split: if_splits)

lemma map_upsert_by:
  "map f (upsert_by f r rs) = (if f r \<in> f ` set rs then map f rs else map f rs @ [f r])"
  by (auto simp: upsert_by_def)

lemma distinct_upsert_by: "distinct (map f rs) \<Longrightarrow> distinct (map f (upsert_by f r rs))"
  by (auto simp: map_upsert_by)

lemma find_replace:
  "find (\<lambda>x. f x = k) (map (\<lambda>x. if f x = f r then r else x) rs) =
     (if k = f r then (if f r \<in> f ` set rs then Some r else None) else find (\<lambda>x. f x = k) rs)"
  by (induction rs) auto

lemma find_snoc: "find P (xs @ [x]) = (case find P xs of None \<Rightarrow> if P x then Some x else None | Some y \<Rightarrow> Some y)"
  by (induction xs) auto

lemma find_None_key: "find (\<lambda>x. f x = k) rs = None \<longleftrightarrow> k \<notin> f ` set rs"
  by (auto simp: find_None_iff)

lemma find_upsert_by:
  "find (\<lambda>x. f x = k) (upsert_by f r rs) = (if k = f r then Some r else find (\<lambda>x. f x = k) rs)"
  using find_None_key [of f k rs]
  by (auto simp: upsert_by_def find_replace find_snoc split: option.splits)

lemma find_filter_key:
  "find (\<lambda>x. f x = k) (filter (\<lambda>x. \<not> P (f x)) rs) = (if P k then None else find (\<lambda>x. f x = k) rs)"
  by (induction rs) auto

lemma find_Some_distinct:
  "distinct (map f rs) \<Longrightarrow> find (\<lambda>x. f x = k) rs = Some r \<longleftrightarrow> r \<in> set rs \<and> f r = k"
  by (induction rs) (auto simp: image_iff)

subsection \<open>Well-formed tables\<close>

text \<open>The primary keys, and every chunk row belongs to an object row.\<close>

definition tables_wf :: "tables \<Rightarrow> bool" where
  "tables_wf t \<longleftrightarrow>
     distinct (map bk_Name (tb_buckets t)) \<and> distinct (map ob_id (tb_objects t)) \<and>
     distinct (map ck_pk (tb_chunks t)) \<and> ck_id ` set (tb_chunks t) \<subseteq> ob_id ` set (tb_objects t)"

lemma tables_wf_empty: "tables_wf empty_tables"
  by (simp add: tables_wf_def empty_tables_def)

text \<open>What the tables say about an object: its row as read back, with its chunks in part order.
  This is the abstract state of the store: a map from (bucket, key).\<close>

definition contents :: "tables \<Rightarrow> string \<times> string \<rightharpoonup> Object \<times> Chunk list" where
  "contents t bk =
     map_option (\<lambda>r. (scanObject r, sel_chunks (fst bk) (snd bk) t)) (find_object (fst bk) (snd bk) t)"

lemma contents_None: "contents t (b, k) = None \<longleftrightarrow> (b, k) \<notin> ob_id ` set (tb_objects t)"
  by (simp add: contents_def find_object_def find_None_key)

lemma dom_contents: "dom (contents t) = ob_id ` set (tb_objects t)"
proof -
  have "bk \<in> dom (contents t) \<longleftrightarrow> bk \<in> ob_id ` set (tb_objects t)" for bk
    using contents_None [of t "fst bk" "snd bk"] by (auto simp: domIff)
  then show ?thesis by blast
qed

end
