(* ===== verification/Metadata.thy ===== *)
theory Metadata
  imports MetaTables
begin

text \<open>
  \<^verbatim>\<open>metadata/sqlite.go\<close>: the methods of \<^verbatim>\<open>SQLiteStore\<close>, statement by statement.

  The state is the tables and \<open>tick\<close>, the number of calls made so far to the driver and the clock.
  What these answer is not determined by the repository, so it is a parameter:
  \<open>sq_fault env n = Some e\<close> says that the driver call number \<open>n\<close> (a \<^verbatim>\<open>BEGIN\<close>, a statement, a
  \<^verbatim>\<open>COMMIT\<close>) fails with \<open>e\<close>, \<open>sq_like\<close> is SQLite's \<^verbatim>\<open>LIKE\<close>, and \<open>sq_now\<close> is the clock.
  A transaction restores the tables unless it commits (\<^verbatim>\<open>defer tx.Rollback()\<close>).
  Requests are taken one at a time. The types are open records, so that the state of the object
  store extends this one and calls these methods as they are.
\<close>

record sqlite_env =
  sq_fault :: "nat \<Rightarrow> gerror option"
  sq_like :: "string \<Rightarrow> string \<Rightarrow> bool"
  sq_now :: "nat \<Rightarrow> int"

record sqlite =
  tabs :: tables
  tick :: nat

definition tick_up :: "'z sqlite_scheme \<Rightarrow> 'z sqlite_scheme" where
  "tick_up s = s\<lparr>tick := Suc (tick s)\<rparr>"

definition exec :: "'e sqlite_env_scheme \<Rightarrow> (tables \<Rightarrow> gerror + 'a \<times> tables) \<Rightarrow> ('z sqlite_scheme, 'a) st" where
  "exec env q s =
     (case sq_fault env (tick s) of
        Some e \<Rightarrow> (Inl e, tick_up s)
      | None \<Rightarrow> (case q (tabs s) of
            Inl e \<Rightarrow> (Inl e, tick_up s)
          | Inr (x, t) \<Rightarrow> (Inr x, (tick_up s)\<lparr>tabs := t\<rparr>)))"

definition query :: "'e sqlite_env_scheme \<Rightarrow> (tables \<Rightarrow> 'a) \<Rightarrow> ('z sqlite_scheme, 'a) st" where
  "query env f = exec env (\<lambda>t. Inr (f t, t))"

definition time_Now :: "'e sqlite_env_scheme \<Rightarrow> ('z sqlite_scheme, int) st" where
  "time_Now env s = (Inr (sq_now env (tick s)), tick_up s)"

definition in_tx :: "'e sqlite_env_scheme \<Rightarrow> ('z sqlite_scheme, 'a) st \<Rightarrow> ('z sqlite_scheme, 'a) st" where
  "in_tx env body s =
     (case sq_fault env (tick s) of
        Some e \<Rightarrow> (Inl e, tick_up s)
      | None \<Rightarrow> (case body (tick_up s) of
            (Inl e, s') \<Rightarrow> (Inl e, s'\<lparr>tabs := tabs s\<rparr>)
          | (Inr x, s') \<Rightarrow> (case sq_fault env (tick s') of
                Some e \<Rightarrow> (Inl e, (tick_up s')\<lparr>tabs := tabs s\<rparr>)
              | None \<Rightarrow> (Inr x, tick_up s'))))"

definition like_pred :: "'e sqlite_env_scheme \<Rightarrow> string \<Rightarrow> string \<Rightarrow> string \<times> string \<Rightarrow> bool" where
  "like_pred env bucket prfx bk \<longleftrightarrow>
     fst bk = bucket \<and> sq_like env (escapeSQLiteLikePattern prfx @ ''%'') (snd bk)"

subsection \<open>Buckets\<close>

definition UpsertBucket :: "'e sqlite_env_scheme \<Rightarrow> Bucket \<Rightarrow> ('z sqlite_scheme, unit) st" where
  "UpsertBucket env bucket = exec env (sql_upsert_bucket (bucket_row bucket))"

definition GetBucket :: "'e sqlite_env_scheme \<Rightarrow> string \<Rightarrow> ('z sqlite_scheme, Bucket) st" where
  "GetBucket env name =
     sbind (query env (find_bucket name)) (\<lambda>row.
       case row of None \<Rightarrow> sfail (Sent MetaErrNotFound) | Some r \<Rightarrow> sret (scanBucket r))"

definition ListBuckets :: "'e sqlite_env_scheme \<Rightarrow> ('z sqlite_scheme, Bucket list) st" where
  "ListBuckets env = sbind (query env sel_buckets) (\<lambda>rows. sret (map scanBucket rows))"

definition DisableBucketsExcept :: "'e sqlite_env_scheme \<Rightarrow> string list \<Rightarrow> ('z sqlite_scheme, unit) st" where
  "DisableBucketsExcept env keepNames =
     (if keepNames = [] then exec env (sql_disable_buckets (\<lambda>_. True))
      else exec env (sql_disable_buckets (\<lambda>n. n \<notin> set keepNames)))"

subsection \<open>Helpers inside a transaction\<close>

definition listChunksInTx :: "'e sqlite_env_scheme \<Rightarrow> string \<Rightarrow> string \<Rightarrow> ('z sqlite_scheme, Chunk list) st" where
  "listChunksInTx env bucket key = query env (sel_chunks bucket key)"

definition selectObject :: "'e sqlite_env_scheme \<Rightarrow> string \<Rightarrow> string \<Rightarrow> ('z sqlite_scheme, Object) st" where
  "selectObject env bucket key =
     sbind (query env (find_object bucket key)) (\<lambda>row.
       case row of None \<Rightarrow> sfail (Sent MetaErrNotFound) | Some r \<Rightarrow> sret (scanObject r))"

definition getObjectInTx ::
    "'e sqlite_env_scheme \<Rightarrow> string \<Rightarrow> string \<Rightarrow> ('z sqlite_scheme, Object \<times> Chunk list) st" where
  "getObjectInTx env bucket key =
     sbind (selectObject env bucket key) (\<lambda>object.
     sbind (listChunksInTx env bucket key) (\<lambda>chunks. sret (object, chunks)))"

definition objectExistsInTx :: "'e sqlite_env_scheme \<Rightarrow> string \<Rightarrow> string \<Rightarrow> ('z sqlite_scheme, bool) st" where
  "objectExistsInTx env bucket key = query env (\<lambda>t. find_object bucket key t \<noteq> None)"

definition putObjectInTx ::
    "'e sqlite_env_scheme \<Rightarrow> Object \<Rightarrow> Chunk list \<Rightarrow> ('z sqlite_scheme, unit) st" where
  "putObjectInTx env object chunks =
     sbind (exec env (sql_delete_chunks (\<lambda>bk. bk = (ob_Bucket object, ob_Key object)))) (\<lambda>_.
     sbind (exec env (sql_upsert_object (object_row object))) (\<lambda>_.
     sfor chunks (\<lambda>chunk. exec env (sql_insert_chunk chunk))))"

definition copyChunksForKey :: "Chunk list \<Rightarrow> string \<Rightarrow> string \<Rightarrow> Chunk list" where
  "copyChunksForKey chunks bucket key =
     map (\<lambda>chunk. chunk\<lparr>ck_Bucket := bucket, ck_Key := key\<rparr>) chunks"

definition deleteObjectInTx :: "'e sqlite_env_scheme \<Rightarrow> string \<Rightarrow> string \<Rightarrow> ('z sqlite_scheme, unit) st" where
  "deleteObjectInTx env bucket key =
     sbind (exec env (sql_delete_chunks (\<lambda>bk. bk = (bucket, key)))) (\<lambda>_.
     exec env (sql_delete_objects (\<lambda>bk. bk = (bucket, key))))"

definition deletePrefixInTx :: "'e sqlite_env_scheme \<Rightarrow> string \<Rightarrow> string \<Rightarrow> ('z sqlite_scheme, unit) st" where
  "deletePrefixInTx env bucket prfx =
     sbind (exec env (sql_delete_chunks (like_pred env bucket prfx))) (\<lambda>_.
     exec env (sql_delete_objects (like_pred env bucket prfx)))"

text \<open>The new row of a copy: the columns of the source under another key and time.\<close>

definition copyOf :: "Object \<Rightarrow> string \<Rightarrow> string \<Rightarrow> int \<Rightarrow> Object" where
  "copyOf src bucket dstKey now =
     \<lparr>ob_Bucket = bucket, ob_Key = dstKey, ob_Size = ob_Size src,
      ob_ContentType = ob_ContentType src, ob_ETag = ob_ETag src, ob_SHA256 = ob_SHA256 src,
      ob_LastModified = now, ob_ChunkCount = ob_ChunkCount src,
      ob_TelegramType = ob_TelegramType src, ob_UploadStrategy = ob_UploadStrategy src\<rparr>"

text \<open>The loop of \<^verbatim>\<open>copyPrefixInTx\<close> over the source rows; the flag is \<^verbatim>\<open>created\<close>.\<close>

fun copyPrefixLoop ::
    "'e sqlite_env_scheme \<Rightarrow> string \<Rightarrow> string \<Rightarrow> string \<Rightarrow> bool \<Rightarrow> int \<Rightarrow> bool \<Rightarrow> Object list \<Rightarrow>
     ('z sqlite_scheme, bool) st" where
  "copyPrefixLoop env bucket srcPrefix dstPrefix overwrite now created [] = sret created"
| "copyPrefixLoop env bucket srcPrefix dstPrefix overwrite now created (src # objects) =
     (let dstKey = dstPrefix @ TrimPrefix (ob_Key src) srcPrefix in
      sbind (objectExistsInTx env bucket dstKey) (\<lambda>dstExists.
      if dstExists \<and> \<not> overwrite then sfail (Msg ''destination already exists'')
      else
        sbind (listChunksInTx env bucket (ob_Key src)) (\<lambda>chunks.
        sbind (putObjectInTx env (copyOf src bucket dstKey now) (copyChunksForKey chunks bucket dstKey)) (\<lambda>_.
        copyPrefixLoop env bucket srcPrefix dstPrefix overwrite now
          (if dstExists then False else created) objects))))"

definition copyPrefixInTx ::
    "'e sqlite_env_scheme \<Rightarrow> string \<Rightarrow> string \<Rightarrow> string \<Rightarrow> bool \<Rightarrow> ('z sqlite_scheme, bool) st" where
  "copyPrefixInTx env bucket srcPrefix dstPrefix overwrite =
     sbind (query env (\<lambda>t. map scanObject (sel_objects (like_pred env bucket srcPrefix) t))) (\<lambda>objects.
     sbind (time_Now env) (\<lambda>now.
     copyPrefixLoop env bucket srcPrefix dstPrefix overwrite now True objects))"

subsection \<open>Objects\<close>

definition PutObject :: "'e sqlite_env_scheme \<Rightarrow> Object \<Rightarrow> Chunk list \<Rightarrow> ('z sqlite_scheme, unit) st" where
  "PutObject env object chunks =
     in_tx env (
       sbind (exec env (sql_delete_chunks (\<lambda>bk. bk = (ob_Bucket object, ob_Key object)))) (\<lambda>_.
       sbind (exec env (sql_upsert_object (object_row object))) (\<lambda>_.
       sfor chunks (\<lambda>chunk. exec env (sql_insert_chunk chunk)))))"

definition GetObject ::
    "'e sqlite_env_scheme \<Rightarrow> string \<Rightarrow> string \<Rightarrow> ('z sqlite_scheme, Object \<times> Chunk list) st" where
  "GetObject env bucket key =
     in_tx env (
       sbind (selectObject env bucket key) (\<lambda>object.
       sbind (query env (sel_chunks bucket key)) (\<lambda>chunks. sret (object, chunks))))"

definition HeadObject :: "'e sqlite_env_scheme \<Rightarrow> string \<Rightarrow> string \<Rightarrow> ('z sqlite_scheme, Object) st" where
  "HeadObject env bucket key = selectObject env bucket key"

definition list_page :: "'e sqlite_env_scheme \<Rightarrow> ListQuery \<Rightarrow> tables \<Rightarrow> Object list" where
  "list_page env q t =
     (let limit = (if lq_Limit q \<le> 0 then 1000 else lq_Limit q) in
      take (nat limit)
        (sel_objects (\<lambda>bk. like_pred env (lq_Bucket q) (lq_Prefix q) bk \<and> lq_AfterKey q < snd bk) t))"

definition ListObjects :: "'e sqlite_env_scheme \<Rightarrow> ListQuery \<Rightarrow> ('z sqlite_scheme, Object list) st" where
  "ListObjects env q = sbind (query env (list_page env q)) (\<lambda>rows. sret (map scanObject rows))"

definition DeleteObject :: "'e sqlite_env_scheme \<Rightarrow> string \<Rightarrow> string \<Rightarrow> ('z sqlite_scheme, unit) st" where
  "DeleteObject env bucket key =
     in_tx env (
       sbind (exec env (sql_delete_chunks (\<lambda>bk. bk = (bucket, key)))) (\<lambda>_.
       exec env (sql_delete_objects (\<lambda>bk. bk = (bucket, key)))))"

definition CopyObject ::
    "'e sqlite_env_scheme \<Rightarrow> string \<Rightarrow> string \<Rightarrow> string \<Rightarrow> bool \<Rightarrow> ('z sqlite_scheme, bool) st" where
  "CopyObject env bucket srcKey dstKey overwrite =
     in_tx env (
       sbind (getObjectInTx env bucket srcKey) (\<lambda>(src, chunks).
       sbind (objectExistsInTx env bucket dstKey) (\<lambda>dstExists.
       if dstExists \<and> \<not> overwrite then sfail (Msg ''destination already exists'')
       else
         sbind (time_Now env) (\<lambda>now.
         sbind (putObjectInTx env (copyOf src bucket dstKey now) (copyChunksForKey chunks bucket dstKey)) (\<lambda>_.
         sret (\<not> dstExists))))))"

definition MoveObject ::
    "'e sqlite_env_scheme \<Rightarrow> string \<Rightarrow> string \<Rightarrow> string \<Rightarrow> bool \<Rightarrow> ('z sqlite_scheme, bool) st" where
  "MoveObject env bucket srcKey dstKey overwrite =
     (if srcKey = dstKey then sfail (Msg ''source and destination are the same'')
      else in_tx env (
       sbind (getObjectInTx env bucket srcKey) (\<lambda>(src, chunks).
       sbind (objectExistsInTx env bucket dstKey) (\<lambda>dstExists.
       if dstExists \<and> \<not> overwrite then sfail (Msg ''destination already exists'')
       else
         sbind (time_Now env) (\<lambda>now.
         sbind (putObjectInTx env (copyOf src bucket dstKey now) (copyChunksForKey chunks bucket dstKey)) (\<lambda>_.
         sbind (deleteObjectInTx env bucket srcKey) (\<lambda>_.
         sret (\<not> dstExists))))))))"

definition CopyPrefix ::
    "'e sqlite_env_scheme \<Rightarrow> string \<Rightarrow> string \<Rightarrow> string \<Rightarrow> bool \<Rightarrow> ('z sqlite_scheme, bool) st" where
  "CopyPrefix env bucket srcPrefix dstPrefix overwrite =
     in_tx env (copyPrefixInTx env bucket srcPrefix dstPrefix overwrite)"

definition MovePrefix ::
    "'e sqlite_env_scheme \<Rightarrow> string \<Rightarrow> string \<Rightarrow> string \<Rightarrow> bool \<Rightarrow> ('z sqlite_scheme, bool) st" where
  "MovePrefix env bucket srcPrefix dstPrefix overwrite =
     (if srcPrefix = dstPrefix then sfail (Msg ''source and destination are the same'')
      else in_tx env (
        sbind (copyPrefixInTx env bucket srcPrefix dstPrefix overwrite) (\<lambda>created.
        sbind (deletePrefixInTx env bucket srcPrefix) (\<lambda>_. sret created))))"

definition DeletePrefix :: "'e sqlite_env_scheme \<Rightarrow> string \<Rightarrow> string \<Rightarrow> ('z sqlite_scheme, unit) st" where
  "DeletePrefix env bucket prfx = in_tx env (deletePrefixInTx env bucket prfx)"

definition DeleteBucket :: "'e sqlite_env_scheme \<Rightarrow> string \<Rightarrow> ('z sqlite_scheme, unit) st" where
  "DeleteBucket env bucket =
     in_tx env (
       sbind (exec env (sql_delete_chunks (\<lambda>bk. fst bk = bucket))) (\<lambda>_.
       sbind (exec env (sql_delete_objects (\<lambda>bk. fst bk = bucket))) (\<lambda>_.
       exec env (sql_delete_buckets (\<lambda>n. n = bucket)))))"

definition CountObjects :: "'e sqlite_env_scheme \<Rightarrow> string \<Rightarrow> string \<Rightarrow> ('z sqlite_scheme, int) st" where
  "CountObjects env bucket prfx =
     query env (\<lambda>t. int (length (filter (\<lambda>r. like_pred env bucket prfx (ob_id r)) (tb_objects t))))"

definition count_buckets :: "string \<Rightarrow> tables \<Rightarrow> int" where
  "count_buckets name t = int (length (filter (\<lambda>r. bk_Name r = name) (tb_buckets t)))"

definition count_objects :: "string \<Rightarrow> tables \<Rightarrow> int" where
  "count_objects name t = int (length (filter (\<lambda>r. ob_Bucket r = name) (tb_objects t)))"

definition count_chunks :: "string \<Rightarrow> tables \<Rightarrow> int" where
  "count_chunks name t = int (length (filter (\<lambda>r. ck_Bucket r = name) (tb_chunks t)))"

definition CountBucketRenameRows :: "'e sqlite_env_scheme \<Rightarrow> string \<Rightarrow> ('z sqlite_scheme, BucketRename) st" where
  "CountBucketRenameRows env oldName =
     sbind (query env (count_buckets oldName)) (\<lambda>b.
     sbind (query env (count_objects oldName)) (\<lambda>n.
     sbind (query env (count_chunks oldName)) (\<lambda>c.
     sret \<lparr>rn_Buckets = b, rn_Objects = n, rn_Chunks = c\<rparr>)))"

definition RenameBucket :: "'e sqlite_env_scheme \<Rightarrow> string \<Rightarrow> string \<Rightarrow> ('z sqlite_scheme, BucketRename) st" where
  "RenameBucket env oldName newName =
     (if oldName = newName then sfail (Msg ''source and destination bucket are the same'')
      else in_tx env (
        sbind (query env (count_buckets oldName)) (\<lambda>exists.
        if exists = 0 then sfail (Sent MetaErrNotFound) else
        sbind (query env (count_buckets newName)) (\<lambda>targetExists.
        if targetExists > 0 then sfail (Msg (''destination bucket already exists: '' @ newName)) else
        sbind (query env (count_objects oldName)) (\<lambda>n.
        sbind (query env (count_chunks oldName)) (\<lambda>c.
        sbind (exec env (sql_rename_buckets oldName newName)) (\<lambda>_.
        sbind (exec env (sql_rename_objects oldName newName)) (\<lambda>_.
        sbind (exec env (sql_rename_chunks oldName newName)) (\<lambda>_.
        sret \<lparr>rn_Buckets = 1, rn_Objects = n, rn_Chunks = c\<rparr>)))))))))"

subsection \<open>What a statement and a transaction do to the state\<close>

lemma tick_up_simps [simp]: "tabs (tick_up s) = tabs s" "tick (tick_up s) = Suc (tick s)"
  by (simp_all add: tick_up_def)

lemma exec_Inr:
  "exec env q s = (Inr x, s') \<longleftrightarrow>
     sq_fault env (tick s) = None \<and> (\<exists>t. q (tabs s) = Inr (x, t) \<and> s' = (tick_up s)\<lparr>tabs := t\<rparr>)"
  by (auto simp: exec_def split: option.splits sum.splits prod.splits)

lemma exec_Inl: "exec env q s = (Inl e, s') \<Longrightarrow> s' = tick_up s"
  by (auto simp: exec_def split: option.splits sum.splits prod.splits)

lemma query_Inr:
  "query env f s = (Inr x, s') \<longleftrightarrow> sq_fault env (tick s) = None \<and> x = f (tabs s) \<and> s' = tick_up s"
  by (auto simp: query_def exec_Inr tick_up_def)

lemma query_state: "query env f s = (r, s') \<Longrightarrow> s' = tick_up s"
  by (cases r) (auto simp: query_def exec_Inr dest: exec_Inl simp: tick_up_def)

text \<open>A transaction that does not succeed leaves the tables as they were.\<close>

lemma in_tx_Inl: "in_tx env body s = (Inl e, s') \<Longrightarrow> tabs s' = tabs s"
  by (auto simp: in_tx_def split: option.splits prod.splits sum.splits)

lemma in_tx_Inr:
  "in_tx env body s = (Inr x, s') \<Longrightarrow> \<exists>s1. body (tick_up s) = (Inr x, s1) \<and> s' = tick_up s1"
  by (auto simp: in_tx_def split: option.splits prod.splits sum.splits)

text \<open>The calls that only read.\<close>

definition reads_only :: "('z sqlite_scheme, 'a) st \<Rightarrow> bool" where
  "reads_only m \<longleftrightarrow> (\<forall>s. tabs (snd (m s)) = tabs s)"

lemma reads_onlyD: "reads_only m \<Longrightarrow> m s = (r, s') \<Longrightarrow> tabs s' = tabs s"
  unfolding reads_only_def by (metis snd_conv)

lemma reads_only_query [intro]: "reads_only (query env f)"
  unfolding reads_only_def by (metis prod.collapse query_state tick_up_simps(1))

lemma reads_only_sret [intro]: "reads_only (sret x)" and reads_only_sfail [intro]: "reads_only (sfail e)"
  by (simp_all add: reads_only_def sret_def sfail_def)

lemma reads_only_sbind [intro]:
  "reads_only m \<Longrightarrow> (\<And>x. reads_only (k x)) \<Longrightarrow> reads_only (sbind m k)"
  by (auto simp: reads_only_def sbind_def split: prod.splits sum.splits) (metis snd_conv)+

lemma reads_only_in_tx [intro]: "reads_only m \<Longrightarrow> reads_only (in_tx env m)"
  by (auto simp: reads_only_def in_tx_def split: option.splits prod.splits sum.splits)
     (metis snd_conv tick_up_simps(1))+

lemma reads_only_selectObject [intro]: "reads_only (selectObject env b k)"
  unfolding selectObject_def by (rule reads_only_sbind) (auto split: option.splits)

lemma reads_only_GetObject: "reads_only (GetObject env b k)"
  unfolding GetObject_def by auto

lemma reads_only_HeadObject: "reads_only (HeadObject env b k)"
  unfolding HeadObject_def by auto

lemma reads_only_ListObjects: "reads_only (ListObjects env q)"
  unfolding ListObjects_def by auto

lemma reads_only_GetBucket: "reads_only (GetBucket env n)"
  unfolding GetBucket_def by (rule reads_only_sbind) (auto split: option.splits)

lemma reads_only_ListBuckets: "reads_only (ListBuckets env)"
  unfolding ListBuckets_def by auto

lemma reads_only_CountObjects: "reads_only (CountObjects env b p)"
  unfolding CountObjects_def by auto

subsection \<open>Listing everything, page by page\<close>

definition rows_after :: "'e sqlite_env_scheme \<Rightarrow> string \<Rightarrow> string \<Rightarrow> string \<Rightarrow> tables \<Rightarrow> Object list" where
  "rows_after env bucket prfx after t =
     sel_objects (\<lambda>bk. like_pred env bucket prfx bk \<and> after < snd bk) t"

lemma ListObjects_page:
  assumes "ListObjects env q s = (Inr rows, s')"
  shows "tabs s' = tabs s" and
    "rows = map scanObject (take (nat (if lq_Limit q \<le> 0 then 1000 else lq_Limit q))
       (rows_after env (lq_Bucket q) (lq_Prefix q) (lq_AfterKey q) (tabs s)))"
  using assms by (auto simp: ListObjects_def sbind_Inr query_Inr list_page_def rows_after_def Let_def)

lemma ob_Key_scan [simp]: "ob_Key (scanObject r) = ob_Key r"
  by (simp add: scanObject_def)

lemma set_rows_after:
  "r \<in> set (rows_after env b p a t) \<longleftrightarrow>
     r \<in> set (tb_objects t) \<and> like_pred env b p (ob_id r) \<and> a < ob_Key r"
  by (auto simp: rows_after_def sel_objects_def ob_id_def)

text \<open>A non-empty page moves the cursor past at least one row.\<close>

lemma rows_after_shrinks:
  assumes "r \<in> set (rows_after env b p a t)"
  shows "length (rows_after env b p (ob_Key r) t) < length (rows_after env b p a t)"
proof -
  let ?P = "\<lambda>a r. like_pred env b p (ob_id r) \<and> a < ob_Key r"
  have len: "length (rows_after env b p x t) = length (filter (?P x) (tb_objects t))" for x
    by (simp add: rows_after_def sel_objects_def ob_id_def)
  have "filter (?P (ob_Key r)) (tb_objects t) = filter (?P (ob_Key r)) (filter (?P a) (tb_objects t))"
    using assms by (auto simp: filter_filter_conj set_rows_after intro!: filter_cong)
  moreover have "r \<in> set (filter (?P a) (tb_objects t))" using assms by (simp add: set_rows_after)
  ultimately show ?thesis unfolding len
    by (metis (no_types, lifting) length_filter_less order_less_irrefl)
qed

function listAllLoop ::
    "'e sqlite_env_scheme \<Rightarrow> string \<Rightarrow> string \<Rightarrow> string \<Rightarrow> Object list \<Rightarrow> ('z sqlite_scheme, Object list) st" where
  "listAllLoop env bucket prfx afterKey all s =
     (case ListObjects env \<lparr>lq_Bucket = bucket, lq_Prefix = prfx, lq_AfterKey = afterKey, lq_Limit = 1000\<rparr> s of
        (Inl e, s') \<Rightarrow> (Inl e, s')
      | (Inr objects, s') \<Rightarrow>
          if objects = [] then (Inr all, s')
          else listAllLoop env bucket prfx (ob_Key (last objects)) (all @ objects) s')"
  by pat_completeness auto
termination
proof (relation "measure (\<lambda>(env, b, p, a, all, s). length (rows_after env b p a (tabs s)))", goal_cases)
  case (2 env bucket prfx afterKey all s r s' objects)
  let ?q = "\<lparr>lq_Bucket = bucket, lq_Prefix = prfx, lq_AfterKey = afterKey, lq_Limit = 1000\<rparr>"
  from 2 have "ListObjects env ?q s = (Inr objects, s')" by simp
  note page = ListObjects_page [OF this]
  let ?rows = "take 1000 (rows_after env bucket prfx afterKey (tabs s))"
  from page have "objects = map scanObject ?rows" by simp
  with 2 have "?rows \<noteq> []" and "ob_Key (last objects) = ob_Key (last ?rows)"
    by (auto simp: last_map)
  moreover from this have "last ?rows \<in> set (rows_after env bucket prfx afterKey (tabs s))"
    using last_in_set in_set_takeD by metis
  ultimately show ?case using rows_after_shrinks page(1) by fastforce
qed simp

definition ListAllObjects :: "'e sqlite_env_scheme \<Rightarrow> string \<Rightarrow> string \<Rightarrow> ('z sqlite_scheme, Object list) st" where
  "ListAllObjects env bucket prfx = listAllLoop env bucket prfx [] []"

declare listAllLoop.simps [simp del]

end
