(* ===== verification/MetaSpec.thy ===== *)
theory MetaSpec
  imports Metadata
begin

text \<open>
  What the operations of \<^verbatim>\<open>metadata/sqlite.go\<close> do to the tables when they succeed, as pure functions
  on the tables, and what these functions do to \<open>contents\<close>, the map from (bucket, key) to an object
  and its chunks. The invariant \<open>tables_wf\<close> is kept by all of them.
\<close>

subsection \<open>The effects on the tables\<close>

definition put_tables :: "Object \<Rightarrow> Chunk list \<Rightarrow> tables \<Rightarrow> tables" where
  "put_tables object chunks t =
     t\<lparr>tb_objects := upsert_by ob_id (object_row object) (tb_objects t),
       tb_chunks := filter (\<lambda>r. ck_id r \<noteq> ob_id object) (tb_chunks t) @ chunks\<rparr>"

definition del_tables :: "(string \<times> string \<Rightarrow> bool) \<Rightarrow> tables \<Rightarrow> tables" where
  "del_tables P t =
     t\<lparr>tb_objects := filter (\<lambda>r. \<not> P (ob_id r)) (tb_objects t),
       tb_chunks := filter (\<lambda>r. \<not> P (ck_id r)) (tb_chunks t)\<rparr>"

definition rename_tables :: "string \<Rightarrow> string \<Rightarrow> tables \<Rightarrow> tables" where
  "rename_tables old new t =
     \<lparr>tb_buckets = map (\<lambda>r. if bk_Name r = old then r\<lparr>bk_Name := new\<rparr> else r) (tb_buckets t),
      tb_objects = map (\<lambda>r. if ob_Bucket r = old then r\<lparr>ob_Bucket := new\<rparr> else r) (tb_objects t),
      tb_chunks = map (\<lambda>r. if ck_Bucket r = old then r\<lparr>ck_Bucket := new\<rparr> else r) (tb_chunks t)\<rparr>"

text \<open>The chunk rows that may be stored with an object: they carry its key and differ in number.\<close>

definition chunks_for :: "Object \<Rightarrow> Chunk list \<Rightarrow> bool" where
  "chunks_for object chunks \<longleftrightarrow>
     (\<forall>c \<in> set chunks. ck_id c = ob_id object) \<and> distinct (map ck_PartNumber chunks)"

text \<open>One row of \<^verbatim>\<open>copyPrefixInTx\<close>, and its loop: the rows are copied one after the other, each with
  the chunks its key has at that moment.\<close>

definition copy_row :: "string \<Rightarrow> string \<Rightarrow> string \<Rightarrow> int \<Rightarrow> Object \<Rightarrow> tables \<Rightarrow> tables" where
  "copy_row b p d now r t =
     put_tables (copyOf r b (d @ TrimPrefix (ob_Key r) p) now)
       (copyChunksForKey (sel_chunks b (ob_Key r) t) b (d @ TrimPrefix (ob_Key r) p)) t"

definition copy_tables :: "string \<Rightarrow> string \<Rightarrow> string \<Rightarrow> int \<Rightarrow> Object list \<Rightarrow> tables \<Rightarrow> tables" where
  "copy_tables b p d now rs t = foldl (\<lambda>t r. copy_row b p d now r t) t rs"

lemma ob_id_row [simp]: "ob_id (object_row r) = ob_id r" "ob_id (scanObject r) = ob_id r"
  by (simp_all add: ob_id_def object_row_def scanObject_def)

lemma ob_fields_row [simp]:
  "ob_Size (object_row r) = ob_Size r" "ob_Size (scanObject r) = ob_Size r"
  "ob_Bucket (scanObject r) = ob_Bucket r" "ob_Bucket (object_row r) = ob_Bucket r"
  "ob_Key (object_row r) = ob_Key r"
  by (simp_all add: object_row_def scanObject_def)

subsection \<open>The bodies of the transactions\<close>

text \<open>The postconditions of the statements: \<open>ok Q s\<close> is the one that says nothing of an error.\<close>

abbreviation ok :: "('s, 'a) st \<Rightarrow> ('a \<Rightarrow> 's \<Rightarrow> bool) \<Rightarrow> 's \<Rightarrow> bool" where
  "ok m Q s \<equiv> wp m Q (\<lambda>_ _. True) s"

lemma ok_exec: "(\<And>x t. q (tabs s) = Inr (x, t) \<Longrightarrow> Q x ((tick_up s)\<lparr>tabs := t\<rparr>)) \<Longrightarrow> ok (exec env q) Q s"
  by (auto simp: wp_def exec_def split: option.splits sum.splits)

lemma ok_query: "Q (f (tabs s)) (tick_up s) \<Longrightarrow> ok (query env f) Q s"
  by (auto simp: query_def tick_up_def intro: ok_exec)

lemma ok_time_Now: "(\<And>now. Q now (tick_up s)) \<Longrightarrow> ok (time_Now env) Q s"
  by (simp add: wp_def time_Now_def)

lemma ok_in_tx: "ok body (\<lambda>x s'. Q x (tick_up s')) (tick_up s) \<Longrightarrow> ok (in_tx env body) Q s"
  by (auto simp: wp_def in_tx_def split: option.splits prod.splits sum.splits)

lemma ok_sbind: "ok m (\<lambda>x. ok (k x) Q) s \<Longrightarrow> ok (sbind m k) Q s"
  by (simp add: wp_sbind)

lemma ok_if: "(c \<Longrightarrow> ok m Q s) \<Longrightarrow> (\<not> c \<Longrightarrow> ok m' Q s) \<Longrightarrow> ok (if c then m else m') Q s"
  by simp

lemma ok_insert_chunks:
  "(\<And>s'. tabs s' = (tabs s)\<lparr>tb_chunks := tb_chunks (tabs s) @ chunks\<rparr> \<Longrightarrow> distinct (map ck_pk chunks) \<Longrightarrow>
      \<forall>c \<in> set chunks. ck_pk c \<notin> ck_pk ` set (tb_chunks (tabs s)) \<Longrightarrow> Q () s') \<Longrightarrow>
   ok (sfor chunks (\<lambda>c. exec env (sql_insert_chunk c))) Q s"
proof (induction chunks arbitrary: s)
  case (Cons c chunks)
  show ?case
    by (auto simp: wp_sbind sql_insert_chunk_def [of c] split: if_splits
        intro!: ok_exec Cons.IH Cons.prems) (metis image_eqI)+
qed (simp add: wp_sret)

text \<open>No primary key of the new chunk rows is taken, once the old rows of the object are gone.\<close>

definition fresh_chunks :: "Object \<Rightarrow> Chunk list \<Rightarrow> tables \<Rightarrow> bool" where
  "fresh_chunks object chunks t \<longleftrightarrow> distinct (map ck_pk chunks) \<and>
     (\<forall>c \<in> set chunks. ck_pk c \<notin> ck_pk ` set (filter (\<lambda>r. ck_id r \<noteq> ob_id object) (tb_chunks t)))"

lemma ok_putObjectInTx:
  assumes "\<And>s'. tabs s' = put_tables object chunks (tabs s) \<Longrightarrow> fresh_chunks object chunks (tabs s) \<Longrightarrow> Q () s'"
  shows "ok (putObjectInTx env object chunks) Q s"
  unfolding putObjectInTx_def sql_delete_chunks_def sql_upsert_object_def
  by (intro ok_sbind ok_exec ok_insert_chunks assms)
    (auto simp: put_tables_def fresh_chunks_def ob_id_def [of object])

lemma ok_deleteObjectInTx:
  "(\<And>s'. tabs s' = del_tables (\<lambda>bk. bk = (b, k)) (tabs s) \<Longrightarrow> Q () s') \<Longrightarrow> ok (deleteObjectInTx env b k) Q s"
  unfolding deleteObjectInTx_def
  by (auto simp: sql_delete_chunks_def sql_delete_objects_def del_tables_def intro!: ok_sbind ok_exec)

lemma ok_deletePrefixInTx:
  "(\<And>s'. tabs s' = del_tables (like_pred env b p) (tabs s) \<Longrightarrow> Q () s') \<Longrightarrow> ok (deletePrefixInTx env b p) Q s"
  unfolding deletePrefixInTx_def
  by (auto simp: sql_delete_chunks_def sql_delete_objects_def del_tables_def intro!: ok_sbind ok_exec)

lemma ok_selectObject:
  "(\<And>r. find_object b k (tabs s) = Some r \<Longrightarrow> Q (scanObject r) (tick_up s)) \<Longrightarrow> ok (selectObject env b k) Q s"
  unfolding selectObject_def by (auto simp: wp_simps intro!: ok_sbind ok_query split: option.splits)

lemma ok_getObjectInTx:
  "(\<And>r cs s'. contents (tabs s) (b, k) = Some (r, cs) \<Longrightarrow> tabs s' = tabs s \<Longrightarrow> Q (r, cs) s') \<Longrightarrow>
   ok (getObjectInTx env b k) Q s"
  unfolding getObjectInTx_def listChunksInTx_def
  by (auto simp: contents_def wp_simps intro!: ok_sbind ok_query ok_selectObject)

definition has_object :: "tables \<Rightarrow> string \<Rightarrow> string \<Rightarrow> bool" where
  "has_object t b k \<longleftrightarrow> contents t (b, k) \<noteq> None"

lemma ok_objectExistsInTx:
  "Q (has_object (tabs s) b k) (tick_up s) \<Longrightarrow> ok (objectExistsInTx env b k) Q s"
  unfolding objectExistsInTx_def by (rule ok_query) (simp add: has_object_def contents_def)

lemmas ok_intros =
  ok_in_tx ok_sbind ok_if ok_query ok_time_Now ok_putObjectInTx ok_deleteObjectInTx ok_deletePrefixInTx
  ok_selectObject ok_getObjectInTx ok_objectExistsInTx

subsection \<open>The operations on success\<close>

lemma PutObject_body: "PutObject env object chunks = in_tx env (putObjectInTx env object chunks)"
  by (simp add: PutObject_def putObjectInTx_def)

lemma PutObject_ok:
  "ok (PutObject env object chunks) (\<lambda>_ s'.
     tabs s' = put_tables object chunks (tabs s) \<and> fresh_chunks object chunks (tabs s)) s"
  unfolding PutObject_body by (intro ok_in_tx ok_putObjectInTx) simp

lemma DeleteObject_body: "DeleteObject env b k = in_tx env (deleteObjectInTx env b k)"
  by (simp add: DeleteObject_def deleteObjectInTx_def)

lemma DeleteObject_ok:
  "ok (DeleteObject env b k) (\<lambda>_ s'. tabs s' = del_tables (\<lambda>bk. bk = (b, k)) (tabs s)) s"
  unfolding DeleteObject_body by (intro ok_in_tx ok_deleteObjectInTx) simp

lemma DeletePrefix_ok:
  "ok (DeletePrefix env b p) (\<lambda>_ s'. tabs s' = del_tables (like_pred env b p) (tabs s)) s"
  unfolding DeletePrefix_def by (intro ok_in_tx ok_deletePrefixInTx) simp

lemma DeleteBucket_ok:
  "ok (DeleteBucket env b) (\<lambda>_ s'. tabs s' = (del_tables (\<lambda>bk. fst bk = b) (tabs s))
       \<lparr>tb_buckets := filter (\<lambda>r. bk_Name r \<noteq> b) (tb_buckets (tabs s))\<rparr>) s"
  unfolding DeleteBucket_def
  by (auto simp: sql_delete_chunks_def sql_delete_objects_def sql_delete_buckets_def del_tables_def
      intro!: ok_in_tx ok_sbind ok_exec)

lemma GetObject_ok:
  "ok (GetObject env b k) (\<lambda>x s'. contents (tabs s) (b, k) = Some x \<and> tabs s' = tabs s) s"
  unfolding GetObject_def by (auto simp: wp_simps contents_def intro!: ok_intros)

lemma HeadObject_ok:
  "ok (HeadObject env b k) (\<lambda>r s'. (\<exists>cs. contents (tabs s) (b, k) = Some (r, cs)) \<and> tabs s' = tabs s) s"
  unfolding HeadObject_def by (auto simp: wp_simps contents_def intro!: ok_intros)

lemma CopyObject_ok:
  "ok (CopyObject env b src dst ow) (\<lambda>created s'. \<exists>r cs now.
     contents (tabs s) (b, src) = Some (r, cs) \<and> (has_object (tabs s) b dst \<longrightarrow> ow) \<and>
     created = (\<not> has_object (tabs s) b dst) \<and>
     tabs s' = put_tables (copyOf r b dst now) (copyChunksForKey cs b dst) (tabs s)) s"
  unfolding CopyObject_def by (auto simp: wp_simps intro!: ok_intros)

lemma MoveObject_ok:
  "ok (MoveObject env b src dst ow) (\<lambda>created s'. src \<noteq> dst \<and> (\<exists>r cs now.
     contents (tabs s) (b, src) = Some (r, cs) \<and> (has_object (tabs s) b dst \<longrightarrow> ow) \<and>
     created = (\<not> has_object (tabs s) b dst) \<and>
     tabs s' = del_tables (\<lambda>bk. bk = (b, src))
       (put_tables (copyOf r b dst now) (copyChunksForKey cs b dst) (tabs s)))) s"
  unfolding MoveObject_def by (auto simp: wp_simps intro!: ok_intros)

lemma copy_tables_simps [simp]:
  "copy_tables b p d now [] t = t"
  "copy_tables b p d now (r # rs) t = copy_tables b p d now rs (copy_row b p d now r t)"
  by (simp_all add: copy_tables_def)

lemma ok_copyPrefixLoop:
  "(\<And>c s'. tabs s' = copy_tables b p d now rs (tabs s) \<Longrightarrow> Q c s') \<Longrightarrow>
   ok (copyPrefixLoop env b p d ow now created rs) Q s"
proof (induction rs arbitrary: created ow s)
  case (Cons r rs)
  have "ok (copyPrefixLoop env b p d ow' now c rs) Q s1"
    if "tabs s1 = copy_row b p d now r (tabs s)" for ow' c s1
    by (rule Cons.IH) (simp add: Cons.prems that)
  then show ?case
    by (auto simp: Let_def wp_simps listChunksInTx_def copy_row_def intro!: ok_intros)
qed (simp add: wp_simps)

text \<open>The source rows of a prefix copy, as read back.\<close>

definition prefix_rows :: "'e sqlite_env_scheme \<Rightarrow> string \<Rightarrow> string \<Rightarrow> tables \<Rightarrow> Object list" where
  "prefix_rows env b p t = map scanObject (sel_objects (like_pred env b p) t)"

lemma ok_copyPrefixInTx:
  "(\<And>c now s'. tabs s' = copy_tables b p d now (prefix_rows env b p (tabs s)) (tabs s) \<Longrightarrow> Q c s') \<Longrightarrow>
   ok (copyPrefixInTx env b p d ow) Q s"
  unfolding copyPrefixInTx_def by (auto simp: prefix_rows_def intro!: ok_intros ok_copyPrefixLoop)

lemma CopyPrefix_ok:
  "ok (CopyPrefix env b p d ow) (\<lambda>_ s'.
     \<exists>now. tabs s' = copy_tables b p d now (prefix_rows env b p (tabs s)) (tabs s)) s"
  unfolding CopyPrefix_def by (auto intro!: ok_intros ok_copyPrefixInTx)

lemma MovePrefix_ok:
  "ok (MovePrefix env b p d ow) (\<lambda>_ s'. p \<noteq> d \<and> (\<exists>now. tabs s' =
     del_tables (like_pred env b p) (copy_tables b p d now (prefix_rows env b p (tabs s)) (tabs s)))) s"
  unfolding MovePrefix_def by (auto simp: wp_simps intro!: ok_intros ok_copyPrefixInTx)

text \<open>\<^verbatim>\<open>RenameBucket\<close> returns the numbers of rows it has changed. The updates succeed when no row
  of the new name is in the way.\<close>

definition objects_free :: "string \<Rightarrow> string \<Rightarrow> tables \<Rightarrow> bool" where
  "objects_free old new t \<longleftrightarrow>
     (\<forall>r \<in> set (tb_objects t). ob_Bucket r = old \<longrightarrow> (new, ob_Key r) \<notin> ob_id ` set (tb_objects t))"

definition chunks_free :: "string \<Rightarrow> string \<Rightarrow> tables \<Rightarrow> bool" where
  "chunks_free old new t \<longleftrightarrow>
     (\<forall>r \<in> set (tb_chunks t). ck_Bucket r = old \<longrightarrow>
        (new, ck_Key r, ck_PartNumber r) \<notin> ck_pk ` set (tb_chunks t))"

lemma ok_rename_statements:
  "Q () ((tick_up s)\<lparr>tabs := (tabs s)\<lparr>tb_buckets :=
      map (\<lambda>r. if bk_Name r = old then r\<lparr>bk_Name := new\<rparr> else r) (tb_buckets (tabs s))\<rparr>\<rparr>) \<Longrightarrow>
   ok (exec env (sql_rename_buckets old new)) Q s"
  "(objects_free old new (tabs s) \<Longrightarrow> Q () ((tick_up s)\<lparr>tabs := (tabs s)\<lparr>tb_objects :=
      map (\<lambda>r. if ob_Bucket r = old then r\<lparr>ob_Bucket := new\<rparr> else r) (tb_objects (tabs s))\<rparr>\<rparr>)) \<Longrightarrow>
   ok (exec env (sql_rename_objects old new)) Q s"
  "(chunks_free old new (tabs s) \<Longrightarrow> Q () ((tick_up s)\<lparr>tabs := (tabs s)\<lparr>tb_chunks :=
      map (\<lambda>r. if ck_Bucket r = old then r\<lparr>ck_Bucket := new\<rparr> else r) (tb_chunks (tabs s))\<rparr>\<rparr>)) \<Longrightarrow>
   ok (exec env (sql_rename_chunks old new)) Q s"
  by (rule ok_exec; force simp: sql_rename_buckets_def sql_rename_objects_def sql_rename_chunks_def
      objects_free_def chunks_free_def split: if_splits)+

lemma count_buckets_pos [simp]: "0 < count_buckets n t \<longleftrightarrow> count_buckets n t \<noteq> 0"
  by (auto simp: count_buckets_def)

lemma RenameBucket_ok:
  "ok (RenameBucket env old new) (\<lambda>n s'.
     old \<noteq> new \<and> tabs s' = rename_tables old new (tabs s) \<and>
     count_buckets old (tabs s) \<noteq> 0 \<and> count_buckets new (tabs s) = 0 \<and>
     n = \<lparr>rn_Buckets = 1, rn_Objects = count_objects old (tabs s), rn_Chunks = count_chunks old (tabs s)\<rparr> \<and>
     objects_free old new (tabs s) \<and> chunks_free old new (tabs s)) s"
  unfolding RenameBucket_def rename_tables_def
  by (auto simp: wp_simps objects_free_def chunks_free_def intro!: ok_intros ok_rename_statements)

end
