(* ===== verification/MetaStore.thy ===== *)
theory MetaStore
  imports MetaSpec
begin

text \<open>
  The contract of the metadata store over its abstract state \<open>contents\<close>: the locale
  \<open>object_map\<close> says what put, get, head and delete promise, its lemmas are what the object store
  needs, and the interpretation proves the promises for the SQLite model.
\<close>

subsection \<open>Effects on the contents\<close>

lemma chunks_for_fresh: "chunks_for object chunks \<Longrightarrow> fresh_chunks object chunks t"
  by (auto simp: chunks_for_def fresh_chunks_def ck_pk_def ck_id_def distinct_map inj_on_def)

lemma sel_chunks_put:
  "chunks_for object chunks \<Longrightarrow>
   sel_chunks b k (put_tables object chunks t) =
     (if (b, k) = ob_id object then sort_key ck_PartNumber chunks else sel_chunks b k t)"
proof -
  assume c: "chunks_for object chunks"
  then have "filter (\<lambda>r. ck_id r = (b, k)) chunks = (if (b, k) = ob_id object then chunks else [])"
    by (auto simp: chunks_for_def filter_empty_conv)
  moreover have "filter (\<lambda>r. ck_id r = (b, k)) (filter (\<lambda>r. ck_id r \<noteq> ob_id object) (tb_chunks t)) =
      (if (b, k) = ob_id object then [] else filter (\<lambda>r. ck_id r = (b, k)) (tb_chunks t))"
    by (auto simp: filter_empty_conv intro!: filter_cong)
  ultimately show ?thesis by (simp add: sel_chunks_def put_tables_def)
qed

lemma contents_put:
  assumes "chunks_for object chunks"
  shows "contents (put_tables object chunks t) =
    (contents t)(ob_id object \<mapsto> (scanObject (object_row object), sort_key ck_PartNumber chunks))"
proof
  fix bk :: "string \<times> string"
  obtain b k where bk: "bk = (b, k)" by fastforce
  show "contents (put_tables object chunks t) bk =
    ((contents t)(ob_id object \<mapsto> (scanObject (object_row object), sort_key ck_PartNumber chunks))) bk"
    unfolding bk using assms
    by (simp add: contents_def sel_chunks_put find_object_def)
       (simp add: put_tables_def find_upsert_by)
qed

lemma sel_chunks_del:
  "sel_chunks b k (del_tables P t) = (if P (b, k) then [] else sel_chunks b k t)"
proof -
  have "filter (\<lambda>r. ck_id r = (b, k)) (filter (\<lambda>r. \<not> P (ck_id r)) (tb_chunks t)) =
      (if P (b, k) then [] else filter (\<lambda>r. ck_id r = (b, k)) (tb_chunks t))"
    by (auto simp: filter_empty_conv intro!: filter_cong)
  then show ?thesis by (simp add: sel_chunks_def del_tables_def)
qed

lemma contents_del: "contents (del_tables P t) bk = (if P bk then None else contents t bk)"
  by (cases bk) (simp add: contents_def sel_chunks_del find_object_def, simp add: del_tables_def find_filter_key)

subsection \<open>The invariant\<close>

lemma wf_put:
  assumes "tables_wf t" "chunks_for object chunks"
  shows "tables_wf (put_tables object chunks t)"
  using assms chunks_for_fresh [OF assms(2), of t]
  by (auto simp: tables_wf_def put_tables_def distinct_upsert_by image_upsert_by fresh_chunks_def
      chunks_for_def distinct_map_filter)

lemma wf_del: "tables_wf t \<Longrightarrow> tables_wf (del_tables P t)"
  by (force simp: tables_wf_def del_tables_def distinct_map_filter)

lemma distinct_relabel:
  assumes "distinct (map f rs)" "\<And>r. r \<in> set rs \<Longrightarrow> P r \<Longrightarrow> f (g r) \<notin> f ` set rs"
    "\<And>r r'. r \<in> set rs \<Longrightarrow> r' \<in> set rs \<Longrightarrow> P r \<Longrightarrow> P r' \<Longrightarrow> f (g r) = f (g r') \<Longrightarrow> f r = f r'"
  shows "distinct (map f (map (\<lambda>r. if P r then g r else r) rs))"
  using assms
proof (induction rs)
  case (Cons a rs)
  have a: "f (g r) \<notin> f ` set rs" if "r \<in> set rs" "P r" for r using Cons.prems(2) [of r] that by simp
  have b: "f r = f r'" if "r \<in> set rs" "r' \<in> set rs" "P r" "P r'" "f (g r) = f (g r')" for r r'
    using Cons.prems(3) [of r r'] that by simp
  have "distinct (map f (map (\<lambda>r. if P r then g r else r) rs))"
    by (rule Cons.IH) (use Cons.prems(1) in simp, erule (1) a, erule (4) b)
  moreover have "f (if P a then g a else a) \<notin> f ` (\<lambda>r. if P r then g r else r) ` set rs"
  proof
    assume "f (if P a then g a else a) \<in> f ` (\<lambda>r. if P r then g r else r) ` set rs"
    then obtain r where r: "r \<in> set rs" "f (if P a then g a else a) = f (if P r then g r else r)" by blast
    have "f a \<noteq> f r" using Cons.prems(1) r(1) by auto
    with r Cons.prems(2) [of a] Cons.prems(2) [of r] Cons.prems(3) [of a r] show False
      by (auto split: if_splits)
  qed
  ultimately show ?case by (simp only: list.map distinct.simps set_map simp_thms)
qed simp

lemma wf_rename:
  assumes wf: "tables_wf t" and free: "objects_free old new t" "chunks_free old new t"
    and no: "count_buckets new t = 0"
  shows "tables_wf (rename_tables old new t)"
proof -
  have "distinct (map bk_Name (tb_buckets (rename_tables old new t)))"
    unfolding rename_tables_def tables.simps using wf no
    by (intro distinct_relabel) (auto simp: tables_wf_def count_buckets_def filter_empty_conv)
  moreover have "distinct (map ob_id (tb_objects (rename_tables old new t)))"
    unfolding rename_tables_def tables.simps using wf free(1)
    by (intro distinct_relabel) (auto simp: tables_wf_def objects_free_def ob_id_def)
  moreover have "distinct (map ck_pk (tb_chunks (rename_tables old new t)))"
    unfolding rename_tables_def tables.simps using wf free(2)
    by (intro distinct_relabel) (auto simp: tables_wf_def chunks_free_def ck_pk_def)
  moreover have "ck_id ` set (tb_chunks (rename_tables old new t)) \<subseteq>
      ob_id ` set (tb_objects (rename_tables old new t))"
  proof
    fix i assume "i \<in> ck_id ` set (tb_chunks (rename_tables old new t))"
    then obtain c where c: "c \<in> set (tb_chunks t)"
      "i = ck_id (if ck_Bucket c = old then c\<lparr>ck_Bucket := new\<rparr> else c)"
      by (auto simp: rename_tables_def)
    from wf c(1) obtain r where r: "r \<in> set (tb_objects t)" "ck_id c = ob_id r"
      by (auto simp: tables_wf_def)
    from c(2) r(2) have "i = ob_id (if ob_Bucket r = old then r\<lparr>ob_Bucket := new\<rparr> else r)"
      by (simp add: ck_id_def ob_id_def)
    with r(1) show "i \<in> ob_id ` set (tb_objects (rename_tables old new t))"
      by (auto simp: rename_tables_def)
  qed
  ultimately show ?thesis by (simp add: tables_wf_def)
qed

lemma sel_chunks_for:
  assumes "tables_wf t"
  shows "distinct (map ck_PartNumber (sel_chunks b k t))" "\<forall>c \<in> set (sel_chunks b k t). ck_id c = (b, k)"
proof -
  have "distinct (map ck_pk (filter (\<lambda>r. ck_id r = (b, k)) (tb_chunks t)))"
    using assms by (simp add: tables_wf_def distinct_map_filter)
  moreover have "map ck_pk (filter (\<lambda>r. ck_id r = (b, k)) rs) =
      map (\<lambda>n. (b, k, n)) (map ck_PartNumber (filter (\<lambda>r. ck_id r = (b, k)) rs))" for rs
    by (auto simp: ck_pk_def ck_id_def)
  ultimately have "distinct (map ck_PartNumber (filter (\<lambda>r. ck_id r = (b, k)) (tb_chunks t)))"
    by (auto simp: distinct_map intro: inj_on_imageI2)
  then have "distinct (map ck_PartNumber (sort_key ck_PartNumber (filter (\<lambda>r. ck_id r = (b, k)) (tb_chunks t))))"
    by (metis (no_types, lifting) distinct_map distinct_sort set_sort)
  then show "distinct (map ck_PartNumber (sel_chunks b k t))" by (simp add: sel_chunks_def)
qed (simp add: sel_chunks_def)

lemma copyOf_id [simp]: "ob_id (copyOf r b k now) = (b, k)"
  by (simp add: copyOf_def ob_id_def)

lemma copyChunks_map [simp]: "map ck_PartNumber (copyChunksForKey cs b k) = map ck_PartNumber cs"
  by (simp add: copyChunksForKey_def)

lemma chunks_for_copy:
  "distinct (map ck_PartNumber cs) \<Longrightarrow> chunks_for (copyOf r b k now) (copyChunksForKey cs b k)"
  unfolding chunks_for_def copyChunks_map copyOf_id by (auto simp: copyChunksForKey_def ck_id_def)

text \<open>The chunks read back are in part order, and relabelling them keeps the order.\<close>

lemma sort_key_sorted: "sorted (map f xs) \<Longrightarrow> sort_key f xs = xs"
  by (rule sort_key_id_if_sorted)

lemma sort_copyChunks:
  "sorted (map ck_PartNumber cs) \<Longrightarrow> sort_key ck_PartNumber (copyChunksForKey cs b k) = copyChunksForKey cs b k"
  by (rule sort_key_sorted) simp

lemma sorted_sel_chunks: "sorted (map ck_PartNumber (sel_chunks b k t))"
  by (simp add: sel_chunks_def)

lemma contents_chunks:
  assumes "tables_wf t" "contents t (b, k) = Some (r, cs)"
  shows "distinct (map ck_PartNumber cs)" "sorted (map ck_PartNumber cs)"
    "\<forall>c \<in> set cs. ck_id c = (b, k)" "ob_id r = (b, k)"
  using assms sel_chunks_for [OF assms(1), of b k] sorted_sel_chunks [of b k t]
  by (auto simp: contents_def find_object_def find_Some_iff)

subsection \<open>The contract of the store\<close>

text \<open>What a put, a get, a head and a delete promise of the abstract map. \<open>inv\<close> is the invariant
  the provider keeps, \<open>reliable\<close> says that the provider does not fail of itself.\<close>

locale object_map =
  fixes put :: "Object \<Rightarrow> Chunk list \<Rightarrow> ('s, unit) st"
    and get :: "string \<Rightarrow> string \<Rightarrow> ('s, Object \<times> Chunk list) st"
    and del :: "string \<Rightarrow> string \<Rightarrow> ('s, unit) st"
    and view :: "'s \<Rightarrow> string \<times> string \<rightharpoonup> Object \<times> Chunk list"
    and inv :: "'s \<Rightarrow> bool"
    and reliable :: bool
  assumes put_ok: "inv s \<Longrightarrow> chunks_for object chunks \<Longrightarrow> put object chunks s = (Inr u, s') \<Longrightarrow>
      inv s' \<and> view s' = (view s)(ob_id object \<mapsto>
        (scanObject (object_row object), sort_key ck_PartNumber chunks))"
    and put_failed: "put object chunks s = (Inl e, s') \<Longrightarrow> view s' = view s"
    and get_ok: "get b k s = (Inr x, s') \<Longrightarrow> view s (b, k) = Some x \<and> view s' = view s"
    and get_inv: "inv s \<Longrightarrow> get b k s = (r, s') \<Longrightarrow> inv s'"
    and get_found: "reliable \<Longrightarrow> view s (b, k) = Some x \<Longrightarrow> \<exists>s'. get b k s = (Inr x, s')"
    and get_missing: "reliable \<Longrightarrow> view s (b, k) = None \<Longrightarrow> \<exists>s'. get b k s = (Inl (Sent MetaErrNotFound), s')"
    and del_ok: "inv s \<Longrightarrow> del b k s = (Inr u, s') \<Longrightarrow> inv s' \<and> view s' = (view s)((b, k) := None)"
    and del_failed: "del b k s = (Inl e, s') \<Longrightarrow> view s' = view s"
begin

lemma get_after_put:
  assumes "inv s" "chunks_for object chunks" "put object chunks s = (Inr u, s')" "reliable"
  shows "\<exists>s''. get (ob_Bucket object) (ob_Key object) s' =
    (Inr (scanObject (object_row object), sort_key ck_PartNumber chunks), s'')"
  using put_ok [OF assms(1-3)] assms(4) by (intro get_found) (simp_all add: ob_id_def)

lemma get_other_after_put:
  assumes "inv s" "chunks_for object chunks" "put object chunks s = (Inr u, s')"
    "(b, k) \<noteq> ob_id object" "get b k s' = (Inr x, s'')"
  shows "view s (b, k) = Some x"
  using put_ok [OF assms(1-3)] get_ok [OF assms(5)] assms(4) by simp

lemma get_after_delete:
  assumes "inv s" "del b k s = (Inr u, s')" "reliable"
  shows "\<exists>s''. get b k s' = (Inl (Sent MetaErrNotFound), s'')"
  using del_ok [OF assms(1,2)] assms(3) by (intro get_missing) simp_all

text \<open>Whatever happens to a put, a key holds its old contents or its new ones, never a mixture.\<close>

lemma put_atomic:
  assumes "inv s" "chunks_for object chunks" "put object chunks s = (r, s')"
  shows "view s' bk = view s bk \<or>
    (bk = ob_id object \<and>
     view s' bk = Some (scanObject (object_row object), sort_key ck_PartNumber chunks))"
proof (cases r)
  case (Inl e)
  then show ?thesis using put_failed assms(3) by simp
next
  case (Inr u)
  then show ?thesis using put_ok [OF assms(1,2)] assms(3) by simp
qed

end

lemma fault_free_selectObject:
  "sq_fault env (tick s) = None \<Longrightarrow>
   selectObject env b k s =
     (case find_object b k (tabs s) of
        None \<Rightarrow> (Inl (Sent MetaErrNotFound), tick_up s) | Some r \<Rightarrow> (Inr (scanObject r), tick_up s))"
  by (simp add: selectObject_def sbind_def query_def exec_def sret_def sfail_def tick_up_def split: option.splits)

lemma fault_free_GetObject:
  assumes "\<forall>n. sq_fault env n = None"
  shows "fst (GetObject env b k s) =
    (case contents (tabs s) (b, k) of None \<Rightarrow> Inl (Sent MetaErrNotFound) | Some x \<Rightarrow> Inr x)"
  using assms
  by (simp add: GetObject_def in_tx_def sbind_def fault_free_selectObject query_def exec_def sret_def
      contents_def tick_up_def split: option.splits)

interpretation sqlite_map: object_map "PutObject env" "GetObject env" "DeleteObject env"
    "\<lambda>s. contents (tabs s)" "\<lambda>s. tables_wf (tabs s)" "\<forall>n. sq_fault env n = None"
  for env :: "'e sqlite_env_scheme"
proof (unfold_locales, goal_cases)
  case (1 s object chunks u s')
  then show ?case using wp_Inr [OF PutObject_ok 1(3)] by (simp add: contents_put wf_put)
next
  case 2 then show ?case using in_tx_Inl by (metis PutObject_body)
next
  case (3 b k s x s')
  then show ?case using wp_Inr [OF GetObject_ok 3] by simp
next
  case (4 s b k r s') then show ?case using reads_onlyD [OF reads_only_GetObject 4(2)] by simp
next
  case (5 s b k x) then show ?case using fault_free_GetObject [OF 5(1), of b k s] by (metis fst_conv option.simps(5) prod.collapse)
next
  case (6 s b k) then show ?case using fault_free_GetObject [OF 6(1), of b k s] by (metis option.simps(4) prod.collapse)
next
  case (7 s b k u s')
  then show ?case using wp_Inr [OF DeleteObject_ok 7(2)] by (auto simp: contents_del wf_del fun_eq_iff)
next
  case 8 then show ?case using in_tx_Inl by (metis DeleteObject_body)
qed

end
