(* ===== verification/MetaOps.thy ===== *)
theory MetaOps
  imports MetaStore
begin

text \<open>
  Listing by pages, copying, moving and renaming. The locale \<open>paged_listing\<close> is the contract of
  \<^verbatim>\<open>ListObjects\<close> with its cursor, \<open>listing_loop\<close> a client that reads page after page; both are
  interpreted on the SQLite model. The rest are the effects of the remaining operations on
  \<open>contents\<close> and the invariant.
\<close>

subsection \<open>Listing by pages\<close>

locale paged_listing =
  fixes page :: "string \<Rightarrow> nat \<Rightarrow> ('s, Object list) st"
    and rows :: "'s \<Rightarrow> Object list"
    and inv :: "'s \<Rightarrow> bool"
  assumes page_ok: "0 < n \<Longrightarrow> page a n s = (Inr os, s') \<Longrightarrow>
      os = take n (filter (\<lambda>r. a < ob_Key r) (rows s))"
    and page_rows: "page a n s = (r, s') \<Longrightarrow> rows s' = rows s"
    and page_inv: "inv s \<Longrightarrow> page a n s = (r, s') \<Longrightarrow> inv s'"
    and rows_sorted: "inv s \<Longrightarrow> sorted_wrt (<) (map ob_Key (rows s))"
begin

text \<open>In a list sorted by key, the rows behind the last row of a page are the rest of the list.\<close>

lemma filter_drop:
  "sorted_wrt (<) (map ob_Key rs) \<Longrightarrow> \<exists>m. filter (\<lambda>r. a < ob_Key r) rs = drop m rs"
proof (induction rs)
  case (Cons r rs)
  show ?case
  proof (cases "a < ob_Key r")
    case True
    with Cons.prems have "filter (\<lambda>r. a < ob_Key r) (r # rs) = drop 0 (r # rs)"
      by (auto simp: filter_id_conv intro: less_trans)
    then show ?thesis by blast
  next
    case False
    with Cons obtain m where "filter (\<lambda>r. a < ob_Key r) (r # rs) = drop (Suc m) (r # rs)" by auto
    then show ?thesis by blast
  qed
qed simp

lemma filter_after_last:
  assumes "sorted_wrt (<) (map ob_Key rs)" "0 < n" "rs \<noteq> []"
  shows "filter (\<lambda>r. ob_Key (last (take n rs)) < ob_Key r) rs = drop n rs"
proof -
  let ?k = "ob_Key (last (take n rs))"
  have ne: "take n rs \<noteq> []" using assms by simp
  have sw: "sorted_wrt (<) (map ob_Key (take n rs @ drop n rs))" using assms(1) by simp
  have "\<not> ?k < ob_Key r" if "r \<in> set (take n rs)" for r
  proof -
    have "sorted_wrt (<) (map ob_Key (butlast (take n rs) @ [last (take n rs)]))"
      using assms(1) ne by (simp add: take_map [symmetric] sorted_wrt_take)
    moreover have "r \<in> set (butlast (take n rs)) \<or> r = last (take n rs)"
      using that ne by (metis append_butlast_last_id in_set_conv_decomp_last rotate1.simps(2) set_ConsD set_rotate1)
    ultimately show ?thesis by (auto simp: sorted_wrt_append)
  qed
  moreover have "?k < ob_Key r" if "r \<in> set (drop n rs)" for r
  proof -
    have "\<forall>x \<in> set (map ob_Key (take n rs)). \<forall>y \<in> set (map ob_Key (drop n rs)). x < y"
      using sw unfolding map_append sorted_wrt_append by blast
    then show ?thesis using last_in_set [OF ne] that by simp
  qed
  ultimately have "filter (\<lambda>r. ?k < ob_Key r) (take n rs @ drop n rs) = drop n rs"
    by (simp only: filter_append) (simp add: filter_empty_conv filter_id_conv)
  then show ?thesis by simp
qed

text \<open>The next page starts where the page ended.\<close>

lemma resume:
  assumes "inv s" "0 < n" "page a n s = (Inr os, s')" "os \<noteq> []"
  shows "filter (\<lambda>r. ob_Key (last os) < ob_Key r) (rows s') = drop n (filter (\<lambda>r. a < ob_Key r) (rows s))"
proof -
  let ?rs = "filter (\<lambda>r. a < ob_Key r) (rows s)"
  have os: "os = take n ?rs" using page_ok assms by blast
  have ne: "?rs \<noteq> []" using assms(4) os by auto
  have sw: "sorted_wrt (<) (map ob_Key ?rs)"
    using filter_drop [OF rows_sorted [OF assms(1)], of a] rows_sorted [OF assms(1)]
    by (auto simp: drop_map [symmetric] sorted_wrt_drop)
  have "last os \<in> set ?rs" using os assms(4) by (metis in_set_takeD last_in_set)
  then have "a < ob_Key (last os)" by simp
  then have "filter (\<lambda>r. ob_Key (last os) < ob_Key r) (rows s) = filter (\<lambda>r. ob_Key (last os) < ob_Key r) ?rs"
    by (auto intro!: filter_cong)
  then show ?thesis using filter_after_last [OF sw assms(2) ne] os page_rows [OF assms(3)] by simp
qed

lemma page_sorted:
  assumes "inv s" "0 < n" "page a n s = (Inr os, s')"
  shows "sorted_wrt (<) (map ob_Key os)"
  using filter_drop [OF rows_sorted [OF assms(1)], of a] rows_sorted [OF assms(1)] page_ok [OF assms(2,3)]
  by (auto simp: drop_map [symmetric] take_map [symmetric] sorted_wrt_drop sorted_wrt_take)

end

locale listing_loop = paged_listing +
  fixes loop :: "string \<Rightarrow> Object list \<Rightarrow> ('s, Object list) st"
    and size_of_page :: nat
  assumes size_pos: "0 < size_of_page"
    and loop_eq: "loop a all s = (case page a size_of_page s of
        (Inl e, s') \<Rightarrow> (Inl e, s')
      | (Inr os, s') \<Rightarrow> if os = [] then (Inr all, s') else loop (ob_Key (last os)) (all @ os) s')"
begin

text \<open>What the loop collects is the whole listing behind the first cursor, in order.\<close>

lemma loop_all:
  "inv s \<Longrightarrow> loop a all s = (Inr res, s') \<Longrightarrow>
     res = all @ filter (\<lambda>r. a < ob_Key r) (rows s) \<and> rows s' = rows s \<and> inv s'"
proof (induction "length (filter (\<lambda>r. a < ob_Key r) (rows s))" arbitrary: a all s rule: less_induct)
  case less
  from less.prems(2) obtain os s1 where p: "page a size_of_page s = (Inr os, s1)"
    by (subst (asm) loop_eq) (auto split: prod.splits sum.splits)
  note os = page_ok [OF size_pos p] and r1 = page_rows [OF p] and i1 = page_inv [OF less.prems(1) p]
  show ?case
  proof (cases "os = []")
    case True
    then have "filter (\<lambda>r. a < ob_Key r) (rows s) = []" using os size_pos by simp
    then show ?thesis using less.prems(2) True p r1 i1 by (subst (asm) loop_eq) simp
  next
    case False
    note rest = resume [OF less.prems(1) size_pos p False]
    have l: "loop (ob_Key (last os)) (all @ os) s1 = (Inr res, s')"
      using less.prems(2) False p by (subst (asm) loop_eq) simp
    have "filter (\<lambda>r. a < ob_Key r) (rows s) \<noteq> []" using False os by auto
    then have "length (drop size_of_page (filter (\<lambda>r. a < ob_Key r) (rows s)))
        < length (filter (\<lambda>r. a < ob_Key r) (rows s))" using size_pos by (simp add: length_greater_0_conv [symmetric] del: length_greater_0_conv)
    then have "res = (all @ os) @ drop size_of_page (filter (\<lambda>r. a < ob_Key r) (rows s)) \<and>
        rows s' = rows s1 \<and> inv s'"
      using less.hyps [OF _ i1 l] rest by simp
    then show ?thesis using os r1 by simp
  qed
qed

end

text \<open>The rows of a listing, in the order of the keys.\<close>

definition prefix_listing :: "'e sqlite_env_scheme \<Rightarrow> string \<Rightarrow> string \<Rightarrow> tables \<Rightarrow> Object list" where
  "prefix_listing env b p t = map scanObject (sel_objects (like_pred env b p) t)"

lemma sorted_sel_objects:
  assumes "tables_wf t" "\<And>bk. P bk \<Longrightarrow> fst bk = b"
  shows "sorted_wrt (<) (map ob_Key (sel_objects P t))"
proof -
  have "distinct (map ob_id (filter (\<lambda>r. P (ob_id r)) (tb_objects t)))"
    using assms(1) by (simp add: tables_wf_def distinct_map_filter)
  moreover have "map ob_id (filter (\<lambda>r. P (ob_id r)) rs) =
      map (Pair b) (map ob_Key (filter (\<lambda>r. P (ob_id r)) rs))" for rs
    using assms(2) by (auto simp: ob_id_def)
  ultimately have "distinct (map ob_Key (filter (\<lambda>r. P (ob_id r)) (tb_objects t)))"
    by (auto simp: distinct_map intro: inj_on_imageI2)
  then have "distinct (map ob_Key (sel_objects P t))"
    unfolding sel_objects_def by (metis (no_types, lifting) distinct_map distinct_sort set_sort)
  then show ?thesis by (simp add: strict_sorted_iff sel_objects_def)
qed

lemma sel_objects_filter:
  "sel_objects (\<lambda>bk. P bk \<and> a < snd bk) t = filter (\<lambda>r. a < ob_Key r) (sel_objects P t)"
  by (simp add: sel_objects_def filter_sort ob_id_def conj_commute)

lemma filter_scan: "filter (\<lambda>r. a < ob_Key r) (map scanObject rs) = map scanObject (filter (\<lambda>r. a < ob_Key r) rs)"
  by (simp add: filter_map o_def)

interpretation sqlite_pages: paged_listing
    "\<lambda>a n. ListObjects env \<lparr>lq_Bucket = b, lq_Prefix = p, lq_AfterKey = a, lq_Limit = int n\<rparr>"
    "\<lambda>s. prefix_listing env b p (tabs s)" "\<lambda>s. tables_wf (tabs s)"
  for env :: "'e sqlite_env_scheme" and b p
proof (unfold_locales, goal_cases)
  case (1 n a s os s')
  from ListObjects_page(2) [OF 1(2)] 1(1) show ?case
    by (simp add: prefix_listing_def rows_after_def sel_objects_filter filter_scan take_map)
next
  case (2 a n s r s') then show ?case using reads_onlyD [OF reads_only_ListObjects 2] by simp
next
  case (3 s a n r s') then show ?case using reads_onlyD [OF reads_only_ListObjects 3(2)] by simp
next
  case (4 s)
  then show ?case using sorted_sel_objects [OF 4, of "like_pred env b p" b]
    by (simp add: prefix_listing_def like_pred_def comp_def)
qed

interpretation sqlite_all: listing_loop
    "\<lambda>a n. ListObjects env \<lparr>lq_Bucket = b, lq_Prefix = p, lq_AfterKey = a, lq_Limit = int n\<rparr>"
    "\<lambda>s. prefix_listing env b p (tabs s)" "\<lambda>s. tables_wf (tabs s)" "listAllLoop env b p" 1000
  for env :: "'e sqlite_env_scheme" and b p
  by unfold_locales (simp_all add: listAllLoop.simps)

subsection \<open>A failed operation changes nothing, a successful one keeps the invariant\<close>

lemma exec_failed: "exec env q s = (Inl e, s') \<Longrightarrow> tabs s' = tabs s"
  by (drule exec_Inl) simp

lemma failed_unchanged:
  "PutObject env object chunks s = (Inl e, s') \<Longrightarrow> tabs s' = tabs s"
  "DeleteObject env b k s = (Inl e, s') \<Longrightarrow> tabs s' = tabs s"
  "DeletePrefix env b p s = (Inl e, s') \<Longrightarrow> tabs s' = tabs s"
  "DeleteBucket env b s = (Inl e, s') \<Longrightarrow> tabs s' = tabs s"
  "CopyObject env b k k' ow s = (Inl e, s') \<Longrightarrow> tabs s' = tabs s"
  "MoveObject env b k k' ow s = (Inl e, s') \<Longrightarrow> tabs s' = tabs s"
  "CopyPrefix env b p p' ow s = (Inl e, s') \<Longrightarrow> tabs s' = tabs s"
  "MovePrefix env b p p' ow s = (Inl e, s') \<Longrightarrow> tabs s' = tabs s"
  "RenameBucket env b b' s = (Inl e, s') \<Longrightarrow> tabs s' = tabs s"
  "UpsertBucket env bucket s = (Inl e, s') \<Longrightarrow> tabs s' = tabs s"
  "DisableBucketsExcept env names s = (Inl e, s') \<Longrightarrow> tabs s' = tabs s"
  by (auto simp: PutObject_body DeleteObject_body DeletePrefix_def DeleteBucket_def CopyObject_def
      MoveObject_def CopyPrefix_def MovePrefix_def RenameBucket_def UpsertBucket_def DisableBucketsExcept_def
      split: if_splits dest: in_tx_Inl exec_failed)

lemma keeps_wf:
  fixes m :: "('z sqlite_scheme, 'a) st"
  assumes "\<And>s e s'. m s = (Inl e, s') \<Longrightarrow> tabs s' = tabs s" "\<And>s. ok m (R s) s"
    "\<And>s x s'. R s x s' \<Longrightarrow> tables_wf (tabs s) \<Longrightarrow> tables_wf (tabs s')"
  shows "keeps (\<lambda>s. tables_wf (tabs s)) m"
  unfolding keeps_def
proof (intro allI impI)
  fix s :: "'z sqlite_scheme" assume wf: "tables_wf (tabs s)"
  obtain r s' where m: "m s = (r, s')" by fastforce
  show "tables_wf (tabs (snd (m s)))"
  proof (cases r)
    case (Inl e) with m wf assms(1) [of s e s'] show ?thesis by simp
  next
    case (Inr x)
    with m have "R s x s'" by (intro wp_Inr [OF assms(2) [of s]]) simp
    with wf m show ?thesis by (auto dest: assms(3))
  qed
qed

lemma keeps_wf_reads_only: "reads_only m \<Longrightarrow> keeps (\<lambda>s. tables_wf (tabs s)) m"
  by (simp add: keeps_def reads_only_def)

lemma wf_copy:
  assumes "tables_wf t" "contents t (b, k) = Some (r, cs)"
  shows "tables_wf (put_tables (copyOf r b' k' now) (copyChunksForKey cs b' k') t)"
  using contents_chunks(1) [OF assms] by (intro wf_put assms(1) chunks_for_copy)

lemma wf_copy_row: "tables_wf t \<Longrightarrow> tables_wf (copy_row b p d now r t)"
  unfolding copy_row_def by (intro wf_put chunks_for_copy sel_chunks_for)

lemma wf_copy_tables: "tables_wf t \<Longrightarrow> tables_wf (copy_tables b p d now rs t)"
  by (induction rs arbitrary: t) (simp_all add: wf_copy_row)

lemma wf_bucket_filter: "tables_wf t \<Longrightarrow> tables_wf (t\<lparr>tb_buckets := filter Q (tb_buckets t)\<rparr>)"
  by (simp add: tables_wf_def distinct_map_filter)

lemma wf_PutObject: "chunks_for object chunks \<Longrightarrow> keeps (\<lambda>s. tables_wf (tabs s)) (PutObject env object chunks)"
  by (rule keeps_wf [OF failed_unchanged(1) PutObject_ok]) (auto intro: wf_put)

lemma wf_DeleteObject: "keeps (\<lambda>s. tables_wf (tabs s)) (DeleteObject env b k)"
  by (rule keeps_wf [OF failed_unchanged(2) DeleteObject_ok]) (auto intro: wf_del)

lemma wf_DeletePrefix: "keeps (\<lambda>s. tables_wf (tabs s)) (DeletePrefix env b p)"
  by (rule keeps_wf [OF failed_unchanged(3) DeletePrefix_ok]) (auto intro: wf_del)

lemma wf_DeleteBucket: "keeps (\<lambda>s. tables_wf (tabs s)) (DeleteBucket env b)"
proof (rule keeps_wf [OF failed_unchanged(4) DeleteBucket_ok])
  fix s s' :: "'a sqlite_scheme" and x :: unit
  assume "tabs s' = (del_tables (\<lambda>bk. fst bk = b) (tabs s))
       \<lparr>tb_buckets := filter (\<lambda>r. bk_Name r \<noteq> b) (tb_buckets (tabs s))\<rparr>" "tables_wf (tabs s)"
  then show "tables_wf (tabs s')"
    using wf_bucket_filter [OF wf_del, of "tabs s" "\<lambda>r. bk_Name r \<noteq> b" "\<lambda>bk. fst bk = b"]
    by (simp add: del_tables_def)
qed

lemma wf_CopyObject: "keeps (\<lambda>s. tables_wf (tabs s)) (CopyObject env b k k' ow)"
  by (rule keeps_wf [OF failed_unchanged(5) CopyObject_ok]) (auto intro: wf_copy)

lemma wf_MoveObject: "keeps (\<lambda>s. tables_wf (tabs s)) (MoveObject env b k k' ow)"
  by (rule keeps_wf [OF failed_unchanged(6) MoveObject_ok]) (auto intro!: wf_del intro: wf_copy)

lemma wf_CopyPrefix: "keeps (\<lambda>s. tables_wf (tabs s)) (CopyPrefix env b p p' ow)"
  by (rule keeps_wf [OF failed_unchanged(7) CopyPrefix_ok]) (auto intro: wf_copy_tables)

lemma wf_MovePrefix: "keeps (\<lambda>s. tables_wf (tabs s)) (MovePrefix env b p p' ow)"
  by (rule keeps_wf [OF failed_unchanged(8) MovePrefix_ok]) (auto intro!: wf_del wf_copy_tables)

lemma wf_RenameBucket: "keeps (\<lambda>s. tables_wf (tabs s)) (RenameBucket env b b')"
  by (rule keeps_wf [OF failed_unchanged(9) RenameBucket_ok]) (auto intro: wf_rename)

lemma wf_UpsertBucket: "keeps (\<lambda>s. tables_wf (tabs s)) (UpsertBucket env bucket)"
proof (rule keeps_wf [OF failed_unchanged(10)])
  show "ok (UpsertBucket env bucket) (\<lambda>_ s'. tabs s' =
      (tabs s)\<lparr>tb_buckets := upsert_by bk_Name (bucket_row bucket) (tb_buckets (tabs s))\<rparr>) s"
    for s :: "'a sqlite_scheme"
    unfolding UpsertBucket_def by (auto simp: sql_upsert_bucket_def intro!: ok_exec)
qed (auto simp: tables_wf_def distinct_upsert_by)

lemma wf_DisableBucketsExcept: "keeps (\<lambda>s. tables_wf (tabs s)) (DisableBucketsExcept env names)"
proof (rule keeps_wf [OF failed_unchanged(11)])
  show "ok (DisableBucketsExcept env names) (\<lambda>_ s'. map bk_Name (tb_buckets (tabs s')) = map bk_Name (tb_buckets (tabs s))
      \<and> tb_objects (tabs s') = tb_objects (tabs s) \<and> tb_chunks (tabs s') = tb_chunks (tabs s)) s"
    for s :: "'a sqlite_scheme"
    unfolding DisableBucketsExcept_def by (auto simp: sql_disable_buckets_def intro!: ok_exec)
qed (auto simp: tables_wf_def)

subsection \<open>Copying, moving and renaming on the contents\<close>

text \<open>The object and the chunks under a copied key.\<close>

definition copied :: "string \<Rightarrow> string \<Rightarrow> int \<Rightarrow> Object \<times> Chunk list \<Rightarrow> Object \<times> Chunk list" where
  "copied b k now rc = (scanObject (object_row (copyOf (fst rc) b k now)), copyChunksForKey (snd rc) b k)"

lemma contents_copy:
  assumes "tables_wf t" "contents t (b, k) = Some (r, cs)"
  shows "contents (put_tables (copyOf r b' k' now) (copyChunksForKey cs b' k') t) =
    (contents t)((b', k') \<mapsto> copied b' k' now (r, cs))"
  using contents_chunks(1,2) [OF assms]
  by (simp add: contents_put chunks_for_copy sort_copyChunks copied_def)

lemma contents_CopyObject:
  assumes "tables_wf (tabs s)" "CopyObject env b k k' ow s = (Inr created, s')"
  shows "\<exists>rc now. contents (tabs s) (b, k) = Some rc \<and> created = (contents (tabs s) (b, k') = None) \<and>
    (created \<or> ow) \<and> contents (tabs s') = (contents (tabs s))((b, k') \<mapsto> copied b k' now rc)"
proof -
  from wp_Inr [OF CopyObject_ok assms(2)] obtain r cs now where
    "contents (tabs s) (b, k) = Some (r, cs)" "has_object (tabs s) b k' \<longrightarrow> ow"
    "created = (\<not> has_object (tabs s) b k')"
    "tabs s' = put_tables (copyOf r b k' now) (copyChunksForKey cs b k') (tabs s)" by blast
  with contents_copy [OF assms(1), of b k r cs b k' now] show ?thesis
    unfolding has_object_def by (intro exI [of _ "(r, cs)"] exI [of _ now]) (simp del: not_None_eq, blast)
qed

lemma contents_MoveObject:
  assumes "tables_wf (tabs s)" "MoveObject env b k k' ow s = (Inr created, s')"
  shows "k \<noteq> k' \<and> (\<exists>rc now. contents (tabs s) (b, k) = Some rc \<and>
    created = (contents (tabs s) (b, k') = None) \<and> (created \<or> ow) \<and>
    contents (tabs s') = (contents (tabs s))((b, k') \<mapsto> copied b k' now rc, (b, k) := None))"
proof -
  from wp_Inr [OF MoveObject_ok assms(2)] obtain r cs now where
    "k \<noteq> k'" "contents (tabs s) (b, k) = Some (r, cs)" "has_object (tabs s) b k' \<longrightarrow> ow"
    "created = (\<not> has_object (tabs s) b k')"
    "tabs s' = del_tables (\<lambda>bk. bk = (b, k)) (put_tables (copyOf r b k' now) (copyChunksForKey cs b k') (tabs s))"
    by blast
  with contents_copy [OF assms(1), of b k r cs b k' now] show ?thesis
    unfolding has_object_def
    by (intro conjI exI [of _ "(r, cs)"] exI [of _ now]) 
      (simp_all add: contents_del fun_eq_iff del: not_None_eq, blast+)
qed

text \<open>A prefix copy that writes no key it still has to read: each source row arrives under its new
  key and nothing else changes.\<close>

definition dst_key :: "string \<Rightarrow> string \<Rightarrow> Object \<Rightarrow> string" where
  "dst_key p d r = d @ TrimPrefix (ob_Key r) p"

definition copies :: "string \<Rightarrow> string \<Rightarrow> string \<Rightarrow> int \<Rightarrow> Object list \<Rightarrow> tables \<Rightarrow>
    ((string \<times> string) \<times> (Object \<times> Chunk list)) list" where
  "copies b p d now rs t =
     map (\<lambda>r. ((b, dst_key p d r), copied b (dst_key p d r) now (r, sel_chunks b (ob_Key r) t))) rs"

lemma copy_row_facts:
  assumes "tables_wf t"
  shows "contents (copy_row b p d now r t) =
      (contents t)((b, dst_key p d r) \<mapsto> copied b (dst_key p d r) now (r, sel_chunks b (ob_Key r) t))"
    and "k \<noteq> dst_key p d r \<Longrightarrow> sel_chunks b k (copy_row b p d now r t) = sel_chunks b k t"
  using chunks_for_copy [OF sel_chunks_for(1) [OF assms]] sorted_sel_chunks [of b "ob_Key r" t]
  by (simp_all add: copy_row_def dst_key_def contents_put sel_chunks_put copied_def sort_copyChunks)

lemma contents_copy_tables:
  assumes "tables_wf t" "distinct (map (dst_key p d) rs)" "dst_key p d ` set rs \<inter> ob_Key ` set rs = {}"
  shows "contents (copy_tables b p d now rs t) = contents t ++ map_of (copies b p d now rs t)"
  using assms
proof (induction rs arbitrary: t)
  case (Cons r rs)
  let ?t = "copy_row b p d now r t"
  have eq: "copies b p d now rs ?t = copies b p d now rs t"
  proof -
    have "sel_chunks b (ob_Key x) ?t = sel_chunks b (ob_Key x) t" if "x \<in> set rs" for x
    proof (rule copy_row_facts(2) [OF Cons.prems(1)])
      have "dst_key p d r \<in> dst_key p d ` set (r # rs)" "ob_Key x \<in> ob_Key ` set (r # rs)"
        using that by simp_all
      with Cons.prems(3) show "ob_Key x \<noteq> dst_key p d r" unfolding disjoint_iff by metis
    qed
    then show ?thesis by (simp add: copies_def)
  qed
  have new: "(b, dst_key p d r) \<notin> dom (map_of (copies b p d now rs t))"
    using Cons.prems(2) by (auto simp: copies_def dom_map_of_conv_image_fst)
  have "dst_key p d ` set rs \<inter> ob_Key ` set rs \<subseteq> dst_key p d ` set (r # rs) \<inter> ob_Key ` set (r # rs)"
    by (intro Int_mono image_mono) (simp_all add: subset_insertI)
  then have dis: "dst_key p d ` set rs \<inter> ob_Key ` set rs = {}" using Cons.prems(3) by (simp only: subset_empty)
  have dst: "distinct (map (dst_key p d) rs)" using Cons.prems(2) by (simp only: list.map distinct.simps)
  have "contents (copy_tables b p d now rs ?t) = contents ?t ++ map_of (copies b p d now rs ?t)"
    by (rule Cons.IH [OF wf_copy_row [OF Cons.prems(1)] dst dis])
  also have "\<dots> = contents t ++ map_of (copies b p d now (r # rs) t)"
    using new unfolding eq copy_row_facts(1) [OF Cons.prems(1)]
    by (simp add: copies_def map_add_upd_left)
  finally show ?case by simp
qed (simp add: copies_def)

text \<open>A rename carries every object of the bucket over and leaves the other buckets alone.\<close>

definition renamed :: "string \<Rightarrow> Object \<times> Chunk list \<Rightarrow> Object \<times> Chunk list" where
  "renamed new rc = ((fst rc)\<lparr>ob_Bucket := new\<rparr>, map (\<lambda>c. c\<lparr>ck_Bucket := new\<rparr>) (snd rc))"

lemma sort_key_map:
  assumes "\<And>x. f (g x) = f x"
  shows "sort_key f (map g xs) = map g (sort_key f xs)"
proof -
  have "insort_key f (g x) (map g ys) = map g (insort_key f x ys)" for x ys
    by (induction ys) (simp_all add: assms)
  then show ?thesis by (induction xs) simp_all
qed

lemma find_object_wf:
  "tables_wf t \<Longrightarrow> find_object b k t = Some r \<longleftrightarrow> r \<in> set (tb_objects t) \<and> ob_id r = (b, k)"
  unfolding find_object_def by (rule find_Some_distinct) (simp add: tables_wf_def)

lemma find_object_None: "find_object b k t = None \<longleftrightarrow> (\<forall>r \<in> set (tb_objects t). ob_id r \<noteq> (b, k))"
  unfolding find_object_def find_None_key by (metis imageE image_eqI)

lemma no_chunks_without_object:
  "tables_wf t \<Longrightarrow> find_object b k t = None \<Longrightarrow> c \<in> set (tb_chunks t) \<Longrightarrow> ck_id c \<noteq> (b, k)"
  unfolding find_object_def find_None_key tables_wf_def by (metis image_eqI subsetD)

abbreviation moved_chunk :: "string \<Rightarrow> string \<Rightarrow> Chunk \<Rightarrow> Chunk" where
  "moved_chunk old new c \<equiv> (if ck_Bucket c = old then c\<lparr>ck_Bucket := new\<rparr> else c)"

lemma sel_chunks_rename:
  "sel_chunks b k (rename_tables old new t) =
     map (moved_chunk old new)
       (sort_key ck_PartNumber (filter (\<lambda>c. ck_id (moved_chunk old new c) = (b, k)) (tb_chunks t)))"
  unfolding sel_chunks_def rename_tables_def tables.simps filter_map o_def
  by (rule sort_key_map) simp

lemma find_object_rename:
  assumes "tables_wf t" "objects_free old new t" "chunks_free old new t" "count_buckets new t = 0" "old \<noteq> new"
  shows "find_object b k (rename_tables old new t) =
    (if b = old then None
     else if b = new \<and> find_object old k t \<noteq> None
     then map_option (\<lambda>r. r\<lparr>ob_Bucket := new\<rparr>) (find_object old k t)
     else find_object b k t)"
proof -
  note iff = find_object_wf [OF wf_rename [OF assms(1-4)]] and iff0 = find_object_wf [OF assms(1)]
  have mem: "r' \<in> set (tb_objects (rename_tables old new t)) \<longleftrightarrow>
      (\<exists>r \<in> set (tb_objects t). r' = (if ob_Bucket r = old then r\<lparr>ob_Bucket := new\<rparr> else r))" for r'
    unfolding rename_tables_def tables.simps set_map by blast
  consider "b = old" | "b \<noteq> old" "b = new" "find_object old k t \<noteq> None"
    | "b \<noteq> old" "\<not> (b = new \<and> find_object old k t \<noteq> None)" by blast
  then show ?thesis
  proof cases
    case 1
    have "ob_id r \<noteq> (b, k)" if "r \<in> set (tb_objects (rename_tables old new t))" for r
    proof -
      from that obtain r0 where r0: "r = (if ob_Bucket r0 = old then r0\<lparr>ob_Bucket := new\<rparr> else r0)"
        unfolding mem by blast
      have "ob_Bucket r \<noteq> old" unfolding r0 using assms(5) by simp
      then show ?thesis using 1 by (simp add: ob_id_def)
    qed
    then have "find_object b k (rename_tables old new t) = None" by (simp only: find_object_None) blast
    then show ?thesis using 1 by simp
  next
    case 2
    then obtain r where r: "find_object old k t = Some r" by blast
    then have "find_object b k (rename_tables old new t) = Some (r\<lparr>ob_Bucket := new\<rparr>)"
      using 2 unfolding iff mem iff0 by (auto simp: ob_id_def intro!: bexI [of _ r])
    then show ?thesis using 2 r by simp
  next
    case 3
    have "find_object b k (rename_tables old new t) = Some r \<longleftrightarrow> find_object b k t = Some r" for r
    proof -
      have "r0 \<in> set (tb_objects t) \<Longrightarrow> ob_Bucket r0 = old \<Longrightarrow> ob_Key r0 = k \<Longrightarrow> b \<noteq> new" for r0
        using 3 find_object_None [of old k t] by (auto simp: ob_id_def)
      then show ?thesis unfolding iff mem iff0 using 3(1) by (auto simp: ob_id_def) blast
    qed
    then show ?thesis using 3 by (metis option.exhaust)
  qed
qed

lemma contents_rename:
  assumes "tables_wf t" "objects_free old new t" "chunks_free old new t" "count_buckets new t = 0" "old \<noteq> new"
  shows "contents (rename_tables old new t) (b, k) =
    (if b = old then None
     else if b = new \<and> contents t (old, k) \<noteq> None then map_option (renamed new) (contents t (old, k))
     else contents t (b, k))"
proof -
  let ?g = "moved_chunk old new"
  have gid: "ck_id (?g c) = (if ck_Bucket c = old then (new, ck_Key c) else ck_id c)" for c
    by (simp add: ck_id_def)
  consider "b = old" | r where "b = new" "find_object old k t = Some r"
    | "b \<noteq> old" "\<not> (b = new \<and> find_object old k t \<noteq> None)" using assms(5) by blast
  then show ?thesis
  proof cases
    case 1 then show ?thesis by (simp add: contents_def find_object_rename [OF assms])
  next
    case 2
    have "(new, k) \<notin> ob_id ` set (tb_objects t)"
      using assms(2) 2(2) unfolding objects_free_def find_object_wf [OF assms(1)] by (auto simp: ob_id_def)
    then have none: "find_object new k t = None" by (simp add: find_object_def find_None_key)
    have f: "filter (\<lambda>c. ck_id (?g c) = (new, k)) (tb_chunks t) = filter (\<lambda>c. ck_id c = (old, k)) (tb_chunks t)"
      using no_chunks_without_object [OF assms(1) none]
      by (intro filter_cong refl) (auto simp: ck_id_def)
    have "map ?g (sel_chunks old k t) = map (\<lambda>c. c\<lparr>ck_Bucket := new\<rparr>) (sel_chunks old k t)"
      by (rule map_cong) (auto simp: sel_chunks_def ck_id_def)
    then show ?thesis using 2 assms(5)
      by (simp add: contents_def find_object_rename [OF assms] sel_chunks_rename f renamed_def
          sel_chunks_def [symmetric] scanObject_def)
  next
    case 3
    have "filter (\<lambda>c. ck_id (?g c) = (b, k)) (tb_chunks t) = filter (\<lambda>c. ck_id c = (b, k)) (tb_chunks t)"
      using no_chunks_without_object [OF assms(1), of old k] 3
      by (intro filter_cong refl) (auto simp: ck_id_def)
    moreover have "map ?g (sel_chunks b k t) = sel_chunks b k t"
      by (rule map_idI) (use 3(1) in \<open>auto simp: sel_chunks_def ck_id_def\<close>)
    ultimately show ?thesis using 3 assms(5)
      by (auto simp: contents_def find_object_rename [OF assms] sel_chunks_rename sel_chunks_def [symmetric])
  qed
qed

text \<open>\<open>LIKE\<close> picks the keys under the prefix, when no key of the bucket differs from one of them
  only in the case of a letter.\<close>

definition like_exact :: "'e sqlite_env_scheme \<Rightarrow> string \<Rightarrow> string \<Rightarrow> tables \<Rightarrow> bool" where
  "like_exact env b p t \<longleftrightarrow>
     (\<forall>r \<in> set (tb_objects t). ob_Bucket r = b \<longrightarrow> like_pred env b p (b, ob_Key r) = HasPrefix (ob_Key r) p)"

lemma prefix_rows_iff:
  assumes "tables_wf t" "like_exact env b p t"
  shows "r \<in> set (prefix_rows env b p t) \<longleftrightarrow>
    HasPrefix (ob_Key r) p \<and> contents t (b, ob_Key r) = Some (r, sel_chunks b (ob_Key r) t)"
proof -
  have "r \<in> set (prefix_rows env b p t) \<longleftrightarrow>
      (\<exists>x \<in> set (tb_objects t). like_pred env b p (ob_id x) \<and> r = scanObject x)"
    by (auto simp: prefix_rows_def sel_objects_def)
  also have "\<dots> \<longleftrightarrow> (\<exists>x \<in> set (tb_objects t). ob_Bucket x = b \<and> HasPrefix (ob_Key x) p \<and> r = scanObject x)"
    using assms(2) unfolding like_exact_def by (auto simp: ob_id_def like_pred_def)
  also have "\<dots> \<longleftrightarrow> HasPrefix (ob_Key r) p \<and> (\<exists>x. find_object b (ob_Key r) t = Some x \<and> r = scanObject x)"
    unfolding find_object_wf [OF assms(1)] by (simp add: ob_id_def) (metis ob_Key_scan)
  finally show ?thesis by (auto simp: contents_def)
qed

lemma HasPrefix_split: "HasPrefix s p \<Longrightarrow> s = p @ drop (length p) s"
  by (auto simp: HasPrefix_iff)

lemma dst_key_prefix: "HasPrefix (ob_Key r) p \<Longrightarrow> dst_key p d r = d @ drop (length p) (ob_Key r)"
  by (simp add: dst_key_def TrimPrefix_def)

lemma distinct_prefix_rows:
  assumes "tables_wf t" "like_exact env b p t"
  shows "distinct (map (dst_key p d) (prefix_rows env b p t))"
proof -
  have "sorted_wrt (<) (map ob_Key (prefix_rows env b p t))"
    using sorted_sel_objects [OF assms(1), of "like_pred env b p" b]
    by (simp add: prefix_rows_def like_pred_def comp_def)
  then have "distinct (map ob_Key (prefix_rows env b p t))" by (simp add: strict_sorted_iff)
  moreover have "inj_on (dst_key p d) (set (prefix_rows env b p t))"
  proof (rule inj_onI)
    fix r r' assume m: "r \<in> set (prefix_rows env b p t)" "r' \<in> set (prefix_rows env b p t)"
      and e: "dst_key p d r = dst_key p d r'"
    from m have h: "HasPrefix (ob_Key r) p" "HasPrefix (ob_Key r') p"
      "contents t (b, ob_Key r) = Some (r, sel_chunks b (ob_Key r) t)"
      "contents t (b, ob_Key r') = Some (r', sel_chunks b (ob_Key r') t)"
      by (simp_all add: prefix_rows_iff [OF assms])
    from e have dr: "drop (length p) (ob_Key r) = drop (length p) (ob_Key r')"
      unfolding dst_key_prefix [OF h(1)] dst_key_prefix [OF h(2)] by (simp only: same_append_eq)
    have "ob_Key r = p @ drop (length p) (ob_Key r')"
      unfolding dr [symmetric] by (rule HasPrefix_split [OF h(1)])
    also have "\<dots> = ob_Key r'" by (rule HasPrefix_split [OF h(2), symmetric])
    finally have "ob_Key r = ob_Key r'" .
    with h(3,4) show "r = r'" by (metis option.inject prod.inject)
  qed
  ultimately show ?thesis by (auto simp: distinct_map)
qed

lemma map_of_copies:
  assumes "tables_wf t" "like_exact env b p t"
  shows "map_of (copies b p d now (prefix_rows env b p t) t) (b, k) =
    (if HasPrefix k d then map_option (copied b k now) (contents t (b, p @ drop (length d) k)) else None)"
    (is "?m (b, k) = ?rhs")
proof -
  let ?rs = "prefix_rows env b p t"
  have fst_eq: "map fst (copies b p d now ?rs t) = map (Pair b) (map (dst_key p d) ?rs)"
    by (simp add: copies_def)
  have dist: "distinct (map fst (copies b p d now ?rs t))"
    unfolding fst_eq distinct_map using distinct_prefix_rows [OF assms, of d, unfolded distinct_map]
    by (auto simp: inj_on_def)
  have mem: "((b, k), v) \<in> set (copies b p d now ?rs t) \<longleftrightarrow>
      (\<exists>r \<in> set ?rs. k = dst_key p d r \<and> v = copied b k now (r, sel_chunks b (ob_Key r) t))" for v
    by (auto simp: copies_def)
  have "?m (b, k) = Some v \<longleftrightarrow> ?rhs = Some v" for v
  proof -
    have "?m (b, k) = Some v \<longleftrightarrow>
        (\<exists>r \<in> set ?rs. k = dst_key p d r \<and> v = copied b k now (r, sel_chunks b (ob_Key r) t))"
      unfolding map_of_eq_Some_iff [OF dist] mem ..
    also have "\<dots> \<longleftrightarrow> ?rhs = Some v"
    proof
      assume "\<exists>r \<in> set ?rs. k = dst_key p d r \<and> v = copied b k now (r, sel_chunks b (ob_Key r) t)"
      then obtain r where r: "r \<in> set ?rs" "k = dst_key p d r" "v = copied b k now (r, sel_chunks b (ob_Key r) t)"
        by blast
      from r(1) have h: "HasPrefix (ob_Key r) p"
        "contents t (b, ob_Key r) = Some (r, sel_chunks b (ob_Key r) t)"
        by (simp_all add: prefix_rows_iff [OF assms])
      have k: "k = d @ drop (length p) (ob_Key r)" using r(2) unfolding dst_key_prefix [OF h(1)] .
      then have key: "p @ drop (length d) k = ob_Key r" using HasPrefix_split [OF h(1)] by simp
      have "HasPrefix k d" using k by (simp add: HasPrefix_def)
      then show "?rhs = Some v" using h(2) r(3) key by simp
    next
      assume a: "?rhs = Some v"
      then have d: "HasPrefix k d" by (simp split: if_splits)
      with a obtain rc where c: "contents t (b, p @ drop (length d) k) = Some rc" and v: "v = copied b k now rc"
        by auto
      let ?key = "p @ drop (length d) k"
      from c obtain r where r: "rc = (r, sel_chunks b ?key t)" "ob_Key r = ?key"
        by (auto simp: contents_def find_object_wf [OF assms(1)] ob_id_def)
      have hp: "HasPrefix (ob_Key r) p" using r(2) by (simp add: HasPrefix_def)
      have "r \<in> set ?rs" unfolding prefix_rows_iff [OF assms] using c r hp by simp
      moreover have "k = dst_key p d r"
        unfolding dst_key_prefix [OF hp] using r(2) HasPrefix_split [OF d] by simp
      ultimately show "\<exists>r \<in> set ?rs. k = dst_key p d r \<and> v = copied b k now (r, sel_chunks b (ob_Key r) t)"
        using r v by auto
    qed
    finally show ?thesis .
  qed
  then show ?thesis by (metis option.exhaust)
qed

text \<open>Moving a tree: every object below the old prefix is found under the new one and nowhere else;
  all other objects stay as they are.\<close>

definition key_apart :: "string \<Rightarrow> string \<Rightarrow> bool" where
  "key_apart p d \<longleftrightarrow> \<not> ci_prefix p d \<and> \<not> ci_prefix d p"

lemma key_apart_append: "key_apart p d \<Longrightarrow> \<not> ci_prefix p (d @ x)"
  by (auto simp: key_apart_def ci_prefix_def ToLower_def HasPrefix_iff append_eq_append_conv2) metis

lemma like_pred_law: "like_operator (sq_like env) \<Longrightarrow> like_pred env b p (b', k) = (b' = b \<and> ci_prefix p k)"
  by (simp add: like_pred_def like_operator.like_prefix)

lemma contents_MovePrefix:
  assumes wf: "tables_wf (tabs s)" and law: "like_operator (sq_like env)"
    and exact: "like_exact env b p (tabs s)" and apart: "key_apart p d"
    and run: "MovePrefix env b p d ow s = (Inr created, s')"
  shows "\<exists>now. \<forall>b' k. contents (tabs s') (b', k) =
    (if b' \<noteq> b then contents (tabs s) (b', k)
     else if HasPrefix k p then None
     else if HasPrefix k d \<and> contents (tabs s) (b, p @ drop (length d) k) \<noteq> None
     then map_option (copied b k now) (contents (tabs s) (b, p @ drop (length d) k))
     else contents (tabs s) (b, k))"
proof -
  let ?t = "tabs s" and ?rs = "prefix_rows env b p (tabs s)"
  from wp_Inr [OF MovePrefix_ok run] obtain now where
    t': "tabs s' = del_tables (like_pred env b p) (copy_tables b p d now ?rs ?t)" by blast
  have lp: "like_pred env b p (b', k) = (b' = b \<and> ci_prefix p k)" for b' k by (rule like_pred_law [OF law])
  have hp: "HasPrefix (ob_Key r) p" if "r \<in> set ?rs" for r
    using that unfolding prefix_rows_iff [OF wf exact] by simp
  have "dst_key p d r \<noteq> ob_Key r'" if "r \<in> set ?rs" "r' \<in> set ?rs" for r r'
    using key_apart_append [OF apart] ci_prefix_refl [OF hp [OF that(2)]] dst_key_prefix [OF hp [OF that(1)]]
    by metis
  then have "dst_key p d ` set ?rs \<inter> ob_Key ` set ?rs = {}" by (auto simp: disjoint_iff)
  note cp = contents_copy_tables [OF wf distinct_prefix_rows [OF wf exact] this, of b now]
  have other: "map_of (copies b p d now ?rs ?t) (b', k) = None" if "b' \<noteq> b" for b' k
    using that by (auto simp: map_of_eq_None_iff copies_def)
  have pd: "HasPrefix k d \<Longrightarrow> \<not> ci_prefix p k" for k using key_apart_append [OF apart] by (auto simp: HasPrefix_iff)
  have pk: "contents ?t (b, k) = Some rc \<Longrightarrow> ci_prefix p k = HasPrefix k p" for k rc
    using exact unfolding like_exact_def lp by (auto simp: contents_def find_object_wf [OF wf] ob_id_def)
  have "contents (tabs s') (b', k) =
    (if b' \<noteq> b then contents ?t (b', k)
     else if HasPrefix k p then None
     else if HasPrefix k d \<and> contents ?t (b, p @ drop (length d) k) \<noteq> None
     then map_option (copied b k now) (contents ?t (b, p @ drop (length d) k))
     else contents ?t (b, k))" for b' k
  proof (cases "b' = b")
    case True
    then show ?thesis
      unfolding t' contents_del lp cp map_add_def
      using pd [of k] pk [of k] ci_prefix_refl [of k p] map_of_copies [OF wf exact, of d now k]
      by (cases "contents ?t (b, k)") (auto split: option.splits)
  next
    case False
    then show ?thesis unfolding t' contents_del lp cp map_add_def using other [OF False] by simp
  qed
  then show ?thesis by blast
qed

subsection \<open>Histories of writes\<close>

datatype store_write =
    PutW Object "Chunk list" | DeleteW string string | DeletePrefixW string string
  | CopyW string string string bool | MoveW string string string bool
  | CopyPrefixW string string string bool | MovePrefixW string string string bool
  | RenameW string string | DeleteBucketW string | UpsertBucketW Bucket | DisableW "string list"

definition outcome :: "('s, 'a) st \<Rightarrow> ('s, unit) st" where
  "outcome m = sbind m (\<lambda>_. sret ())"

fun run_write :: "'e sqlite_env_scheme \<Rightarrow> store_write \<Rightarrow> ('z sqlite_scheme, unit) st" where
  "run_write env (PutW object chunks) = PutObject env object chunks"
| "run_write env (DeleteW b k) = DeleteObject env b k"
| "run_write env (DeletePrefixW b p) = DeletePrefix env b p"
| "run_write env (CopyW b k k' ow) = outcome (CopyObject env b k k' ow)"
| "run_write env (MoveW b k k' ow) = outcome (MoveObject env b k k' ow)"
| "run_write env (CopyPrefixW b p p' ow) = outcome (CopyPrefix env b p p' ow)"
| "run_write env (MovePrefixW b p p' ow) = outcome (MovePrefix env b p p' ow)"
| "run_write env (RenameW b b') = outcome (RenameBucket env b b')"
| "run_write env (DeleteBucketW b) = DeleteBucket env b"
| "run_write env (UpsertBucketW bucket) = UpsertBucket env bucket"
| "run_write env (DisableW names) = DisableBucketsExcept env names"

text \<open>The callers put an object with chunk rows of its own key and distinct part numbers.\<close>

fun legal_write :: "store_write \<Rightarrow> bool" where
  "legal_write (PutW object chunks) = chunks_for object chunks"
| "legal_write _ = True"

inductive store_reachable :: "'e sqlite_env_scheme \<Rightarrow> 'z sqlite_scheme \<Rightarrow> bool" for env where
  opened: "tabs s = empty_tables \<Longrightarrow> store_reachable env s"
| wrote: "store_reachable env s \<Longrightarrow> legal_write w \<Longrightarrow> run_write env w s = (r, s') \<Longrightarrow> store_reachable env s'"

lemma reachable_step:
  "store_reachable env s \<Longrightarrow> legal_write w \<Longrightarrow> store_reachable env (snd (run_write env w s))"
  by (rule wrote [OF _ _ prod.collapse [symmetric]])

lemma outcome_Inl: "outcome m s = (Inl e, s') \<longleftrightarrow> m s = (Inl e, s')"
  by (auto simp: outcome_def sbind_Inl)

lemma keeps_outcome: "keeps P m \<Longrightarrow> keeps P (outcome m)"
  unfolding outcome_def by (intro keeps_sbind keeps_sret)

lemma run_write_failed: "run_write env w s = (Inl e, s') \<Longrightarrow> tabs s' = tabs s"
  by (cases w) (auto simp: outcome_Inl intro: failed_unchanged)

lemma run_write_wf: "legal_write w \<Longrightarrow> keeps (\<lambda>s. tables_wf (tabs s)) (run_write env w)"
  by (cases w) (auto intro!: keeps_outcome wf_PutObject wf_DeleteObject wf_DeletePrefix wf_CopyObject
      wf_MoveObject wf_CopyPrefix wf_MovePrefix wf_RenameBucket wf_DeleteBucket wf_UpsertBucket
      wf_DisableBucketsExcept)

lemma reachable_wf: "store_reachable env s \<Longrightarrow> tables_wf (tabs s)"
proof (induction rule: store_reachable.induct)
  case (opened s) then show ?case by (simp add: tables_wf_empty)
next
  case (wrote s w r s') then show ?case using keepsD [OF run_write_wf] by blast
qed

end
