(* ===== verification/MetaProps.thy ===== *)
theory MetaProps
  imports MetaOps
begin

text \<open>
  The properties of the metadata store. The runs in the witnesses start from \<open>demo_state\<close>, with a
  driver that never fails and SQLite's documented \<^verbatim>\<open>LIKE\<close>.
\<close>

definition demo_env :: sqlite_env where
  "demo_env = \<lparr>sq_fault = \<lambda>_. None, sq_like = sqlite_like, sq_now = \<lambda>n. int n * 1000000000\<rparr>"

definition demo_state :: sqlite where
  "demo_state = \<lparr>tabs = empty_tables, tick = 0\<rparr>"

definition demo_object :: "string \<Rightarrow> string \<Rightarrow> Object" where
  "demo_object b k =
     \<lparr>ob_Bucket = b, ob_Key = k, ob_Size = 5, ob_ContentType = ''text/plain'', ob_ETag = ''e'',
      ob_SHA256 = ''h'', ob_LastModified = 7000000000, ob_ChunkCount = 2,
      ob_TelegramType = ''document'', ob_UploadStrategy = ''document''\<rparr>"

definition demo_chunk :: "string \<Rightarrow> string \<Rightarrow> int \<Rightarrow> Chunk" where
  "demo_chunk b k n =
     \<lparr>ck_Bucket = b, ck_Key = k, ck_PartNumber = n, ck_Offset = 3 * (n - 1), ck_Size = 3,
      ck_TelegramType = ''document'', ck_TelegramFileID = ''f'', ck_TelegramMessageID = n,
      ck_TelegramFileUniqueID = ''u'', ck_SHA256 = ''h''\<rparr>"

definition demo_put :: "string \<Rightarrow> string \<Rightarrow> sqlite \<Rightarrow> sqlite" where
  "demo_put b k s = snd (PutObject demo_env (demo_object b k) [demo_chunk b k 2, demo_chunk b k 1] s)"

definition demo_bucket :: "string \<Rightarrow> sqlite \<Rightarrow> sqlite" where
  "demo_bucket b s = snd (UpsertBucket demo_env \<lparr>bk_Name = b, bk_ChatID = ''1'', bk_CreatedAt = 0, bk_Enabled = True\<rparr> s)"

lemmas demo_defs = demo_env_def demo_state_def demo_object_def demo_chunk_def

lemmas demo_run =
  demo_put_def demo_bucket_def demo_defs PutObject_def UpsertBucket_def in_tx_def exec_def query_def
  sbind_def sret_def sfail_def tick_up_def sql_defs

lemma demo_wf:
  "tables_wf (tabs demo_state)"
  "tables_wf (tabs (demo_put ''b'' ''k'' demo_state))"
  "tables_wf (tabs (demo_put ''b'' ''photos/1'' demo_state))"
  "tables_wf (tabs (demo_put ''b'' ''k'' (demo_bucket ''b'' demo_state)))"
  by (simp_all add: tables_wf_def demo_run)

lemma demo_like: "like_operator (sq_like demo_env)"
  by (simp add: demo_env_def documented_like.like_operator_axioms)

lemma demo_like_pred: "like_pred demo_env b p bk \<longleftrightarrow> fst bk = b \<and> ci_prefix p (snd bk)"
  by (cases bk) (simp add: like_pred_law [OF demo_like])

lemmas demo_prefix_run =
  MovePrefix_def copyPrefixInTx_def deletePrefixInTx_def DeletePrefix_def objectExistsInTx_def
  listChunksInTx_def putObjectInTx_def time_Now_def copyOf_def copyChunksForKey_def demo_like_pred
  TrimPrefix_def HasPrefix_def lower_def Let_def

subsection \<open>Reading what was written\<close>

text \<open>A put that succeeds is read back: a later \<^verbatim>\<open>GetObject\<close> of the key returns the object that was
  put (its time cut to seconds) with its chunks in part order, whatever was stored before.\<close>
lemma GetObject_after_PutObject:
  assumes "tables_wf (tabs s)" "chunks_for object chunks"
    "PutObject env object chunks s = (Inr u, s')" "\<forall>n. sq_fault env n = None"
  shows "\<exists>s''. GetObject env (ob_Bucket object) (ob_Key object) s' =
    (Inr (scanObject (object_row object), sort_key ck_PartNumber chunks), s'')"
  by (rule sqlite_map.get_after_put [OF assms])

text \<open>C34: A write of the metadata store that returns an error has changed no row: put, delete, copy,
  move, rename and their prefix forms are atomic, whichever driver call fails and at whatever point
  of the transaction.\<close>
theorem failed_write_changes_nothing:
  assumes "run_write env w s = (Inl e, s')"
  shows "tabs s' = tabs s"
  using assms by (rule run_write_failed)

theorem failed_write_changes_nothing_witness:
  "tabs (snd (run_write demo_env (CopyW ''b'' ''k'' ''k'' False) (demo_put ''b'' ''k'' demo_state))) =
     tabs (demo_put ''b'' ''k'' demo_state)"
proof (rule failed_write_changes_nothing)
  show "run_write demo_env (CopyW ''b'' ''k'' ''k'' False) (demo_put ''b'' ''k'' demo_state) =
    (Inl (Msg ''destination already exists''),
     snd (run_write demo_env (CopyW ''b'' ''k'' ''k'' False) (demo_put ''b'' ''k'' demo_state)))"
    by (simp add: outcome_def CopyObject_def getObjectInTx_def selectObject_def listChunksInTx_def
        objectExistsInTx_def demo_run)
qed

text \<open>C35: Whatever sequence of writes has run since the database was created, failed ones included,
  primary keys are unique and every chunk row belongs to an object row.\<close>
theorem reachable_tables_wf:
  assumes "store_reachable env s"
  shows "tables_wf (tabs s)"
  using assms by (rule reachable_wf)

theorem reachable_tables_wf_witness:
  "tables_wf (tabs (snd (run_write demo_env (MoveW ''b'' ''k'' ''m'' False) (demo_put ''b'' ''k'' demo_state))))"
proof (rule reachable_tables_wf)
  have "store_reachable demo_env demo_state" by (rule opened) (simp add: demo_state_def)
  then have "store_reachable demo_env (snd (run_write demo_env
      (PutW (demo_object ''b'' ''k'') [demo_chunk ''b'' ''k'' 2, demo_chunk ''b'' ''k'' 1]) demo_state))"
    by (rule reachable_step) (simp add: chunks_for_def demo_defs go_defs)
  then show "store_reachable demo_env
      (snd (run_write demo_env (MoveW ''b'' ''k'' ''m'' False) (demo_put ''b'' ''k'' demo_state)))"
    by (intro reachable_step) (simp_all add: demo_put_def)
qed

subsection \<open>Listing\<close>

text \<open>\<^verbatim>\<open>ListAllObjects\<close> returns every object row of the prefix whose key is not empty, each exactly
  once and in ascending key order, however many pages of 1000 it takes.\<close>
lemma ListAllObjects_complete:
  assumes "tables_wf (tabs s)" "ListAllObjects env b p s = (Inr objects, s')"
  shows "objects = filter (\<lambda>r. [] < ob_Key r) (prefix_listing env b p (tabs s)) \<and>
    sorted_wrt (<) (map ob_Key objects)"
proof -
  have "listAllLoop env b p [] [] s = (Inr objects, s')" using assms(2) by (simp add: ListAllObjects_def)
  note all = sqlite_all.loop_all [OF assms(1) this]
  obtain m where "filter (\<lambda>r. [] < ob_Key r) (prefix_listing env b p (tabs s)) = drop m (prefix_listing env b p (tabs s))"
    using sqlite_pages.filter_drop [OF sqlite_pages.rows_sorted [OF assms(1)]] by blast
  then show ?thesis using all sqlite_pages.rows_sorted [OF assms(1), of env b p]
    by (simp add: drop_map [symmetric] sorted_wrt_drop)
qed

text \<open>Pages of a listing fit together: a page holds at most \<open>n\<close> objects in ascending key order, and
  the listing behind its last key is the listing behind the old cursor without the page, so reading
  on from there neither repeats nor skips an object.\<close>
lemma ListObjects_resume:
  assumes "tables_wf (tabs s)" "0 < n"
    "ListObjects env \<lparr>lq_Bucket = b, lq_Prefix = p, lq_AfterKey = a, lq_Limit = int n\<rparr> s = (Inr objects, s')"
    "objects \<noteq> []"
  shows "length objects \<le> n \<and> sorted_wrt (<) (map ob_Key objects) \<and>
    filter (\<lambda>r. a < ob_Key r) (prefix_listing env b p (tabs s)) =
      objects @ filter (\<lambda>r. ob_Key (last objects) < ob_Key r) (prefix_listing env b p (tabs s'))"
  using sqlite_pages.resume [OF assms] sqlite_pages.page_sorted [OF assms(1-3)]
    sqlite_pages.page_ok [OF assms(2,3)] by simp

subsection \<open>Moving and renaming\<close>

text \<open>C36: \<^verbatim>\<open>MovePrefix\<close> to a prefix that is not nested with the old one: each object below the old prefix
  is found with its chunks under the new prefix and no longer under the old, and no other object of
  any bucket changes. It needs that no key of the bucket matches the old prefix only up to the case
  of letters, since the prefix filter is SQLite's case-insensitive \<^verbatim>\<open>LIKE\<close>.\<close>
theorem MovePrefix_moves_tree:
  assumes "tables_wf (tabs s)" "like_operator (sq_like env)" "like_exact env b p (tabs s)"
    "key_apart p d" "MovePrefix env b p d ow s = (Inr created, s')"
  shows "\<exists>now. \<forall>b' k. contents (tabs s') (b', k) =
    (if b' \<noteq> b then contents (tabs s) (b', k)
     else if HasPrefix k p then None
     else if HasPrefix k d \<and> contents (tabs s) (b, p @ drop (length d) k) \<noteq> None
     then map_option (copied b k now) (contents (tabs s) (b, p @ drop (length d) k))
     else contents (tabs s) (b, k))"
  by (rule contents_MovePrefix [OF assms])

theorem MovePrefix_moves_tree_witness:
  "\<exists>now. contents (tabs (snd (MovePrefix demo_env ''b'' ''photos/'' ''old/'' False (demo_put ''b'' ''photos/1'' demo_state))))
     (''b'', ''old/1'') = map_option (copied ''b'' ''old/1'' now)
       (contents (tabs (demo_put ''b'' ''photos/1'' demo_state)) (''b'', ''photos/1'')) \<and>
   contents (tabs (demo_put ''b'' ''photos/1'' demo_state)) (''b'', ''photos/1'') \<noteq> None"
proof -
  let ?s = "demo_put ''b'' ''photos/1'' demo_state"
  let ?m = "MovePrefix demo_env ''b'' ''photos/'' ''old/'' False ?s"
  have run: "?m = (Inr True, snd ?m)" by (simp add: demo_run demo_prefix_run)
  have src: "contents (tabs ?s) (''b'', ''photos/1'') \<noteq> None" by (simp add: contents_def demo_run)
  have exact: "like_exact demo_env ''b'' ''photos/'' (tabs ?s)"
    unfolding like_exact_def demo_like_pred by (simp add: demo_run HasPrefix_def)
  have apart: "key_apart ''photos/'' ''old/''" by (simp add: key_apart_def lower_def)
  have "HasPrefix ''old/1'' ''old/''" "\<not> HasPrefix ''old/1'' ''photos/''"
    "''photos/'' @ drop (length ''old/'') ''old/1'' = ''photos/1''" by (simp_all add: HasPrefix_def)
  with MovePrefix_moves_tree [OF demo_wf(3) demo_like exact apart run] src show ?thesis by metis
qed

text \<open>C37: \<^verbatim>\<open>MovePrefix\<close> between prefixes that differ only in the case of letters, \<^verbatim>\<open>photos/\<close> to
  \<^verbatim>\<open>Photos/\<close> say, reports success and deletes the tree: the rows just copied match the
  case-insensitive \<^verbatim>\<open>LIKE\<close> of the deletion too. After it no object of the bucket matches either
  prefix.\<close>
theorem MovePrefix_case_rename_loses_tree:
  assumes "like_operator (sq_like env)" "ToLower p = ToLower d"
    "MovePrefix env b p d ow s = (Inr created, s')" "HasPrefix k p \<or> HasPrefix k d"
  shows "contents (tabs s') (b, k) = None"
proof -
  have "ci_prefix p k" using assms(2,4) ci_prefix_refl ci_prefix_same_fold by blast
  with wp_Inr [OF MovePrefix_ok assms(3)] like_pred_law [OF assms(1), of b p b k]
  show ?thesis by (auto simp: contents_del)
qed

theorem MovePrefix_case_rename_loses_tree_witness:
  "contents (tabs (snd (MovePrefix demo_env ''b'' ''photos/'' ''Photos/'' False
     (demo_put ''b'' ''photos/1'' demo_state)))) (''b'', ''Photos/1'') = None \<and>
   fst (MovePrefix demo_env ''b'' ''photos/'' ''Photos/'' False (demo_put ''b'' ''photos/1'' demo_state)) = Inr True"
proof -
  let ?s = "demo_put ''b'' ''photos/1'' demo_state"
  let ?m = "MovePrefix demo_env ''b'' ''photos/'' ''Photos/'' False ?s"
  have run: "?m = (Inr True, snd ?m)" by (simp add: demo_run demo_prefix_run)
  have "ToLower ''photos/'' = ToLower ''Photos/''" by code_simp
  from MovePrefix_case_rename_loses_tree [OF demo_like this run, of "''Photos/1''"] run
  show ?thesis by (simp add: HasPrefix_def prod_eq_iff)
qed

text \<open>\<^verbatim>\<open>DeletePrefix\<close> removes the objects whose key starts with the prefix, letters compared without
  their case, and keeps every other object of every bucket.\<close>
lemma DeletePrefix_removes:
  assumes "like_operator (sq_like env)" "DeletePrefix env b p s = (Inr u, s')"
  shows "contents (tabs s') (b', k) = (if b' = b \<and> ci_prefix p k then None else contents (tabs s) (b', k))"
  using wp_Inr [OF DeletePrefix_ok assms(2)] like_pred_law [OF assms(1)] by (simp add: contents_del)

text \<open>C38: \<^verbatim>\<open>RenameBucket\<close> carries every object with its chunks over to the new name, leaves none under the
  old one and no other bucket changed, and returns the numbers that \<^verbatim>\<open>CountBucketRenameRows\<close> counts
  before it.\<close>
theorem RenameBucket_moves_bucket:
  assumes "tables_wf (tabs s)" "RenameBucket env old new s = (Inr counts, s')"
  shows "contents (tabs s') (b, k) =
    (if b = old then None
     else if b = new \<and> contents (tabs s) (old, k) \<noteq> None then map_option (renamed new) (contents (tabs s) (old, k))
     else contents (tabs s) (b, k)) \<and>
    (\<forall>n s''. CountBucketRenameRows env old s = (Inr n, s'') \<longrightarrow> n = counts)"
proof -
  note r = wp_Inr [OF RenameBucket_ok assms(2)]
  have one: "count_buckets old (tabs s) = 1"
  proof -
    have "distinct (map bk_Name (filter (\<lambda>r. bk_Name r = old) (tb_buckets (tabs s))))"
      using assms(1) by (simp add: tables_wf_def distinct_map_filter)
    moreover have "set (map bk_Name (filter (\<lambda>r. bk_Name r = old) (tb_buckets (tabs s)))) \<subseteq> {old}" by auto
    ultimately have "length (filter (\<lambda>r. bk_Name r = old) (tb_buckets (tabs s))) \<le> 1"
      by (metis card_mono card.empty card_insert_disjoint distinct_card empty_iff finite.emptyI finite_insert length_map One_nat_def)
    moreover have "count_buckets old (tabs s) \<noteq> 0" using r by simp
    ultimately show ?thesis
      by (cases "filter (\<lambda>r. bk_Name r = old) (tb_buckets (tabs s))") (simp_all add: count_buckets_def)
  qed
  show ?thesis
    using r contents_rename [OF assms(1), of old new b k] one
    by (auto simp: CountBucketRenameRows_def sbind_Inr query_Inr)
qed

theorem RenameBucket_moves_bucket_witness:
  "contents (tabs (snd (RenameBucket demo_env ''b'' ''c'' (demo_put ''b'' ''k'' (demo_bucket ''b'' demo_state)))))
     (''c'', ''k'') = map_option (renamed ''c'')
       (contents (tabs (demo_put ''b'' ''k'' (demo_bucket ''b'' demo_state))) (''b'', ''k''))"
proof -
  let ?s = "demo_put ''b'' ''k'' (demo_bucket ''b'' demo_state)"
  let ?m = "RenameBucket demo_env ''b'' ''c'' ?s"
  have run: "?m = (Inr \<lparr>rn_Buckets = 1, rn_Objects = 1, rn_Chunks = 2\<rparr>, snd ?m)"
    by (simp add: RenameBucket_def count_buckets_def count_objects_def count_chunks_def demo_run)
  have "contents (tabs ?s) (''b'', ''k'') \<noteq> None" by (simp add: contents_def demo_run)
  with conjunct1 [OF RenameBucket_moves_bucket [OF demo_wf(4) run, of "''c''" "''k''"]]
  show ?thesis by simp
qed

end
