(* ===== verification/Json.thy ===== *)
theory Json
  imports Runtime
begin

text \<open>
  \<^verbatim>\<open>encoding/json\<close> as far as the sources use it, and the escaping of \<^verbatim>\<open>net/url\<close> and the cleaning of
  \<^verbatim>\<open>path\<close>. A document is a value of \<open>json\<close>; the text syntax is a parameter of the definitions that
  read one (\<open>parse :: bytes \<Rightarrow> json option\<close>). The decoding of a document into a struct is written out:
  members are taken in order, a name is matched without regard to case, \<^verbatim>\<open>null\<close> leaves the field
  alone, a value of the wrong type leaves it alone too and makes the call return an error.
\<close>

subsection \<open>Decoding\<close>

datatype json = JNull | JBool bool | JNum int | JFloat string | JStr string
  | JArr "json list" | JObj "(string \<times> json) list"

text \<open>A decoder updates a value and says whether the types agreed.\<close>

type_synonym 'a decoder = "json \<Rightarrow> 'a \<Rightarrow> 'a \<times> bool"

fun decode_string :: "string decoder" where
  "decode_string (JStr s) old = (s, True)"
| "decode_string JNull old = (old, True)"
| "decode_string _ old = (old, False)"

fun decode_bool :: "bool decoder" where
  "decode_bool (JBool b) old = (b, True)"
| "decode_bool JNull old = (old, True)"
| "decode_bool _ old = (old, False)"

fun decode_int64 :: "int decoder" where
  "decode_int64 (JNum n) old = (if in_i64 n then (n, True) else (old, False))"
| "decode_int64 JNull old = (old, True)"
| "decode_int64 _ old = (old, False)"

fun decode_members :: "(string \<times> 'r decoder) list \<Rightarrow> (string \<times> json) list \<Rightarrow> 'r \<Rightarrow> 'r \<times> bool" where
  "decode_members flds [] r = (r, True)"
| "decode_members flds ((name, v) # ms) r =
     (case find (\<lambda>f. EqualFold (fst f) name) flds of
        None \<Rightarrow> decode_members flds ms r
      | Some f \<Rightarrow>
          let (r1, ok1) = snd f v r; (r2, ok2) = decode_members flds ms r1 in (r2, ok1 \<and> ok2))"

fun decode_struct :: "(string \<times> 'r decoder) list \<Rightarrow> 'r decoder" where
  "decode_struct flds (JObj ms) r = decode_members flds ms r"
| "decode_struct flds JNull r = (r, True)"
| "decode_struct flds _ r = (r, False)"

fun decode_list :: "'a decoder \<Rightarrow> 'a \<Rightarrow> 'a list decoder" where
  "decode_list d zero (JArr vs) old =
     (let rs = map (\<lambda>v. d v zero) vs in (map fst rs, list_all snd rs))"
| "decode_list d zero JNull old = ([], True)"
| "decode_list d zero _ old = (old, False)"

definition field :: "string \<Rightarrow> ('r \<Rightarrow> 'a) \<Rightarrow> (('a \<Rightarrow> 'a) \<Rightarrow> 'r \<Rightarrow> 'r) \<Rightarrow> 'a decoder \<Rightarrow> string \<times> 'r decoder" where
  "field name get upd d = (name, \<lambda>v r. let (x, ok) = d v (get r) in (upd (\<lambda>_. x) r, ok))"

text \<open>\<^verbatim>\<open>json.Unmarshal(data, &x)\<close> with \<open>x\<close> at its zero value: the struct, or an error.\<close>

definition Unmarshal :: "(bytes \<Rightarrow> json option) \<Rightarrow> 'r decoder \<Rightarrow> 'r \<Rightarrow> bytes \<Rightarrow> gerror + 'r" where
  "Unmarshal parse d zero data =
     (case parse data of
        None \<Rightarrow> Inl (Msg ''invalid character'')
      | Some v \<Rightarrow> (case d v zero of (r, True) \<Rightarrow> Inr r
                 | (r, False) \<Rightarrow> Inl (Msg ''json: cannot unmarshal value into Go struct field'')))"

subsection \<open>Escaping and paths\<close>

definition hex_digit :: "nat \<Rightarrow> char" where
  "hex_digit n = ''0123456789ABCDEF'' ! (n mod 16)"

definition pct :: "char \<Rightarrow> string" where
  "pct c = (let n = of_char c :: nat in [CHR ''%'', hex_digit (n div 16), hex_digit n])"

definition alnum :: "char \<Rightarrow> bool" where
  "alnum c \<longleftrightarrow>
     (let n = of_char c :: nat in (48 \<le> n \<and> n \<le> 57) \<or> (65 \<le> n \<and> n \<le> 90) \<or> (97 \<le> n \<and> n \<le> 122))"

definition unreserved :: "char \<Rightarrow> bool" where
  "unreserved c \<longleftrightarrow> alnum c \<or> c \<in> set ''-_.~''"

text \<open>\<^verbatim>\<open>url.QueryEscape\<close>.\<close>

definition QueryEscape :: "string \<Rightarrow> string" where
  "QueryEscape s = concat (map (\<lambda>c. if c = CHR '' '' then ''+'' else if unreserved c then [c] else pct c) s)"

text \<open>\<^verbatim>\<open>url.Values.Encode\<close> of keys with one value each, given in sorted order.\<close>

definition form_encode :: "(string \<times> string) list \<Rightarrow> string" where
  "form_encode kvs = Join (map (\<lambda>(k, v). QueryEscape k @ ''='' @ QueryEscape v) kvs) ''&''"

text \<open>\<^verbatim>\<open>path.Clean\<close>: the elements of the path on a stack (top first).\<close>

fun clean_elems :: "bool \<Rightarrow> string list \<Rightarrow> string list \<Rightarrow> string list" where
  "clean_elems rooted out [] = rev out"
| "clean_elems rooted out (e # es) =
     (if e = [] \<or> e = ''.'' then clean_elems rooted out es
      else if e = ''..'' then
        (case out of
           e1 # below \<Rightarrow> if e1 \<noteq> ''..'' then clean_elems rooted below es
                         else clean_elems rooted (e # out) es
         | [] \<Rightarrow> clean_elems rooted (if rooted then [] else [e]) es)
      else clean_elems rooted (e # out) es)"

definition Clean :: "string \<Rightarrow> string" where
  "Clean p =
     (let rooted = HasPrefix p ''/'';
          s = (if rooted then ''/'' else []) @ Join (clean_elems rooted [] (Split p CHR ''/'')) ''/''
      in if s = [] then ''.'' else s)"

lemmas [go_defs] = field_def Unmarshal_def QueryEscape_def form_encode_def Clean_def pct_def hex_digit_def
  unreserved_def alnum_def

text \<open>An escaped string holds only characters that mean themselves in a form or a query.\<close>

lemma unreserved_hex: "unreserved (hex_digit n)"
proof -
  have "hex_digit n \<in> set ''0123456789ABCDEF''"
    unfolding hex_digit_def by (rule nth_mem) simp
  then show ?thesis by (auto simp: unreserved_def alnum_def Let_def)
qed

lemma QueryEscape_safe: "c \<in> set (QueryEscape s) \<Longrightarrow> unreserved c \<or> c = CHR ''+'' \<or> c = CHR ''%''"
  by (auto simp: QueryEscape_def pct_def Let_def unreserved_hex split: if_splits)

end
