(* ===== verification/TelegramClient.thy ===== *)
theory TelegramClient
  imports Json
begin

text \<open>
  \<^verbatim>\<open>telegram/client.go\<close>: the Bot API client with its retries.

  The network, the clock, the file system and the cancelling of the context are outside the
  repository: \<open>exch\<close> answers the \<open>n\<close>-th HTTP request and says how long it takes, \<open>stat_file\<close> and
  \<open>open_file\<close> are the file system at a time, \<open>bad_url\<close> is \<^verbatim>\<open>http.NewRequest\<close>'s verdict on a URL. The
  state is the clock (nanoseconds) and the number of requests sent so far.
\<close>

subsection \<open>Data\<close>

datatype body_part = FormField string string | FilePart string string string bytes

datatype req_body = NoBody | FormBody string | MultipartBody "body_part list" "gerror option"

record http_request =
  rq_method :: string
  rq_url :: string
  rq_contentType :: string
  rq_body :: req_body

record http_response =
  rs_status :: int
  rs_body :: reader

record net_env =
  exch :: "nat \<Rightarrow> http_request \<Rightarrow> int \<times> (gerror + http_response)"
  bad_url :: "string \<Rightarrow> gerror option"
  parse_json :: "bytes \<Rightarrow> json option"
  stat_file :: "int \<Rightarrow> string \<Rightarrow> gerror + int"
  open_file :: "int \<Rightarrow> string \<Rightarrow> gerror + reader"

record net =
  clock :: int
  sent :: nat

text \<open>A context: its deadline, and the time and error of a cancellation by the caller.\<close>

record ctx =
  cx_deadline :: "int option"
  cx_cancel :: "(int \<times> gerror) option"

record HTTPClient =
  botToken :: string
  apiBaseURL :: string
  clientTimeout :: int

record telegramFile =
  tf_FileID :: string
  tf_FileUniqueID :: string
  tf_FileSize :: int
  tf_MIMEType :: string

record uploadResult =
  ur_MessageID :: int
  ur_Document :: telegramFile
  ur_Video :: telegramFile
  ur_Audio :: telegramFile
  ur_Animation :: telegramFile
  ur_Photo :: "telegramFile list"

record uploadEnvelope =
  ue_OK :: bool
  ue_Description :: string
  ue_Result :: uploadResult

record getFileEnvelope =
  ge_OK :: bool
  ge_Description :: string
  ge_FilePath :: string
  ge_FileSize :: int

record telegramErrorEnvelope =
  te_Description :: string
  te_RetryAfter :: int

record UploadedFile =
  uf_Type :: string
  uf_FileID :: string
  uf_FileUniqueID :: string
  uf_MessageID :: int
  uf_FileSize :: int
  uf_MIMEType :: string

text \<open>The reader of an upload: \<open>up_Seek = None\<close> when it is no \<^verbatim>\<open>io.ReadSeeker\<close>, otherwise the result of
  seeking to its start.\<close>

record UploadRequest =
  up_Type :: string
  up_ChatID :: string
  up_Reader :: reader
  up_Seek :: "gerror option option"
  up_Filename :: string
  up_MIMEType :: string
  up_Caption :: string

definition no_file :: telegramFile where
  "no_file = \<lparr>tf_FileID = [], tf_FileUniqueID = [], tf_FileSize = 0, tf_MIMEType = []\<rparr>"

definition no_result :: uploadResult where
  "no_result = \<lparr>ur_MessageID = 0, ur_Document = no_file, ur_Video = no_file, ur_Audio = no_file,
     ur_Animation = no_file, ur_Photo = []\<rparr>"

subsection \<open>Decoding the answers\<close>

definition telegramFile_decoder :: "telegramFile decoder" where
  "telegramFile_decoder = decode_struct
     [field ''file_id'' tf_FileID tf_FileID_update decode_string,
      field ''file_unique_id'' tf_FileUniqueID tf_FileUniqueID_update decode_string,
      field ''file_size'' tf_FileSize tf_FileSize_update decode_int64,
      field ''mime_type'' tf_MIMEType tf_MIMEType_update decode_string]"

definition uploadResult_decoder :: "uploadResult decoder" where
  "uploadResult_decoder = decode_struct
     [field ''message_id'' ur_MessageID ur_MessageID_update decode_int64,
      field ''document'' ur_Document ur_Document_update telegramFile_decoder,
      field ''video'' ur_Video ur_Video_update telegramFile_decoder,
      field ''audio'' ur_Audio ur_Audio_update telegramFile_decoder,
      field ''animation'' ur_Animation ur_Animation_update telegramFile_decoder,
      field ''photo'' ur_Photo ur_Photo_update (decode_list telegramFile_decoder no_file)]"

definition decodeUpload :: "net_env \<Rightarrow> bytes \<Rightarrow> gerror + uploadEnvelope" where
  "decodeUpload env = Unmarshal (parse_json env) (decode_struct
     [field ''ok'' ue_OK ue_OK_update decode_bool,
      field ''description'' ue_Description ue_Description_update decode_string,
      field ''result'' ue_Result ue_Result_update uploadResult_decoder])
     \<lparr>ue_OK = False, ue_Description = [], ue_Result = no_result\<rparr>"

definition decodeGetFile :: "net_env \<Rightarrow> bytes \<Rightarrow> gerror + getFileEnvelope" where
  "decodeGetFile env = Unmarshal (parse_json env) (decode_struct
     [field ''ok'' ge_OK ge_OK_update decode_bool,
      field ''description'' ge_Description ge_Description_update decode_string,
      (''result'', decode_struct
        [field ''file_path'' ge_FilePath ge_FilePath_update decode_string,
         field ''file_size'' ge_FileSize ge_FileSize_update decode_int64])])
     \<lparr>ge_OK = False, ge_Description = [], ge_FilePath = [], ge_FileSize = 0\<rparr>"

definition decodeError :: "net_env \<Rightarrow> bytes \<Rightarrow> gerror + telegramErrorEnvelope" where
  "decodeError env = Unmarshal (parse_json env) (decode_struct
     [field ''description'' te_Description te_Description_update decode_string,
      (''parameters'', decode_struct
        [field ''retry_after'' te_RetryAfter te_RetryAfter_update decode_int64])])
     \<lparr>te_Description = [], te_RetryAfter = 0\<rparr>"

text \<open>The anonymous struct of \<^verbatim>\<open>DeleteMessage\<close>: \<^verbatim>\<open>ok\<close> and \<^verbatim>\<open>description\<close>.\<close>

definition decodeDelete :: "net_env \<Rightarrow> bytes \<Rightarrow> gerror + bool \<times> string" where
  "decodeDelete env = Unmarshal (parse_json env) (decode_struct
     [field ''ok'' fst (\<lambda>f p. (f (fst p), snd p)) decode_bool,
      field ''description'' snd (\<lambda>f p. (fst p, f (snd p))) decode_string]) (False, [])"

subsection \<open>Errors and retries\<close>

definition telegramAPIError :: "string \<Rightarrow> gerror" where
  "telegramAPIError description =
     (let d = TrimSpace description in Msg (if d = [] then ''telegram api error'' else d))"

definition classifyStatusReason :: "int \<Rightarrow> string \<Rightarrow> string" where
  "classifyStatusReason statusCode description =
     (let text = ToLower (TrimSpace description) in
      if statusCode = 401 \<or> Contains text ''unauthorized'' then ''unauthorized''
      else if statusCode = 403 \<and> Contains text ''forbidden'' then ''forbidden''
      else ''http_'' @ Itoa statusCode)"

definition statusError :: "net_env \<Rightarrow> string \<Rightarrow> int \<Rightarrow> bytes \<Rightarrow> gerror" where
  "statusError env operation statusCode data =
     (let d = (if data = [] then [] else
               case decodeError env data of
                 Inr e \<Rightarrow> if te_Description e \<noteq> [] then TrimSpace (te_Description e) else []
               | Inl _ \<Rightarrow> []);
          description = (if d = [] then ''telegram request failed with status '' @ Itoa statusCode else d)
      in NewRequestError operation statusCode (classifyStatusReason statusCode description)
           (Some (Msg description)))"

text \<open>Durations are \<^verbatim>\<open>int64\<close> nanoseconds, so the product wraps.\<close>

definition shouldRetryTelegram :: "net_env \<Rightarrow> int \<Rightarrow> bytes \<Rightarrow> bool \<times> int" where
  "shouldRetryTelegram env statusCode data =
     (if statusCode = 429 \<or> statusCode \<ge> 500 then
        (if data = [] then (True, 0)
         else case decodeError env data of
                Inr e \<Rightarrow> if te_RetryAfter e > 0 then (True, i64 (te_RetryAfter e * 1000000000)) else (True, 0)
              | Inl _ \<Rightarrow> (True, 0))
      else (False, 0))"

definition cappedRetryAfter :: "ctx \<Rightarrow> int \<Rightarrow> int \<Rightarrow> int \<Rightarrow> int" where
  "cappedRetryAfter cx now timeout retryAfter =
     (if retryAfter \<le> 0 then 0
      else case cx_deadline cx of
        Some deadline \<Rightarrow>
          (let remaining = deadline - now in
           if remaining \<le> 0 then 0 else if retryAfter > remaining then remaining else retryAfter)
      | None \<Rightarrow> if timeout > 0 \<and> retryAfter > timeout then timeout else retryAfter)"

definition backoffDelay :: "ctx \<Rightarrow> int \<Rightarrow> int \<Rightarrow> nat \<Rightarrow> int \<Rightarrow> int" where
  "backoffDelay cx now timeout attempt preferred =
     (if preferred > 0 then cappedRetryAfter cx now timeout preferred
      else let delay = 25000000 * 2 ^ attempt in if delay > 200000000 then 200000000 else delay)"

text \<open>When the context is done, and with which error.\<close>

definition done_at :: "ctx \<Rightarrow> (int \<times> gerror) option" where
  "done_at cx =
     (case (cx_deadline cx, cx_cancel cx) of
        (None, c) \<Rightarrow> c
      | (Some d, Some (t, e)) \<Rightarrow> if t < d then Some (t, e) else Some (d, Sent ContextDeadlineExceeded)
      | (Some d, None) \<Rightarrow> Some (d, Sent ContextDeadlineExceeded))"

definition ctx_Err :: "ctx \<Rightarrow> int \<Rightarrow> gerror option" where
  "ctx_Err cx now = (case done_at cx of None \<Rightarrow> None | Some (t, e) \<Rightarrow> if t \<le> now then Some e else None)"

definition wait_done :: "ctx \<Rightarrow> int \<Rightarrow> (net, unit) st" where
  "wait_done cx till n =
     (case done_at cx of
        Some (t, e) \<Rightarrow> if t \<le> till then (Inl e, n\<lparr>clock := max (clock n) t\<rparr>) else (Inr (), n\<lparr>clock := till\<rparr>)
      | None \<Rightarrow> (Inr (), n\<lparr>clock := till\<rparr>))"

definition sleepWithContext :: "ctx \<Rightarrow> int \<Rightarrow> (net, unit) st" where
  "sleepWithContext cx delay n =
     (if delay \<le> 0 then (case ctx_Err cx (clock n) of None \<Rightarrow> (Inr (), n) | Some e \<Rightarrow> (Inl e, n))
      else case cx_deadline cx of
        Some d \<Rightarrow> if delay \<ge> d - clock n then wait_done cx (max (clock n) d) n
                  else wait_done cx (clock n + delay) n
      | None \<Rightarrow> wait_done cx (clock n + delay) n)"

definition sanitizeErrorText :: "HTTPClient \<Rightarrow> string \<Rightarrow> string" where
  "sanitizeErrorText c text =
     (if text = [] then text
      else
        let text1 = (if botToken c \<noteq> [] then ReplaceAll text (botToken c) ''[redacted]'' else text);
            text2 = ReplaceAll text1 ''/bot[redacted]/'' ''/bot<TOKEN>/''
        in ReplaceAll text2 ''/file/bot[redacted]/'' ''/file/bot<TOKEN>/'')"

definition safeRequestError :: "HTTPClient \<Rightarrow> string \<Rightarrow> gerror \<Rightarrow> gerror" where
  "safeRequestError c message err = Msg (message @ '': '' @ sanitizeErrorText c (Error err))"

definition safeUploadReplayError :: "gerror \<Rightarrow> gerror" where
  "safeUploadReplayError cause =
     Wrapf ''telegram upload cannot safely retry non-seekable reader after failure'' cause"

subsection \<open>Requests\<close>

definition NewHTTPClient :: "string \<Rightarrow> string \<Rightarrow> int \<Rightarrow> HTTPClient" where
  "NewHTTPClient token base timeout =
     \<lparr>botToken = token, apiBaseURL = TrimRight base ''/'', clientTimeout = timeout\<rparr>"

definition methodURL :: "HTTPClient \<Rightarrow> string \<Rightarrow> string" where
  "methodURL c m = apiBaseURL c @ ''/bot'' @ botToken c @ ''/'' @ m"

definition fileURL :: "HTTPClient \<Rightarrow> string \<Rightarrow> string" where
  "fileURL c filePath = apiBaseURL c @ ''/file/bot'' @ botToken c @ ''/'' @ TrimLeft (Clean filePath) ''/''"

definition newRequestWithContext ::
    "net_env \<Rightarrow> HTTPClient \<Rightarrow> string \<Rightarrow> string \<Rightarrow> req_body \<Rightarrow> string \<Rightarrow> gerror + http_request" where
  "newRequestWithContext env c m url body contentType =
     (case bad_url env url of
        Some e \<Rightarrow> Inl (safeRequestError c ''create telegram request'' e)
      | None \<Rightarrow> Inr \<lparr>rq_method = m, rq_url = url, rq_contentType = contentType, rq_body = body\<rparr>)"

text \<open>\<^verbatim>\<open>httpClient.Do\<close>: one request on the wire; the clock moves on by what it takes.\<close>

definition Do :: "net_env \<Rightarrow> http_request \<Rightarrow> (net, http_response) st" where
  "Do env req n =
     (let (t, r) = exch env (sent n) req in (r, n\<lparr>clock := clock n + t, sent := Suc (sent n)\<rparr>))"

definition uploadMethodAndField :: "string \<Rightarrow> gerror + string \<times> string" where
  "uploadMethodAndField fileType =
     (if fileType = ''photo'' then Inr (''sendPhoto'', ''photo'')
      else if fileType = ''video'' then Inr (''sendVideo'', ''video'')
      else if fileType = ''audio'' then Inr (''sendAudio'', ''audio'')
      else if fileType = ''animation'' then Inr (''sendAnimation'', ''animation'')
      else if fileType = ''document'' then Inr (''sendDocument'', ''document'')
      else Inl (Msg (''unsupported telegram upload type '' @ Quote fileType)))"

definition uploadBody :: "UploadRequest \<Rightarrow> string \<Rightarrow> req_body" where
  "uploadBody request fieldName =
     MultipartBody
       ([FormField ''chat_id'' (up_ChatID request)] @
        (if up_Caption request \<noteq> [] then [FormField ''caption'' (up_Caption request)] else []) @
        [FilePart fieldName (up_Filename request) (up_MIMEType request) (rd_data (up_Reader request))])
       (rd_err (up_Reader request))"

subsection \<open>The upload loop\<close>

text \<open>\<^verbatim>\<open>doSingleUploadAttempt\<close>: the body of a 2xx answer, or whether to retry, the delay and the error.\<close>

definition doSingleUploadAttempt ::
    "net_env \<Rightarrow> HTTPClient \<Rightarrow> ctx \<Rightarrow> string \<Rightarrow> req_body \<Rightarrow> net \<Rightarrow> (bytes + bool \<times> int \<times> gerror) \<times> net" where
  "doSingleUploadAttempt env c cx requestURL body n =
     (case newRequestWithContext env c ''POST'' requestURL body ''multipart/form-data'' of
        Inl e \<Rightarrow> (Inr (False, 0, e), n)
      | Inr req \<Rightarrow> (case Do env req n of
          (Inl e, n') \<Rightarrow> (case ctx_Err cx (clock n') of
              Some ce \<Rightarrow> (Inr (False, 0, ce), n')
            | None \<Rightarrow> (Inr (True, 0, safeRequestError c ''telegram request failed'' e), n'))
        | (Inr resp, n') \<Rightarrow> (case ReadAll (rs_body resp) of
              Inl e \<Rightarrow> (Inr (False, 0, Wrapf ''read telegram response'' e), n')
            | Inr data \<Rightarrow>
                (let (retry, delay) = shouldRetryTelegram env (rs_status resp) data in
                 if \<not> retry \<and> 200 \<le> rs_status resp \<and> rs_status resp < 300 then (Inl data, n')
                 else (Inr (retry, delay, statusError env ''upload_send'' (rs_status resp) data), n')))))"

text \<open>The loop of \<^verbatim>\<open>doUploadRequest\<close> over the attempts still to be made; \<open>prev\<close> is the error and the
  delay of the attempt before.\<close>

fun uploadLoop ::
    "net_env \<Rightarrow> HTTPClient \<Rightarrow> ctx \<Rightarrow> string \<Rightarrow> UploadRequest \<Rightarrow> string \<Rightarrow> (gerror \<times> int) option \<Rightarrow> nat list \<Rightarrow>
     (net, bytes) st" where
  "uploadLoop env c cx url request fieldName prev [] n =
     (case prev of
        None \<Rightarrow> (Inl (Msg ''telegram upload failed''), n)
      | Some (e, delay) \<Rightarrow> (Inl (the (wrapRateLimitError (Some e) True delay)), n))"
| "uploadLoop env c cx url request fieldName prev (attempt # later) n =
     (case (if attempt = 0 then None else
              case up_Seek request of
                None \<Rightarrow> Some (case prev of Some (e, _) \<Rightarrow> e
                               | None \<Rightarrow> Msg ''telegram upload cannot retry non-seekable reader'')
              | Some None \<Rightarrow> None
              | Some (Some e) \<Rightarrow> Some (Wrapf ''reset telegram upload reader'' e)) of
        Some e \<Rightarrow> (Inl e, n)
      | None \<Rightarrow> (case doSingleUploadAttempt env c cx url (uploadBody request fieldName) n of
          (Inl data, n1) \<Rightarrow> (Inr data, n1)
        | (Inr (retry, delay, e), n1) \<Rightarrow>
            (case ctx_Err cx (clock n1) of
               Some ce \<Rightarrow> (Inl ce, n1)
             | None \<Rightarrow>
                if \<not> retry then (Inl e, n1)
                else if up_Seek request = None then (Inl (safeUploadReplayError e), n1)
                else if attempt = 3 then
                  (Inl (the (wrapRateLimitError (Some e) True delay)), n1)
                else (case sleepWithContext cx (backoffDelay cx (clock n1) (clientTimeout c) attempt delay) n1 of
                    (Inl se, n2) \<Rightarrow> (Inl se, n2)
                  | (Inr _, n2) \<Rightarrow> uploadLoop env c cx url request fieldName (Some (e, delay)) later n2))))"

definition doUploadRequest ::
    "net_env \<Rightarrow> HTTPClient \<Rightarrow> ctx \<Rightarrow> string \<Rightarrow> UploadRequest \<Rightarrow> string \<Rightarrow> (net, bytes) st" where
  "doUploadRequest env c cx url request fieldName =
     uploadLoop env c cx url request fieldName None [0..<4]"

subsection \<open>The uploaded file\<close>

definition mediaToUploadedFile :: "string \<Rightarrow> telegramFile \<Rightarrow> gerror + UploadedFile" where
  "mediaToUploadedFile name media =
     (if tf_FileID media = [] then Inl (Msg (''telegram upload response missing '' @ name))
      else Inr \<lparr>uf_Type = [], uf_FileID = tf_FileID media, uf_FileUniqueID = tf_FileUniqueID media,
        uf_MessageID = 0, uf_FileSize = tf_FileSize media, uf_MIMEType = tf_MIMEType media\<rparr>)"

definition largest_photo :: "telegramFile \<Rightarrow> telegramFile list \<Rightarrow> telegramFile" where
  "largest_photo first rest =
     foldl (\<lambda>largest photo. if tf_FileSize photo \<ge> tf_FileSize largest then photo else largest) first rest"

definition uploadedFileFromResult :: "string \<Rightarrow> uploadResult \<Rightarrow> gerror + UploadedFile" where
  "uploadedFileFromResult fileType result =
     (if fileType = ''photo'' then
        (case ur_Photo result of
           [] \<Rightarrow> Inl (Msg ''telegram upload response missing photo'')
         | first # rest \<Rightarrow>
             let largest = largest_photo first rest in
             Inr \<lparr>uf_Type = [], uf_FileID = tf_FileID largest, uf_FileUniqueID = tf_FileUniqueID largest,
               uf_MessageID = 0, uf_FileSize = tf_FileSize largest, uf_MIMEType = tf_MIMEType largest\<rparr>)
      else if fileType = ''video'' then mediaToUploadedFile ''video'' (ur_Video result)
      else if fileType = ''audio'' then mediaToUploadedFile ''audio'' (ur_Audio result)
      else if fileType = ''animation'' then mediaToUploadedFile ''animation'' (ur_Animation result)
      else if fileType = ''document'' then
        (case mediaToUploadedFile ''document'' (ur_Document result) of
           Inr uploaded \<Rightarrow> Inr uploaded
         | Inl _ \<Rightarrow>
             (case find (\<lambda>fb. tf_FileID (snd fb) \<noteq> [])
                [(''video'', ur_Video result), (''animation'', ur_Animation result), (''audio'', ur_Audio result)] of
                Some fb \<Rightarrow> mediaToUploadedFile (fst fb) (snd fb)
              | None \<Rightarrow> Inl (Msg ''telegram upload response missing document'')))
      else Inl (Msg (''unsupported telegram upload type '' @ Quote fileType)))"

definition Upload :: "net_env \<Rightarrow> HTTPClient \<Rightarrow> ctx \<Rightarrow> UploadRequest \<Rightarrow> (net, UploadedFile) st" where
  "Upload env c cx request n =
     (case uploadMethodAndField (up_Type request) of
        Inl e \<Rightarrow> (Inl e, n)
      | Inr (methodName, fieldName) \<Rightarrow>
          (case doUploadRequest env c cx (methodURL c methodName) request fieldName n of
             (Inl e, n1) \<Rightarrow> (Inl e, n1)
           | (Inr resp, n1) \<Rightarrow> (case decodeUpload env resp of
                 Inl e \<Rightarrow> (Inl (Wrapf ''decode telegram upload response'' e), n1)
               | Inr envelope \<Rightarrow>
                   if \<not> ue_OK envelope then (Inl (telegramAPIError (ue_Description envelope)), n1)
                   else (case uploadedFileFromResult (up_Type request) (ue_Result envelope) of
                       Inl e \<Rightarrow> (Inl e, n1)
                     | Inr file \<Rightarrow> (Inr (file\<lparr>uf_Type := up_Type request,
                         uf_MessageID := ur_MessageID (ue_Result envelope)\<rparr>), n1)))))"

subsection \<open>Requests that carry a form, and the download\<close>

text \<open>The loops of \<^verbatim>\<open>doJSONRequest\<close> and \<^verbatim>\<open>downloadFile\<close>: a retryable status sleeps and goes on even after
  the last attempt, a failed exchange does not.\<close>

fun requestLoop ::
    "net_env \<Rightarrow> HTTPClient \<Rightarrow> ctx \<Rightarrow> string \<Rightarrow> string \<Rightarrow> req_body \<Rightarrow> string \<Rightarrow> gerror option \<Rightarrow> nat list \<Rightarrow>
     (net, bytes) st" where
  "requestLoop env c cx m url body contentType lastErr [] n =
     (Inl (case lastErr of None \<Rightarrow> Msg ''telegram request failed'' | Some e \<Rightarrow> e), n)"
| "requestLoop env c cx m url body contentType lastErr (attempt # later) n =
     (case newRequestWithContext env c m url body contentType of
        Inl e \<Rightarrow> (Inl e, n)
      | Inr req \<Rightarrow> (case Do env req n of
          (Inl e, n1) \<Rightarrow> (case ctx_Err cx (clock n1) of
              Some ce \<Rightarrow> (Inl ce, n1)
            | None \<Rightarrow>
                (let err = safeRequestError c ''telegram request failed'' e in
                 if attempt = 3 then (Inl err, n1)
                 else (case sleepWithContext cx (backoffDelay cx (clock n1) (clientTimeout c) attempt 0) n1 of
                     (Inl se, n2) \<Rightarrow> (Inl se, n2)
                   | (Inr _, n2) \<Rightarrow> requestLoop env c cx m url body contentType (Some err) later n2)))
        | (Inr resp, n1) \<Rightarrow> (case ReadAll (rs_body resp) of
              Inl e \<Rightarrow> (Inl (Wrapf ''read telegram response'' e), n1)
            | Inr data \<Rightarrow>
                (let (retry, delay) = shouldRetryTelegram env (rs_status resp) data;
                     err = statusError env ''request'' (rs_status resp) data in
                 if \<not> retry \<and> 200 \<le> rs_status resp \<and> rs_status resp < 300 then (Inr data, n1)
                 else if \<not> retry then (Inl err, n1)
                 else (case sleepWithContext cx (backoffDelay cx (clock n1) (clientTimeout c) attempt delay) n1 of
                     (Inl se, n2) \<Rightarrow> (Inl se, n2)
                   | (Inr _, n2) \<Rightarrow> requestLoop env c cx m url body contentType (Some err) later n2)))))"

definition doJSONRequest ::
    "net_env \<Rightarrow> HTTPClient \<Rightarrow> ctx \<Rightarrow> string \<Rightarrow> string \<Rightarrow> req_body \<Rightarrow> string \<Rightarrow> (net, bytes) st" where
  "doJSONRequest env c cx m url body contentType = requestLoop env c cx m url body contentType None [0..<4]"

fun downloadLoop ::
    "net_env \<Rightarrow> HTTPClient \<Rightarrow> ctx \<Rightarrow> string \<Rightarrow> gerror option \<Rightarrow> nat list \<Rightarrow> (net, reader) st" where
  "downloadLoop env c cx url lastErr [] n =
     (Inl (case lastErr of None \<Rightarrow> Msg ''telegram download failed'' | Some e \<Rightarrow> e), n)"
| "downloadLoop env c cx url lastErr (attempt # later) n =
     (case newRequestWithContext env c ''GET'' url NoBody [] of
        Inl e \<Rightarrow> (Inl e, n)
      | Inr req \<Rightarrow> (case Do env req n of
          (Inl e, n1) \<Rightarrow> (case ctx_Err cx (clock n1) of
              Some ce \<Rightarrow> (Inl ce, n1)
            | None \<Rightarrow>
                (let err = safeRequestError c ''telegram download failed'' e in
                 if attempt = 3 then (Inl err, n1)
                 else (case sleepWithContext cx (backoffDelay cx (clock n1) (clientTimeout c) attempt 0) n1 of
                     (Inl se, n2) \<Rightarrow> (Inl se, n2)
                   | (Inr _, n2) \<Rightarrow> downloadLoop env c cx url (Some err) later n2)))
        | (Inr resp, n1) \<Rightarrow>
            if 200 \<le> rs_status resp \<and> rs_status resp < 300 then (Inr (rs_body resp), n1)
            else (case ReadAll (rs_body resp) of
              Inl e \<Rightarrow> (Inl (Wrapf ''read telegram download response'' e), n1)
            | Inr data \<Rightarrow>
                (let (retry, delay) = shouldRetryTelegram env (rs_status resp) data;
                     err = statusError env ''download_read'' (rs_status resp) data in
                 if \<not> retry then (Inl err, n1)
                 else (case sleepWithContext cx (backoffDelay cx (clock n1) (clientTimeout c) attempt delay) n1 of
                     (Inl se, n2) \<Rightarrow> (Inl se, n2)
                   | (Inr _, n2) \<Rightarrow> downloadLoop env c cx url (Some err) later n2)))))"

definition downloadFile :: "net_env \<Rightarrow> HTTPClient \<Rightarrow> ctx \<Rightarrow> string \<Rightarrow> (net, reader) st" where
  "downloadFile env c cx filePath = downloadLoop env c cx (fileURL c filePath) None [0..<4]"

text \<open>\<^verbatim>\<open>waitForLocalFileSize\<close> looks at the file every 100 ms until the deadline (the text of the time-out
  leaves the printed duration out).\<close>

function waitLoop :: "net_env \<Rightarrow> ctx \<Rightarrow> string \<Rightarrow> int \<Rightarrow> int \<Rightarrow> (net, unit) st" where
  "waitLoop env cx filePath expectedSize deadline n =
     (let stat = stat_file env (clock n) filePath;
          again = (if clock n > deadline
                   then (Inl (Msg (''timed out waiting for telegram local file '' @ Quote filePath @
                          '' to reach expected size '' @ Itoa expectedSize)), n)
                   else (case wait_done cx (clock n + 100000000) n of
                       (Inl e, n1) \<Rightarrow> (Inl e, n1)
                     | (Inr _, n1) \<Rightarrow> waitLoop env cx filePath expectedSize deadline n1))
      in case stat of
           Inr sz \<Rightarrow> if sz \<ge> expectedSize then (Inr (), n) else again
         | Inl e \<Rightarrow> if \<not> errors_Is e OsErrNotExist then (Inl (Wrapf ''stat telegram local file'' e), n) else again)"
  by pat_completeness auto
termination
  by (relation "measure (\<lambda>(env, cx, p, sz, deadline, n). nat (deadline - clock n + 1))")
    (auto simp: wait_done_def split: option.splits if_splits)

declare waitLoop.simps [simp del]

definition waitForLocalFileSize :: "net_env \<Rightarrow> ctx \<Rightarrow> string \<Rightarrow> int \<Rightarrow> int \<Rightarrow> (net, unit) st" where
  "waitForLocalFileSize env cx filePath expectedSize timeout n =
     waitLoop env cx filePath expectedSize (clock n + timeout) n"

definition localFileReadyTimeout :: int where
  "localFileReadyTimeout = 10 * 60 * 1000000000"

definition openLocalFile :: "net_env \<Rightarrow> ctx \<Rightarrow> string \<Rightarrow> int \<Rightarrow> (net, reader) st" where
  "openLocalFile env cx filePath expectedSize =
     sbind (if expectedSize > 0 then waitForLocalFileSize env cx filePath expectedSize localFileReadyTimeout
            else sret ()) (\<lambda>_ n.
       case open_file env (clock n) filePath of
         Inl e \<Rightarrow> (Inl (Wrapf ''open local telegram file'' e), n)
       | Inr f \<Rightarrow> (Inr f, n))"

definition Download :: "net_env \<Rightarrow> HTTPClient \<Rightarrow> ctx \<Rightarrow> string \<Rightarrow> (net, reader) st" where
  "Download env c cx fileID =
     sbind (doJSONRequest env c cx ''POST'' (methodURL c ''getFile'') (FormBody (form_encode [(''file_id'', fileID)]))
              ''application/x-www-form-urlencoded'') (\<lambda>resp.
       case decodeGetFile env resp of
         Inl e \<Rightarrow> sfail (Wrapf ''decode telegram getFile response'' e)
       | Inr envelope \<Rightarrow>
           if \<not> ge_OK envelope then sfail (telegramAPIError (ge_Description envelope))
           else if ge_FilePath envelope = [] then sfail (Msg ''telegram getFile response missing file_path'')
           else if HasPrefix (ge_FilePath envelope) ''/''
           then openLocalFile env cx (ge_FilePath envelope) (ge_FileSize envelope)
           else downloadFile env c cx (ge_FilePath envelope))"

definition DeleteMessage :: "net_env \<Rightarrow> HTTPClient \<Rightarrow> ctx \<Rightarrow> string \<Rightarrow> int \<Rightarrow> (net, unit) st" where
  "DeleteMessage env c cx chatID messageID =
     sbind (doJSONRequest env c cx ''POST'' (methodURL c ''deleteMessage'')
              (FormBody (form_encode [(''chat_id'', chatID), (''message_id'', Itoa messageID)]))
              ''application/x-www-form-urlencoded'') (\<lambda>resp.
       case decodeDelete env resp of
         Inl e \<Rightarrow> sfail (Wrapf ''decode telegram deleteMessage response'' e)
       | Inr (okay, description) \<Rightarrow> if \<not> okay then sfail (telegramAPIError description) else sret ())"

end
