(* ===== verification/TelegramProps.thy ===== *)
theory TelegramProps
  imports TelegramClient
begin

text \<open>
  The properties of the Bot API client: how often it sends, what a success rests on, how long it
  waits, and that the token does not leak into error texts.
\<close>

subsection \<open>Steps of the clock and the counter\<close>

lemma Do_sent: "Do env req n = (r, n') \<Longrightarrow> sent n' = Suc (sent n)"
  by (auto simp: Do_def split: prod.splits)

lemma wait_done_sent: "wait_done cx till n = (r, n') \<Longrightarrow> sent n' = sent n"
  by (auto simp: wait_done_def split: option.splits if_splits)

lemma sleep_sent: "sleepWithContext cx d n = (r, n') \<Longrightarrow> sent n' = sent n"
  by (auto simp: sleepWithContext_def split: option.splits if_splits dest: wait_done_sent)

text \<open>A sleep that is not interrupted takes exactly the delay, and the context is not done after it.\<close>

lemma sleep_Inr:
  assumes "sleepWithContext cx d n = (Inr u, n')"
  shows "clock n' = clock n + max 0 d" and "ctx_Err cx (clock n') = None"
proof -
  have w: "wait_done cx till n = (Inr u, n') \<Longrightarrow> clock n' = till \<and> ctx_Err cx till = None" for till
    by (auto simp: wait_done_def ctx_Err_def split: option.splits if_splits)
  have never: "\<not> wait_done cx (max (clock n) dl) n = (Inr u, n')" if "cx_deadline cx = Some dl" for dl
    using that by (auto simp: wait_done_def done_at_def split: option.splits if_splits)
  show "clock n' = clock n + max 0 d" "ctx_Err cx (clock n') = None"
    using assms never w by (auto simp: sleepWithContext_def split: option.splits if_splits)
qed

lemma single_sent:
  "doSingleUploadAttempt env c cx url body n = (r, n') \<Longrightarrow> sent n' \<le> Suc (sent n)"
  by (auto simp: doSingleUploadAttempt_def Let_def split: sum.splits prod.splits option.splits if_splits
      dest: Do_sent)

lemma single_success:
  assumes "doSingleUploadAttempt env c cx url body n = (Inl data, n')"
  shows "\<exists>req t resp. exch env (sent n) req = (t, Inr resp) \<and> rq_url req = url \<and> rq_body req = body \<and>
    200 \<le> rs_status resp \<and> rs_status resp < 300 \<and> ReadAll (rs_body resp) = Inr data \<and> sent n' = Suc (sent n)"
  using assms
  by (auto simp: doSingleUploadAttempt_def Do_def newRequestWithContext_def Let_def
      split: sum.splits prod.splits option.splits if_splits) (intro exI conjI, assumption, simp_all)

lemma uploadLoop_sent:
  "uploadLoop env c cx url request fieldName prev attempts n = (r, n') \<Longrightarrow> sent n' \<le> sent n + length attempts"
proof (induction attempts arbitrary: prev n)
  case (Cons a as)
  then show ?case
    by (auto split: option.splits prod.splits sum.splits if_splits
        dest!: single_sent sleep_sent Cons.IH)
qed (auto split: option.splits)

lemma uploadLoop_once:
  assumes "up_Seek request = None"
  shows "uploadLoop env c cx url request fieldName prev attempts n = (r, n') \<Longrightarrow> sent n' \<le> Suc (sent n)"
  using assms
  by (cases attempts) (auto split: option.splits prod.splits sum.splits if_splits dest!: single_sent)

lemma uploadLoop_success:
  "uploadLoop env c cx url request fieldName prev attempts n = (Inr data, n') \<Longrightarrow>
   \<exists>m req t resp. sent n \<le> m \<and> sent n' = Suc m \<and> exch env m req = (t, Inr resp) \<and> rq_url req = url \<and>
     rq_body req = uploadBody request fieldName \<and>
     200 \<le> rs_status resp \<and> rs_status resp < 300 \<and> ReadAll (rs_body resp) = Inr data"
proof (induction attempts arbitrary: prev n)
  case (Cons a as)
  obtain r n1 where one: "doSingleUploadAttempt env c cx url (uploadBody request fieldName) n = (r, n1)"
    by fastforce
  show ?case
  proof (cases r)
    case (Inl d)
    with Cons.prems one have "d = data" "n1 = n'"
      by (auto split: option.splits if_splits)
    with single_success one Inl show ?thesis by blast
  next
    case (Inr x)
    obtain retry delay e where x: "x = (retry, delay, e)" by (metis prod_cases3)
    from Cons.prems one Inr x obtain n2 where s: "sleepWithContext cx (backoffDelay cx (clock n1) (clientTimeout c) a delay) n1 = (Inr (), n2)"
      and l: "uploadLoop env c cx url request fieldName (Some (e, delay)) as n2 = (Inr data, n')"
      by (auto split: option.splits if_splits prod.splits sum.splits)
    from sleep_sent [OF s] single_sent [OF one] have le: "sent n1 \<le> Suc (sent n)" "sent n2 = sent n1" by auto
    have ge: "sent n \<le> sent n1"
      using one by (auto simp: doSingleUploadAttempt_def Let_def split: sum.splits prod.splits option.splits if_splits dest!: Do_sent)
    from Cons.IH [OF l] obtain m req t resp where h: "sent n2 \<le> m" "sent n' = Suc m"
      "exch env m req = (t, Inr resp) \<and> rq_url req = url \<and> rq_body req = uploadBody request fieldName \<and>
       200 \<le> rs_status resp \<and> rs_status resp < 300 \<and> ReadAll (rs_body resp) = Inr data" by blast
    have "sent n \<le> m" using h(1) le(2) ge by simp
    with h(2,3) show ?thesis by blast
  qed
qed (auto split: option.splits)

text \<open>What one round of the other two loops does: at most one request, then the result or a sleep and
  the rest of the attempts.\<close>

lemma requestLoop_round:
  assumes "requestLoop env c cx m url body contentType prev (a # as) n = (r, n')"
  shows "n' = n \<or> (\<exists>n1. sent n1 = Suc (sent n) \<and> (n' = n1 \<or> (\<exists>d q n2. sleepWithContext cx d n1 = (q, n2) \<and>
    (n' = n2 \<or> (\<exists>err. requestLoop env c cx m url body contentType (Some err) as n2 = (r, n'))))))"
proof (cases "newRequestWithContext env c m url body contentType")
  case (Inr req)
  obtain q n1 where q: "Do env req n = (q, n1)" by fastforce
  have "n' = n1 \<or> (\<exists>d u n2. sleepWithContext cx d n1 = (u, n2) \<and>
    (n' = n2 \<or> (\<exists>err. requestLoop env c cx m url body contentType (Some err) as n2 = (r, n'))))"
  proof (cases q)
    case (Inl e)
    obtain u n2 where s: "sleepWithContext cx (backoffDelay cx (clock n1) (clientTimeout c) a 0) n1 = (u, n2)"
      by fastforce
    have "n' = n1 \<or> n' = n2 \<or> (\<exists>err. requestLoop env c cx m url body contentType (Some err) as n2 = (r, n'))"
      using assms Inr q Inl s by (cases u) (auto simp: Let_def split: option.splits if_splits)
    with s show ?thesis by blast
  next
    case (Inr resp)
    show ?thesis
    proof (cases "ReadAll (rs_body resp)")
      case (Inl e)
      then show ?thesis using assms \<open>newRequestWithContext env c m url body contentType = Inr req\<close> q Inr
        by (simp split: if_splits) 
    next
      case data: (Inr data)
      obtain retry delay where sr: "shouldRetryTelegram env (rs_status resp) data = (retry, delay)" by fastforce
      obtain u n2 where s: "sleepWithContext cx (backoffDelay cx (clock n1) (clientTimeout c) a delay) n1 = (u, n2)"
        by fastforce
      have "n' = n1 \<or> n' = n2 \<or> (\<exists>err. requestLoop env c cx m url body contentType (Some err) as n2 = (r, n'))"
        using assms \<open>newRequestWithContext env c m url body contentType = Inr req\<close> q Inr data sr s
        by (cases u) (auto simp: Let_def split: if_splits)
      with s show ?thesis by blast
    qed
  qed
  with Do_sent [OF q] show ?thesis by blast
qed (use assms in simp)

lemma downloadLoop_round:
  assumes "downloadLoop env c cx url prev (a # as) n = (r, n')"
  shows "n' = n \<or> (\<exists>n1. sent n1 = Suc (sent n) \<and> (n' = n1 \<or> (\<exists>d q n2. sleepWithContext cx d n1 = (q, n2) \<and>
    (n' = n2 \<or> (\<exists>err. downloadLoop env c cx url (Some err) as n2 = (r, n'))))))"
proof (cases "newRequestWithContext env c ''GET'' url NoBody []")
  case (Inr req)
  obtain q n1 where q: "Do env req n = (q, n1)" by fastforce
  have "n' = n1 \<or> (\<exists>d u n2. sleepWithContext cx d n1 = (u, n2) \<and>
    (n' = n2 \<or> (\<exists>err. downloadLoop env c cx url (Some err) as n2 = (r, n'))))"
  proof (cases q)
    case (Inl e)
    obtain u n2 where s: "sleepWithContext cx (backoffDelay cx (clock n1) (clientTimeout c) a 0) n1 = (u, n2)"
      by fastforce
    have "n' = n1 \<or> n' = n2 \<or> (\<exists>err. downloadLoop env c cx url (Some err) as n2 = (r, n'))"
      using assms Inr q Inl s by (cases u) (auto simp: Let_def split: option.splits if_splits)
    with s show ?thesis by blast
  next
    case (Inr resp)
    show ?thesis
    proof (cases "ReadAll (rs_body resp)")
      case (Inl e)
      then show ?thesis using assms \<open>newRequestWithContext env c ''GET'' url NoBody [] = Inr req\<close> q Inr
        by (simp split: if_splits) 
    next
      case data: (Inr data)
      obtain retry delay where sr: "shouldRetryTelegram env (rs_status resp) data = (retry, delay)" by fastforce
      obtain u n2 where s: "sleepWithContext cx (backoffDelay cx (clock n1) (clientTimeout c) a delay) n1 = (u, n2)"
        by fastforce
      have "n' = n1 \<or> n' = n2 \<or> (\<exists>err. downloadLoop env c cx url (Some err) as n2 = (r, n'))"
        using assms \<open>newRequestWithContext env c ''GET'' url NoBody [] = Inr req\<close> q Inr data sr s
        by (cases u) (auto simp: Let_def split: if_splits)
      with s show ?thesis by blast
    qed
  qed
  with Do_sent [OF q] show ?thesis by blast
qed (use assms in simp)

lemma requestLoop_sent:
  "requestLoop env c cx m url body contentType prev attempts n = (r, n') \<Longrightarrow> sent n' \<le> sent n + length attempts"
proof (induction attempts arbitrary: prev n)
  case (Cons a as)
  from requestLoop_round [OF Cons.prems] show ?case using sleep_sent Cons.IH by fastforce
qed simp

lemma downloadLoop_sent:
  "downloadLoop env c cx url prev attempts n = (r, n') \<Longrightarrow> sent n' \<le> sent n + length attempts"
proof (induction attempts arbitrary: prev n)
  case (Cons a as)
  from downloadLoop_round [OF Cons.prems] show ?case using sleep_sent Cons.IH by fastforce
qed simp

lemma Upload_sent:
  assumes "Upload env c cx request n = (r, n')"
  shows "sent n' \<le> sent n + 4" "up_Seek request = None \<Longrightarrow> sent n' \<le> Suc (sent n)"
  using assms uploadLoop_sent [of env c cx _ request _ None "[0..<4]" n]
    uploadLoop_once [of request env c cx _ _ None "[0..<4]" n]
  by (auto simp: Upload_def doUploadRequest_def split: sum.splits prod.splits if_splits simp del: upt.simps)
     (meson Suc_le_eq)?

subsection \<open>Replacing a text keeps another one out\<close>

lemma Contains_simps: "Contains [] t = (t = [])" "Contains (c # s) t = (HasPrefix (c # s) t \<or> Contains s t)"
  by (auto simp: Contains_def)

lemma Contains_append_left: "Contains (a @ b) t \<Longrightarrow> (\<exists>x y. a = y @ x \<and> x \<noteq> [] \<and> HasPrefix (x @ b) t) \<or> Contains b t"
proof (induction a)
  case (Cons c a)
  show ?case
  proof (cases "HasPrefix (c # a @ b) t")
    case True
    then have "c # a = [] @ (c # a) \<and> c # a \<noteq> [] \<and> HasPrefix ((c # a) @ b) t" by simp
    then show ?thesis by blast
  next
    case False
    with Cons have "(\<exists>x y. a = y @ x \<and> x \<noteq> [] \<and> HasPrefix (x @ b) t) \<or> Contains b t"
      by (simp add: Contains_simps)
    then show ?thesis by (metis append_Cons)
  qed
qed simp

lemma Contains_drop: "Contains (drop n s) t \<Longrightarrow> t \<noteq> [] \<Longrightarrow> Contains s t"
proof (induction s arbitrary: n)
  case (Cons c s)
  then show ?case by (cases n) (auto simp: Contains_simps)
qed simp

definition keeps_out :: "string \<Rightarrow> string \<Rightarrow> bool" where
  "keeps_out new tok \<longleftrightarrow> new \<noteq> [] \<and> hd new \<notin> set tok \<and> last new \<notin> set tok \<and> (\<exists>k \<in> set tok. k \<notin> set new)"

lemma keeps_out_suffix:
  assumes "keeps_out new tok" "new = y @ x" "x \<noteq> []"
  shows "\<not> HasPrefix (x @ r) tok"
proof
  assume "HasPrefix (x @ r) tok"
  then have t: "take (length tok) (x @ r) = tok" by (simp add: HasPrefix_def)
  show False
  proof (cases "length x \<le> length tok")
    case True
    with t have "set x \<subseteq> set tok" by (metis append_eq_conv_conj set_append sup_ge1 take_all take_append)
    with assms show False unfolding keeps_out_def by (metis last_appendR last_in_set subsetD)
  next
    case False
    then have "tok = take (length tok) x" using t by simp
    then have "set tok \<subseteq> set x" by (metis set_take_subset)
    with assms show False unfolding keeps_out_def by auto
  qed
qed

lemma Replacer_prefix:
  "new \<noteq> [] \<Longrightarrow> hd new \<notin> set u \<Longrightarrow> HasPrefix (Replacer [(old, new)] s) u \<Longrightarrow> HasPrefix s u"
proof (induction "[(old, new)]" s arbitrary: u rule: Replacer.induct)
  case (2 c s)
  show ?case
  proof (cases "old \<noteq> [] \<and> HasPrefix (c # s) old")
    case True
    with 2 have "u = []" by (cases u; cases new) (auto simp: HasPrefix_def)
    then show ?thesis by simp
  next
    case False
    with 2 show ?thesis by (cases u) (auto simp: HasPrefix_def)
  qed
qed simp

lemma ReplaceAll_keeps_out:
  assumes "keeps_out new tok" "tok \<noteq> []"
  shows "old = tok \<or> \<not> Contains s tok \<Longrightarrow> \<not> Contains (ReplaceAll s old new) tok"
  unfolding ReplaceAll_def
proof (induction "[(old, new)]" s rule: Replacer.induct)
  case 1
  then show ?case using assms by (simp add: Contains_simps)
next
  case (2 c s)
  show ?case
  proof (cases "old \<noteq> [] \<and> HasPrefix (c # s) old")
    case True
    let ?r = "Replacer [(old, new)] (drop (length old - 1) s)"
    have r: "Replacer [(old, new)] (c # s) = new @ ?r" using True by simp
    have "old = tok \<or> \<not> Contains (drop (length old - 1) s) tok"
      using 2(3) Contains_drop [OF _ assms(2)] by (auto simp: Contains_simps)
    then have "\<not> Contains ?r tok" using 2(2) True by simp
    then show ?thesis unfolding r using Contains_append_left keeps_out_suffix [OF assms(1)] by blast
  next
    case False
    have r: "Replacer [(old, new)] (c # s) = c # Replacer [(old, new)] s" using False by auto
    have "\<not> Contains (Replacer [(old, new)] s) tok"
      using 2(1) 2(3) False by (auto simp: Contains_simps)
    moreover have "\<not> HasPrefix (c # Replacer [(old, new)] s) tok"
    proof
      assume h: "HasPrefix (c # Replacer [(old, new)] s) tok"
      with assms(2) obtain u where u: "tok = c # u" "HasPrefix (Replacer [(old, new)] s) u"
        by (cases tok) (auto simp: HasPrefix_def)
      have "HasPrefix s u"
        by (rule Replacer_prefix [OF _ _ u(2)]) (use assms(1) u(1) in \<open>auto simp: keeps_out_def\<close>)
      then have "HasPrefix (c # s) tok" using u(1) by (simp add: HasPrefix_def)
      with 2(3) False assms(2) show False by (auto simp: Contains_simps)
    qed
    ultimately show ?thesis unfolding r by (simp add: Contains_simps)
  qed
qed

text \<open>The shape of a bot token: it has a colon and none of the characters that stand next to it in a
  URL or in the replacement texts.\<close>

definition token_shape :: "string \<Rightarrow> bool" where
  "token_shape tok \<longleftrightarrow> CHR '':'' \<in> set tok \<and> set tok \<inter> set ''[]/<>'' = {}"

lemma token_keeps_out:
  assumes "token_shape tok"
  shows "keeps_out ''[redacted]'' tok" "keeps_out ''/bot<TOKEN>/'' tok" "keeps_out ''/file/bot<TOKEN>/'' tok" "tok \<noteq> []"
  using assms by (auto simp: token_shape_def keeps_out_def intro!: bexI [of _ "CHR '':''"])

lemma sanitize_no_token:
  assumes "token_shape (botToken c)"
  shows "\<not> Contains (sanitizeErrorText c text) (botToken c)"
proof (cases "text = []")
  case True
  then show ?thesis using token_keeps_out(4) [OF assms] by (simp add: sanitizeErrorText_def Contains_simps)
next
  case False
  note k = token_keeps_out [OF assms]
  have "\<not> Contains (ReplaceAll text (botToken c) ''[redacted]'') (botToken c)"
    by (rule ReplaceAll_keeps_out [OF k(1,4)]) simp
  then have "\<not> Contains (ReplaceAll (ReplaceAll text (botToken c) ''[redacted]'') ''/bot[redacted]/'' ''/bot<TOKEN>/'') (botToken c)"
    by (intro ReplaceAll_keeps_out [OF k(2,4)]) simp
  then show ?thesis using False k(4)
    by (simp add: sanitizeErrorText_def Let_def ReplaceAll_keeps_out [OF k(3,4)])
qed

subsection \<open>The wait for a local file\<close>

lemma waitLoop_Inr:
  "waitLoop env cx p sz deadline n = (Inr u, n') \<Longrightarrow> \<exists>m \<ge> sz. stat_file env (clock n') p = Inr m"
proof (induction env cx p sz deadline n rule: waitLoop.induct)
  case (1 env cx p sz deadline n)
  show ?case
  proof (cases "clock n > deadline")
    case True
    with 1(2) show ?thesis
      by (subst (asm) waitLoop.simps) (auto simp: Let_def split: sum.splits if_splits)
  next
    case False
    obtain q n1 where w: "wait_done cx (clock n + 100000000) n = (q, n1)" by fastforce
    show ?thesis
    proof (cases q)
      case (Inl e)
      with False w 1(2) show ?thesis
        by (subst (asm) waitLoop.simps) (auto simp: Let_def split: sum.splits if_splits)
    next
      case (Inr v)
      note IH = 1(1) [OF refl False w [symmetric] Inr]
      from False w Inr 1(2) have "(\<exists>m \<ge> sz. stat_file env (clock n') p = Inr m) \<or>
          waitLoop env cx p sz deadline n1 = (Inr u, n')"
        by (subst (asm) waitLoop.simps) (auto simp: Let_def split: sum.splits if_splits)
      then show ?thesis using IH by blast
    qed
  qed
qed

lemma wait_done_bound: "wait_done cx till n = (r, n') \<Longrightarrow> clock n \<le> till \<Longrightarrow> clock n' \<le> till"
  by (auto simp: wait_done_def split: option.splits if_splits)

lemma waitLoop_bound:
  "waitLoop env cx p sz deadline n = (r, n') \<Longrightarrow> clock n' \<le> max (clock n) (deadline + 100000000)"
proof (induction env cx p sz deadline n rule: waitLoop.induct)
  case (1 env cx p sz deadline n)
  show ?case
  proof (cases "clock n > deadline")
    case True
    with 1(2) show ?thesis
      by (subst (asm) waitLoop.simps) (auto simp: Let_def split: sum.splits if_splits)
  next
    case False
    obtain q n1 where w: "wait_done cx (clock n + 100000000) n = (q, n1)" by fastforce
    have b: "clock n1 \<le> clock n + 100000000" using wait_done_bound [OF w] by simp
    show ?thesis
    proof (cases q)
      case (Inl e)
      with False w 1(2) b show ?thesis
        by (subst (asm) waitLoop.simps) (auto simp: Let_def split: sum.splits if_splits)
    next
      case (Inr v)
      note IH = 1(1) [OF refl False w [symmetric] Inr]
      from False w Inr 1(2) have "n' = n \<or> waitLoop env cx p sz deadline n1 = (r, n')"
        by (subst (asm) waitLoop.simps) (auto simp: Let_def split: sum.splits if_splits)
      then show ?thesis using IH b False by auto
    qed
  qed
qed

subsection \<open>Properties\<close>

definition demo_ctx :: ctx where "demo_ctx = \<lparr>cx_deadline = None, cx_cancel = None\<rparr>"

definition demo_client :: HTTPClient where
  "demo_client = \<lparr>botToken = ''1:t'', apiBaseURL = ''http://a'', clientTimeout = 0\<rparr>"

text \<open>A server that answers the first request with status 500 and then accepts a document.\<close>

definition demo_net :: net_env where
  "demo_net =
     \<lparr>exch = \<lambda>k rq. (1, if k = 0 then Inr \<lparr>rs_status = 500, rs_body = \<lparr>rd_data = [], rd_err = None\<rparr>\<rparr>
                        else Inr \<lparr>rs_status = 200, rs_body = \<lparr>rd_data = ''ok'', rd_err = None\<rparr>\<rparr>),
      bad_url = \<lambda>_. None,
      parse_json = \<lambda>d. Some (JObj [(''ok'', JBool True), (''result'', JObj [(''message_id'', JNum 9),
        (''document'', JObj [(''file_id'', JStr ''F'')])])]),
      stat_file = \<lambda>t p. Inr (t div 100000000), open_file = \<lambda>t p. Inr \<lparr>rd_data = p, rd_err = None\<rparr>\<rparr>"

definition demo_upload :: "gerror option option \<Rightarrow> UploadRequest" where
  "demo_upload seek =
     \<lparr>up_Type = ''document'', up_ChatID = ''7'', up_Reader = \<lparr>rd_data = ''hi'', rd_err = None\<rparr>, up_Seek = seek,
      up_Filename = ''f'', up_MIMEType = [], up_Caption = []\<rparr>"

lemmas upload_run = Upload_def doUploadRequest_def uploadMethodAndField_def doSingleUploadAttempt_def
  newRequestWithContext_def Do_def ReadAll_def shouldRetryTelegram_def ctx_Err_def done_at_def
  sleepWithContext_def wait_done_def backoffDelay_def demo_ctx_def demo_net_def demo_upload_def demo_client_def
  decodeUpload_def Unmarshal_def field_def uploadResult_decoder_def telegramFile_decoder_def
  uploadedFileFromResult_def mediaToUploadedFile_def no_result_def no_file_def safeUploadReplayError_def

text \<open>C39: One call of \<^verbatim>\<open>Upload\<close> sends at most four requests, and at most one when the reader cannot be
  rewound, so a stream is never sent twice.\<close>
theorem Upload_request_bound:
  assumes "Upload env c cx request n = (r, n')"
  shows "sent n' \<le> sent n + (if up_Seek request = None then 1 else 4)"
  using Upload_sent [OF assms] by auto

theorem Upload_request_bound_witness:
  "sent (snd (Upload demo_net demo_client demo_ctx (demo_upload None) \<lparr>clock = 0, sent = 0\<rparr>)) \<le> 1"
proof -
  obtain r n' where run: "Upload demo_net demo_client demo_ctx (demo_upload None) \<lparr>clock = 0, sent = 0\<rparr> = (r, n')"
    by fastforce
  from Upload_request_bound [OF run] run show ?thesis by (simp add: demo_upload_def)
qed

text \<open>A file that \<^verbatim>\<open>Upload\<close> reports was accepted: the last of its requests, a \<^verbatim>\<open>POST\<close> of this very
  content to the method of this type, was answered with a 2xx status and a body that decodes to
  \<^verbatim>\<open>ok: true\<close>; the message id is the one in that body and the file id is the one of the media in it.\<close>
lemma Upload_success:
  assumes "Upload env c cx request n = (Inr file, n')"
  shows "\<exists>m req t resp data envelope methodName fieldName f.
    sent n' = Suc m \<and> sent n \<le> m \<and> m < sent n + 4 \<and>
    uploadMethodAndField (up_Type request) = Inr (methodName, fieldName) \<and>
    exch env m req = (t, Inr resp) \<and> rq_url req = methodURL c methodName \<and>
    rq_body req = uploadBody request fieldName \<and> 200 \<le> rs_status resp \<and> rs_status resp < 300 \<and>
    ReadAll (rs_body resp) = Inr data \<and> decodeUpload env data = Inr envelope \<and> ue_OK envelope \<and>
    uploadedFileFromResult (up_Type request) (ue_Result envelope) = Inr f \<and>
    file = f\<lparr>uf_Type := up_Type request, uf_MessageID := ur_MessageID (ue_Result envelope)\<rparr>"
proof -
  from assms obtain methodName fieldName data envelope f where
    h: "uploadMethodAndField (up_Type request) = Inr (methodName, fieldName)"
    "doUploadRequest env c cx (methodURL c methodName) request fieldName n = (Inr data, n')"
    "decodeUpload env data = Inr envelope" "ue_OK envelope"
    "uploadedFileFromResult (up_Type request) (ue_Result envelope) = Inr f"
    "file = f\<lparr>uf_Type := up_Type request, uf_MessageID := ur_MessageID (ue_Result envelope)\<rparr>"
    by (auto simp: Upload_def split: sum.splits prod.splits if_splits)
  from uploadLoop_success [OF h(2) [unfolded doUploadRequest_def]] obtain m req t resp where
    s: "sent n \<le> m" "sent n' = Suc m" "exch env m req = (t, Inr resp)" "rq_url req = methodURL c methodName"
    "rq_body req = uploadBody request fieldName" "200 \<le> rs_status resp" "rs_status resp < 300"
    "ReadAll (rs_body resp) = Inr data" by blast
  have "m < sent n + 4" using Upload_sent(1) [OF assms] s(2) by simp
  with h s show ?thesis by blast
qed

text \<open>\<^verbatim>\<open>openLocalFile\<close> does not hand out a file that is still being written: when an expected size is
  known, the file had at least that size when it was opened. And it gives up in time: the clock has
  not moved on by more than the ten minutes and one tick.\<close>
lemma openLocalFile_complete:
  assumes "openLocalFile env cx p sz n = (r, n')" "0 < sz"
  shows "clock n' \<le> clock n + localFileReadyTimeout + 100000000 \<and>
    (\<forall>f. r = Inr f \<longrightarrow> open_file env (clock n') p = Inr f \<and> (\<exists>m \<ge> sz. stat_file env (clock n') p = Inr m))"
proof -
  obtain q n1 where w: "waitLoop env cx p sz (clock n + localFileReadyTimeout) n = (q, n1)" by fastforce
  note b = waitLoop_bound [OF w]
  have "r = Inr f \<Longrightarrow> q = Inr () \<and> n' = n1 \<and> open_file env (clock n') p = Inr f" for f
    using assms w by (auto simp: openLocalFile_def waitForLocalFileSize_def sbind_def split: sum.splits)
  moreover have "n' = n1"
    using assms w by (auto simp: openLocalFile_def waitForLocalFileSize_def sbind_def split: sum.splits)
  ultimately show ?thesis using b waitLoop_Inr [of env cx p sz "clock n + localFileReadyTimeout" n "()" n1] w
    by (auto simp: localFileReadyTimeout_def)
qed

text \<open>C40: An error text that has gone through \<^verbatim>\<open>sanitizeErrorText\<close> does not contain the bot token, whatever
  the text was, for a token of the usual shape (a colon, no bracket and no slash).\<close>
theorem sanitizeErrorText_hides_token:
  assumes "token_shape (botToken c)"
  shows "\<not> Contains (sanitizeErrorText c text) (botToken c)"
  by (rule sanitize_no_token [OF assms])

theorem sanitizeErrorText_hides_token_witness:
  "\<not> Contains (sanitizeErrorText demo_client ''Post http://a/bot1:t/getFile: refused'') ''1:t'' \<and>
   sanitizeErrorText demo_client ''Post http://a/bot1:t/getFile: refused'' = ''Post http://a/bot<TOKEN>/getFile: refused''"
proof
  have "token_shape (botToken demo_client)" by (simp add: token_shape_def demo_client_def)
  from sanitizeErrorText_hides_token [OF this, of "''Post http://a/bot1:t/getFile: refused''"]
  show "\<not> Contains (sanitizeErrorText demo_client ''Post http://a/bot1:t/getFile: refused'') ''1:t''"
    by (simp add: demo_client_def)
qed code_simp

text \<open>The photo kept is the last of the largest ones.\<close>

lemma largest_photo:
  "\<exists>i < length (p # ps). largest_photo p ps = (p # ps) ! i \<and>
     (\<forall>j < length (p # ps). tf_FileSize ((p # ps) ! j) \<le> tf_FileSize ((p # ps) ! i)) \<and>
     (\<forall>j < length (p # ps). i < j \<longrightarrow> tf_FileSize ((p # ps) ! j) < tf_FileSize ((p # ps) ! i))"
proof (induction ps rule: rev_induct)
  case Nil then show ?case by (simp add: largest_photo_def)
next
  case (snoc q ps)
  then obtain i where i: "i < length (p # ps)" "largest_photo p ps = (p # ps) ! i"
    "\<forall>j < length (p # ps). tf_FileSize ((p # ps) ! j) \<le> tf_FileSize ((p # ps) ! i)"
    "\<forall>j < length (p # ps). i < j \<longrightarrow> tf_FileSize ((p # ps) ! j) < tf_FileSize ((p # ps) ! i)" by blast
  have nth: "(p # ps @ [q]) ! j = (if j < length (p # ps) then (p # ps) ! j else q)" if "j < length (p # ps @ [q])" for j
    using that by (cases j) (auto simp: nth_append less_Suc_eq)
  have step: "largest_photo p (ps @ [q]) =
      (if tf_FileSize q \<ge> tf_FileSize ((p # ps) ! i) then q else (p # ps) ! i)"
    using i(2) by (simp add: largest_photo_def)
  show ?case
  proof (cases "tf_FileSize q \<ge> tf_FileSize ((p # ps) ! i)")
    case True
    have "tf_FileSize ((p # ps @ [q]) ! j) \<le> tf_FileSize q" if "j < length (p # ps @ [q])" for j
      using i(3) True nth [OF that] by (auto intro: order_trans)
    then show ?thesis using True step by (intro exI [of _ "length (p # ps)"]) auto
  next
    case False
    have "tf_FileSize ((p # ps @ [q]) ! j) \<le> tf_FileSize ((p # ps) ! i)"
      "i < j \<Longrightarrow> tf_FileSize ((p # ps @ [q]) ! j) < tf_FileSize ((p # ps) ! i)"
      if "j < length (p # ps @ [q])" for j
      using i(3,4) False nth [OF that] by auto
    moreover have "(p # ps @ [q]) ! i = (p # ps) ! i" using nth [of i] i(1) by simp
    ultimately show ?thesis using False step i(1) by (intro exI [of _ i]) auto
  qed
qed

text \<open>A document upload that Telegram has filed under another kind is not lost: an answer yields a
  file exactly when one of document, video, animation and audio has a file id, and the first of
  them in this order is the one taken.\<close>
lemma document_upload_fallback:
  "uploadedFileFromResult ''document'' result =
     (case filter (\<lambda>f. tf_FileID f \<noteq> []) [ur_Document result, ur_Video result, ur_Animation result, ur_Audio result] of
        [] \<Rightarrow> Inl (Msg ''telegram upload response missing document'')
      | f # _ \<Rightarrow> Inr \<lparr>uf_Type = [], uf_FileID = tf_FileID f, uf_FileUniqueID = tf_FileUniqueID f,
          uf_MessageID = 0, uf_FileSize = tf_FileSize f, uf_MIMEType = tf_MIMEType f\<rparr>)"
  by (auto simp: uploadedFileFromResult_def mediaToUploadedFile_def)

end
