(* ===== verification/StoreState.thy ===== *)
theory StoreState
  imports Metadata UploadStrategies Captions Ranges TelegramClient
begin

text \<open>
  The state of \<^verbatim>\<open>store.ObjectStore\<close> and the helpers of \<^verbatim>\<open>store/store.go\<close>.

  The state extends the one of the SQLite store, so the metadata methods run on it as they are. It
  adds the bucket bindings, the upload gates, the multipart uploads, the buckets found unavailable,
  the world behind the Telegram clients (a type parameter) and the events that are logged about
  messages and metadata (debug lines that only trace the course of a call are left out).
  Outside the repository and so parameters: the hashes, \<^verbatim>\<open>crypto/rand\<close>, errors of temporary files,
  the order in which a map is ranged over, and how a \<^verbatim>\<open>select\<close> with \<^verbatim>\<open>ctx.Done()\<close> goes
  (\<open>ev_refuse\<close>, \<open>ev_sleep\<close>: the context's error when that branch is taken at this point).
\<close>

subsection \<open>Types\<close>

text \<open>The interface \<^verbatim>\<open>telegram.Client\<close>; a download also carries the result of closing its reader.\<close>

record 'w tg_client =
  tc_Upload :: "UploadRequest \<Rightarrow> 'w \<Rightarrow> (gerror + UploadedFile) \<times> 'w"
  tc_Download :: "string \<Rightarrow> 'w \<Rightarrow> (gerror + reader \<times> gerror option) \<times> 'w"
  tc_DeleteMessage :: "string \<Rightarrow> int \<Rightarrow> 'w \<Rightarrow> (gerror + unit) \<times> 'w"

record 'w BucketBinding =
  bb_Name :: string
  bb_ChatID :: string
  bb_TokenSource :: string
  bb_TokenKey :: string
  bb_Telegram :: "'w tg_client option"

record 'w Options =
  opt_Upload :: UploadConfig
  opt_Caption :: "string option"
  opt_Buckets :: "(string \<times> 'w BucketBinding) list"
  opt_MaxUploads :: int
  opt_MaxDownloads :: int
  opt_MaxTelegramCalls :: int

record multipartChunk =
  mc_size :: int
  mc_telegramType :: string
  mc_telegramFileID :: string
  mc_telegramMessageID :: int
  mc_telegramFileUniqueID :: string
  mc_sha256 :: string

record multipartPart =
  mp_number :: int
  mp_etag :: string
  mp_md5Bytes :: bytes
  mp_size :: int
  mp_chunks :: "multipartChunk list"

record multipartUpload =
  mu_bucket :: string
  mu_key :: string
  mu_contentType :: string
  mu_createdAt :: int
  mu_parts :: "(int \<times> multipartPart) list"

datatype log_event =
    OrphanUpload string string "(string \<times> int) list" string
  | DeletedMessage string string int string
  | DeleteOnOverwriteFailed string string int string
  | MetadataPut string string int string string

record oenv = sqlite_env +
  ev_md5 :: "bytes \<Rightarrow> bytes"
  ev_sha256 :: "bytes \<Rightarrow> bytes"
  ev_rand :: "nat \<Rightarrow> gerror + bytes"
  ev_os :: "nat \<Rightarrow> gerror option"
  ev_refuse :: "nat \<Rightarrow> gerror option"
  ev_sleep :: "nat \<Rightarrow> gerror option"
  ev_order :: "nat \<Rightarrow> string list \<Rightarrow> string list"

record 'w ostate = sqlite +
  tg :: "'w tg_client option"
  options :: "'w Options"
  startupBuckets :: "string \<rightharpoonup> Bucket"
  bucketBindings :: "string \<rightharpoonup> 'w BucketBinding"
  uploadGates :: "string \<rightharpoonup> int"
  multipartUploads :: "(string \<times> multipartUpload) list"
  unavailableBuckets :: "string set"
  world :: 'w
  events :: "log_event list"

type_synonym ('w, 'a) act = "('w ostate, 'a) st"

definition nil_dereference :: gerror where
  "nil_dereference = Msg ''runtime error: invalid memory address or nil pointer dereference''"

subsection \<open>Strings\<close>

definition hex_lower :: "nat \<Rightarrow> char" where
  "hex_lower n = ''0123456789abcdef'' ! (n mod 16)"

definition EncodeToString :: "bytes \<Rightarrow> string" where
  "EncodeToString bs = concat (map (\<lambda>b. let n = of_char b :: nat in [hex_lower (n div 16), hex_lower n]) bs)"

text \<open>\<^verbatim>\<open>path.Base\<close>.\<close>

definition Base :: "string \<Rightarrow> string" where
  "Base p =
     (if p = [] then ''.''
      else let q = TrimRight p ''/'' in if q = [] then ''/'' else last (Split q CHR ''/''))"

text \<open>\<^verbatim>\<open>HumanSize\<close>: \<open>float53\<close> is the conversion to \<^verbatim>\<open>float64\<close>, the divisions by 1024 are exact, and
  \<^verbatim>\<open>%.1f\<close> rounds the exact value to tenths, ties to even.\<close>

definition round_even :: "int \<Rightarrow> int \<Rightarrow> int" where
  "round_even a b =
     (let q = a div b; r = a mod b in
      if 2 * r < b then q else if 2 * r > b then q + 1 else if even q then q else q + 1)"

definition float53 :: "int \<Rightarrow> int" where
  "float53 n = (if n < 2 ^ 53 then n
     else let k = length (filter (\<lambda>j. n \<ge> 2 ^ (53 + j)) [0..<10]) in round_even n (2 ^ k) * 2 ^ k)"

definition tenths :: "int \<Rightarrow> string" where
  "tenths t = Itoa (t div 10) @ ''.'' @ Itoa (t mod 10)"

definition HumanSize :: "int \<Rightarrow> string" where
  "HumanSize sz =
     (if sz < 1024 then Itoa sz @ '' B''
      else let v = float53 sz in
        (case find (\<lambda>(k, u). v < 1024 ^ (k + 1)) [(1 :: nat, ''KiB''), (2, ''MiB''), (3, ''GiB''), (4, ''TiB'')] of
           Some (k, u) \<Rightarrow> tenths (round_even (v * 10) (1024 ^ k)) @ '' '' @ u
         | None \<Rightarrow> tenths (round_even (v * 10) (1024 ^ 5)) @ '' PiB''))"

definition summarizeFileID :: "string \<Rightarrow> string" where
  "summarizeFileID value =
     (if value = [] then [] else if length value \<le> 8 then ''[redacted]''
      else take 4 value @ ''...'' @ drop (length value - 4) value)"

text \<open>\<^verbatim>\<open>sanitizeLogError\<close>: the regular expression
  \<^verbatim>\<open>(?i)\b(bot_token|secret_key)\b\s*([=:])\s*([^\s,;]+)\<close> matched at one position. \<open>prior\<close> is the
  character in front of it.\<close>

definition word_char :: "char \<Rightarrow> bool" where
  "word_char c \<longleftrightarrow> alnum c \<or> c = CHR ''_''"

definition re_space :: "char \<Rightarrow> bool" where
  "re_space c \<longleftrightarrow> c \<in> {CHR 0x09, CHR 0x0A, CHR 0x0C, CHR 0x0D, CHR '' ''}"

definition secret_stop :: "char \<Rightarrow> bool" where
  "secret_stop c \<longleftrightarrow> re_space c \<or> c = CHR '','' \<or> c = CHR '';''"

definition secret_name :: "string \<Rightarrow> string option" where
  "secret_name s = find (\<lambda>name. HasPrefix (ToLower s) name) [''bot_token'', ''secret_key'']"

definition match_assignment :: "char option \<Rightarrow> string \<Rightarrow> (string \<times> char \<times> string) option" where
  "match_assignment prior s =
     (case secret_name s of
        None \<Rightarrow> None
      | Some name \<Rightarrow>
          let rest = drop (length name) s; after = dropWhile re_space rest in
          if (case prior of Some c \<Rightarrow> word_char c | None \<Rightarrow> False) then None
          else if rest \<noteq> [] \<and> word_char (hd rest) then None
          else (case after of
              [] \<Rightarrow> None
            | op # r2 \<Rightarrow>
                if op \<noteq> CHR ''='' \<and> op \<noteq> CHR '':'' then None
                else let val = dropWhile re_space r2 in
                  if takeWhile (\<lambda>c. \<not> secret_stop c) val = [] then None
                  else Some (take (length name) s, op, dropWhile (\<lambda>c. \<not> secret_stop c) val)))"

lemma match_assignment_shorter:
  assumes "match_assignment prior s = Some (name, op, rest)"
  shows "length rest < length s"
proof -
  from assms obtain nm where nm: "secret_name s = Some nm"
    by (cases "secret_name s") (simp_all add: match_assignment_def)
  show ?thesis
  proof (cases "dropWhile re_space (drop (length nm) s)")
    case Nil
    with assms nm show ?thesis
      by (simp add: match_assignment_def Let_def del: dropWhile_eq_Nil_conv split: if_splits)
  next
    case (Cons o2 r2)
    with assms nm have rest: "rest = dropWhile (\<lambda>c. \<not> secret_stop c) (dropWhile re_space r2)"
      by (simp add: match_assignment_def Let_def split: if_splits)
    have "length (o2 # r2) \<le> length s"
      unfolding Cons [symmetric] by (rule order_trans [OF length_dropWhile_le]) simp
    moreover have "length rest \<le> length r2"
      unfolding rest by (rule order_trans [OF length_dropWhile_le length_dropWhile_le])
    ultimately show ?thesis by simp
  qed
qed

function redact_assignments :: "char option \<Rightarrow> string \<Rightarrow> string" where
  "redact_assignments prior [] = []"
| "redact_assignments prior (c # s) =
     (case match_assignment prior (c # s) of
        None \<Rightarrow> c # redact_assignments (Some c) s
      | Some (name, op, rest) \<Rightarrow>
          name @ [op] @ ''[REDACTED]'' @
          redact_assignments (Some (last (take (length (c # s) - length rest) (c # s)))) rest)"
  by pat_completeness auto
termination
  by (relation "measure (\<lambda>(b, s). length s)") (auto dest: match_assignment_shorter)

definition sanitizeLogError :: "gerror \<Rightarrow> string" where
  "sanitizeLogError err = redact_assignments None (Error err)"

subsection \<open>Buckets and bindings\<close>

definition emit :: "log_event \<Rightarrow> ('w, unit) act" where
  "emit e = smodify (\<lambda>s. s\<lparr>events := events s @ [e]\<rparr>)"

definition clock_now :: "oenv \<Rightarrow> ('w, int) act" where
  "clock_now env = time_Now env"

text \<open>A \<^verbatim>\<open>select\<close> between a ready channel and \<^verbatim>\<open>ctx.Done()\<close>.\<close>

definition select_ctx :: "oenv \<Rightarrow> ('w, unit) act" where
  "select_ctx env s = (case ev_refuse env (tick s) of Some e \<Rightarrow> (Inl e, tick_up s) | None \<Rightarrow> (Inr (), tick_up s))"

text \<open>\<^verbatim>\<open>acquire\<close> with the semaphore of size \<open>n\<close>, nil when \<open>n\<close> is not positive: the caller returns
  \<^verbatim>\<open>ctx.Err()\<close> when it is refused.\<close>

definition acquire :: "oenv \<Rightarrow> int \<Rightarrow> ('w, unit) act" where
  "acquire env n = (if n > 0 then select_ctx env else sret ())"

definition isBucketUnavailable :: "string \<Rightarrow> 'w ostate \<Rightarrow> bool" where
  "isBucketUnavailable name s \<longleftrightarrow> name \<in> unavailableBuckets s"

definition markBucketUnavailable :: "string \<Rightarrow> ('w, unit) act" where
  "markBucketUnavailable name = smodify (\<lambda>s. s\<lparr>unavailableBuckets := insert name (unavailableBuckets s)\<rparr>)"

definition shouldMarkBucketUnavailable :: "gerror \<Rightarrow> bool" where
  "shouldMarkBucketUnavailable err \<longleftrightarrow>
     (case ClassifyRequestError err of
        None \<Rightarrow> False
      | Some (operation, statusCode, reason) \<Rightarrow> operation = ''upload_send'' \<and> reason = ''unauthorized'')"

definition HeadBucket :: "string \<Rightarrow> ('w, unit) act" where
  "HeadBucket name s =
     (if startupBuckets s name = None then (Inl (Sent ErrNoSuchBucket), s)
      else if isBucketUnavailable name s then (Inl (Sent ErrUnavailable), s)
      else (Inr (), s))"

definition bucketBinding :: "'w ostate \<Rightarrow> string \<Rightarrow> gerror + 'w BucketBinding" where
  "bucketBinding s name =
     (case bucketBindings s name of
        None \<Rightarrow>
          (case (startupBuckets s name, tg s) of
             (Some item, Some c) \<Rightarrow>
               Inr \<lparr>bb_Name = name, bb_ChatID = bk_ChatID item, bb_TokenSource = [], bb_TokenKey = [],
                    bb_Telegram = Some c\<rparr>
           | _ \<Rightarrow> Inl (Sent ErrNoSuchBucket))
      | Some binding \<Rightarrow>
          let b1 = (if bb_ChatID binding = [] then
                      (case startupBuckets s name of
                         Some item \<Rightarrow> binding\<lparr>bb_ChatID := bk_ChatID item\<rparr> | None \<Rightarrow> binding)
                    else binding);
              b2 = (if bb_Telegram b1 = None \<and> tg s \<noteq> None then b1\<lparr>bb_Telegram := tg s\<rparr> else b1)
          in Inr b2)"

definition bucketBindingM :: "string \<Rightarrow> ('w, 'w BucketBinding) act" where
  "bucketBindingM name s = (bucketBinding s name, s)"

text \<open>\<^verbatim>\<open>bucketChatID\<close>.\<close>

definition bucketChatID :: "'w ostate \<Rightarrow> string \<Rightarrow> string" where
  "bucketChatID s bucket = (case bucketBinding s bucket of Inl _ \<Rightarrow> [] | Inr b \<Rightarrow> bb_ChatID b)"

subsection \<open>Calls to Telegram\<close>

definition call_Upload :: "'w BucketBinding \<Rightarrow> UploadRequest \<Rightarrow> ('w, UploadedFile) act" where
  "call_Upload binding request s =
     (case bb_Telegram binding of
        None \<Rightarrow> (Inl nil_dereference, s)
      | Some c \<Rightarrow> (case tc_Upload c request (world s) of (r, w) \<Rightarrow> (r, s\<lparr>world := w\<rparr>)))"

definition call_Download :: "'w BucketBinding \<Rightarrow> string \<Rightarrow> ('w, reader \<times> gerror option) act" where
  "call_Download binding fileID s =
     (case bb_Telegram binding of
        None \<Rightarrow> (Inl nil_dereference, s)
      | Some c \<Rightarrow> (case tc_Download c fileID (world s) of (r, w) \<Rightarrow> (r, s\<lparr>world := w\<rparr>)))"

definition call_DeleteMessage :: "'w BucketBinding \<Rightarrow> int \<Rightarrow> ('w, unit) act" where
  "call_DeleteMessage binding messageID s =
     (case bb_Telegram binding of
        None \<Rightarrow> (Inl nil_dereference, s)
      | Some c \<Rightarrow> (case tc_DeleteMessage c (bb_ChatID binding) messageID (world s) of (r, w) \<Rightarrow> (r, s\<lparr>world := w\<rparr>)))"

text \<open>The wait for a gate: the slot is held, so \<^verbatim>\<open>until\<close> does not move while the timer runs and the
  second look of the loop finds the wait over.\<close>

definition gate_wait :: "oenv \<Rightarrow> string \<Rightarrow> ('w, unit) act" where
  "gate_wait env key =
     sbind (clock_now env) (\<lambda>now.
     sbind (sget (\<lambda>s. uploadGates s key)) (\<lambda>gate.
       case gate of
         None \<Rightarrow> sret ()
       | Some until_ \<Rightarrow>
           if until_ - now \<le> 0 then sret ()
           else (\<lambda>s. case ev_sleep env (tick s) of Some e \<Rightarrow> (Inl e, tick_up s) | None \<Rightarrow> (Inr (), tick_up s))))"

definition uploadTelegram :: "oenv \<Rightarrow> 'w BucketBinding \<Rightarrow> UploadRequest \<Rightarrow> ('w, UploadedFile) act" where
  "uploadTelegram env binding request =
     sbind (sget (\<lambda>s. uploadGates s (bb_TokenKey binding))) (\<lambda>gate.
     if gate = None then sfail (Msg (''missing upload gate for token key '' @ Quote (bb_TokenKey binding)))
     else
       sbind (select_ctx env) (\<lambda>_.
       sbind (gate_wait env (bb_TokenKey binding)) (\<lambda>_.
       sbind (stry (call_Upload binding request)) (\<lambda>uploaded.
         case uploaded of
           Inr file \<Rightarrow> sret file
         | Inl err \<Rightarrow>
             sbind (case IsRateLimitError err of
                      Some retryAfter \<Rightarrow>
                        if retryAfter > 0 then
                          sbind (clock_now env) (\<lambda>now.
                          smodify (\<lambda>s. s\<lparr>uploadGates := (uploadGates s)(bb_TokenKey binding \<mapsto> now + retryAfter)\<rparr>))
                        else sret ()
                    | None \<Rightarrow> sret ()) (\<lambda>_.
             sbind (swhen (shouldMarkBucketUnavailable err) (markBucketUnavailable (bb_Name binding))) (\<lambda>_.
             sfail err))))))"

definition downloadChunk :: "oenv \<Rightarrow> 'w BucketBinding \<Rightarrow> string \<Rightarrow> ('w, reader \<times> gerror option) act" where
  "downloadChunk env binding fileID =
     sbind (sget (\<lambda>s. opt_MaxTelegramCalls (options s))) (\<lambda>n.
     sbind (acquire env n) (\<lambda>_. call_Download binding fileID))"

definition renderCaption :: "'w ostate \<Rightarrow> string \<Rightarrow> string \<Rightarrow> int \<Rightarrow> int \<Rightarrow> int \<Rightarrow> string" where
  "renderCaption s bucket key sz part parts =
     (case opt_Caption (options s) of
        None \<Rightarrow> []
      | Some t \<Rightarrow> Render (Some t)
          \<lparr>cd_Bucket = bucket, cd_Key = key, cd_Name = Base key, cd_Size = HumanSize sz, cd_Bytes = sz,
           cd_Part = part, cd_Parts = parts\<rparr>)"

subsection \<open>Logged events\<close>

definition logMetadataPutObject :: "string \<Rightarrow> string \<Rightarrow> int \<Rightarrow> string \<Rightarrow> gerror option \<Rightarrow> ('w, unit) act" where
  "logMetadataPutObject bucket key chunkCount etag err =
     emit (MetadataPut bucket key chunkCount etag
       (case err of None \<Rightarrow> ''success'' | Some e \<Rightarrow> sanitizeLogError e))"

definition logOrphanUpload :: "string \<Rightarrow> string \<Rightarrow> (string \<times> int) list \<Rightarrow> gerror \<Rightarrow> ('w, unit) act" where
  "logOrphanUpload bucket key uploads err =
     emit (OrphanUpload bucket key (map (\<lambda>(f, m). (summarizeFileID f, m)) uploads) (sanitizeLogError err))"

subsection \<open>Deleting messages\<close>

definition isMessageAlreadyGone :: "gerror \<Rightarrow> bool" where
  "isMessageAlreadyGone err \<longleftrightarrow> Contains (ToLower (Error err)) ''message to delete not found''"

definition isMessageTooOldToDelete :: "gerror \<Rightarrow> bool" where
  "isMessageTooOldToDelete err \<longleftrightarrow> Contains (ToLower (Error err)) (''message can'' @ [CHR 0x27] @ ''t be deleted'')"

definition deleteChunkMessage :: "'w BucketBinding \<Rightarrow> string \<Rightarrow> string \<Rightarrow> Chunk \<Rightarrow> ('w, unit) act" where
  "deleteChunkMessage binding bucket key chunk =
     sbind (stry (call_DeleteMessage binding (ck_TelegramMessageID chunk))) (\<lambda>r.
     let msg = ck_TelegramMessageID chunk in
       case r of
         Inr _ \<Rightarrow> emit (DeletedMessage bucket key msg ''success'')
       | Inl err \<Rightarrow>
           if isMessageAlreadyGone err then emit (DeletedMessage bucket key msg ''already_gone'')
           else if isMessageTooOldToDelete err then emit (DeletedMessage bucket key msg ''orphaned_too_old'')
           else sbind (emit (DeletedMessage bucket key msg ''error'')) (\<lambda>_.
                sfail (Wrapf (''delete telegram message '' @ Itoa msg) err)))"

definition cleanupReplacedChunks :: "string \<Rightarrow> string \<Rightarrow> Chunk list \<Rightarrow> ('w, unit) act" where
  "cleanupReplacedChunks bucket key previousChunks =
     (if previousChunks = [] then sret ()
      else sbind (stry (bucketBindingM bucket)) (\<lambda>b.
        case b of
          Inl _ \<Rightarrow> sret ()
        | Inr binding \<Rightarrow>
            sfor previousChunks (\<lambda>chunk.
              sbind (stry (deleteChunkMessage binding bucket key chunk)) (\<lambda>r.
                case r of
                  Inr _ \<Rightarrow> sret ()
                | Inl err \<Rightarrow> emit (DeleteOnOverwriteFailed bucket key (ck_TelegramMessageID chunk)
                               (sanitizeLogError err))))))"

subsection \<open>Buckets\<close>

definition Store_ListBuckets :: "oenv \<Rightarrow> ('w, Bucket list) act" where
  "Store_ListBuckets env = ListBuckets env"

definition Store_DeleteBucket :: "oenv \<Rightarrow> string \<Rightarrow> ('w, unit) act" where
  "Store_DeleteBucket env name =
     sbind (stry (GetBucket env name)) (\<lambda>r.
       case r of
         Inl err \<Rightarrow> if errors_Is err MetaErrNotFound then sfail (Sent ErrNoSuchBucket) else sfail err
       | Inr bucket \<Rightarrow>
           if bk_Enabled bucket then sfail (Sent ErrNotImplemented) else DeleteBucket env name)"

text \<open>\<^verbatim>\<open>NewObjectStore\<close>: the gates of the configured tokens, and the enabled buckets at this moment.\<close>

definition zero_time :: int where "zero_time = - 62135596800 * 1000000000"

definition NewObjectStore ::
    "oenv \<Rightarrow> 'w tg_client option \<Rightarrow> 'w Options \<Rightarrow> 'w \<Rightarrow> sqlite \<Rightarrow> gerror + 'w ostate" where
  "NewObjectStore env c opts w db =
     (let gates0 = map_of (map (\<lambda>(name, b). (bb_TokenKey b, zero_time)) (opt_Buckets opts));
          gates = (if c \<noteq> None \<and> gates0 [] = None then gates0([] \<mapsto> zero_time) else gates0)
      in case ListBuckets env db of
           (Inl err, _) \<Rightarrow> Inl (Msg (''startup bucket snapshot: '' @ sanitizeLogError err))
         | (Inr buckets, db') \<Rightarrow>
             (case find (\<lambda>b. bk_Enabled b \<and> c = None \<and> map_of (opt_Buckets opts) (bk_Name b) = None) buckets of
                Some b \<Rightarrow> Inl (Msg (''missing runtime bucket binding for '' @ Quote (bk_Name b)))
              | None \<Rightarrow> Inr
                  \<lparr>tabs = tabs db', tick = tick db', tg = c,
                   options = opts\<lparr>opt_Upload := fillUploadDefaults (opt_Upload opts)\<rparr>,
                   startupBuckets = map_of (map (\<lambda>b. (bk_Name b, b)) (filter bk_Enabled buckets)),
                   bucketBindings = map_of (opt_Buckets opts),
                   uploadGates = gates, multipartUploads = [], unavailableBuckets = {}, world = w,
                   events = []\<rparr>))"

end
