(* ===== verification/StorePut.thy ===== *)
theory StorePut
  imports StoreState
begin

text \<open>
  \<^verbatim>\<open>PutObject\<close> and \<^verbatim>\<open>DeleteObject\<close> of \<^verbatim>\<open>store/store.go\<close>: an empty object is a row without chunks, a
  small one is one message, a large one a message per chunk. The hashes and the sizes are those of
  the bytes read from the body. The per-key lock (theory Locks) is held around the whole of
  \<^verbatim>\<open>PutObject\<close>, so the calls on one key are taken one after the other.
\<close>

record PutObjectInput =
  pi_Bucket :: string
  pi_Key :: string
  pi_ContentType :: string
  pi_Size :: int
  pi_Body :: "reader option"

definition size_error :: "int \<Rightarrow> int \<Rightarrow> gerror" where
  "size_error copied want = Msg (''copied '' @ Itoa copied @ '' bytes, want '' @ Itoa want)"

definition os_step :: "oenv \<Rightarrow> ('w, unit) act" where
  "os_step env s = (case ev_os env (tick s) of Some e \<Rightarrow> (Inl e, tick_up s) | None \<Rightarrow> (Inr (), tick_up s))"

definition rand_read :: "oenv \<Rightarrow> ('w, bytes) act" where
  "rand_read env s = (ev_rand env (tick s), tick_up s)"

subsection \<open>The three ways to store\<close>

definition putEmpty :: "oenv \<Rightarrow> PutObjectInput \<Rightarrow> UploadStrategy \<Rightarrow> ('w, string) act" where
  "putEmpty env input strategy =
     (let etag = EncodeToString (ev_md5 env []); shaSum = EncodeToString (ev_sha256 env []) in
      sbind (clock_now env) (\<lambda>now.
      let object =
        \<lparr>ob_Bucket = pi_Bucket input, ob_Key = pi_Key input, ob_Size = 0, ob_ContentType = pi_ContentType input,
         ob_ETag = etag, ob_SHA256 = shaSum, ob_LastModified = now, ob_ChunkCount = 0,
         ob_TelegramType = us_TelegramType strategy, ob_UploadStrategy = us_UploadStrategy strategy\<rparr> in
      sbind (stry (PutObject env object [])) (\<lambda>r.
        case r of
          Inl err \<Rightarrow> sbind (logMetadataPutObject (pi_Bucket input) (pi_Key input) 0 etag (Some err)) (\<lambda>_. sfail err)
        | Inr _ \<Rightarrow> sbind (logMetadataPutObject (pi_Bucket input) (pi_Key input) 0 etag None) (\<lambda>_. sret etag))))"

text \<open>\<^verbatim>\<open>stageSingleUpload\<close>: the bytes to send, from memory or from a temporary file; the hashes are
  taken of the same bytes.\<close>

definition stageSingleUpload :: "oenv \<Rightarrow> PutObjectInput \<Rightarrow> reader \<Rightarrow> ('w, bytes) act" where
  "stageSingleUpload env input body =
     sbind (sget (\<lambda>s. uc_PutBufferSize (opt_Upload (options s)))) (\<lambda>configured.
     let bufferSize = (if configured \<le> 0 then uc_PutBufferSize DefaultUploadConfig else configured) in
     if pi_Size input \<le> bufferSize then
       sbind (slift (ReadAll body)) (\<lambda>data.
       if int (length data) \<noteq> pi_Size input then sfail (size_error (int (length data)) (pi_Size input))
       else sret data)
     else
       sbind (os_step env) (\<lambda>_.
       sbind (os_step env) (\<lambda>_.
       case CopyAll body of
         (data, Some err) \<Rightarrow> sfail err
       | (data, None) \<Rightarrow>
           if int (length data) \<noteq> pi_Size input then sfail (size_error (int (length data)) (pi_Size input))
           else sbind (os_step env) (\<lambda>_. sret data))))"

definition bytes_upload :: "string \<Rightarrow> string \<Rightarrow> bytes \<Rightarrow> string \<Rightarrow> string \<Rightarrow> string \<Rightarrow> UploadRequest" where
  "bytes_upload fileType chatID data key contentType caption =
     \<lparr>up_Type = fileType, up_ChatID = chatID, up_Reader = \<lparr>rd_data = data, rd_err = None\<rparr>,
      up_Seek = Some None, up_Filename = Base key, up_MIMEType = contentType, up_Caption = caption\<rparr>"

definition putSingle :: "oenv \<Rightarrow> PutObjectInput \<Rightarrow> reader \<Rightarrow> UploadStrategy \<Rightarrow> ('w, string) act" where
  "putSingle env input body strategy =
     sbind (clock_now env) (\<lambda>now.
     sbind (stageSingleUpload env input body) (\<lambda>data.
     sbind (bucketBindingM (pi_Bucket input)) (\<lambda>binding.
     sbind (sget (\<lambda>s. renderCaption s (pi_Bucket input) (pi_Key input) (pi_Size input) 1 1)) (\<lambda>caption.
     sbind (uploadTelegram env binding (bytes_upload (us_TelegramType strategy) (bb_ChatID binding) data
             (pi_Key input) (pi_ContentType input) caption)) (\<lambda>uploaded.
     sbind (if us_UploadStrategy strategy = ''typed'' \<and> uf_FileSize uploaded > 0
            then sbind (stry (rand_read env)) (\<lambda>r.
                   let rnd = (case r of Inr bs \<Rightarrow> bs | Inl _ \<Rightarrow> replicate 16 (CHR 0x00))
                   in sret (uf_FileSize uploaded, EncodeToString rnd @ ''-typed'', ''''))
            else sret (pi_Size input, EncodeToString (ev_md5 env data), EncodeToString (ev_sha256 env data)))
       (\<lambda>(storedSize, etag, shaSum).
     let object =
           \<lparr>ob_Bucket = pi_Bucket input, ob_Key = pi_Key input, ob_Size = storedSize,
            ob_ContentType = pi_ContentType input, ob_ETag = etag, ob_SHA256 = shaSum, ob_LastModified = now,
            ob_ChunkCount = 1, ob_TelegramType = uf_Type uploaded,
            ob_UploadStrategy = us_UploadStrategy strategy\<rparr>;
         chunks =
           [\<lparr>ck_Bucket = pi_Bucket input, ck_Key = pi_Key input, ck_PartNumber = 1, ck_Offset = 0,
             ck_Size = storedSize, ck_TelegramType = uf_Type uploaded, ck_TelegramFileID = uf_FileID uploaded,
             ck_TelegramMessageID = uf_MessageID uploaded, ck_TelegramFileUniqueID = uf_FileUniqueID uploaded,
             ck_SHA256 = shaSum\<rparr>] in
     sbind (stry (PutObject env object chunks)) (\<lambda>r.
       case r of
         Inl err \<Rightarrow>
           sbind (logMetadataPutObject (pi_Bucket input) (pi_Key input) 1 etag (Some err)) (\<lambda>_.
           sbind (logOrphanUpload (pi_Bucket input) (pi_Key input)
                    [(uf_FileID uploaded, uf_MessageID uploaded)] err) (\<lambda>_. sfail err))
       | Inr _ \<Rightarrow> sbind (logMetadataPutObject (pi_Bucket input) (pi_Key input) 1 etag None) (\<lambda>_. sret etag))))))))"

text \<open>The uploads made so far, for the log of an upload that is given up.\<close>

definition chunk_records :: "Chunk list \<Rightarrow> (string \<times> int) list" where
  "chunk_records chunks = map (\<lambda>c. (ck_TelegramFileID c, ck_TelegramMessageID c)) chunks"

definition abandon :: "string \<Rightarrow> string \<Rightarrow> (string \<times> int) list \<Rightarrow> gerror \<Rightarrow> ('w, 'a) act" where
  "abandon bucket key uploads err =
     sbind (swhen (uploads \<noteq> []) (logOrphanUpload bucket key uploads err)) (\<lambda>_. sfail err)"

text \<open>The loop of \<^verbatim>\<open>putChunked\<close>: the chunk rows made so far, the bytes hashed so far and the rest of the
  body. A chunk size that is not positive makes \<^verbatim>\<open>make([]byte, n)\<close> panic or reads nothing for ever;
  the resolver never returns one.\<close>

function chunkLoop ::
    "oenv \<Rightarrow> PutObjectInput \<Rightarrow> int \<Rightarrow> int \<Rightarrow> Chunk list \<Rightarrow> bytes \<Rightarrow> int \<Rightarrow> int \<Rightarrow> int \<Rightarrow> reader \<Rightarrow>
     ('w, Chunk list \<times> bytes \<times> reader) act" where
  "chunkLoop env input chunkSize parts chunks hashed offset remaining part body s =
     (if remaining \<le> 0 then (Inr (chunks, hashed, body), s)
      else if chunkSize \<le> 0 then (Inl (Msg ''runtime error: makeslice: len out of range''), s)
      else
        let thisChunkSize = (if remaining < chunkSize then remaining else chunkSize) in
        case ReadFull (nat thisChunkSize) body of
          Inl err \<Rightarrow> (Inl err, s)
        | Inr (partData, body') \<Rightarrow>
            (case stry (bucketBindingM (pi_Bucket input)) s of
               (Inl err, s1) \<Rightarrow> (Inl err, s1)
             | (Inr (Inl err), s1) \<Rightarrow> abandon (pi_Bucket input) (pi_Key input) (chunk_records chunks) err s1
             | (Inr (Inr binding), s1) \<Rightarrow>
                 (case stry (uploadTelegram env binding (bytes_upload ''document'' (bb_ChatID binding) partData
                        (pi_Key input) (pi_ContentType input)
                        (renderCaption s1 (pi_Bucket input) (pi_Key input) (pi_Size input) part parts))) s1 of
                    (Inl err, s2) \<Rightarrow> (Inl err, s2)
                  | (Inr (Inl err), s2) \<Rightarrow> abandon (pi_Bucket input) (pi_Key input) (chunk_records chunks) err s2
                  | (Inr (Inr uploaded), s2) \<Rightarrow>
                      chunkLoop env input chunkSize parts
                        (chunks @ [\<lparr>ck_Bucket = pi_Bucket input, ck_Key = pi_Key input, ck_PartNumber = part,
                           ck_Offset = offset, ck_Size = int (length partData),
                           ck_TelegramType = uf_Type uploaded, ck_TelegramFileID = uf_FileID uploaded,
                           ck_TelegramMessageID = uf_MessageID uploaded,
                           ck_TelegramFileUniqueID = uf_FileUniqueID uploaded,
                           ck_SHA256 = EncodeToString (ev_sha256 env partData)\<rparr>])
                        (hashed @ partData) (i64 (offset + int (length partData)))
                        (remaining - int (length partData)) (part + 1) body' s2)))"
  by pat_completeness auto
termination
  by (relation "measure (\<lambda>(env, input, cs, parts, chunks, hashed, offset, remaining, part, body, s). nat remaining)")
     (auto simp: ReadFull_Inr split: if_splits)

declare chunkLoop.simps [simp del]

definition chunk_count :: "int \<Rightarrow> int \<Rightarrow> int" where
  "chunk_count sz chunkSize = quot (i64 (i64 (sz + chunkSize) - 1)) chunkSize"

definition putChunked :: "oenv \<Rightarrow> PutObjectInput \<Rightarrow> reader \<Rightarrow> UploadStrategy \<Rightarrow> ('w, string) act" where
  "putChunked env input body strategy =
     sbind (clock_now env) (\<lambda>now.
     sbind (sget (\<lambda>s. uc_ChunkSize (opt_Upload (options s)))) (\<lambda>configured.
     let chunkSize = (if us_ChunkSize strategy \<le> 0 then configured else us_ChunkSize strategy);
         parts = chunk_count (pi_Size input) chunkSize in
     sbind (chunkLoop env input chunkSize parts [] [] 0 (pi_Size input) 1 body) (\<lambda>(chunks, hashed, rest).
     sbind (slift (ReadAll rest)) (\<lambda>extra.
     if extra \<noteq> [] then sfail (size_error (i64 (pi_Size input + int (length extra))) (pi_Size input))
     else
       let etag = EncodeToString (ev_md5 env hashed);
           object =
             \<lparr>ob_Bucket = pi_Bucket input, ob_Key = pi_Key input, ob_Size = pi_Size input,
              ob_ContentType = pi_ContentType input, ob_ETag = etag,
              ob_SHA256 = EncodeToString (ev_sha256 env hashed), ob_LastModified = now,
              ob_ChunkCount = int (length chunks), ob_TelegramType = ''document'',
              ob_UploadStrategy = us_UploadStrategy strategy\<rparr> in
       sbind (stry (PutObject env object chunks)) (\<lambda>r.
         case r of
           Inl err \<Rightarrow>
             sbind (logMetadataPutObject (pi_Bucket input) (pi_Key input) (int (length chunks)) etag (Some err)) (\<lambda>_.
             sbind (logOrphanUpload (pi_Bucket input) (pi_Key input) (chunk_records chunks) err) (\<lambda>_. sfail err))
         | Inr _ \<Rightarrow>
             sbind (logMetadataPutObject (pi_Bucket input) (pi_Key input) (int (length chunks)) etag None)
               (\<lambda>_. sret etag))))))"

subsection \<open>PutObject\<close>

text \<open>The chunks of the object a write replaces: an error of the lookup counts as none.\<close>

definition previous_chunks :: "oenv \<Rightarrow> string \<Rightarrow> string \<Rightarrow> ('w, Chunk list) act" where
  "previous_chunks env bucket key =
     sbind (stry (GetObject env bucket key)) (\<lambda>r.
       case r of Inr (_, existing) \<Rightarrow> sret existing | Inl _ \<Rightarrow> sret [])"

definition Store_PutObject :: "oenv \<Rightarrow> PutObjectInput \<Rightarrow> ('w, string) act" where
  "Store_PutObject env input =
     (if pi_Size input < 0 then sfail (Sent ErrMissingContentLength)
      else
        sbind (HeadBucket (pi_Bucket input)) (\<lambda>_.
        let body = (case pi_Body input of Some r \<Rightarrow> r | None \<Rightarrow> \<lparr>rd_data = [], rd_err = None\<rparr>) in
        sbind (sget (\<lambda>s. opt_MaxUploads (options s))) (\<lambda>maxUploads.
        sbind (acquire env maxUploads) (\<lambda>_.
        sbind (previous_chunks env (pi_Bucket input) (pi_Key input)) (\<lambda>previousChunks.
        sbind (sget (\<lambda>s. opt_Upload (options s))) (\<lambda>config.
        sbind (slift (Resolve config (Base (pi_Key input)) (pi_ContentType input) (pi_Size input))) (\<lambda>strategy.
        sbind (if pi_Size input = 0 then putEmpty env input strategy
               else if \<not> us_Chunked strategy then
                 (if limit_of config (us_TelegramType strategy) > 0 \<and>
                     pi_Size input > limit_of config (us_TelegramType strategy)
                  then sfail (Sent ErrEntityTooLarge)
                  else putSingle env input body strategy)
               else putChunked env input body strategy) (\<lambda>etag.
        sbind (cleanupReplacedChunks (pi_Bucket input) (pi_Key input) previousChunks) (\<lambda>_. sret etag)))))))))"

subsection \<open>DeleteObject\<close>

definition Store_DeleteObject :: "oenv \<Rightarrow> string \<Rightarrow> string \<Rightarrow> ('w, unit) act" where
  "Store_DeleteObject env bucket key =
     sbind (HeadBucket bucket) (\<lambda>_.
     sbind (stry (GetObject env bucket key)) (\<lambda>r.
       case r of
         Inl err \<Rightarrow> if err = Sent MetaErrNotFound then sret () else sfail err
       | Inr (_, chunks) \<Rightarrow>
           sbind (bucketBindingM bucket) (\<lambda>binding.
           sbind (sfor chunks (deleteChunkMessage binding bucket key)) (\<lambda>_.
           sbind (stry (DeleteObject env bucket key)) (\<lambda>d.
             case d of
               Inl err \<Rightarrow> if err = Sent MetaErrNotFound then sret () else sfail err
             | Inr _ \<Rightarrow> sret ())))))"

end
