(* ===== verification/StoreGet.thy ===== *)
theory StoreGet
  imports StorePut
begin

text \<open>
  Reading and copying of \<^verbatim>\<open>store/store.go\<close>. \<^verbatim>\<open>GetObject\<close> answers with a pipe that a goroutine fills;
  here it is the bytes that come out of the pipe and the error that ends it (\<open>None\<close>: end of file),
  for a reader that reads to the end; an error that ends the pipe is taken not to be \<^verbatim>\<open>io.EOF\<close> itself (the
  Telegram client wraps the errors of its requests). The download of the chunks happens while the pipe is read, so
  the state after the call is the one after the stream.
\<close>

record ObjectInfo =
  oi_Bucket :: string
  oi_Key :: string
  oi_Size :: int
  oi_ContentType :: string
  oi_ETag :: string
  oi_SHA256 :: string
  oi_LastModified :: int

definition objectInfoFromMetadata :: "Object \<Rightarrow> ObjectInfo" where
  "objectInfoFromMetadata ob =
     \<lparr>oi_Bucket = ob_Bucket ob, oi_Key = ob_Key ob, oi_Size = ob_Size ob, oi_ContentType = ob_ContentType ob,
      oi_ETag = ob_ETag ob, oi_SHA256 = ob_SHA256 ob, oi_LastModified = ob_LastModified ob\<rparr>"

definition chunkRefsFromMetadata :: "Chunk list \<Rightarrow> ChunkRef list" where
  "chunkRefsFromMetadata chunks =
     map (\<lambda>c. \<lparr>cr_part = ck_PartNumber c, cr_fileID = ck_TelegramFileID c, cr_offset = ck_Offset c,
              cr_size = ck_Size c\<rparr>) chunks"

definition Store_HeadObject :: "oenv \<Rightarrow> string \<Rightarrow> string \<Rightarrow> ('w, ObjectInfo) act" where
  "Store_HeadObject env bucket key =
     sbind (HeadBucket bucket) (\<lambda>_.
     sbind (stry (HeadObject env bucket key)) (\<lambda>r.
       case r of
         Inl err \<Rightarrow> if err = Sent MetaErrNotFound then sfail (Sent ErrNoSuchKey) else sfail err
       | Inr ob \<Rightarrow> sret (objectInfoFromMetadata ob)))"

subsection \<open>The stream\<close>

text \<open>One chunk: skip, then take; the bytes that reach the pipe and the error.\<close>

definition pipe_chunk :: "SelectedChunk \<Rightarrow> reader \<Rightarrow> gerror option \<Rightarrow> bytes \<times> gerror option" where
  "pipe_chunk chunk reader close =
     (let (skip_err, r1) =
            (if sc_skip chunk > 0 then (case CopyLimit (sc_skip chunk) reader of (_, e, r) \<Rightarrow> (e, r))
             else (None, reader)) in
      case skip_err of
        Some e \<Rightarrow> ([], Some e)
      | None \<Rightarrow>
          let (data, e) =
                (if sc_take chunk \<ge> 0 then (case CopyLimit (sc_take chunk) r1 of (d, e, _) \<Rightarrow> (d, e))
                 else CopyAll r1) in
          (data, (case e of Some _ \<Rightarrow> e | None \<Rightarrow> close)))"

fun streamChunks :: "oenv \<Rightarrow> 'w BucketBinding \<Rightarrow> SelectedChunk list \<Rightarrow> 'w ostate \<Rightarrow> (bytes \<times> gerror option) \<times> 'w ostate" where
  "streamChunks env binding [] s = (([], None), s)"
| "streamChunks env binding (chunk # chunks) s =
     (case downloadChunk env binding (cr_fileID chunk) s of
        (Inl err, s1) \<Rightarrow> (([], Some err), s1)
      | (Inr (reader, close), s1) \<Rightarrow>
          (case pipe_chunk chunk reader close of
             (data, Some err) \<Rightarrow> ((data, Some err), s1)
           | (data, None) \<Rightarrow>
               (case streamChunks env binding chunks s1 of ((rest, e), s2) \<Rightarrow> ((data @ rest, e), s2))))"

text \<open>The chunks to send: all of them, or those that meet the rng.\<close>

definition selected_chunks :: "Chunk list \<Rightarrow> ByteRange option \<Rightarrow> SelectedChunk list" where
  "selected_chunks chunks rng =
     (case rng of
        None \<Rightarrow> map (\<lambda>c. ChunkRef.extend \<lparr>cr_part = ck_PartNumber c, cr_fileID = ck_TelegramFileID c,
                     cr_offset = ck_Offset c, cr_size = ck_Size c\<rparr> \<lparr>sc_skip = 0, sc_take = ck_Size c\<rparr>) chunks
      | Some r \<Rightarrow> SelectChunksForRange (chunkRefsFromMetadata chunks) r)"

definition Store_GetObject ::
    "oenv \<Rightarrow> string \<Rightarrow> string \<Rightarrow> ByteRange option \<Rightarrow> ('w, (bytes \<times> gerror option) \<times> ObjectInfo) act" where
  "Store_GetObject env bucket key rng =
     sbind (HeadBucket bucket) (\<lambda>_.
     sbind (stry (GetObject env bucket key)) (\<lambda>r.
       case r of
         Inl err \<Rightarrow> if err = Sent MetaErrNotFound then sfail (Sent ErrNoSuchKey) else sfail err
       | Inr (ob, chunks) \<Rightarrow>
           sbind (sget (\<lambda>s. opt_MaxDownloads (options s))) (\<lambda>maxDownloads.
           sbind (acquire env maxDownloads) (\<lambda>_.
           sbind (sget (\<lambda>s. bucketBinding s bucket)) (\<lambda>b.
             case b of
               Inl err \<Rightarrow> sret (([], Some err), objectInfoFromMetadata ob)
             | Inr binding \<Rightarrow> (\<lambda>s.
                 case streamChunks env binding (selected_chunks chunks rng) s of
                   (out, s') \<Rightarrow> (Inr (out, objectInfoFromMetadata ob), s')))))))"

subsection \<open>Copying\<close>

definition copyObjectMetadataOnly ::
    "oenv \<Rightarrow> string \<Rightarrow> string \<Rightarrow> string \<Rightarrow> string \<Rightarrow> ('w, string \<times> int) act" where
  "copyObjectMetadataOnly env srcBucket srcKey dstBucket dstKey =
     sbind (stry (GetObject env srcBucket srcKey)) (\<lambda>r.
       case r of
         Inl err \<Rightarrow> if err = Sent MetaErrNotFound then sfail (Sent ErrNoSuchKey) else sfail err
       | Inr (ob, chunks) \<Rightarrow>
           sbind (clock_now env) (\<lambda>now.
           let newObject = ob\<lparr>ob_Bucket := dstBucket, ob_Key := dstKey, ob_LastModified := now\<rparr>;
               newChunks = map (\<lambda>c. c\<lparr>ck_Bucket := dstBucket, ck_Key := dstKey\<rparr>) chunks in
           sbind (stry (PutObject env newObject newChunks)) (\<lambda>p.
             case p of
               Inl err \<Rightarrow> sbind (logMetadataPutObject dstBucket dstKey (int (length newChunks)) (ob_ETag newObject)
                            (Some err)) (\<lambda>_. sfail err)
             | Inr _ \<Rightarrow> sbind (logMetadataPutObject dstBucket dstKey (int (length newChunks)) (ob_ETag newObject)
                            None) (\<lambda>_. sret (ob_ETag newObject, now)))))"

definition copyObjectReupload ::
    "oenv \<Rightarrow> string \<Rightarrow> string \<Rightarrow> string \<Rightarrow> string \<Rightarrow> ('w, string \<times> int) act" where
  "copyObjectReupload env srcBucket srcKey dstBucket dstKey =
     sbind (Store_GetObject env srcBucket srcKey None) (\<lambda>((data, err), info).
     sbind (Store_PutObject env \<lparr>pi_Bucket = dstBucket, pi_Key = dstKey, pi_ContentType = oi_ContentType info,
              pi_Size = oi_Size info, pi_Body = Some \<lparr>rd_data = data, rd_err = err\<rparr>\<rparr>) (\<lambda>etag.
     sbind (clock_now env) (\<lambda>now. sret (etag, now))))"

definition Store_CopyObject ::
    "oenv \<Rightarrow> string \<Rightarrow> string \<Rightarrow> string \<Rightarrow> string \<Rightarrow> ('w, string \<times> int) act" where
  "Store_CopyObject env srcBucket srcKey dstBucket dstKey =
     sbind (HeadBucket srcBucket) (\<lambda>_.
     sbind (HeadBucket dstBucket) (\<lambda>_.
     sbind (bucketBindingM srcBucket) (\<lambda>sourceBinding.
     sbind (bucketBindingM dstBucket) (\<lambda>destBinding.
       if bb_TokenKey sourceBinding = bb_TokenKey destBinding \<and> bb_ChatID sourceBinding = bb_ChatID destBinding
       then copyObjectMetadataOnly env srcBucket srcKey dstBucket dstKey
       else copyObjectReupload env srcBucket srcKey dstBucket dstKey))))"

end
