(* ===== verification/StoreFrames.thy ===== *)
theory StoreFrames
  imports StoreGet MetaOps
begin

text \<open>
  Which parts of the state the steps of the object store leave alone. \<open>same\<close>: tables and bindings;
  \<open>quiet\<close>: the world behind the Telegram clients as well. The steps on the tables alone keep the rest.
\<close>

named_theorems wp_intro \<open>postconditions of the steps of the store, to be applied backwards\<close>

definition bindings_of :: "'w ostate \<Rightarrow> 'w tg_client option \<times> 'w Options \<times> (string \<rightharpoonup> Bucket) \<times> (string \<rightharpoonup> 'w BucketBinding)" where
  "bindings_of s = (tg s, options s, startupBuckets s, bucketBindings s)"

definition same :: "'w ostate \<Rightarrow> 'w ostate \<Rightarrow> bool" where
  "same s s' \<longleftrightarrow> tabs s' = tabs s \<and> bindings_of s' = bindings_of s"

definition quiet :: "'w ostate \<Rightarrow> 'w ostate \<Rightarrow> bool" where
  "quiet s s' \<longleftrightarrow> same s s' \<and> world s' = world s"

lemma same_refl [simp]: "same s s" and quiet_refl [simp]: "quiet s s"
  by (simp_all add: same_def quiet_def)

lemma same_trans: "same s s' \<Longrightarrow> same s' s'' \<Longrightarrow> same s s''"
  by (simp add: same_def)

lemma quiet_trans: "quiet s s' \<Longrightarrow> quiet s' s'' \<Longrightarrow> quiet s s''"
  by (simp add: quiet_def same_def)

lemma bindings_of_eqD:
  "bindings_of s' = bindings_of s \<Longrightarrow> tg s' = tg s \<and> options s' = options s \<and>
     startupBuckets s' = startupBuckets s \<and> bucketBindings s' = bucketBindings s"
  by (simp add: bindings_of_def)

lemma bindings_cong:
  assumes "bindings_of s' = bindings_of s"
  shows "bucketBinding s' = bucketBinding s" "bucketChatID s' = bucketChatID s"
proof -
  have b: "tg s' = tg s" "startupBuckets s' = startupBuckets s" "bucketBindings s' = bucketBindings s"
    using bindings_of_eqD [OF assms] by simp_all
  show bb: "bucketBinding s' = bucketBinding s" unfolding fun_eq_iff bucketBinding_def b by (rule allI) (rule refl)
  show "bucketChatID s' = bucketChatID s" unfolding fun_eq_iff bucketChatID_def bb by (rule allI) (rule refl)
qed

lemma state_parts [simp]:
  "bindings_of (tick_up s) = bindings_of s" "world (tick_up s) = world s" "tabs (tick_up s) = tabs s"
  "bindings_of (s\<lparr>tabs := t\<rparr>) = bindings_of s" "world (s\<lparr>tabs := t\<rparr>) = world s"
  "bindings_of (s\<lparr>world := w\<rparr>) = bindings_of s" "bindings_of (s\<lparr>events := es\<rparr>) = bindings_of s"
  "bindings_of (s\<lparr>uploadGates := g\<rparr>) = bindings_of s"
  "bindings_of (s\<lparr>unavailableBuckets := ub\<rparr>) = bindings_of s"
  "bindings_of (s\<lparr>multipartUploads := mu\<rparr>) = bindings_of s"
  by (simp_all add: bindings_of_def tick_up_def)

subsection \<open>Quiet steps\<close>

definition quiet_act :: "('w, 'a) act \<Rightarrow> bool" where
  "quiet_act m \<longleftrightarrow> (\<forall>s. quiet s (snd (m s)))"

named_theorems quiet_intro \<open>quiet steps\<close>

lemma quiet_actD: "quiet_act m \<Longrightarrow> m s = (r, s') \<Longrightarrow> quiet s s'"
  unfolding quiet_act_def by (metis snd_conv)

lemma quiet_sret [quiet_intro]: "quiet_act (sret x)" and quiet_sfail [quiet_intro]: "quiet_act (sfail e)"
  and quiet_sget [quiet_intro]: "quiet_act (sget f)" and quiet_slift [quiet_intro]: "quiet_act (slift r)"
  by (simp_all add: quiet_act_def sret_def sfail_def sget_def slift_def)

lemma quiet_sbind [quiet_intro]: "quiet_act m \<Longrightarrow> (\<And>x. quiet_act (k x)) \<Longrightarrow> quiet_act (sbind m k)"
  unfolding quiet_act_def sbind_def
  by (auto split: prod.splits sum.splits) (metis quiet_trans snd_conv)+

lemma quiet_stry [quiet_intro]: "quiet_act m \<Longrightarrow> quiet_act (stry m)"
  by (auto simp: quiet_act_def stry_def split: prod.splits) (metis snd_conv)

lemma quiet_if [quiet_intro]: "(c \<Longrightarrow> quiet_act m) \<Longrightarrow> (\<not> c \<Longrightarrow> quiet_act m') \<Longrightarrow> quiet_act (if c then m else m')"
  by simp

lemma quiet_swhen [quiet_intro]: "quiet_act m \<Longrightarrow> quiet_act (swhen c m)"
  by (auto simp: swhen_def intro: quiet_intro)

lemma quiet_sfor [quiet_intro]: "(\<And>x. x \<in> set xs \<Longrightarrow> quiet_act (f x)) \<Longrightarrow> quiet_act (sfor xs f)"
  by (induction xs) (auto intro: quiet_intro)

lemma tick_up_quiet [simp]: "quiet s (tick_up s)"
  by (simp add: quiet_def same_def bindings_of_def tick_up_def)

lemma quiet_query [quiet_intro]: "quiet_act (query env f)"
  by (auto simp: quiet_act_def query_def exec_def quiet_def same_def bindings_of_def tick_up_def
      split: option.splits)

lemma quiet_in_tx [quiet_intro]:
  assumes "quiet_act m"
  shows "quiet_act (in_tx env m)"
proof -
  have "quiet s (snd (in_tx env m s))" for s
  proof -
    obtain r s' where m: "m (tick_up s) = (r, s')" by fastforce
    then have "quiet (tick_up s) s'" by (rule quiet_actD [OF assms])
    then show ?thesis
      by (auto simp: in_tx_def m quiet_def same_def split: option.splits sum.splits)
  qed
  then show ?thesis by (simp add: quiet_act_def)
qed

lemma quiet_time_Now [quiet_intro]: "quiet_act (time_Now env)"
  and quiet_clock [quiet_intro]: "quiet_act (clock_now env)"
  by (simp_all add: quiet_act_def time_Now_def clock_now_def)

lemma quiet_emit [quiet_intro]: "quiet_act (emit e)"
  by (simp add: quiet_act_def emit_def smodify_def quiet_def same_def bindings_of_def)

lemma quiet_select_ctx [quiet_intro]: "quiet_act (select_ctx env)"
  by (simp add: quiet_act_def select_ctx_def split: option.splits)

lemma quiet_os_step [quiet_intro]: "quiet_act (os_step env)"
  and quiet_rand [quiet_intro]: "quiet_act (rand_read env)"
  by (simp_all add: quiet_act_def os_step_def rand_read_def split: option.splits)

lemma quiet_acquire [quiet_intro]: "quiet_act (acquire env n)"
  unfolding acquire_def by (intro quiet_intro)

lemma quiet_gate [quiet_intro]: "quiet_act (gate_wait env k)"
proof -
  have "quiet_act (\<lambda>s. case ev_sleep env (tick s) of Some e \<Rightarrow> (Inl e, tick_up s) | None \<Rightarrow> (Inr (), tick_up s))"
    by (simp add: quiet_act_def split: option.splits)
  then show ?thesis unfolding gate_wait_def
    by (intro quiet_intro) (auto split: option.splits intro!: quiet_intro)
qed

lemma quiet_binding [quiet_intro]: "quiet_act (bucketBindingM b)"
  by (simp add: quiet_act_def bucketBindingM_def)

lemma quiet_HeadBucket [quiet_intro]: "quiet_act (HeadBucket b)"
  by (simp add: quiet_act_def HeadBucket_def)

lemma quiet_GetObject [quiet_intro]: "quiet_act (GetObject env b k)"
  unfolding GetObject_def selectObject_def
  by (intro quiet_intro) (auto split: option.splits prod.splits intro!: quiet_intro)

lemma quiet_HeadObject [quiet_intro]: "quiet_act (HeadObject env b k)"
  unfolding HeadObject_def selectObject_def
  by (intro quiet_intro) (auto split: option.splits prod.splits intro!: quiet_intro)

lemma quiet_logs [quiet_intro]:
  "quiet_act (logMetadataPutObject b k n e err)" "quiet_act (logOrphanUpload b k us er)"
  unfolding logMetadataPutObject_def logOrphanUpload_def by (intro quiet_intro)+

lemma quiet_abandon [quiet_intro]: "quiet_act (abandon b k us e)"
  unfolding abandon_def by (intro quiet_intro)

lemma quiet_previous [quiet_intro]: "quiet_act (previous_chunks env b k)"
  unfolding previous_chunks_def by (intro quiet_intro) (auto split: sum.splits intro!: quiet_intro)

lemma quiet_smodify: "(\<And>s. quiet s (f s)) \<Longrightarrow> quiet_act (smodify f)"
  by (simp add: quiet_act_def smodify_def)

text \<open>A quiet step in front of others: only its result and that it was quiet matter.\<close>

lemma wp_quiet:
  assumes "quiet_act m" "\<And>x s'. m s = (Inr x, s') \<Longrightarrow> quiet s s' \<Longrightarrow> Q x s'"
    "\<And>e s'. m s = (Inl e, s') \<Longrightarrow> quiet s s' \<Longrightarrow> E e s'"
  shows "wp m Q E s"
  by (rule wpI) (auto intro: assms quiet_actD)

subsection \<open>Steps on the tables\<close>

definition tables_only :: "('w, 'a) act \<Rightarrow> bool" where
  "tables_only m \<longleftrightarrow> (\<forall>s. bindings_of (snd (m s)) = bindings_of s \<and> world (snd (m s)) = world s)"

lemma tables_onlyD: "tables_only m \<Longrightarrow> m s = (r, s') \<Longrightarrow> bindings_of s' = bindings_of s \<and> world s' = world s"
  unfolding tables_only_def by (metis snd_conv)

lemma tables_only_exec: "tables_only (exec env q)"
  by (auto simp: tables_only_def exec_def bindings_of_def tick_up_def split: option.splits sum.splits)

lemma tables_only_sbind: "tables_only m \<Longrightarrow> (\<And>x. tables_only (k x)) \<Longrightarrow> tables_only (sbind m k)"
  unfolding tables_only_def sbind_def
  by (auto split: prod.splits sum.splits) (metis snd_conv)+

lemma tables_only_sfor: "(\<And>x. tables_only (f x)) \<Longrightarrow> tables_only (sfor xs f)"
proof (induction xs)
  case Nil
  then show ?case by (simp add: tables_only_def sret_def)
next
  case (Cons x xs)
  then show ?case by (simp add: tables_only_sbind)
qed

lemma tables_only_in_tx:
  assumes "tables_only m"
  shows "tables_only (in_tx env m)"
proof -
  have "bindings_of (snd (in_tx env m s)) = bindings_of s \<and> world (snd (in_tx env m s)) = world s" for s
  proof -
    obtain r s' where m: "m (tick_up s) = (r, s')" by fastforce
    from tables_onlyD [OF assms m] show ?thesis
      by (auto simp: in_tx_def m split: option.splits sum.splits)
  qed
  then show ?thesis by (simp add: tables_only_def)
qed

lemma tables_only_PutObject: "tables_only (PutObject env ob cks)"
  unfolding PutObject_body putObjectInTx_def
  by (intro tables_only_in_tx tables_only_sbind tables_only_exec tables_only_sfor)

lemma tables_only_DeleteObject: "tables_only (DeleteObject env b k)"
  unfolding DeleteObject_body deleteObjectInTx_def
  by (intro tables_only_in_tx tables_only_sbind tables_only_exec)

text \<open>The write of an object row and its chunks, seen from the store.\<close>

lemma wp_PutObject:
  assumes "chunks_for ob cks"
    "\<And>s'. bindings_of s' = bindings_of s \<Longrightarrow> world s' = world s \<Longrightarrow> (tables_wf (tabs s) \<longrightarrow> tables_wf (tabs s')) \<Longrightarrow>
       contents (tabs s') = (contents (tabs s))(ob_id ob \<mapsto> (scanObject (object_row ob), sort_key ck_PartNumber cks)) \<Longrightarrow> Q () s'"
    "\<And>e s'. quiet s s' \<Longrightarrow> E e s'"
  shows "wp (PutObject env ob cks) Q E s"
proof (rule wpI)
  fix x s' assume p: "PutObject env ob cks s = (Inr x, s')"
  from wp_Inr [OF PutObject_ok p] have t: "tabs s' = put_tables ob cks (tabs s)" by simp
  show "Q x s'"
    using assms(2) [of s'] tables_onlyD [OF tables_only_PutObject p]
    by (simp add: t wf_put assms(1) contents_put)
next
  fix e s' assume p: "PutObject env ob cks s = (Inl e, s')"
  then have "tabs s' = tabs s" using in_tx_Inl by (metis PutObject_body)
  with tables_onlyD [OF tables_only_PutObject p] show "E e s'"
    by (intro assms(3)) (simp add: quiet_def same_def)
qed

lemma wp_DeleteObject:
  assumes "\<And>s'. bindings_of s' = bindings_of s \<Longrightarrow> world s' = world s \<Longrightarrow> (tables_wf (tabs s) \<longrightarrow> tables_wf (tabs s')) \<Longrightarrow>
       contents (tabs s') = (contents (tabs s))((b, k) := None) \<Longrightarrow> Q () s'"
    "\<And>e s' n. sq_fault env n = Some e \<Longrightarrow> quiet s s' \<Longrightarrow> E e s'"
  shows "wp (DeleteObject env b k) Q E s"
proof (rule wpI)
  fix x s' assume p: "DeleteObject env b k s = (Inr x, s')"
  from wp_Inr [OF DeleteObject_ok p] have t: "tabs s' = del_tables (\<lambda>bk. bk = (b, k)) (tabs s)" by simp
  have "contents (tabs s') = (contents (tabs s))((b, k) := None)"
    unfolding t by (auto simp: contents_del fun_eq_iff)
  then show "Q x s'"
    using assms(1) [of s'] tables_onlyD [OF tables_only_DeleteObject p] wf_del by (auto simp: t)
next
  fix e s' assume p: "DeleteObject env b k s = (Inl e, s')"
  then have "tabs s' = tabs s" using in_tx_Inl by (metis DeleteObject_body)
  moreover have "\<exists>n. sq_fault env n = Some e"
    using p by (auto simp: DeleteObject_body deleteObjectInTx_def in_tx_def sbind_def exec_def sql_delete_chunks_def
        sql_delete_objects_def split: option.splits prod.splits sum.splits if_splits)
  ultimately show "E e s'" using tables_onlyD [OF tables_only_DeleteObject p]
    by (auto intro!: assms(2) simp: quiet_def same_def)
qed

end
