(* ===== verification/StoreSpec.thy ===== *)
theory StoreSpec
  imports StoreFrames
begin

text \<open>
  What the object store promises, over what it needs of Telegram. The locale \<open>telegram_chat\<close> is the
  contract of a \<^verbatim>\<open>telegram.Client\<close>: messages are found under (chat, message id) and carry a file.
  The abstract state of a store is the map \<open>object_bytes\<close> from (bucket, key) to the bytes that its
  chunk rows and the messages they name spell out; \<open>store_inv\<close> is the invariant.
\<close>

subsection \<open>The contract of a Telegram client\<close>

type_synonym chat_view = "string \<times> int \<rightharpoonup> string \<times> bytes"

locale telegram_chat =
  fixes c :: "'w tg_client"
    and msgs :: "'w \<Rightarrow> chat_view"
  assumes up_keeps: "tc_Upload c rq w = (u, w') \<Longrightarrow> msgs w \<subseteq>\<^sub>m msgs w'"
    and up_fresh: "tc_Upload c rq w = (Inr f, w') \<Longrightarrow>
      msgs w (up_ChatID rq, uf_MessageID f) = None \<and>
      (\<exists>d. msgs w' (up_ChatID rq, uf_MessageID f) = Some (uf_FileID f, d) \<and>
        (up_Type rq = ''document'' \<longrightarrow> rd_err (up_Reader rq) = None \<longrightarrow> d = rd_data (up_Reader rq)))"
    and down_keeps: "tc_Download c fid w = (r, w') \<Longrightarrow> msgs w' = msgs w"
    and down_data: "tc_Download c fid w = (Inr (rd, cl), w') \<Longrightarrow> msgs w m = Some (fid, d) \<Longrightarrow>
      (\<exists>n. rd_data rd = take n d) \<and> (rd_err rd = None \<longrightarrow> rd_data rd = d)"
    and del_other: "tc_DeleteMessage c chat mid w = (v, w') \<Longrightarrow> m \<noteq> (chat, mid) \<Longrightarrow> msgs w' m = msgs w m"
    and same_file: "msgs w m = Some (fid, d) \<Longrightarrow> msgs w m' = Some (fid, d') \<Longrightarrow> d' = d"

subsection \<open>The abstract state\<close>

fun chunk_bytes :: "chat_view \<Rightarrow> string \<Rightarrow> Chunk list \<Rightarrow> bytes option" where
  "chunk_bytes view chat [] = Some []"
| "chunk_bytes view chat (ck # cks) =
     (case view (chat, ck_TelegramMessageID ck) of
        None \<Rightarrow> None
      | Some (fid, d) \<Rightarrow>
          if fid = ck_TelegramFileID ck \<and> int (length d) = ck_Size ck
          then map_option (\<lambda>bs. d @ bs) (chunk_bytes view chat cks) else None)"

text \<open>The rows of one object: part numbers count up, offsets are the sums of the sizes before.\<close>

fun laid_out :: "int \<Rightarrow> int \<Rightarrow> Chunk list \<Rightarrow> bool" where
  "laid_out off part [] \<longleftrightarrow> True"
| "laid_out off part (ck # cks) \<longleftrightarrow> ck_Offset ck = off \<and> ck_PartNumber ck = part \<and> 0 \<le> ck_Size ck \<and>
     laid_out (off + ck_Size ck) (part + 1) cks"

definition object_bytes :: "('w \<Rightarrow> chat_view) \<Rightarrow> 'w ostate \<Rightarrow> string \<times> string \<rightharpoonup> bytes" where
  "object_bytes msgs s bk =
     (case contents (tabs s) bk of
        None \<Rightarrow> None
      | Some (ob, cks) \<Rightarrow> chunk_bytes (msgs (world s)) (bucketChatID s (fst bk)) cks)"

definition chunk_msgs :: "'w ostate \<Rightarrow> string \<times> string \<Rightarrow> (string \<times> int) set" where
  "chunk_msgs s bk =
     (case contents (tabs s) bk of
        None \<Rightarrow> {}
      | Some (ob, cks) \<Rightarrow> (\<lambda>ck. (bucketChatID s (fst bk), ck_TelegramMessageID ck)) ` set cks)"

text \<open>Every object has its bytes, laid out from offset 0 and as many as its row says; no message
  belongs to two objects.\<close>

definition store_inv :: "('w \<Rightarrow> chat_view) \<Rightarrow> 'w ostate \<Rightarrow> bool" where
  "store_inv msgs s \<longleftrightarrow> tables_wf (tabs s) \<and>
     (\<forall>bk ob cks. contents (tabs s) bk = Some (ob, cks) \<longrightarrow>
        (\<exists>bs. object_bytes msgs s bk = Some bs \<and> ob_Size ob = int (length bs)) \<and> laid_out 0 1 cks) \<and>
     (\<forall>bk bk'. bk \<noteq> bk' \<longrightarrow> chunk_msgs s bk \<inter> chunk_msgs s bk' = {})"

text \<open>All buckets are served by one client.\<close>

definition served_by :: "'w tg_client \<Rightarrow> 'w ostate \<Rightarrow> bool" where
  "served_by c s \<longleftrightarrow> (tg s = None \<or> tg s = Some c) \<and>
     (\<forall>name b. bucketBindings s name = Some b \<longrightarrow> bb_Telegram b = None \<or> bb_Telegram b = Some c)"

lemma served_binding:
  "served_by c s \<Longrightarrow> bucketBinding s name = Inr b \<Longrightarrow> bb_Telegram b = None \<or> bb_Telegram b = Some c"
  unfolding served_by_def bucketBinding_def Let_def
  by (cases "bucketBindings s name"; force split: option.splits if_splits)

subsection \<open>Facts on chunk lists\<close>

lemma chunk_bytes_append:
  "chunk_bytes v chat (cs @ ds) =
     (case chunk_bytes v chat cs of None \<Rightarrow> None | Some a \<Rightarrow> map_option (\<lambda>b. a @ b) (chunk_bytes v chat ds))"
  by (cases "chunk_bytes v chat ds"; induction cs) (auto split: option.splits if_splits)

lemma chunk_bytes_mono: "v \<subseteq>\<^sub>m v' \<Longrightarrow> chunk_bytes v chat cs = Some bs \<Longrightarrow> chunk_bytes v' chat cs = Some bs"
  by (induction cs arbitrary: bs) (force split: option.splits if_splits prod.splits simp: map_le_def dom_def)+

lemma chunk_bytes_cong:
  "(\<And>ck. ck \<in> set cs \<Longrightarrow> v' (chat, ck_TelegramMessageID ck) = v (chat, ck_TelegramMessageID ck)) \<Longrightarrow>
     chunk_bytes v' chat cs = chunk_bytes v chat cs"
proof (induction cs)
  case (Cons ck cs)
  then have "chunk_bytes v' chat cs = chunk_bytes v chat cs" by simp
  with Cons.prems [of ck] show ?case by (simp split: option.split)
qed simp

lemma chunk_bytes_msgs:
  "chunk_bytes v chat cs = Some bs \<Longrightarrow> ck \<in> set cs \<Longrightarrow>
     \<exists>d. v (chat, ck_TelegramMessageID ck) = Some (ck_TelegramFileID ck, d) \<and> int (length d) = ck_Size ck"
  by (induction cs arbitrary: bs) (auto split: option.splits if_splits)

lemma laid_out_append:
  "laid_out off part (cs @ ds) \<longleftrightarrow> laid_out off part cs \<and>
     laid_out (off + sum_list (map ck_Size cs)) (part + int (length cs)) ds"
  by (induction cs arbitrary: off part) (auto simp: algebra_simps)

lemma laid_out_parts: "laid_out off part cs \<Longrightarrow> map ck_PartNumber cs = map (\<lambda>i. part + int i) [0..<length cs]"
proof (induction cs arbitrary: off part)
  case (Cons ck cs)
  then have "map ck_PartNumber cs = map (\<lambda>i. part + 1 + int i) [0..<length cs]"
    using Cons.IH [of "off + ck_Size ck" "part + 1"] by simp
  with Cons.prems show ?case
    by (simp add: upt_conv_Cons map_Suc_upt [symmetric] comp_def del: upt_Suc map_Suc_upt)
qed simp

lemma laid_out_distinct: "laid_out off part cs \<Longrightarrow> distinct (map ck_PartNumber cs)"
  by (drule laid_out_parts) (simp only: distinct_map distinct_upt, auto simp: inj_on_def)

lemma laid_out_sorted: "laid_out off part cs \<Longrightarrow> sorted (map ck_PartNumber cs)"
  by (drule laid_out_parts) (simp only: sorted_iff_nth_mono_less, auto)

lemma laid_out_sort: "laid_out off part cs \<Longrightarrow> sort_key ck_PartNumber cs = cs"
  by (rule sort_key_sorted) (rule laid_out_sorted)

lemma chunk_bytes_length:
  "chunk_bytes v chat cs = Some bs \<Longrightarrow> int (length bs) = sum_list (map ck_Size cs)"
  by (induction cs arbitrary: bs) (auto split: option.splits if_splits)

lemma laid_out_contiguous: "laid_out off part cs \<Longrightarrow> contiguous off (chunkRefsFromMetadata cs)"
  by (induction cs arbitrary: off part) (auto simp: chunkRefsFromMetadata_def)

lemma total_refs: "total_size (chunkRefsFromMetadata cs) = sum_list (map ck_Size cs)"
  by (simp add: total_size_def chunkRefsFromMetadata_def comp_def)

end
