(* ===== verification/StoreCorrect.thy ===== *)
theory StoreCorrect
  imports StoreSpec
begin

text \<open>
  The operations of the object store over the contract \<open>telegram_chat\<close>: uploads add messages, the
  chunks of a put spell out its body, the stream of a get is the object or the range asked for, and
  the clean-up of replaced chunks only touches their messages.
\<close>

text \<open>A step that only adds messages, and what a successful upload adds.\<close>

definition grows :: "('w \<Rightarrow> chat_view) \<Rightarrow> 'w ostate \<Rightarrow> 'w ostate \<Rightarrow> bool" where
  "grows msgs s s' \<longleftrightarrow> same s s' \<and> msgs (world s) \<subseteq>\<^sub>m msgs (world s')"

definition uploaded :: "('w \<Rightarrow> chat_view) \<Rightarrow> 'w \<Rightarrow> UploadRequest \<Rightarrow> UploadedFile \<Rightarrow> 'w \<Rightarrow> bool" where
  "uploaded msgs w rq f w' \<longleftrightarrow>
     msgs w (up_ChatID rq, uf_MessageID f) = None \<and>
     (\<exists>d. msgs w' (up_ChatID rq, uf_MessageID f) = Some (uf_FileID f, d) \<and>
       (up_Type rq = ''document'' \<longrightarrow> rd_err (up_Reader rq) = None \<longrightarrow> d = rd_data (up_Reader rq)))"

lemma quiet_grows: "quiet s s' \<Longrightarrow> grows msgs s s'"
  by (simp add: quiet_def grows_def)

lemma grows_refl [simp]: "grows msgs s s"
  by (simp add: grows_def)

lemma grows_trans: "grows msgs s s' \<Longrightarrow> grows msgs s' s'' \<Longrightarrow> grows msgs s s''"
  by (meson grows_def same_trans map_le_trans)

lemma quiet_grows_trans: "quiet s s' \<Longrightarrow> grows msgs s' s'' \<Longrightarrow> grows msgs s s''"
  and grows_quiet_trans: "grows msgs s s' \<Longrightarrow> quiet s' s'' \<Longrightarrow> grows msgs s s''"
  by (erule grows_trans [OF quiet_grows], assumption, erule grows_trans, erule quiet_grows)

lemma same_binding: "same s s' \<Longrightarrow> bucketBinding s' = bucketBinding s" "same s s' \<Longrightarrow> bucketChatID s' = bucketChatID s"
  by (rule bindings_cong, simp add: same_def)+

lemma same_served: "same s s' \<Longrightarrow> served_by c s' = served_by c s"
  unfolding same_def served_by_def bindings_of_def by auto

text \<open>A quiet step in front of others.\<close>

lemma wp_quiet_step:
  assumes "quiet_act m" "\<And>x s'. m s = (Inr x, s') \<Longrightarrow> quiet s s' \<Longrightarrow> wp (k x) Q E s'" "\<And>e s'. quiet s s' \<Longrightarrow> E e s'"
  shows "wp (sbind m k) Q E s"
  unfolding wp_sbind by (rule wp_quiet [OF assms(1)]) (erule (1) assms(2), erule assms(3))

context telegram_chat
begin

lemma call_Upload_effect:
  assumes "bb_Telegram b = None \<or> bb_Telegram b = Some c"
  shows "wp (call_Upload b rq) (\<lambda>f s'. grows msgs s s' \<and> uploaded msgs (world s) rq f (world s'))
    (\<lambda>e s'. grows msgs s s') s"
proof (cases "bb_Telegram b")
  case None
  then show ?thesis by (simp add: wp_def call_Upload_def)
next
  case (Some c')
  with assms(1) have c': "c' = c" by simp
  obtain r w' where u: "tc_Upload c rq (world s) = (r, w')" by fastforce
  have "grows msgs s (s\<lparr>world := w'\<rparr>)"
    using up_keeps [OF u] by (simp add: grows_def same_def)
  moreover have "uploaded msgs (world s) rq f w'" if "r = Inr f" for f
    using up_fresh [of rq "world s" f w'] u that by (simp add: uploaded_def)
  ultimately show ?thesis
    by (auto simp: wp_def call_Upload_def Some c' u split: sum.splits)
qed

lemma uploadTelegram_effect:
  assumes "bb_Telegram b = None \<or> bb_Telegram b = Some c"
  shows "wp (uploadTelegram env b rq) (\<lambda>f s'. grows msgs s s' \<and> uploaded msgs (world s) rq f (world s'))
    (\<lambda>e s'. grows msgs s s') s" (is "wp _ ?Q ?E s")
proof -
  have tail: "wp (sbind m (\<lambda>_. sbind m' (\<lambda>_. sfail err))) ?Q ?E s3"
    if "quiet_act m" "quiet_act m'" "grows msgs s s3" for m m' and err :: gerror and s3
    using that by (intro wp_quiet_step) (auto simp: wp_sfail intro: grows_quiet_trans quiet_trans)
  have quiets: "quiet_act (case IsRateLimitError err of
      Some retryAfter \<Rightarrow>
        if retryAfter > 0 then sbind (clock_now env) (\<lambda>now.
          smodify (\<lambda>s. s\<lparr>uploadGates := (uploadGates s)(bb_TokenKey b \<mapsto> now + retryAfter)\<rparr>))
        else sret ()
    | None \<Rightarrow> sret ())"
    "quiet_act (swhen (shouldMarkBucketUnavailable err) (markBucketUnavailable n))" for err n
    unfolding markBucketUnavailable_def
    by (auto split: option.splits intro!: quiet_intro quiet_smodify simp: quiet_def same_def)
  have up: "wp (sbind (stry (call_Upload b rq)) (\<lambda>u. case u of Inr file \<Rightarrow> sret file
      | Inl err \<Rightarrow> sbind (m err) (\<lambda>_. sbind (m' err) (\<lambda>_. sfail err)))) ?Q ?E s2"
    if s2: "quiet s s2" and m: "\<And>err. quiet_act (m err)" "\<And>err. quiet_act (m' err)" for s2 m m'
    unfolding wp_sbind wp_stry
  proof (rule wp_mono [OF call_Upload_effect [OF assms]], goal_cases)
    case (1 f s')
    with s2 show ?case by (auto simp: wp_sret quiet_def intro: quiet_grows_trans [OF s2])
  next
    case (2 e s')
    then show ?case using tail [OF m quiet_grows_trans [OF s2 2]] by (simp add: wp_sbind)
  qed
  show ?thesis
    unfolding uploadTelegram_def wp_sbind [of "sget f" for f] wp_sget wp_if
    apply (auto simp: wp_sfail)
    apply (rule wp_quiet_step [OF quiet_select_ctx], rule wp_quiet_step [OF quiet_gate])
    apply (rule up, erule (1) quiet_trans, rule quiets, rule quiets)
    apply (erule quiet_grows [OF quiet_trans], assumption)
    apply (erule quiet_grows)
    done
qed

subsection \<open>Storing chunks\<close>

text \<open>\<open>chunks_hold w0 s bk chunks bs\<close>: the rows, all for the key \<open>bk\<close>, spell out \<open>bs\<close> in the chat of
  the bucket, and their messages are newer than \<open>w0\<close>.\<close>

lemma bytes_upload_simps [simp]:
  "up_ChatID (bytes_upload t ch d k ct cap) = ch" "up_Type (bytes_upload t ch d k ct cap) = t"
  "rd_data (up_Reader (bytes_upload t ch d k ct cap)) = d" "rd_err (up_Reader (bytes_upload t ch d k ct cap)) = None"
  by (simp_all add: bytes_upload_def)

lemma abandon_effect: "wp (abandon bk k us e) Q (\<lambda>e s'. quiet s s') s"
  unfolding abandon_def by (rule wp_quiet_step) (auto simp: wp_sfail intro: quiet_intro)

end

definition chunks_hold ::
    "('w \<Rightarrow> chat_view) \<Rightarrow> 'w \<Rightarrow> 'w ostate \<Rightarrow> string \<times> string \<Rightarrow> Chunk list \<Rightarrow> bytes \<Rightarrow> bool" where
  "chunks_hold msgs w0 s bk chunks bs \<longleftrightarrow>
     chunk_bytes (msgs (world s)) (bucketChatID s (fst bk)) chunks = Some bs \<and> laid_out 0 1 chunks \<and>
     (\<forall>ck \<in> set chunks. ck_id ck = bk \<and> msgs w0 (bucketChatID s (fst bk), ck_TelegramMessageID ck) = None)"

lemma chunks_hold_Nil [simp]: "chunks_hold msgs w0 s bk [] bs \<longleftrightarrow> bs = []"
  by (auto simp: chunks_hold_def)

lemma chunks_hold_mono:
  "chunks_hold msgs w0 s bk chunks bs \<Longrightarrow> grows msgs s s' \<Longrightarrow> chunks_hold msgs w0 s' bk chunks bs"
  unfolding chunks_hold_def grows_def using same_binding(2) chunk_bytes_mono by metis

text \<open>One more chunk.\<close>

lemma chunks_hold_snoc:
  assumes "chunks_hold msgs w0 s bk chunks bs" "grows msgs s s'" "msgs w0 \<subseteq>\<^sub>m msgs (world s)"
    and up: "uploaded msgs (world s) rq f (world s')" "up_ChatID rq = bucketChatID s (fst bk)"
      "up_Type rq = ''document''" "rd_err (up_Reader rq) = None" "rd_data (up_Reader rq) = d"
    and ck: "ck_id ck = bk" "ck_PartNumber ck = int (length chunks) + 1" "ck_Offset ck = int (length bs)"
      "ck_Size ck = int (length d)" "ck_TelegramFileID ck = uf_FileID f" "ck_TelegramMessageID ck = uf_MessageID f"
  shows "chunks_hold msgs w0 s' bk (chunks @ [ck]) (bs @ d)"
proof -
  have h: "chunks_hold msgs w0 s' bk chunks bs" using assms(1,2) by (rule chunks_hold_mono)
  have chat: "bucketChatID s' = bucketChatID s" using assms(2) by (auto simp: grows_def dest: same_binding(2))
  have msg: "msgs (world s') (bucketChatID s (fst bk), uf_MessageID f) = Some (uf_FileID f, d)"
    "msgs (world s) (bucketChatID s (fst bk), uf_MessageID f) = None"
    using up by (auto simp: uploaded_def)
  then have old: "msgs w0 (bucketChatID s (fst bk), uf_MessageID f) = None"
    using assms(3) by (metis map_le_def domIff)
  have len: "int (length bs) = sum_list (map ck_Size chunks)"
    using h by (auto simp: chunks_hold_def dest: chunk_bytes_length)
  show ?thesis
    using h msg(1) old len ck by (auto simp: chunks_hold_def chunk_bytes_append laid_out_append chat)
qed

context telegram_chat
begin

text \<open>The loops over the chunks of an object and of a part: look up the binding, send one chunk, go on.\<close>

lemma send_chunk_effect:
  assumes srv: "served_by c s"
    and nxt: "\<And>binding f s2. bucketChatID s b = bb_ChatID binding \<Longrightarrow>
      stry (bucketBindingM b) s = (Inr (Inr binding), s) \<Longrightarrow>
      stry (uploadTelegram env binding (rq binding s)) s = (Inr (Inr f), s2) \<Longrightarrow> grows msgs s s2 \<Longrightarrow>
      uploaded msgs (world s) (rq binding s) f (world s2) \<Longrightarrow> wp (nxt binding f) Q (\<lambda>e s'. grows msgs s s') s2"
  shows "wp (\<lambda>s. case stry (bucketBindingM b) s of
       (Inl err, s1) \<Rightarrow> (Inl err, s1)
     | (Inr (Inl err), s1) \<Rightarrow> abandon bk k us err s1
     | (Inr (Inr binding), s1) \<Rightarrow>
         (case stry (uploadTelegram env binding (rq binding s1)) s1 of
            (Inl err, s2) \<Rightarrow> (Inl err, s2)
          | (Inr (Inl err), s2) \<Rightarrow> abandon bk k us err s2
          | (Inr (Inr u), s2) \<Rightarrow> nxt binding u s2)) Q (\<lambda>e s'. grows msgs s s') s"
proof -
  have ab: "wp (abandon bk k us e) Q (\<lambda>e s'. grows msgs s s') s2" if "grows msgs s s2" for e s2
    by (rule wp_mono [OF abandon_effect [where Q = "Q"]]) (auto intro: grows_quiet_trans [OF that])
  show ?thesis
  proof (cases "bucketBinding s b")
    case (Inl e)
    then show ?thesis using ab [OF grows_refl] by (simp add: wp_def stry_def bucketBindingM_def)
  next
    case (Inr binding)
    then have tgc: "bb_Telegram binding = None \<or> bb_Telegram binding = Some c" by (rule served_binding [OF srv])
    have bM: "stry (bucketBindingM b) s = (Inr (Inr binding), s)" by (simp add: stry_def bucketBindingM_def Inr)
    obtain r s2 where u: "uploadTelegram env binding (rq binding s) s = (r, s2)" by fastforce
    then have st: "stry (uploadTelegram env binding (rq binding s)) s = (Inr r, s2)" by (simp add: stry_def)
    note eff = uploadTelegram_effect [OF tgc, of env "rq binding s" s]
    show ?thesis
    proof (cases r)
      case (Inl e)
      then show ?thesis using ab [of s2] bM st u eff by (simp add: wp_def)
    next
      case r: (Inr f)
      have "bucketChatID s b = bb_ChatID binding" by (simp add: bucketChatID_def Inr)
      from nxt [OF this bM st [unfolded r]] show ?thesis using bM st u eff r by (simp add: wp_def)
    qed
  qed
qed

text \<open>What such a loop has done when it returns: it has sent the next \<open>remaining\<close> bytes of the body.\<close>

definition spelled :: "('w ostate \<Rightarrow> 'c list \<Rightarrow> bytes \<Rightarrow> bool) \<Rightarrow> 'w ostate \<Rightarrow> int \<Rightarrow> reader \<Rightarrow> bytes \<Rightarrow>
    'c list \<times> bytes \<times> reader \<Rightarrow> 'w ostate \<Rightarrow> bool" where
  "spelled hold s remaining body hashed = (\<lambda>(chunks', hashed', rest) s'. grows msgs s s' \<and> hold s' chunks' hashed' \<and>
     nat remaining \<le> length (rd_data body) \<and> hashed' = hashed @ take (nat remaining) (rd_data body) \<and>
     rest = body\<lparr>rd_data := drop (nat remaining) (rd_data body)\<rparr>)"

lemma spelled_step:
  assumes rf: "ReadFull (nat n) body = Inr (d, body')" and n: "0 < n" "n \<le> remaining" and g: "grows msgs s s2"
    and wp: "wp m (spelled hold s2 (remaining - int (length d)) body' (hashed @ d)) (\<lambda>e s'. grows msgs s2 s') s2"
  shows "wp m (spelled hold s remaining body hashed) (\<lambda>e s'. grows msgs s s') s2"
proof -
  have data: "nat n \<le> length (rd_data body)" "d = take (nat n) (rd_data body)"
    "body' = body\<lparr>rd_data := drop (nat n) (rd_data body)\<rparr>"
    using rf by (simp_all add: ReadFull_Inr)
  have len: "int (length d) = n" using data(1) n(1) by (simp add: data(2))
  have rem: "nat remaining = nat n + nat (remaining - n)" using n by auto
  show ?thesis
  proof (rule wp_mono [OF wp], goal_cases)
    case (1 x s')
    obtain chunks' hashed' rest where x: "x = (chunks', hashed', rest)" by (cases x)
    from 1 show ?case
      unfolding x len data(3) rem spelled_def prod.case
      using data(1) by (auto simp: data(2) take_add add.commute intro: grows_trans [OF g])
  qed (rule grows_trans [OF g])
qed

lemma chunkLoop_effect:
  assumes "served_by c s" "chunks_hold msgs w0 s (pi_Bucket input, pi_Key input) chunks hashed"
    "msgs w0 \<subseteq>\<^sub>m msgs (world s)" "offset = int (length hashed)" "part = int (length chunks) + 1"
    "in_i64 (offset + remaining)" "\<forall>ck \<in> set chunks. ck_Size ck \<le> chunkSize"
  shows "wp (chunkLoop env input chunkSize parts chunks hashed offset remaining part body)
    (spelled (\<lambda>s' cs bs. chunks_hold msgs w0 s' (pi_Bucket input, pi_Key input) cs bs \<and> (\<forall>ck \<in> set cs. ck_Size ck \<le> chunkSize))
      s remaining body hashed) (\<lambda>e s'. grows msgs s s') s"
  using assms
proof (induction env input chunkSize parts chunks hashed offset remaining part body s rule: chunkLoop.induct)
  case (1 env input chunkSize parts chunks hashed offset remaining part body s)
  let ?n = "if remaining < chunkSize then remaining else chunkSize"
  note prems = "1.prems" and IH = "1.IH"
  consider "remaining \<le> 0 \<or> chunkSize \<le> 0 \<or> isl (ReadFull (nat ?n) body)"
    | d body' where "\<not> remaining \<le> 0" "\<not> chunkSize \<le> 0" "ReadFull (nat ?n) body = Inr (d, body')"
    by (cases "ReadFull (nat ?n) body") auto
  then show ?case
  proof cases
    case 1
    then show ?thesis using prems
      unfolding wp_def by (subst chunkLoop.simps) (auto simp: Let_def spelled_def split: sum.split)
  next
    case 2
    note n = 2(1,2) and rf = 2(3)
    have len: "int (length d) = ?n" "0 < ?n" "?n \<le> remaining" using n rf by (auto simp: ReadFull_Inr)
    have off: "i64 (offset + int (length d)) = offset + int (length d)"
      by (rule i64_id, rule in_i64_between [OF in_i64_0 prems(6)]) (use len prems(4) in auto)
    show ?thesis
      unfolding wp_def chunkLoop.simps [of env input chunkSize parts chunks hashed offset remaining part body s]
        if_not_P [OF n(1)] if_not_P [OF n(2)] Let_def rf sum.case prod.case
    proof (rule send_chunk_effect [unfolded wp_def, OF prems(1)], goal_cases)
      case (1 binding f s2)
      note chat = 1(1) and g = 1(4) and up = 1(5)
      show ?case
      proof (rule spelled_step [unfolded wp_def, OF rf len(2,3) g], rule IH [unfolded wp_def, OF n refl rf refl 1(2) [symmetric] refl refl 1(3) [symmetric] refl refl],
          goal_cases)
        case 1
        show ?case using g prems(1) same_served [of s s2 c] by (simp add: grows_def)
      next
        case 2
        show ?case
          by (rule chunks_hold_snoc [OF prems(2) g prems(3) up]) (use prems(4,5) chat in \<open>simp_all add: ck_id_def\<close>)
      next
        case 3
        show ?case using prems(3) g by (auto simp: grows_def intro: map_le_trans)
      qed (use off prems len in auto)
    qed
  qed
qed

subsection \<open>The stream of a get\<close>

lemma CopyLimit_cases:
  "0 \<le> n \<Longrightarrow> CopyLimit n r = (d, None, r') \<Longrightarrow>
     d = take (nat n) (rd_data r) \<and> rd_data r' = drop (nat n) (rd_data r) \<and> rd_err r' = rd_err r \<and>
     (nat n \<le> length (rd_data r) \<or> rd_err r = None)"
  by (auto simp: CopyLimit_def Let_def split: if_splits)

text \<open>A reader that delivers a prefix of \<open>d\<close>, all of it unless it fails: without an error the pipe
  gets the slice.\<close>

lemma pipe_chunk_slice:
  assumes "\<exists>n. rd_data r = take n d" "rd_err r = None \<longrightarrow> rd_data r = d" "0 \<le> sc_skip ch" "0 \<le> sc_take ch"
    "pipe_chunk ch r cl = (out, None)"
  shows "out = take (nat (sc_take ch)) (drop (nat (sc_skip ch)) d)"
proof -
  obtain r1 where r1: "rd_data r1 = drop (nat (sc_skip ch)) (rd_data r)" "rd_err r1 = rd_err r"
    "nat (sc_skip ch) \<le> length (rd_data r) \<or> rd_err r = None"
    and out: "\<exists>r2. CopyLimit (sc_take ch) r1 = (out, None, r2)"
  proof (cases "sc_skip ch > 0")
    case True
    obtain x e r1 where c: "CopyLimit (sc_skip ch) r = (x, e, r1)" by (cases "CopyLimit (sc_skip ch) r")
    with assms(5) True have e: "e = None" by (auto simp: pipe_chunk_def split: option.splits)
    from assms(4,5) True c e have "\<exists>r2. CopyLimit (sc_take ch) r1 = (out, None, r2)"
      by (auto simp: pipe_chunk_def split: prod.splits option.splits)
    with that CopyLimit_cases [OF assms(3) c [unfolded e]] show ?thesis by blast
  next
    case False
    with assms(3) have z: "sc_skip ch = 0" by simp
    from assms(4,5) z have "\<exists>r2. CopyLimit (sc_take ch) r = (out, None, r2)"
      by (auto simp: pipe_chunk_def split: prod.splits option.splits)
    with that [of r] z show ?thesis by simp
  qed
  from out obtain r2 where t: "CopyLimit (sc_take ch) r1 = (out, None, r2)" by blast
  from CopyLimit_cases [OF assms(4) t] have o: "out = take (nat (sc_take ch)) (rd_data r1)"
    "nat (sc_take ch) \<le> length (rd_data r1) \<or> rd_err r = None" using r1(2) by auto
  show ?thesis
  proof (cases "rd_err r = None")
    case True
    with assms(2) o r1 show ?thesis by simp
  next
    case False
    with o r1 assms(1) obtain n where "rd_data r = take n d" "nat (sc_take ch) \<le> length (drop (nat (sc_skip ch)) (take n d))"
      by auto
    with o(1) r1(1) show ?thesis by (auto simp: drop_take min_def not_le split: if_splits)
  qed
qed

lemma downloadChunk_effect:
  assumes "bb_Telegram b = None \<or> bb_Telegram b = Some c"
  shows "wp (downloadChunk env b fid)
    (\<lambda>(r, cl) s'. same s s' \<and> msgs (world s') = msgs (world s) \<and>
      (\<forall>m d. msgs (world s) m = Some (fid, d) \<longrightarrow> (\<exists>n. rd_data r = take n d) \<and> (rd_err r = None \<longrightarrow> rd_data r = d)))
    (\<lambda>e s'. same s s' \<and> msgs (world s') = msgs (world s)) s" (is "wp _ ?Q ?E s")
proof -
  have dl: "wp (call_Download b fid) ?Q ?E s1" if q: "quiet s s1" for s1
  proof (cases "bb_Telegram b")
    case None
    then show ?thesis using q by (simp add: wp_def call_Download_def quiet_def)
  next
    case (Some c')
    with assms(1) have c': "c' = c" by simp
    obtain r w' where d: "tc_Download c fid (world s1) = (r, w')" by fastforce
    have s1: "same s (s1\<lparr>world := w'\<rparr>)" using q by (simp add: quiet_def same_def)
    have w: "world s1 = world s" using q by (simp add: quiet_def)
    show ?thesis
      using down_keeps [OF d] down_data [of fid "world s" _ _ w'] s1 d
      by (cases r) (auto simp: wp_def call_Download_def Some c' w)
  qed
  show ?thesis unfolding downloadChunk_def wp_sbind [of "sget f" for f] wp_sget
    by (rule wp_quiet_step [OF quiet_acquire]) (erule dl, simp add: quiet_def)
qed

text \<open>The stream over the selected chunks. \<open>blob\<close> is the contents of the files.\<close>

lemma streamChunks_effect:
  assumes "bb_Telegram b = None \<or> bb_Telegram b = Some c"
    "\<forall>x \<in> set sel. (\<exists>m. msgs (world s) m = Some (cr_fileID x, blob (cr_fileID x))) \<and> 0 \<le> sc_skip x \<and> 0 \<le> sc_take x"
    "streamChunks env b sel s = ((out, e), s')"
  shows "same s s' \<and> msgs (world s') = msgs (world s) \<and> (e = None \<longrightarrow> out = concat (map (piece blob) sel))"
  using assms(2,3)
proof (induction sel arbitrary: s out e s')
  case Nil
  then show ?case by simp
next
  case (Cons x sel)
  obtain r s1 where d: "downloadChunk env b (cr_fileID x) s = (r, s1)" by fastforce
  note eff = downloadChunk_effect [OF assms(1), of env "cr_fileID x" s]
  show ?case
  proof (cases r)
    case (Inl err)
    with Cons.prems(2) d wp_Inl [OF eff] show ?thesis by auto
  next
    case (Inr p)
    obtain rd cl where p: "p = (rd, cl)" by fastforce
    note e = wp_Inr [OF eff d [unfolded Inr p], simplified]
    obtain data err where pc: "pipe_chunk x rd cl = (data, err)" by fastforce
    show ?thesis
    proof (cases err)
      case (Some er)
      with Cons.prems(2) d Inr p pc have "e = Some er" "s' = s1" by simp_all
      with e show ?thesis by simp
    next
      case None
      obtain rest e2 s2 where st: "streamChunks env b sel s1 = ((rest, e2), s2)" by (metis prod.collapse)
      have "same s1 s2 \<and> msgs (world s2) = msgs (world s1) \<and> (e2 = None \<longrightarrow> rest = concat (map (piece blob) sel))"
        by (rule Cons.IH [OF _ st]) (use Cons.prems(1) e in auto)
      moreover have "data = piece blob x"
        using pipe_chunk_slice [OF _ _ _ _ pc [unfolded None], of "blob (cr_fileID x)"] Cons.prems(1) e
        by (auto simp: piece_def)
      moreover have "out = data @ rest" "e = e2" "s' = s2"
        using Cons.prems(2) by (simp_all add: d Inr p pc None st)
      ultimately show ?thesis using e by (auto intro: same_trans)
    qed
  qed
qed

end

end
