(* ===== verification/StoreRefine.thy ===== *)
theory StoreRefine
  imports StoreCorrect
begin

text \<open>
  The operations on objects refine those of a map from (bucket, key) to bytes, and keep the
  invariant of the store.
\<close>

lemma bindings_served: "bindings_of s' = bindings_of s \<Longrightarrow> served_by c s' = served_by c s"
  unfolding served_by_def bindings_of_def by auto

lemma same_object_bytes:
  assumes "same s s'" "msgs (world s) \<subseteq>\<^sub>m msgs (world s')" "object_bytes msgs s bk = Some bs"
  shows "object_bytes msgs s' bk = Some bs"
  using assms chunk_bytes_mono [OF assms(2)] same_binding(2) [OF assms(1)]
  by (auto simp: object_bytes_def same_def split: option.splits)

lemma same_chunk_msgs: "same s s' \<Longrightarrow> chunk_msgs s' bk = chunk_msgs s bk"
  using same_binding(2) [of s s'] by (simp add: chunk_msgs_def same_def split: option.split)

lemma store_inv_grows: "store_inv msgs s \<Longrightarrow> grows msgs s s' \<Longrightarrow> store_inv msgs s'"
proof -
  assume inv: "store_inv msgs s" and g: "grows msgs s s'"
  have "same s s'" "msgs (world s) \<subseteq>\<^sub>m msgs (world s')" using g by (simp_all add: grows_def)
  note keep = same_object_bytes [OF this] same_chunk_msgs [OF this(1)]
  have t: "tabs s' = tabs s" using g by (simp add: grows_def same_def)
  show ?thesis using inv unfolding store_inv_def t keep(2) by (meson keep(1))
qed

lemma store_inv_bytes:
  assumes "store_inv msgs s" "grows msgs s s'"
  shows "object_bytes msgs s' bk = object_bytes msgs s bk"
proof (cases "contents (tabs s) bk")
  case None
  with assms(2) show ?thesis by (simp add: object_bytes_def grows_def same_def)
next
  case (Some p)
  with assms(1) obtain bs where "object_bytes msgs s bk = Some bs" unfolding store_inv_def by (metis prod.collapse)
  with assms(2) same_object_bytes show ?thesis by (metis grows_def)
qed

text \<open>The row of an object is replaced by one whose chunks hold \<open>bs\<close> in messages that no object has.\<close>

lemma replace_refines:
  assumes inv: "store_inv msgs s" and g: "grows msgs s s1"
    and hold: "chunk_bytes (msgs (world s1)) (bucketChatID s1 (fst bk)) cks = Some bs" and laid: "laid_out 0 1 cks"
    and new: "\<And>bk'. (\<lambda>ck. (bucketChatID s (fst bk), ck_TelegramMessageID ck)) ` set cks \<inter> chunk_msgs s bk' = {}"
    and sz: "ob_Size ob = int (length bs)"
    and s2: "bindings_of s2 = bindings_of s1" "world s2 = world s1" "tables_wf (tabs s1) \<longrightarrow> tables_wf (tabs s2)"
      "contents (tabs s2) = (contents (tabs s1))(bk \<mapsto> (scanObject (object_row ob), sort_key ck_PartNumber cks))"
  shows "store_inv msgs s2 \<and> object_bytes msgs s2 = (object_bytes msgs s)(bk \<mapsto> bs) \<and>
    (\<forall>bk'. chunk_msgs s2 bk' \<inter> chunk_msgs s bk = {}) \<and>
    (\<forall>bk'. chunk_msgs s2 bk' = (if bk' = bk then (\<lambda>ck. (bucketChatID s (fst bk), ck_TelegramMessageID ck)) ` set cks
       else chunk_msgs s bk'))"
proof -
  have inv1: "store_inv msgs s1" using inv g by (rule store_inv_grows)
  have chat: "bucketChatID s2 = bucketChatID s1" "bucketChatID s1 = bucketChatID s"
    using bindings_cong(2) [OF s2(1)] g same_binding(2) by (auto simp: grows_def)
  have sorted: "sort_key ck_PartNumber cks = cks" using laid by (rule laid_out_sort)
  have ob2: "object_bytes msgs s2 bk' = (if bk' = bk then Some bs else object_bytes msgs s bk')" for bk'
  proof -
    have "object_bytes msgs s2 bk' = (if bk' = bk then Some bs else object_bytes msgs s1 bk')"
      using hold sorted by (simp add: object_bytes_def s2 chat(1) split: option.split)
    then show ?thesis using store_inv_bytes [OF inv g] by simp
  qed
  have m2: "chunk_msgs s2 bk' = (if bk' = bk then (\<lambda>ck. (bucketChatID s (fst bk), ck_TelegramMessageID ck)) ` set cks
      else chunk_msgs s bk')" for bk'
  proof (cases "bk' = bk")
    case True
    then show ?thesis by (simp add: chunk_msgs_def s2(4) sorted chat)
  next
    case False
    then have "chunk_msgs s2 bk' = chunk_msgs s1 bk'"
      by (simp add: chunk_msgs_def s2(4) chat(1) split: option.split)
    moreover have "chunk_msgs s1 bk' = chunk_msgs s bk'" using same_chunk_msgs [of s s1] g by (simp add: grows_def)
    ultimately show ?thesis using False by simp
  qed
  have apart: "chunk_msgs s bk1 \<inter> chunk_msgs s bk2 = {}" if "bk1 \<noteq> bk2" for bk1 bk2
    using inv that unfolding store_inv_def by blast
  have "store_inv msgs s2"
    unfolding store_inv_def
  proof (intro conjI allI impI, goal_cases)
    case 1
    then show ?case using inv1 s2(3) by (simp add: store_inv_def)
  next
    case (2 bk' o' cs)
    show ?case
    proof (cases "bk' = bk")
      case True
      with 2 s2(4) sorted sz ob2 show ?thesis by auto
    next
      case False
      with 2 s2(4) have "contents (tabs s1) bk' = Some (o', cs)" by simp
      with inv1 obtain x where "object_bytes msgs s1 bk' = Some x" "ob_Size o' = int (length x)"
        unfolding store_inv_def by blast
      with ob2 False store_inv_bytes [OF inv g] show ?thesis by auto
    qed
  next
    case (3 bk' o' cs)
    then show ?case
    proof (cases "bk' = bk")
      case True
      with 3 s2(4) sorted laid show ?thesis by auto
    next
      case False
      with 3 s2(4) have "contents (tabs s1) bk' = Some (o', cs)" by simp
      with inv1 show ?thesis unfolding store_inv_def by blast
    qed
  next
    case (4 bk1 bk2)
    with new apart [OF 4] show ?case by (cases "bk1 = bk"; cases "bk2 = bk") (simp_all add: m2 Int_commute)
  qed
  moreover have "chunk_msgs s2 bk' \<inter> chunk_msgs s bk = {}" for bk'
    using new apart by (cases "bk' = bk") (simp_all add: m2)
  moreover have "object_bytes msgs s2 = (object_bytes msgs s)(bk \<mapsto> bs)" using ob2 by auto
  ultimately show ?thesis using m2 by blast
qed

text \<open>In particular by one whose messages are new.\<close>

lemma chunk_msgs_live: "store_inv msgs s \<Longrightarrow> m \<in> chunk_msgs s bk \<Longrightarrow> msgs (world s) m \<noteq> None"
proof -
  assume inv: "store_inv msgs s" and m: "m \<in> chunk_msgs s bk"
  from m obtain ob cs where c: "contents (tabs s) bk = Some (ob, cs)"
    "m \<in> (\<lambda>ck. (bucketChatID s (fst bk), ck_TelegramMessageID ck)) ` set cs"
    by (auto simp: chunk_msgs_def split: option.splits)
  with inv obtain x where "object_bytes msgs s bk = Some x" unfolding store_inv_def by blast
  with c show ?thesis by (auto simp: object_bytes_def dest: chunk_bytes_msgs)
qed

lemma put_refines:
  assumes inv: "store_inv msgs s" and g: "grows msgs s s1"
    and hold: "chunks_hold msgs (world s) s1 bk cks bs" and sz: "ob_Size ob = int (length bs)" and id: "ob_id ob = bk"
    and s2: "bindings_of s2 = bindings_of s1" "world s2 = world s1" "tables_wf (tabs s1) \<longrightarrow> tables_wf (tabs s2)"
      "contents (tabs s2) = (contents (tabs s1))(bk \<mapsto> (scanObject (object_row ob), sort_key ck_PartNumber cks))"
  shows "store_inv msgs s2 \<and> object_bytes msgs s2 = (object_bytes msgs s)(bk \<mapsto> bs) \<and>
    (\<forall>bk'. chunk_msgs s2 bk' \<inter> chunk_msgs s bk = {}) \<and>
    (\<forall>m \<in> chunk_msgs s2 bk. msgs (world s) m = None) \<and> (\<forall>bk'. bk' \<noteq> bk \<longrightarrow> chunk_msgs s2 bk' = chunk_msgs s bk')"
proof -
  have chat: "bucketChatID s1 = bucketChatID s" using g same_binding(2) by (auto simp: grows_def)
  have fresh: "\<forall>m \<in> (\<lambda>ck. (bucketChatID s (fst bk), ck_TelegramMessageID ck)) ` set cks. msgs (world s) m = None"
    using hold by (auto simp: chunks_hold_def chat)
  then have "(\<lambda>ck. (bucketChatID s (fst bk), ck_TelegramMessageID ck)) ` set cks \<inter> chunk_msgs s bk' = {}" for bk'
    using chunk_msgs_live [OF inv] by blast
  from replace_refines [OF inv g _ _ this sz s2] hold have
    "store_inv msgs s2 \<and> object_bytes msgs s2 = (object_bytes msgs s)(bk \<mapsto> bs) \<and>
     (\<forall>bk'. chunk_msgs s2 bk' \<inter> chunk_msgs s bk = {}) \<and>
     (\<forall>bk'. chunk_msgs s2 bk' = (if bk' = bk then (\<lambda>ck. (bucketChatID s (fst bk), ck_TelegramMessageID ck)) ` set cks
       else chunk_msgs s bk'))"
    unfolding chunks_hold_def by blast
  moreover from this have "\<forall>bk'. bk' \<noteq> bk \<longrightarrow> chunk_msgs s2 bk' = chunk_msgs s bk'" by presburger
  moreover from calculation(1) fresh have "\<forall>m \<in> chunk_msgs s2 bk. msgs (world s) m = None" by metis
  ultimately show ?thesis by blast
qed

text \<open>\<open>stored msgs s bk bs s2\<close>: from \<open>s\<close>, a row for \<open>bk\<close> was written that holds \<open>bs\<close> in messages newer
  than \<open>s\<close>.\<close>

definition stored :: "('w \<Rightarrow> chat_view) \<Rightarrow> 'w ostate \<Rightarrow> string \<times> string \<Rightarrow> bytes \<Rightarrow> 'w ostate \<Rightarrow> bool" where
  "stored msgs s bk bs s2 \<longleftrightarrow> (\<exists>s1 cks ob. grows msgs s s1 \<and> chunks_hold msgs (world s) s1 bk cks bs \<and>
     ob_Size ob = int (length bs) \<and> ob_id ob = bk \<and>
     bindings_of s2 = bindings_of s1 \<and> world s2 = world s1 \<and> (tables_wf (tabs s1) \<longrightarrow> tables_wf (tabs s2)) \<and>
     contents (tabs s2) = (contents (tabs s1))(bk \<mapsto> (scanObject (object_row ob), sort_key ck_PartNumber cks)))"

lemma stored_quiet: "stored msgs s bk bs s2 \<Longrightarrow> quiet s2 s3 \<Longrightarrow> stored msgs s bk bs s3"
  unfolding stored_def quiet_def same_def by auto

lemma quiet_stored:
  assumes "quiet s0 s" "stored msgs s bk bs s2"
  shows "stored msgs s0 bk bs s2"
proof -
  have w: "world s = world s0" using assms(1) by (simp add: quiet_def)
  show ?thesis
    using assms(2) quiet_grows_trans [OF assms(1)] unfolding stored_def w by blast
qed

lemma chunks_hold_for: "chunks_hold msgs w0 s bk cks bs \<Longrightarrow> ob_id ob = bk \<Longrightarrow> chunks_for ob cks"
  by (auto simp: chunks_hold_def chunks_for_def dest: laid_out_distinct)

text \<open>The write of the row and its log lines, after the chunks are up.\<close>

lemma store_row:
  assumes "grows msgs s s1" "chunks_hold msgs (world s) s1 bk cks bs" "ob_Size ob = int (length bs)" "ob_id ob = bk"
    and "\<And>err. quiet_act (m1 err)" "\<And>s2. wp m2 (\<lambda>r s'. quiet s2 s') (\<lambda>e s'. False) s2"
    and fails: "\<And>err s2. wp (m1 err) (\<lambda>r s'. False) (\<lambda>e s'. quiet s2 s') s2"
  shows "wp (sbind (stry (PutObject env ob cks)) (\<lambda>r. case r of Inl err \<Rightarrow> m1 err | Inr _ \<Rightarrow> m2))
    (\<lambda>etag s2. stored msgs s bk bs s2) (\<lambda>e s'. grows msgs s s') s1"
  unfolding wp_sbind wp_stry
proof (rule wp_PutObject [OF chunks_hold_for [OF assms(2,4)]], goal_cases)
  case (1 s2)
  then have "stored msgs s bk bs s2" using assms(1-4) unfolding stored_def by blast
  then show ?case using assms(6) [of s2] by (auto intro: wp_mono stored_quiet)
next
  case (2 e s2)
  then show ?case using fails [of e s2] grows_quiet_trans [OF assms(1)]
    by (auto elim!: wp_mono intro: grows_quiet_trans)
qed

lemma wp_emit [wp_simps]: "wp (emit e) Q E s = Q () (s\<lparr>events := events s @ [e]\<rparr>)"
  by (simp add: emit_def wp_smodify)

lemma log_then:
  "wp (sbind (logMetadataPutObject bk k n e err) (\<lambda>_. sret x)) (\<lambda>r s'. r = x \<and> quiet s s') (\<lambda>e s'. False) s"
  by (simp add: logMetadataPutObject_def emit_def wp_simps quiet_def same_def)

lemma log_fail:
  "wp (sbind (logMetadataPutObject bk k n e err) (\<lambda>_. sfail er)) (\<lambda>r s'. False) (\<lambda>e s'. quiet s s') s"
  "wp (sbind (logMetadataPutObject bk k n e err) (\<lambda>_. sbind (logOrphanUpload bk k us er) (\<lambda>_. sfail er)))
     (\<lambda>r s'. False) (\<lambda>e s'. quiet s s') s"
  by (simp_all add: logMetadataPutObject_def logOrphanUpload_def emit_def wp_simps quiet_def same_def)

lemmas store_row_logs = store_row [OF _ _ _ _ _ wp_mono [OF log_then]]

lemma stageSingleUpload_effect:
  "wp (stageSingleUpload env input body)
     (\<lambda>data s'. quiet s s' \<and> data = rd_data body \<and> rd_err body = None \<and> int (length data) = pi_Size input)
     (\<lambda>e s'. quiet s s') s"
proof -
  have small: "wp (sbind (slift (ReadAll body)) (\<lambda>data.
       if int (length data) \<noteq> pi_Size input then sfail (size_error (int (length data)) (pi_Size input)) else sret data))
     (\<lambda>data s'. quiet s s' \<and> data = rd_data body \<and> rd_err body = None \<and> int (length data) = pi_Size input)
     (\<lambda>e s'. quiet s s') s"
    by (auto simp: wp_simps ReadAll_Inr split: sum.splits)
  have big: "wp (sbind (os_step env) (\<lambda>_. sbind (os_step env) (\<lambda>_.
       case CopyAll body of (data, Some err) \<Rightarrow> sfail err
       | (data, None) \<Rightarrow>
           if int (length data) \<noteq> pi_Size input then sfail (size_error (int (length data)) (pi_Size input))
           else sbind (os_step env) (\<lambda>_. sret data))))
     (\<lambda>data s'. quiet s s' \<and> data = rd_data body \<and> rd_err body = None \<and> int (length data) = pi_Size input)
     (\<lambda>e s'. quiet s s') s"
    by (rule wp_quiet_step [OF quiet_os_step], rule wp_quiet_step [OF quiet_os_step],
        auto simp: CopyAll_def wp_simps split: option.splits intro!: wp_quiet [OF quiet_os_step])
      (meson quiet_trans)+
  show ?thesis
    unfolding stageSingleUpload_def wp_sbind [of "sget f" for f] wp_sget Let_def wp_if
    using small big by (simp split: if_splits)
qed

lemma putEmpty_effect:
  assumes "pi_Size input = 0"
  shows "wp (putEmpty env input strategy)
    (\<lambda>etag s'. stored msgs s (pi_Bucket input, pi_Key input) [] s') (\<lambda>e s'. grows msgs s s') s"
  unfolding putEmpty_def Let_def
  by (rule wp_quiet_step [OF quiet_clock], rule store_row)
    (auto simp: ob_id_def intro: quiet_grows quiet_intro log_fail wp_mono [OF log_then])

lemma previous_chunks_ok:
  assumes "previous_chunks env b k s = (Inr prev, s')" "prev \<noteq> []"
  shows "\<exists>ob. contents (tabs s) (b, k) = Some (ob, prev)"
proof -
  have "ok (previous_chunks env b k) (\<lambda>prev s'. prev \<noteq> [] \<longrightarrow> (\<exists>ob. contents (tabs s) (b, k) = Some (ob, prev))) s"
    unfolding previous_chunks_def wp_sbind wp_stry
    by (rule wpI) (auto simp: wp_sret dest!: wp_Inr [OF GetObject_ok] split: sum.splits)
  then show ?thesis using assms wp_Inr by fastforce
qed

context telegram_chat
begin

lemma putSingle_effect:
  assumes served: "served_by c s"
    and st: "us_UploadStrategy strategy \<noteq> ''typed''" "us_TelegramType strategy = ''document''"
  shows "wp (putSingle env input body strategy)
    (\<lambda>etag s'. stored msgs s (pi_Bucket input, pi_Key input) (rd_data body) s' \<and> rd_err body = None \<and>
       int (length (rd_data body)) = pi_Size input)
    (\<lambda>e s'. grows msgs s s') s"
  unfolding putSingle_def
proof (rule wp_quiet_step [OF quiet_clock], goal_cases)
  case (1 now s1)
  show ?case
    unfolding wp_sbind [of "stageSingleUpload env input body"]
  proof (rule wp_mono [OF stageSingleUpload_effect], goal_cases)
    case (1 data s2)
    then have q2: "quiet s s2" and data: "data = rd_data body" "rd_err body = None" "int (length data) = pi_Size input"
      using \<open>quiet s s1\<close> by (auto intro: quiet_trans)
    show ?case
    proof (rule wp_quiet_step [OF quiet_binding], goal_cases)
      case (1 binding s3)
      then have b: "bucketBinding s2 (pi_Bucket input) = Inr binding" and s3: "s3 = s2"
        by (auto simp: bucketBindingM_def)
      have "served_by c s2" using served q2 same_served [of s s2 c] by (simp add: quiet_def)
      then have tgc: "bb_Telegram binding = None \<or> bb_Telegram binding = Some c" using b by (rule served_binding)
      define caption where "caption = renderCaption s2 (pi_Bucket input) (pi_Key input) (pi_Size input) 1 1"
      let ?rq = "bytes_upload (us_TelegramType strategy) (bb_ChatID binding) data (pi_Key input) (pi_ContentType input) caption"
      show ?case
        unfolding wp_sbind [of "sget f" for f] wp_sget s3 caption_def [symmetric] wp_sbind [of "uploadTelegram env b r" for b r]
      proof (rule wp_mono [OF uploadTelegram_effect [OF tgc]], goal_cases)
        case (1 f s4)
        then have g: "grows msgs s2 s4" and up: "uploaded msgs (world s2) ?rq f (world s4)" by simp_all
        define ck where "ck = \<lparr>ck_Bucket = pi_Bucket input, ck_Key = pi_Key input, ck_PartNumber = 1, ck_Offset = 0,
             ck_Size = pi_Size input, ck_TelegramType = uf_Type f, ck_TelegramFileID = uf_FileID f,
             ck_TelegramMessageID = uf_MessageID f, ck_TelegramFileUniqueID = uf_FileUniqueID f,
             ck_SHA256 = EncodeToString (ev_sha256 env data)\<rparr>"
        have "chunks_hold msgs (world s) s2 (pi_Bucket input, pi_Key input) [] []" by simp
        moreover have "msgs (world s) \<subseteq>\<^sub>m msgs (world s2)" using q2 by (simp add: quiet_def)
        ultimately have "chunks_hold msgs (world s) s4 (pi_Bucket input, pi_Key input) ([] @ [ck]) ([] @ data)"
          by (rule chunks_hold_snoc [OF _ g _ up])
            (use st data in \<open>simp_all add: ck_def ck_id_def bucketChatID_def b\<close>)
        then have hold: "chunks_hold msgs (world s) s4 (pi_Bucket input, pi_Key input) [ck] data" by simp
        have gs: "grows msgs s s4" using q2 g by (rule quiet_grows_trans)
        show ?case
          using st data(3) hold [unfolded ck_def data(1)] gs
          by (auto simp: wp_sbind [of "sret x" for x] wp_sret data ob_id_def
              intro!: store_row wp_mono [OF log_then] log_fail quiet_intro)
      qed (auto intro: quiet_grows_trans [OF q2])
    qed (use q2 in \<open>auto intro: quiet_grows quiet_trans\<close>)
  qed (auto intro: quiet_grows quiet_trans [OF \<open>quiet s s1\<close>])
qed (rule quiet_grows)

lemma putChunked_effect:
  assumes served: "served_by c s" and sz: "in_i64 (pi_Size input)" "0 < pi_Size input"
  shows "wp (putChunked env input body strategy)
    (\<lambda>etag s'. stored msgs s (pi_Bucket input, pi_Key input) (rd_data body) s' \<and> rd_err body = None \<and>
       int (length (rd_data body)) = pi_Size input)
    (\<lambda>e s'. grows msgs s s') s"
  unfolding putChunked_def
proof (rule wp_quiet_step [OF quiet_clock], goal_cases)
  case (1 now s1)
  have srv: "served_by c s1" using served 1(2) same_served [of s s1 c] by (simp add: quiet_def)
  have w: "world s1 = world s" using 1(2) by (simp add: quiet_def)
  show ?case
    unfolding wp_sbind [of "sget f" for f] wp_sget Let_def wp_sbind [of "chunkLoop e i c p a b d f g h" for e i c p a b d f g h]
  proof (rule wp_mono [OF chunkLoop_effect [OF srv, where ?w0.0 = "world s"]], goal_cases)
    case (7 x s2)
    obtain chunks hashed rest where x: "x = (chunks, hashed, rest)" by (cases x)
    from 7 have g: "grows msgs s s2"
      and hold: "chunks_hold msgs (world s) s2 (pi_Bucket input, pi_Key input) chunks hashed"
      and rest: "nat (pi_Size input) \<le> length (rd_data body)" "hashed = take (nat (pi_Size input)) (rd_data body)"
        "rest = body\<lparr>rd_data := drop (nat (pi_Size input)) (rd_data body)\<rparr>"
      using quiet_grows_trans [OF 1(2)] by (auto simp: x spelled_def)
    have len: "int (length hashed) = pi_Size input" using rest sz by simp
    show ?case
    proof (cases "ReadAll rest")
      case (Inr extra)
      then have e: "extra = drop (nat (pi_Size input)) (rd_data body)" "rd_err body = None"
        using rest(3) by (auto simp: ReadAll_Inr)
      show ?thesis
      proof (cases "extra = []")
        case True
        then have all: "hashed = rd_data body" using rest e by simp
        show ?thesis
          unfolding x prod.case wp_sbind [of "slift r" for r] wp_slift Inr True
          using g hold len e(2)
          by (auto simp: wp_sfail all ob_id_def intro!: wp_mono [OF store_row [OF g hold]]
              wp_mono [OF log_then] log_fail quiet_intro)
      next
        case False
        then show ?thesis using g by (simp add: x wp_simps Inr)
      qed
    qed (use g in \<open>simp add: x wp_simps\<close>)
  next
    case (8 e s2)
    then show ?case using quiet_grows_trans [OF 1(2)] by blast
  qed (use sz w in simp_all)
qed (rule quiet_grows)

end

text \<open>What a step on one object does to messages: those that are there stay, unless they are of the object,
  and the other objects keep theirs.\<close>

definition touches :: "('w \<Rightarrow> chat_view) \<Rightarrow> 'w ostate \<Rightarrow> string \<times> string \<Rightarrow> 'w ostate \<Rightarrow> bool" where
  "touches msgs s bk s' \<longleftrightarrow> bindings_of s' = bindings_of s \<and>
     (\<forall>m. m \<notin> chunk_msgs s bk \<longrightarrow> msgs (world s) m \<noteq> None \<longrightarrow> msgs (world s') m = msgs (world s) m) \<and>
     (\<forall>bk'. bk' \<noteq> bk \<longrightarrow> chunk_msgs s' bk' = chunk_msgs s bk')"

lemma touchesI:
  assumes "grows msgs s s1" "world s2 = world s1" "bindings_of s2 = bindings_of s1" "same s2 s3"
    and "\<And>m. m \<notin> chunk_msgs s bk \<Longrightarrow> msgs (world s3) m = msgs (world s2) m"
    and "\<And>bk'. bk' \<noteq> bk \<Longrightarrow> chunk_msgs s2 bk' = chunk_msgs s bk'"
  shows "touches msgs s bk s3"
proof -
  have "msgs (world s3) m = msgs (world s) m" if "m \<notin> chunk_msgs s bk" "msgs (world s) m \<noteq> None" for m
  proof -
    have "msgs (world s1) m = msgs (world s) m" using assms(1) that(2) unfolding grows_def map_le_def by (metis domI domIff)
    with assms(2) assms(5) [OF that(1)] show ?thesis by simp
  qed
  moreover have "bindings_of s3 = bindings_of s" using assms(1,3,4) by (simp add: grows_def same_def)
  ultimately show ?thesis
    using assms(6) same_chunk_msgs [OF assms(4)] by (simp add: touches_def)
qed

subsection \<open>Deleting messages\<close>

text \<open>\<open>drops msgs M s s'\<close>: at most the messages \<open>M\<close> have changed.\<close>

definition drops :: "('w \<Rightarrow> chat_view) \<Rightarrow> (string \<times> int) set \<Rightarrow> 'w ostate \<Rightarrow> 'w ostate \<Rightarrow> bool" where
  "drops msgs M s s' \<longleftrightarrow> same s s' \<and> (\<forall>m. m \<notin> M \<longrightarrow> msgs (world s') m = msgs (world s) m)"

lemma drops_refl [simp]: "drops msgs M s s"
  by (simp add: drops_def)

lemma drops_trans: "drops msgs M s s' \<Longrightarrow> drops msgs N s' s'' \<Longrightarrow> drops msgs (M \<union> N) s s''"
  unfolding drops_def using same_trans by fastforce

lemma quiet_drops: "quiet s s' \<Longrightarrow> drops msgs M s s'"
  by (simp add: drops_def quiet_def)

lemma drops_mono: "drops msgs M s s' \<Longrightarrow> M \<subseteq> N \<Longrightarrow> drops msgs N s s'"
  unfolding drops_def by blast

lemma drops_inv:
  assumes "store_inv msgs s" "drops msgs M s s'" "\<And>bk. chunk_msgs s bk \<inter> M = {}"
  shows "store_inv msgs s' \<and> object_bytes msgs s' = object_bytes msgs s"
proof -
  have sm: "same s s'" and t: "tabs s' = tabs s" using assms(2) by (simp_all add: drops_def same_def)
  have ob: "object_bytes msgs s' bk = object_bytes msgs s bk" for bk
  proof (cases "contents (tabs s) bk")
    case (Some p)
    obtain ob cks where p: "p = (ob, cks)" by fastforce
    have "msgs (world s') (bucketChatID s (fst bk), ck_TelegramMessageID ck) =
        msgs (world s) (bucketChatID s (fst bk), ck_TelegramMessageID ck)" if "ck \<in> set cks" for ck
    proof -
      have "(bucketChatID s (fst bk), ck_TelegramMessageID ck) \<in> chunk_msgs s bk"
        using that by (simp add: chunk_msgs_def Some p)
      then show ?thesis using assms(2,3) unfolding drops_def by blast
    qed
    from chunk_bytes_cong [of cks "msgs (world s')" "bucketChatID s (fst bk)" "msgs (world s)", OF this] show ?thesis
      by (simp add: object_bytes_def t Some p same_binding(2) [OF sm])
  qed (simp add: object_bytes_def t)
  have "store_inv msgs s'"
    using assms(1) unfolding store_inv_def t same_chunk_msgs [OF sm] ob .
  with ob show ?thesis by auto
qed

context telegram_chat
begin

lemma deleteChunkMessage_effect:
  assumes "bb_Telegram b = None \<or> bb_Telegram b = Some c"
  shows "wp (deleteChunkMessage b bk k ck)
    (\<lambda>_ s'. drops msgs {(bb_ChatID b, ck_TelegramMessageID ck)} s s')
    (\<lambda>_ s'. drops msgs {(bb_ChatID b, ck_TelegramMessageID ck)} s s') s"
proof -
  have "drops msgs {(bb_ChatID b, ck_TelegramMessageID ck)} s (snd (call_DeleteMessage b (ck_TelegramMessageID ck) s))"
  proof (cases "bb_Telegram b")
    case (Some c')
    with assms have c': "c' = c" by simp
    obtain r w' where d: "tc_DeleteMessage c (bb_ChatID b) (ck_TelegramMessageID ck) (world s) = (r, w')" by fastforce
    from del_other [OF d] show ?thesis
      by (auto simp: call_DeleteMessage_def Some c' d drops_def same_def)
  qed (simp add: call_DeleteMessage_def)
  moreover have "drops msgs M s s' \<Longrightarrow> drops msgs M s (s'\<lparr>events := es\<rparr>)" for M s' es
    by (simp add: drops_def same_def)
  ultimately show ?thesis
    by (auto simp: deleteChunkMessage_def wp_def sbind_def stry_def emit_def smodify_def sfail_def Let_def
        split: prod.splits sum.splits)
qed

lemma sfor_drops:
  assumes "\<And>ck s. wp (f ck) (\<lambda>_ s'. drops msgs {g ck} s s') (\<lambda>_ s'. P \<and> drops msgs {g ck} s s') s"
  shows "wp (sfor cks f) (\<lambda>_ s'. drops msgs (g ` set cks) s s') (\<lambda>_ s'. P \<and> drops msgs (g ` set cks) s s') s"
proof (induction cks arbitrary: s)
  case (Cons ck cks)
  show ?case unfolding sfor.simps wp_sbind
  proof (rule wp_mono [OF assms], goal_cases)
    case (1 x s1)
    show ?case
      by (rule wp_mono [OF Cons.IH]) (use drops_trans [OF 1] in simp_all)
  next
    case (2 e s1)
    then show ?case by (auto elim: drops_mono)
  qed
qed (simp add: wp_sret)

lemma deleteChunks_effect:
  assumes "bb_Telegram b = None \<or> bb_Telegram b = Some c"
  shows "wp (sfor cks (deleteChunkMessage b bk k))
    (\<lambda>_ s'. drops msgs ((\<lambda>ck. (bb_ChatID b, ck_TelegramMessageID ck)) ` set cks) s s')
    (\<lambda>_ s'. drops msgs ((\<lambda>ck. (bb_ChatID b, ck_TelegramMessageID ck)) ` set cks) s s') s"
  by (rule sfor_drops [where P = True and g = "\<lambda>ck. (bb_ChatID b, ck_TelegramMessageID ck)", unfolded simp_thms])
    (rule deleteChunkMessage_effect [OF assms])

lemma cleanupReplacedChunks_effect:
  assumes "served_by c s"
  shows "wp (cleanupReplacedChunks bk k prev)
    (\<lambda>_ s'. drops msgs ((\<lambda>ck. (bucketChatID s bk, ck_TelegramMessageID ck)) ` set prev) s s') (\<lambda>_ _. False) s"
proof (cases "bucketBinding s bk")
  case (Inl e)
  then show ?thesis
    by (simp add: cleanupReplacedChunks_def wp_def sbind_def stry_def bucketBindingM_def sret_def)
next
  case (Inr b)
  have tgc: "bb_Telegram b = None \<or> bb_Telegram b = Some c" using assms Inr by (rule served_binding)
  have chat: "bucketChatID s bk = bb_ChatID b" by (simp add: bucketChatID_def Inr)
  define f where "f = (\<lambda>chunk. sbind (stry (deleteChunkMessage b bk k chunk)) (\<lambda>r.
          case r of Inr _ \<Rightarrow> sret ()
          | Inl err \<Rightarrow> emit (DeleteOnOverwriteFailed bk k (ck_TelegramMessageID chunk) (sanitizeLogError err))))"
  have "wp (f ck) (\<lambda>_ s'. drops msgs {(bb_ChatID b, ck_TelegramMessageID ck)} s s') (\<lambda>_ _. False) s" for ck s
    unfolding f_def wp_sbind wp_stry
    by (rule wp_mono [OF deleteChunkMessage_effect [OF tgc]]) (simp_all add: wp_sret wp_emit drops_def same_def)
  then have loop: "wp (sfor prev f) (\<lambda>_ s'. drops msgs ((\<lambda>ck. (bb_ChatID b, ck_TelegramMessageID ck)) ` set prev) s s')
      (\<lambda>_ _. False) s"
    using sfor_drops [where P = False and f = f and g = "\<lambda>ck. (bb_ChatID b, ck_TelegramMessageID ck)"] by simp
  show ?thesis
  proof (cases "prev = []")
    case False
    then have "cleanupReplacedChunks bk k prev s = sfor prev f s"
      unfolding cleanupReplacedChunks_def f_def
      by (simp only: if_False sbind_def stry_def bucketBindingM_def Inr prod.case sum.case)
    then show ?thesis using loop unfolding wp_def chat by simp
  qed (simp add: cleanupReplacedChunks_def wp_sret)
qed

end

text \<open>\<open>replaced\<close>: the row of \<open>bk\<close> has been replaced by one that holds \<open>bs\<close> in the messages \<open>ms\<close>, the replaced
  messages are still there. \<open>overwritten\<close>: they may be gone.\<close>

definition replaced :: "('w \<Rightarrow> chat_view) \<Rightarrow> 'w ostate \<Rightarrow> string \<times> string \<Rightarrow> bytes \<Rightarrow> (string \<times> int) set \<Rightarrow> 'w ostate \<Rightarrow> bool" where
  "replaced msgs s bk bs ms s2 \<longleftrightarrow> store_inv msgs s2 \<and> object_bytes msgs s2 = (object_bytes msgs s)(bk \<mapsto> bs) \<and>
     chunk_msgs s2 bk = ms \<and> (\<forall>bk'. bk' \<noteq> bk \<longrightarrow> chunk_msgs s2 bk' = chunk_msgs s bk') \<and>
     (\<forall>bk'. chunk_msgs s2 bk' \<inter> chunk_msgs s bk = {}) \<and>
     (\<exists>s1. grows msgs s s1 \<and> world s2 = world s1 \<and> bindings_of s2 = bindings_of s1)"

definition overwritten :: "'w tg_client \<Rightarrow> ('w \<Rightarrow> chat_view) \<Rightarrow> 'w ostate \<Rightarrow> string \<times> string \<Rightarrow> bytes \<Rightarrow>
    (string \<times> int) set \<Rightarrow> 'w ostate \<Rightarrow> bool" where
  "overwritten c msgs s bk bs ms s' \<longleftrightarrow> store_inv msgs s' \<and> served_by c s' \<and>
     object_bytes msgs s' = (object_bytes msgs s)(bk \<mapsto> bs) \<and> touches msgs s bk s' \<and> chunk_msgs s' bk = ms"

lemma replaced_quiet:
  assumes r: "replaced msgs s bk bs ms s2" and q: "quiet s2 s3"
  shows "replaced msgs s bk bs ms s3"
proof -
  have eq: "chunk_msgs s3 = chunk_msgs s2" "world s3 = world s2" "bindings_of s3 = bindings_of s2"
    using q same_chunk_msgs [of s2 s3] by (auto simp: quiet_def same_def fun_eq_iff)
  have inv: "store_inv msgs s2" using r by (simp add: replaced_def)
  have "object_bytes msgs s3 = object_bytes msgs s2" using store_inv_bytes [OF inv quiet_grows [OF q]] by blast
  with store_inv_grows [OF inv quiet_grows [OF q]] r show ?thesis
    unfolding replaced_def eq by simp
qed

lemma overwritten_quiet:
  assumes o: "overwritten c msgs s bk bs ms s2" and q: "quiet s2 s3"
  shows "overwritten c msgs s bk bs ms s3"
proof -
  have eq: "chunk_msgs s3 = chunk_msgs s2" "world s3 = world s2" "bindings_of s3 = bindings_of s2"
    using q same_chunk_msgs [of s2 s3] by (auto simp: quiet_def same_def fun_eq_iff)
  have inv: "store_inv msgs s2" using o by (simp add: overwritten_def)
  have "object_bytes msgs s3 = object_bytes msgs s2" using store_inv_bytes [OF inv quiet_grows [OF q]] by blast
  with store_inv_grows [OF inv quiet_grows [OF q]] o
    bindings_served [OF eq(3)] show ?thesis
    unfolding overwritten_def touches_def eq by simp
qed

context telegram_chat
begin

lemma drops_overwrites:
  assumes srv: "served_by c s" and r: "replaced msgs s bk bs ms s2" and dr: "drops msgs (chunk_msgs s bk) s2 s3"
  shows "overwritten c msgs s bk bs ms s3"
proof -
  from r obtain s1 where s1: "grows msgs s s1" "world s2 = world s1" "bindings_of s2 = bindings_of s1"
    unfolding replaced_def by blast
  have "bindings_of s3 = bindings_of s" using s1 dr by (simp add: grows_def drops_def same_def)
  then have "served_by c s3" using srv bindings_served by blast
  moreover have "store_inv msgs s3 \<and> object_bytes msgs s3 = object_bytes msgs s2"
    by (rule drops_inv [OF _ dr]) (use r in \<open>unfold replaced_def, blast+\<close>)
  moreover have "touches msgs s bk s3"
  proof (rule touchesI [OF s1])
    show "same s2 s3" using dr by (simp add: drops_def)
    show "msgs (world s3) m = msgs (world s2) m" if "m \<notin> chunk_msgs s bk" for m
      using dr that unfolding drops_def by blast
    show "chunk_msgs s2 bk' = chunk_msgs s bk'" if "bk' \<noteq> bk" for bk'
      using r that unfolding replaced_def by blast
  qed
  moreover have "chunk_msgs s3 bk = chunk_msgs s2 bk" using dr same_chunk_msgs [of s2 s3] by (simp add: drops_def)
  ultimately show ?thesis using r by (simp add: overwritten_def replaced_def)
qed

lemma cleanup_overwrites:
  assumes srv: "served_by c s" and r: "replaced msgs s (b, k) bs ms s2"
    and prev: "prev \<noteq> [] \<Longrightarrow> \<exists>ob. contents (tabs s) (b, k) = Some (ob, prev)"
  shows "wp (cleanupReplacedChunks b k prev) (\<lambda>_ s'. overwritten c msgs s (b, k) bs ms s') (\<lambda>_ _. False) s2"
proof -
  have b: "bindings_of s2 = bindings_of s" using r by (auto simp: replaced_def grows_def same_def)
  have chat: "bucketChatID s2 = bucketChatID s" using b by (rule bindings_cong(2))
  have sub: "(\<lambda>ck. (bucketChatID s2 b, ck_TelegramMessageID ck)) ` set prev \<subseteq> chunk_msgs s (b, k)"
    using prev by (cases "prev = []") (auto simp: chunk_msgs_def chat)
  have srv2: "served_by c s2" using srv bindings_served [OF b] by simp
  show ?thesis
    by (rule wp_mono [OF cleanupReplacedChunks_effect [OF srv2]]) (auto intro: drops_overwrites [OF srv r] drops_mono [OF _ sub])
qed

lemma stored_replaced:
  assumes inv: "store_inv msgs s" and st: "stored msgs s bk bs s2"
  shows "replaced msgs s bk bs (chunk_msgs s2 bk) s2" "\<forall>m \<in> chunk_msgs s2 bk. msgs (world s) m = None"
proof -
  from st obtain s1 cks ob where d: "grows msgs s s1" "chunks_hold msgs (world s) s1 bk cks bs" "ob_Size ob = int (length bs)"
    "ob_id ob = bk" "bindings_of s2 = bindings_of s1" "world s2 = world s1" "tables_wf (tabs s1) \<longrightarrow> tables_wf (tabs s2)"
    "contents (tabs s2) = (contents (tabs s1))(bk \<mapsto> (scanObject (object_row ob), sort_key ck_PartNumber cks))"
    unfolding stored_def by blast
  note r = put_refines [OF inv d]
  show "replaced msgs s bk bs (chunk_msgs s2 bk) s2" "\<forall>m \<in> chunk_msgs s2 bk. msgs (world s) m = None"
    using r d(1,5,6) unfolding replaced_def by blast+
qed

text \<open>The three ways to store a body.\<close>

lemma put_ways_effect:
  assumes srv: "served_by c s" and sz: "in_i64 (pi_Size input)" "\<not> pi_Size input < 0"
    and strategy: "us_UploadStrategy strategy \<noteq> ''typed''" "us_TelegramType strategy = ''document''"
  shows "wp (if pi_Size input = 0 then putEmpty env input strategy
      else if \<not> us_Chunked strategy then
        (if limit_of config (us_TelegramType strategy) > 0 \<and> pi_Size input > limit_of config (us_TelegramType strategy)
         then sfail (Sent ErrEntityTooLarge) else putSingle env input body strategy)
      else putChunked env input body strategy)
    (\<lambda>etag s'. stored msgs s (pi_Bucket input, pi_Key input) (take (nat (pi_Size input)) (rd_data body)) s' \<and>
       (0 < pi_Size input \<longrightarrow> rd_err body = None \<and> int (length (rd_data body)) = pi_Size input))
    (\<lambda>e s'. grows msgs s s') s"
  using sz
  by (auto simp: wp_sfail intro: wp_mono [OF putEmpty_effect] wp_mono [OF putSingle_effect [OF srv strategy]]
      wp_mono [OF putChunked_effect [OF srv]])

text \<open>\<^verbatim>\<open>PutObject\<close> refines the update of the map, and a put that fails changes nothing.\<close>

lemma Store_PutObject_effect:
  assumes inv: "store_inv msgs s" and served: "served_by c s" and sz: "in_i64 (pi_Size input)"
    and doc: "\<And>u. Resolve (opt_Upload (options s)) (Base (pi_Key input)) (pi_ContentType input) (pi_Size input) = Inr u \<Longrightarrow>
      us_UploadStrategy u \<noteq> ''typed''"
    and body: "body = (case pi_Body input of Some r \<Rightarrow> r | None \<Rightarrow> \<lparr>rd_data = [], rd_err = None\<rparr>)"
  shows "wp (Store_PutObject env input)
    (\<lambda>etag s'. store_inv msgs s' \<and> served_by c s' \<and> 0 \<le> pi_Size input \<and>
       object_bytes msgs s' = (object_bytes msgs s)((pi_Bucket input, pi_Key input) \<mapsto>
         take (nat (pi_Size input)) (rd_data body)) \<and>
       (0 < pi_Size input \<longrightarrow> rd_err body = None \<and> int (length (rd_data body)) = pi_Size input) \<and>
       touches msgs s (pi_Bucket input, pi_Key input) s' \<and>
       (\<forall>m \<in> chunk_msgs s' (pi_Bucket input, pi_Key input). msgs (world s) m = None))
    (\<lambda>e s'. grows msgs s s') s" (is "wp _ ?Q ?E s")
proof (cases "pi_Size input < 0")
  case True
  then show ?thesis by (simp add: Store_PutObject_def wp_sfail)
next
  case False
  let ?bk = "(pi_Bucket input, pi_Key input)"
  let ?bs = "take (nat (pi_Size input)) (rd_data body)"
  have fin: "wp (sbind (cleanupReplacedChunks (pi_Bucket input) (pi_Key input) prev) (\<lambda>_. sret etag)) ?Q ?E s3"
    if st: "stored msgs s ?bk ?bs s3" and prev: "prev \<noteq> [] \<Longrightarrow> \<exists>ob. contents (tabs s) ?bk = Some (ob, prev)"
      and ok: "0 < pi_Size input \<longrightarrow> rd_err body = None \<and> int (length (rd_data body)) = pi_Size input"
    for s3 prev etag
    unfolding wp_sbind
    by (rule wp_mono [OF cleanup_overwrites [OF served stored_replaced(1) [OF inv st] prev]])
      (use False ok stored_replaced(2) [OF inv st] in \<open>simp_all add: wp_sret overwritten_def\<close>)
  show ?thesis
    unfolding Store_PutObject_def if_not_P [OF False] Let_def body [symmetric]
  proof (rule wp_quiet_step [OF quiet_HeadBucket], goal_cases)
    case (1 u1 s1)
    show ?case unfolding wp_sbind [of "sget f" for f] wp_sget
    proof (rule wp_quiet_step [OF quiet_acquire], goal_cases)
      case (1 u2 s2)
      then have q2: "quiet s s2" using \<open>quiet s s1\<close> by (blast intro: quiet_trans)
      show ?case
      proof (rule wp_quiet_step [OF quiet_previous], goal_cases)
        case (1 prev s3)
        then have q3: "quiet s s3" using q2 by (blast intro: quiet_trans)
        have prev: "prev \<noteq> [] \<Longrightarrow> \<exists>ob. contents (tabs s) ?bk = Some (ob, prev)"
          using previous_chunks_ok [OF 1(1)] q2 by (simp add: quiet_def same_def)
        have opts: "options s3 = options s" using q3 by (auto simp: quiet_def same_def dest: bindings_of_eqD)
        have srv: "served_by c s3" using served q3 same_served [of s s3 c] by (simp add: quiet_def)
        show ?case unfolding wp_sbind [of "sget f" for f] wp_sget wp_sbind [of "slift r" for r] wp_slift opts
        proof (cases "Resolve (opt_Upload (options s)) (Base (pi_Key input)) (pi_ContentType input) (pi_Size input)",
            goal_cases)
          case (1 e)
          then show ?case using q3 by (simp add: quiet_grows)
        next
          case (2 strategy)
          have doc': "us_UploadStrategy strategy \<noteq> ''typed''" using doc [OF 2] .
          with Resolve_typed [OF 2] have type: "us_TelegramType strategy = ''document''" by simp
          have way: "wp (if pi_Size input = 0 then putEmpty env input strategy
               else if \<not> us_Chunked strategy then
                 (if limit_of (opt_Upload (options s)) (us_TelegramType strategy) > 0 \<and>
                     pi_Size input > limit_of (opt_Upload (options s)) (us_TelegramType strategy)
                  then sfail (Sent ErrEntityTooLarge)
                  else putSingle env input body strategy)
               else putChunked env input body strategy)
            (\<lambda>etag s'. stored msgs s ?bk ?bs s' \<and>
               (0 < pi_Size input \<longrightarrow> rd_err body = None \<and> int (length (rd_data body)) = pi_Size input)) ?E s3"
            by (rule wp_mono [OF put_ways_effect [OF srv sz False doc' type]])
              (auto intro: quiet_stored [OF q3] quiet_grows_trans [OF q3])
          show ?case unfolding 2 sum.case
            unfolding wp_sbind [of "if c then m else m'" for c m m']
            by (rule wp_mono [OF way]) (use fin prev in auto)
        qed
      qed (use q2 in \<open>auto intro: quiet_grows quiet_trans\<close>)
    qed (use 1 in \<open>auto intro: quiet_grows quiet_trans\<close>)
  qed (rule quiet_grows)
qed

end

end
