(* ===== verification/StoreReads.thy ===== *)
theory StoreReads
  imports StoreRefine
begin

text \<open>
  \<^verbatim>\<open>GetObject\<close> returns the bytes of the abstract map, whole or the range asked for, and
  \<^verbatim>\<open>DeleteObject\<close> removes an entry of it.
\<close>

text \<open>The part of an object a request asks for.\<close>

definition byte_slice :: "ByteRange option \<Rightarrow> bytes \<Rightarrow> bytes" where
  "byte_slice rng bs = (case rng of None \<Rightarrow> bs | Some r \<Rightarrow> take (nat (Length r)) (drop (nat (br_start r)) bs))"

definition range_ok :: "ByteRange option \<Rightarrow> bytes \<Rightarrow> bool" where
  "range_ok rng bs \<longleftrightarrow> (case rng of None \<Rightarrow> True | Some r \<Rightarrow> range_within (int (length bs)) r)"

text \<open>A row that is not found is not there; the driver's own errors are other values.\<close>

lemma GetObject_not_found:
  assumes "GetObject env b k s = (Inl (Sent MetaErrNotFound), s')" "\<And>n. sq_fault env n \<noteq> Some (Sent MetaErrNotFound)"
  shows "contents (tabs s) (b, k) = None"
  using assms
  by (auto simp: GetObject_def in_tx_def sbind_def selectObject_def query_def exec_def sret_def sfail_def
      contents_def tick_up_def split: option.splits prod.splits sum.splits)

text \<open>Quiet steps keep what the store promises.\<close>

lemma quiet_keeps:
  "quiet s s' \<Longrightarrow> store_inv msgs s \<Longrightarrow> store_inv msgs s'"
  "quiet s s' \<Longrightarrow> served_by c s' = served_by c s"
  "quiet s s' \<Longrightarrow> object_bytes msgs s' bk = object_bytes msgs s bk"
  using store_inv_grows [of msgs s s'] same_served [of s s' c] same_binding(2) [of s s']
  by (auto simp: quiet_def grows_def object_bytes_def same_def split: option.split)

lemma delete_refines:
  assumes inv: "store_inv msgs s" and d: "drops msgs (chunk_msgs s bk) s s1"
    and s2: "bindings_of s2 = bindings_of s1" "world s2 = world s1" "tables_wf (tabs s1) \<longrightarrow> tables_wf (tabs s2)"
      "contents (tabs s2) = (contents (tabs s1))(bk := None)"
  shows "store_inv msgs s2 \<and> object_bytes msgs s2 = (object_bytes msgs s)(bk := None) \<and>
    touches msgs s bk s2 \<and> chunk_msgs s2 bk = {}"
proof -
  have sm: "same s s1" and t: "tabs s1 = tabs s" using d by (simp_all add: drops_def same_def)
  have chat: "bucketChatID s2 = bucketChatID s" using bindings_cong(2) [OF s2(1)] same_binding(2) [OF sm] by simp
  have apart: "chunk_msgs s bk' \<inter> chunk_msgs s bk = {}" if "bk' \<noteq> bk" for bk'
    using inv that unfolding store_inv_def by blast
  have ob: "object_bytes msgs s2 bk' = (if bk' = bk then None else object_bytes msgs s bk')" for bk'
  proof (cases "bk' = bk \<or> contents (tabs s) bk' = None")
    case True
    then show ?thesis by (auto simp: object_bytes_def s2(4) t)
  next
    case False
    then obtain ob cks where con: "contents (tabs s) bk' = Some (ob, cks)" by fastforce
    have "msgs (world s1) (bucketChatID s (fst bk'), ck_TelegramMessageID ck) =
        msgs (world s) (bucketChatID s (fst bk'), ck_TelegramMessageID ck)" if "ck \<in> set cks" for ck
    proof -
      have "(bucketChatID s (fst bk'), ck_TelegramMessageID ck) \<in> chunk_msgs s bk'"
        using that by (simp add: chunk_msgs_def con)
      then show ?thesis using d apart [of bk'] False unfolding drops_def by blast
    qed
    from chunk_bytes_cong [of cks "msgs (world s1)" "bucketChatID s (fst bk')" "msgs (world s)", OF this]
    show ?thesis using False by (simp add: object_bytes_def s2 t con chat)
  qed
  have m2: "chunk_msgs s2 bk' = (if bk' = bk then {} else chunk_msgs s bk')" for bk'
    by (simp add: chunk_msgs_def s2(4) t chat split: option.split)
  have "store_inv msgs s2"
    unfolding store_inv_def
  proof (intro conjI allI impI, goal_cases)
    case 1 then show ?case using inv s2(3) t by (simp add: store_inv_def)
  next
    case (2 bk' o' cs)
    then have "bk' \<noteq> bk" "contents (tabs s) bk' = Some (o', cs)" by (auto simp: s2(4) t split: if_splits)
    with inv ob show ?case unfolding store_inv_def by metis
  next
    case (3 bk' o' cs)
    then have "contents (tabs s) bk' = Some (o', cs)" by (auto simp: s2(4) t split: if_splits)
    with inv show ?case unfolding store_inv_def by blast
  next
    case (4 bk1 bk2)
    with inv have "chunk_msgs s bk1 \<inter> chunk_msgs s bk2 = {}" unfolding store_inv_def by blast
    then show ?case by (auto simp: m2)
  qed
  moreover have "object_bytes msgs s2 = (object_bytes msgs s)(bk := None)" using ob by auto
  moreover have "touches msgs s bk s2"
    using d s2(1,2) m2 unfolding touches_def drops_def same_def by simp
  ultimately show ?thesis by (simp add: m2)
qed

context telegram_chat
begin

lemma selected_chunks_slice:
  assumes cb: "chunk_bytes (msgs w) chat cks = Some bs" and laid: "laid_out 0 1 cks"
    and len: "in_i64 (int (length bs))" and rng: "range_ok rng bs"
  obtains blob where "\<forall>x \<in> set (selected_chunks cks rng).
      (\<exists>m. msgs w m = Some (cr_fileID x, blob (cr_fileID x))) \<and> 0 \<le> sc_skip x \<and> 0 \<le> sc_take x"
    "concat (map (piece blob) (selected_chunks cks rng)) = byte_slice rng bs"
proof -
  define blob where "blob fid = snd (the (msgs w (SOME m. \<exists>d. msgs w m = Some (fid, d))))" for fid
  have blob: "blob fid = d" if "msgs w m = Some (fid, d)" for m fid d
  proof -
    have "\<exists>d. msgs w (SOME m. \<exists>d. msgs w m = Some (fid, d)) = Some (fid, d)"
      using that by (intro someI [of "\<lambda>m. \<exists>d. msgs w m = Some (fid, d)"]) blast
    then obtain d' where d': "msgs w (SOME m. \<exists>d. msgs w m = Some (fid, d)) = Some (fid, d')" by blast
    with same_file [OF d' that] show ?thesis by (simp add: blob_def)
  qed
  have each: "(\<exists>m. msgs w m = Some (ck_TelegramFileID ck, blob (ck_TelegramFileID ck))) \<and>
      int (length (blob (ck_TelegramFileID ck))) = ck_Size ck" if "ck \<in> set cks" for ck
  proof -
    from chunk_bytes_msgs [OF cb that] obtain d
      where d: "msgs w (chat, ck_TelegramMessageID ck) = Some (ck_TelegramFileID ck, d)" "int (length d) = ck_Size ck"
      by blast
    then show ?thesis using blob [OF d(1)] by blast
  qed
  have all: "concat (map (\<lambda>ck. blob (ck_TelegramFileID ck)) cks) = bs"
    using cb blob by (induction cks arbitrary: bs) (auto split: option.splits if_splits)
  define refs where "refs = chunkRefsFromMetadata cks"
  have refs: "\<exists>ck \<in> set cks. cr_fileID r = ck_TelegramFileID ck \<and> cr_size r = ck_Size ck" if "r \<in> set refs" for r
    using that by (auto simp: refs_def chunkRefsFromMetadata_def)
  have fits: "blob_fits blob refs" using each refs by (fastforce simp: blob_fits_def)
  have whole: "whole blob refs = bs"
    using all by (simp add: whole_def refs_def chunkRefsFromMetadata_def comp_def)
  have total: "total_size refs = int (length bs)" using length_whole [OF fits] whole by simp
  have contig: "contiguous 0 refs" unfolding refs_def using laid by (rule laid_out_contiguous)
  show ?thesis
  proof (rule that [of blob]; cases rng)
    assume n: "rng = None"
    have sizes: "\<forall>ck \<in> set cks. 0 \<le> ck_Size ck" using each by (metis of_nat_0_le_iff)
    then show "\<forall>x \<in> set (selected_chunks cks rng).
        (\<exists>m. msgs w m = Some (cr_fileID x, blob (cr_fileID x))) \<and> 0 \<le> sc_skip x \<and> 0 \<le> sc_take x"
      using each by (auto simp: selected_chunks_def n)
    have "map (piece blob) (selected_chunks cks None) = map (\<lambda>ck. blob (ck_TelegramFileID ck)) cks"
      using each by (fastforce simp: selected_chunks_def piece_def comp_def)
    then show "concat (map (piece blob) (selected_chunks cks rng)) = byte_slice rng bs"
      using all by (simp add: n byte_slice_def)
  next
    fix r assume r: "rng = Some r"
    with rng have w: "range_within (int (length bs)) r" by (simp add: range_ok_def)
    have br: "0 \<le> br_start r" "br_start r \<le> br_end r" "in_i64 (br_end r)"
      using w len by (auto simp: range_within_def in_i64_def)
    have sel: "selected_chunks cks rng = SelectChunksForRange refs r" by (simp add: selected_chunks_def r refs_def)
    have fil: "\<exists>r' \<in> set refs. cr_fileID x = cr_fileID r'" if "x \<in> set (SelectChunksForRange refs r)" for x
      using that by (induction refs) (auto simp: Let_def split: if_splits)
    have bnd: "0 \<le> sc_skip x \<and> 0 < sc_take x \<and> sc_skip x + sc_take x \<le> cr_size x"
      if "x \<in> set (SelectChunksForRange refs r)" for x
      by (rule select_bounds [OF contig _ _ br(1,2) _ that]) (use total len br in simp_all)
    show "\<forall>x \<in> set (selected_chunks cks rng).
        (\<exists>m. msgs w m = Some (cr_fileID x, blob (cr_fileID x))) \<and> 0 \<le> sc_skip x \<and> 0 \<le> sc_take x"
      unfolding sel using fil refs each bnd by (metis less_imp_le)
    have "br_end r + 1 - br_start r = Length r" using range_within_Length(1) [OF w len] by simp
    with select_slice [OF contig fits, of r] total len br
    show "concat (map (piece blob) (selected_chunks cks rng)) = byte_slice rng bs"
      unfolding sel by (simp add: whole byte_slice_def r max_def)
  qed
qed

lemma Store_GetObject_effect:
  assumes inv: "store_inv msgs s" and served: "served_by c s"
    and rng: "\<And>bs. object_bytes msgs s (b, k) = Some bs \<Longrightarrow> range_ok rng bs \<and> in_i64 (int (length bs))"
  shows "wp (Store_GetObject env b k rng)
    (\<lambda>((data, err), info) s'. same s s' \<and> msgs (world s') = msgs (world s) \<and>
       (\<exists>bs. object_bytes msgs s (b, k) = Some bs \<and> oi_Size info = int (length bs) \<and>
         (err = None \<longrightarrow> data = byte_slice rng bs)))
    (\<lambda>e s'. quiet s s') s" (is "wp _ ?Q ?E s")
  unfolding Store_GetObject_def
proof (rule wp_quiet_step [OF quiet_HeadBucket], goal_cases)
  case (1 u s1)
  show ?case
  proof (rule wp_quiet_step [OF quiet_stry [OF quiet_GetObject]], goal_cases)
    case (1 r s2)
    then have q2: "quiet s s2" using \<open>quiet s s1\<close> by (blast intro: quiet_trans)
    show ?case
    proof (cases r)
      case (Inl e)
      then show ?thesis using q2 by (simp add: wp_sfail)
    next
      case (Inr p)
      obtain ob cks where p: "p = (ob, cks)" by fastforce
      have "GetObject env b k s1 = (Inr (ob, cks), s2)" using 1(1) Inr p by (auto simp: stry_Inr)
      from wp_Inr [OF GetObject_ok this] have "contents (tabs s) (b, k) = Some (ob, cks)"
        using \<open>quiet s s1\<close> by (simp add: quiet_def same_def)
      with inv obtain bs where bs: "object_bytes msgs s (b, k) = Some bs" "ob_Size ob = int (length bs)" "laid_out 0 1 cks"
        and con: "contents (tabs s) (b, k) = Some (ob, cks)"
        unfolding store_inv_def by blast
      then have cb: "chunk_bytes (msgs (world s)) (bucketChatID s b) cks = Some bs" by (simp add: object_bytes_def)
      show ?thesis unfolding Inr p sum.case prod.case wp_sbind [of "sget f" for f] wp_sget
      proof (rule wp_quiet_step [OF quiet_acquire], goal_cases)
        case (1 u2 s3)
        then have q3: "quiet s s3" using q2 by (blast intro: quiet_trans)
        then have s3: "same s s3" "world s3 = world s" by (simp_all add: quiet_def)
        have info: "oi_Size (objectInfoFromMetadata ob) = int (length bs)" using bs(2) by (simp add: objectInfoFromMetadata_def)
        have get: "sbind (sget (\<lambda>s. bucketBinding s b)) kk s3 = kk (bucketBinding s b) s3"
          for kk :: "gerror + 'w BucketBinding \<Rightarrow> ('w, (bytes \<times> gerror option) \<times> ObjectInfo) act"
          by (simp add: sbind_def sget_def same_binding(1) [OF s3(1)])
        show ?case
        proof (cases "bucketBinding s b")
          case (Inl e)
          then show ?thesis using s3 bs info unfolding wp_def get by (simp add: sret_def)
        next
          case (Inr bd)
          have tgc: "bb_Telegram bd = None \<or> bb_Telegram bd = Some c" using served Inr by (rule served_binding)
          obtain blob where blob: "\<forall>x \<in> set (selected_chunks cks rng).
              (\<exists>m. msgs (world s3) m = Some (cr_fileID x, blob (cr_fileID x))) \<and> 0 \<le> sc_skip x \<and> 0 \<le> sc_take x"
            "concat (map (piece blob) (selected_chunks cks rng)) = byte_slice rng bs"
            using selected_chunks_slice [OF cb bs(3), of rng] rng [OF bs(1)] s3(2) by metis
          obtain data err s4 where st: "streamChunks env bd (selected_chunks cks rng) s3 = ((data, err), s4)"
            by (metis prod.collapse)
          from streamChunks_effect [OF tgc blob(1) st] s3 bs(1) blob(2) info show ?thesis
            unfolding wp_def get by (auto simp: Inr st intro: same_trans)
        qed
      qed (use q2 in \<open>auto intro: quiet_trans\<close>)
    qed
  qed (use 1 in \<open>auto intro: quiet_trans\<close>)
qed

text \<open>A delete that succeeds removes the entry; one that fails keeps every row.\<close>

lemma Store_DeleteObject_effect:
  assumes inv: "store_inv msgs s" and served: "served_by c s"
    and faults: "\<And>n. sq_fault env n \<noteq> Some (Sent MetaErrNotFound)"
  shows "wp (Store_DeleteObject env b k)
    (\<lambda>_ s'. store_inv msgs s' \<and> served_by c s' \<and> object_bytes msgs s' = (object_bytes msgs s)((b, k) := None) \<and>
       touches msgs s (b, k) s' \<and> chunk_msgs s' (b, k) = {})
    (\<lambda>e s'. same s s' \<and> drops msgs (chunk_msgs s (b, k)) s s') s" (is "wp _ ?Q ?E s")
  unfolding Store_DeleteObject_def
proof (rule wp_quiet_step [OF quiet_HeadBucket], goal_cases)
  case (1 u s1)
  show ?case
  proof (rule wp_quiet_step [OF quiet_stry [OF quiet_GetObject]], goal_cases)
    case (1 r s2)
    then have q2: "quiet s s2" using \<open>quiet s s1\<close> by (blast intro: quiet_trans)
    have t1: "contents (tabs s1) = contents (tabs s)" using \<open>quiet s s1\<close> by (simp add: quiet_def same_def)
    have E2: "?E e s2" for e using q2 by (simp add: quiet_def drops_def)
    show ?case
    proof (cases r)
      case (Inl e)
      show ?thesis
      proof (cases "e = Sent MetaErrNotFound")
        case True
        have "GetObject env b k s1 = (Inl (Sent MetaErrNotFound), s2)" using 1(1) Inl True by (auto simp: stry_Inr)
        with faults have "contents (tabs s) (b, k) = None" unfolding t1 [symmetric] by (intro GetObject_not_found)
        then have "object_bytes msgs s = (object_bytes msgs s)((b, k) := None)" "chunk_msgs s (b, k) = {}"
          by (auto simp: fun_eq_iff object_bytes_def chunk_msgs_def)
        moreover have "touches msgs s (b, k) s2 \<and> chunk_msgs s2 (b, k) = chunk_msgs s (b, k)"
          using q2 same_chunk_msgs [of s s2] by (simp add: touches_def quiet_def same_def)
        moreover have "store_inv msgs s2 \<and> object_bytes msgs s2 = object_bytes msgs s"
          using store_inv_grows [OF inv quiet_grows [OF q2]] store_inv_bytes [OF inv quiet_grows [OF q2]] by auto
        moreover have "served_by c s2" using served q2 same_served [of s s2 c] by (simp add: quiet_def)
        ultimately show ?thesis by (simp add: Inl True wp_sret)
      next
        case False
        then show ?thesis using E2 by (simp add: Inl wp_sfail)
      qed
    next
      case (Inr p)
      obtain ob cks where p: "p = (ob, cks)" by fastforce
      have "GetObject env b k s1 = (Inr (ob, cks), s2)" using 1(1) Inr p by (auto simp: stry_Inr)
      from wp_Inr [OF GetObject_ok this] have con: "contents (tabs s) (b, k) = Some (ob, cks)" by (simp add: t1)
      show ?thesis unfolding Inr p sum.case prod.case
      proof (rule wp_quiet_step [OF quiet_binding], goal_cases)
        case (1 bd s3)
        then have q3: "quiet s s3" and bd: "bucketBinding s3 b = Inr bd" using q2 by (auto simp: bucketBindingM_def)
        then have bds: "bucketBinding s b = Inr bd" using same_binding(1) [of s s3] by (simp add: quiet_def)
        have tgc: "bb_Telegram bd = None \<or> bb_Telegram bd = Some c" using served bds by (rule served_binding)
        have M: "(\<lambda>ck. (bb_ChatID bd, ck_TelegramMessageID ck)) ` set cks = chunk_msgs s (b, k)"
          by (simp add: chunk_msgs_def con bucketChatID_def bds)
        note del = deleteChunks_effect [OF tgc, where s = s3 and cks = cks, unfolded M]
        have dr: "drops msgs (chunk_msgs s (b, k)) s s4" if "drops msgs (chunk_msgs s (b, k)) s3 s4" for s4
          using drops_trans [OF quiet_drops [OF q3, where M = "chunk_msgs s (b, k)"] that] by simp
        show ?case unfolding wp_sbind [of "sfor x f" for x f]
        proof (rule wp_mono [OF del], goal_cases)
          case (1 x s4)
          then have d4: "drops msgs (chunk_msgs s (b, k)) s s4" by (rule dr)
          show ?case unfolding wp_sbind wp_stry
          proof (rule wp_DeleteObject, goal_cases)
            case (1 s5)
            show ?case
              using delete_refines [OF inv d4 1] served bindings_served [OF 1(1), of c] d4 same_served [of s s4 c]
              by (simp add: wp_sret drops_def)
          next
            case (2 e s5 n)
            then have "drops msgs (chunk_msgs s (b, k)) s s5"
              using drops_trans [OF d4 quiet_drops, of s5 "chunk_msgs s (b, k)"] by simp
            moreover have "e \<noteq> Sent MetaErrNotFound" using 2(1) faults by metis
            ultimately show ?case by (simp add: wp_sfail drops_def)
          qed
        qed (drule dr, simp add: drops_def)
      qed (use q2 in \<open>auto simp: quiet_def drops_def intro: same_trans\<close>)
    qed
  qed (use 1 in \<open>auto simp: quiet_def drops_def same_def\<close>)
qed (auto simp: quiet_def drops_def)

end

end
