(* ===== verification/FakeTelegram.thy ===== *)
theory FakeTelegram
  imports StoreSpec
begin

text \<open>
  \<^verbatim>\<open>internal/testutil/faketelegram.go\<close>: the repository's in-memory Telegram client, with none of the
  hook functions set. It fulfils the contract \<open>telegram_chat\<close>: a message is seen as long as its
  file is kept, and the fake keeps files for ever. The readers that the tests put beside it follow.
\<close>

record FakeTelegram =
  fk_Uploads :: "UploadRequest list"
  fk_Downloads :: "string list"
  fk_Files :: "string \<rightharpoonup> bytes"
  fk_DeletedMessageIDs :: "int list"

definition NewFakeTelegram :: FakeTelegram where
  "NewFakeTelegram = \<lparr>fk_Uploads = [], fk_Downloads = [], fk_Files = Map.empty, fk_DeletedMessageIDs = []\<rparr>"

definition fake_file_id :: "nat \<Rightarrow> string" where
  "fake_file_id n = ''file-'' @ Itoa (int n)"

definition fake_Upload :: "UploadRequest \<Rightarrow> FakeTelegram \<Rightarrow> (gerror + UploadedFile) \<times> FakeTelegram" where
  "fake_Upload request f =
     (case ReadAll (up_Reader request) of
        Inl err \<Rightarrow> (Inl err, f)
      | Inr data \<Rightarrow>
          let request' = request\<lparr>up_Reader := \<lparr>rd_data = data, rd_err = None\<rparr>\<rparr>;
              uploads = fk_Uploads f @ [request'];
              fileID = fake_file_id (length uploads) in
          (Inr \<lparr>uf_Type = up_Type request, uf_FileID = fileID, uf_FileUniqueID = fileID @ ''-unique'',
                uf_MessageID = int (length uploads), uf_FileSize = int (length data),
                uf_MIMEType = up_MIMEType request\<rparr>,
           f\<lparr>fk_Uploads := uploads, fk_Files := (fk_Files f)(fileID \<mapsto> data)\<rparr>))"

definition fake_Download :: "string \<Rightarrow> FakeTelegram \<Rightarrow> (gerror + reader \<times> gerror option) \<times> FakeTelegram" where
  "fake_Download fileID f =
     (let f' = f\<lparr>fk_Downloads := fk_Downloads f @ [fileID]\<rparr> in
      case fk_Files f fileID of
        None \<Rightarrow> (Inl (Msg (''fake telegram file '' @ Quote fileID @ '' not found'')), f')
      | Some data \<Rightarrow> (Inr (\<lparr>rd_data = data, rd_err = None\<rparr>, None), f'))"

definition fake_DeleteMessage :: "string \<Rightarrow> int \<Rightarrow> FakeTelegram \<Rightarrow> (gerror + unit) \<times> FakeTelegram" where
  "fake_DeleteMessage chatID messageID f =
     (Inr (), f\<lparr>fk_DeletedMessageIDs := fk_DeletedMessageIDs f @ [messageID]\<rparr>)"

definition fake_client :: "FakeTelegram tg_client" where
  "fake_client = \<lparr>tc_Upload = fake_Upload, tc_Download = fake_Download, tc_DeleteMessage = fake_DeleteMessage\<rparr>"

text \<open>The messages of the fake: message \<open>n\<close> is the \<open>n\<close>-th upload.\<close>

definition fake_msgs :: "FakeTelegram \<Rightarrow> chat_view" where
  "fake_msgs f m =
     (if 1 \<le> snd m \<and> snd m \<le> int (length (fk_Uploads f)) \<and> up_ChatID (fk_Uploads f ! (nat (snd m) - 1)) = fst m
      then map_option (\<lambda>d. (fake_file_id (nat (snd m)), d)) (fk_Files f (fake_file_id (nat (snd m))))
      else None)"

lemma fake_file_id_inj [simp]: "fake_file_id m = fake_file_id n \<longleftrightarrow> m = n"
proof -
  have "nat_digits m = nat_digits n \<Longrightarrow> m = n"
    by (metis digits_value_nat_digits option.inject of_nat_eq_iff)
  then show ?thesis by (auto simp: fake_file_id_def Itoa_def)
qed

lemma fake_msgs_upload:
  assumes "fake_Upload rq f = (Inr u, f')"
  shows "fake_msgs f' m = (if m = (up_ChatID rq, uf_MessageID u) then Some (uf_FileID u, rd_data (up_Reader rq))
    else fake_msgs f m)" and "uf_MessageID u = int (length (fk_Uploads f)) + 1" and "rd_err (up_Reader rq) = None"
proof -
  let ?n = "Suc (length (fk_Uploads f))"
  from assms show err: "rd_err (up_Reader rq) = None" and id: "uf_MessageID u = int (length (fk_Uploads f)) + 1"
    by (auto simp: fake_Upload_def ReadAll_def Let_def split: option.splits)
  from assms err have f': "fk_Uploads f' = fk_Uploads f @ [rq\<lparr>up_Reader := \<lparr>rd_data = rd_data (up_Reader rq), rd_err = None\<rparr>\<rparr>]"
    "fk_Files f' = (fk_Files f)(fake_file_id ?n \<mapsto> rd_data (up_Reader rq))" "uf_FileID u = fake_file_id ?n"
    by (auto simp: fake_Upload_def ReadAll_def Let_def)
  obtain chat n where m: "m = (chat, n)" by fastforce
  consider "n < 1 \<or> n > int ?n" | "n = int ?n" | "1 \<le> n" "n \<le> int (length (fk_Uploads f))" by linarith
  then show "fake_msgs f' m = (if m = (up_ChatID rq, uf_MessageID u) then Some (uf_FileID u, rd_data (up_Reader rq))
    else fake_msgs f m)"
  proof cases
    case 3
    then have "nat n \<noteq> ?n" "nat n - 1 < length (fk_Uploads f)" by auto
    with 3 show ?thesis by (auto simp: m id f' fake_msgs_def nth_append)
  qed (auto simp: m id f' fake_msgs_def nth_append)
qed

interpretation fake: telegram_chat fake_client fake_msgs
proof (unfold_locales, goal_cases)
  case (1 rq w u w')
  show ?case
  proof (cases u)
    case (Inl e)
    with 1 have "w' = w" by (auto simp: fake_client_def fake_Upload_def Let_def split: sum.splits)
    then show ?thesis by simp
  next
    case (Inr f)
    with 1 have up: "fake_Upload rq w = (Inr f, w')" by (simp add: fake_client_def)
    have "fake_msgs w (up_ChatID rq, uf_MessageID f) = None"
      using fake_msgs_upload(2) [OF up] by (simp add: fake_msgs_def)
    then have "fake_msgs w m = fake_msgs w' m" if "m \<in> dom (fake_msgs w)" for m
      using fake_msgs_upload(1) [OF up, of m] that by auto
    then show ?thesis by (simp add: map_le_def)
  qed
next
  case (2 rq w f w')
  then have up: "fake_Upload rq w = (Inr f, w')" by (simp add: fake_client_def)
  have "fake_msgs w (up_ChatID rq, uf_MessageID f) = None"
    using fake_msgs_upload(2) [OF up] by (simp add: fake_msgs_def)
  then show ?case using fake_msgs_upload(1) [OF up] by simp
next
  case (3 fid w r w')
  then show ?case
    by (auto simp: fake_client_def fake_Download_def Let_def fake_msgs_def fun_eq_iff split: option.splits)
next
  case (4 fid w rd cl w' m d)
  then show ?case
    by (auto simp: fake_client_def fake_Download_def Let_def fake_msgs_def split: option.splits if_splits
        intro: exI [of _ "length d"])
next
  case (5 chat mid w v w' m)
  then show ?case by (auto simp: fake_client_def fake_DeleteMessage_def fake_msgs_def)
next
  case (6 w m fid d m' d')
  then show ?case by (auto simp: fake_msgs_def split: if_splits)
qed

subsection \<open>The readers of the tests\<close>

text \<open>\<^verbatim>\<open>internal/testutil/reader.go\<close>: a reader that fails at once, and one that ends after \<open>limit\<close> bytes.\<close>

definition ErrorReader :: "gerror option \<Rightarrow> reader" where
  "ErrorReader err =
     \<lparr>rd_data = [], rd_err = Some (case err of Some e \<Rightarrow> e | None \<Rightarrow> Msg ''test read error'')\<rparr>"

definition LimitedStringReader :: "string \<Rightarrow> int \<Rightarrow> reader" where
  "LimitedStringReader v limit = \<lparr>rd_data = take (nat limit) v, rd_err = None\<rparr>"

lemma fake_Upload_readers:
  "up_Reader rq = ErrorReader (Some e) \<Longrightarrow> fake_Upload rq w = (Inl e, w)"
  "up_Reader rq = LimitedStringReader v n \<Longrightarrow> fake_Upload rq w = (Inr f, w') \<Longrightarrow>
     fk_Files w' (uf_FileID f) = Some (take (nat n) v)"
  by (auto simp: fake_Upload_def ErrorReader_def LimitedStringReader_def ReadAll_def Let_def)

end
