(* ===== verification/StoreProps.thy ===== *)
theory StoreProps
  imports StoreReads FakeTelegram MetaProps
begin

text \<open>
  The properties of the object store. Their hypothesis \<open>telegram_chat c msgs\<close> is the contract of the
  Telegram client; the runs in the witnesses use the fake client of the repository's tests, a store
  with one bucket, and an upload configuration that cuts objects of more than four bytes into
  chunks of three.
\<close>

definition demo_upload_config :: UploadConfig where
  "demo_upload_config =
     \<lparr>uc_Strategy = ''document'', uc_EnableChunking = True, uc_MaxFileSize = 100, uc_ChunkSize = 3,
      uc_TypeLimits = Some [''document'' \<mapsto> 4], uc_PutBufferSize = 2\<rparr>"

definition demo_oenv :: oenv where
  "demo_oenv = sqlite_env.extend demo_env
     \<lparr>ev_md5 = take 2, ev_sha256 = take 3, ev_rand = (\<lambda>_. Inr (replicate 16 (CHR 0x00))), ev_os = (\<lambda>_. None),
      ev_refuse = (\<lambda>_. None), ev_sleep = (\<lambda>_. None), ev_order = (\<lambda>_ ids. ids)\<rparr>"

definition demo_store :: "FakeTelegram ostate" where
  "demo_store = sqlite.extend \<lparr>tabs = empty_tables, tick = 0\<rparr>
     \<lparr>tg = Some fake_client,
      options = \<lparr>opt_Upload = demo_upload_config, opt_Caption = Some ''{name} {chunk}'', opt_Buckets = [],
        opt_MaxUploads = 1, opt_MaxDownloads = 1, opt_MaxTelegramCalls = 1\<rparr>,
      startupBuckets = [''b'' \<mapsto> \<lparr>bk_Name = ''b'', bk_ChatID = ''-100'', bk_CreatedAt = 0, bk_Enabled = True\<rparr>],
      bucketBindings = Map.empty, uploadGates = ['''' \<mapsto> 0], multipartUploads = [], unavailableBuckets = {},
      world = NewFakeTelegram, events = []\<rparr>"

definition demo_input :: "string \<Rightarrow> bytes \<Rightarrow> PutObjectInput" where
  "demo_input key data =
     \<lparr>pi_Bucket = ''b'', pi_Key = key, pi_ContentType = ''text/plain'', pi_Size = int (length data),
      pi_Body = Some \<lparr>rd_data = data, rd_err = None\<rparr>\<rparr>"

definition demo_stored :: "FakeTelegram ostate" where
  "demo_stored = snd (Store_PutObject demo_oenv (demo_input ''k'' ''abcdefgh'') demo_store)"

lemma demo_store_facts:
  "store_inv fake_msgs demo_store" "served_by fake_client demo_store"
  by (simp_all add: store_inv_def demo_store_def served_by_def empty_tables_def tables_wf_def contents_def
      find_object_def chunk_msgs_def sqlite.defs)

definition demo_short :: PutObjectInput where
  "demo_short = (demo_input ''k'' ''abcdefgh'')\<lparr>pi_Body := Some \<lparr>rd_data = ''abcde'', rd_err = None\<rparr>\<rparr>"

definition demo_info :: ObjectInfo where
  "demo_info = \<lparr>oi_Bucket = ''b'', oi_Key = ''k'', oi_Size = 8, oi_ContentType = ''text/plain'', oi_ETag = ''6162'',
     oi_SHA256 = ''616263'', oi_LastModified = 3000000000\<rparr>"

text \<open>The runs of the witnesses.\<close>

lemma demo_run_put: "fst (Store_PutObject demo_oenv (demo_input ''k'' ''abcdefgh'') demo_store) = Inr ''6162''"
  by code_simp

lemma demo_run_state:
  "uc_Strategy (opt_Upload (options demo_stored)) = ''document'' \<and>
   object_bytes fake_msgs demo_stored (''b'', ''k'') = Some ''abcdefgh''"
  by code_simp

lemma demo_run_short: "fst (Store_PutObject demo_oenv demo_short demo_stored) = Inl (Sent IoErrUnexpectedEOF)"
  by code_simp

lemma demo_run_range:
  "fst (Store_GetObject demo_oenv ''b'' ''k'' (Some \<lparr>br_start = 2, br_end = 6\<rparr>) demo_stored) =
     Inr ((''cdefg'', None), demo_info)"
  by code_simp

lemma demo_run_get: "fst (Store_GetObject demo_oenv ''b'' ''k'' None demo_stored) = Inr ((''abcdefgh'', None), demo_info)"
  by code_simp

lemma demo_run_delete: "fst (Store_DeleteObject demo_oenv ''b'' ''k'' demo_stored) = Inr ()"
  by code_simp

lemmas demo_runs = demo_run_put demo_run_state demo_run_short demo_run_range demo_run_get demo_run_delete

lemma demo_put_eq: "Store_PutObject demo_oenv (demo_input ''k'' ''abcdefgh'') demo_store = (Inr ''6162'', demo_stored)"
  unfolding demo_stored_def using demo_runs by (simp add: prod_eq_iff)

text \<open>Plain uploads: the configuration never picks a type Telegram would recompress.\<close>

definition plain_uploads :: "'w ostate \<Rightarrow> bool" where
  "plain_uploads s \<longleftrightarrow> uc_Strategy (opt_Upload (options s)) \<noteq> ''auto''"

lemma plain_uploads_Resolve:
  "plain_uploads s \<Longrightarrow> Resolve (opt_Upload (options s)) f ct sz = Inr u \<Longrightarrow> us_UploadStrategy u \<noteq> ''typed''"
  using resolveDocument_cases [of "opt_Upload (options s)" sz u]
  by (auto simp: plain_uploads_def Resolve_def Let_def split: if_splits)

definition body_of :: "PutObjectInput \<Rightarrow> reader" where
  "body_of input = (case pi_Body input of Some r \<Rightarrow> r | None \<Rightarrow> \<lparr>rd_data = [], rd_err = None\<rparr>)"

lemma put_effect:
  assumes "telegram_chat c msgs" "store_inv msgs s" "served_by c s" "plain_uploads s" "in_i64 (pi_Size input)"
  shows "wp (Store_PutObject env input)
    (\<lambda>etag s'. store_inv msgs s' \<and> served_by c s' \<and> 0 \<le> pi_Size input \<and>
       object_bytes msgs s' = (object_bytes msgs s)((pi_Bucket input, pi_Key input) \<mapsto>
         take (nat (pi_Size input)) (rd_data (body_of input))) \<and>
       (0 < pi_Size input \<longrightarrow>
         rd_err (body_of input) = None \<and> int (length (rd_data (body_of input))) = pi_Size input) \<and>
       touches msgs s (pi_Bucket input, pi_Key input) s' \<and>
       (\<forall>m \<in> chunk_msgs s' (pi_Bucket input, pi_Key input). msgs (world s) m = None))
    (\<lambda>e s'. grows msgs s s') s"
  by (rule telegram_chat.Store_PutObject_effect [OF assms(1,2,3,5) _ body_of_def])
    (rule plain_uploads_Resolve [OF assms(4)])

lemma demo_plain: "plain_uploads demo_store" "plain_uploads demo_stored"
  by (simp add: plain_uploads_def demo_store_def demo_upload_config_def sqlite.defs)
    (simp add: plain_uploads_def demo_runs)

lemma demo_body: "body_of (demo_input k d) = \<lparr>rd_data = d, rd_err = None\<rparr>" "pi_Size (demo_input k d) = int (length d)"
  "pi_Bucket (demo_input k d) = ''b''" "pi_Key (demo_input k d) = k"
  by (simp_all add: body_of_def demo_input_def)

text \<open>C3: \<^verbatim>\<open>PutObject\<close> refines the update of a map. Seen through \<open>object_bytes\<close>, a put that succeeds
  sets the entry of its key to the first \<^verbatim>\<open>Size\<close> bytes of the body, changes no other entry although
  it deletes the messages of the object it replaces, and keeps the invariant of the store; a
  non-empty object is only stored if the body had exactly \<^verbatim>\<open>Size\<close> bytes.\<close>
theorem Store_PutObject_refines:
  assumes "telegram_chat c msgs" "store_inv msgs s" "served_by c s" "plain_uploads s" "in_i64 (pi_Size input)"
    and "Store_PutObject env input s = (Inr etag, s')"
  shows "object_bytes msgs s' = (object_bytes msgs s)((pi_Bucket input, pi_Key input) \<mapsto>
      take (nat (pi_Size input)) (rd_data (body_of input))) \<and>
    store_inv msgs s' \<and> served_by c s' \<and>
    (pi_Size input \<noteq> 0 \<longrightarrow> rd_err (body_of input) = None \<and> int (length (rd_data (body_of input))) = pi_Size input)"
  using wp_Inr [OF put_effect [OF assms(1-5)] assms(6)] by auto

theorem Store_PutObject_refines_witness:
  "object_bytes fake_msgs demo_stored = (object_bytes fake_msgs demo_store)((''b'', ''k'') \<mapsto> ''abcdefgh'') \<and>
   store_inv fake_msgs demo_stored \<and> served_by fake_client demo_stored"
  using Store_PutObject_refines [OF fake.telegram_chat_axioms demo_store_facts demo_plain(1) _ demo_put_eq]
  by (simp add: demo_body in_i64_def)

text \<open>C4: A put that fails, at whatever point, has changed no row and no object: every key, the one put
  included, still has the bytes it had, and the invariant holds. (Messages sent before the failure
  stay in the chat and are logged.)\<close>
theorem Store_PutObject_failed:
  assumes "telegram_chat c msgs" "store_inv msgs s" "served_by c s" "plain_uploads s" "in_i64 (pi_Size input)"
    and "Store_PutObject env input s = (Inl e, s')"
  shows "tabs s' = tabs s \<and> object_bytes msgs s' = object_bytes msgs s \<and> store_inv msgs s'"
proof -
  have g: "grows msgs s s'"
    using wp_Inl [OF put_effect [OF assms(1-5)] assms(6)] .
  then show ?thesis
    using store_inv_grows [OF assms(2) g] store_inv_bytes [OF assms(2) g] by (auto simp: grows_def same_def)
qed

lemma demo_short_run:
  "Store_PutObject demo_oenv demo_short demo_stored = (Inl (Sent IoErrUnexpectedEOF),
     snd (Store_PutObject demo_oenv demo_short demo_stored))"
  using demo_runs by (simp add: prod_eq_iff)

lemma demo_stored_facts: "store_inv fake_msgs demo_stored" "served_by fake_client demo_stored"
  using wp_Inr [OF put_effect [OF fake.telegram_chat_axioms demo_store_facts demo_plain(1)] demo_put_eq]
  by (simp_all add: demo_body in_i64_def)

theorem Store_PutObject_failed_witness:
  "object_bytes fake_msgs (snd (Store_PutObject demo_oenv demo_short demo_stored)) (''b'', ''k'') = Some ''abcdefgh''"
  using Store_PutObject_failed [OF fake.telegram_chat_axioms demo_stored_facts demo_plain(2) _ demo_short_run]
    demo_runs
  by (simp add: demo_short_def demo_input_def in_i64_def)

text \<open>C5: \<^verbatim>\<open>GetObject\<close> streams the object: if the stream ends without an error, what came out of it is
  exactly the bytes of the object, or those of the range asked for, put together from the chunks
  that meet the range; the size in the answer is that of the whole object.\<close>
theorem Store_GetObject_streams_object:
  assumes "telegram_chat c msgs" "store_inv msgs s" "served_by c s"
    and "object_bytes msgs s (b, k) = Some bs" "in_i64 (int (length bs))" "range_ok rng bs"
    and "Store_GetObject env b k rng s = (Inr ((data, None), info), s')"
  shows "data = byte_slice rng bs \<and> oi_Size info = int (length bs)"
  using wp_Inr [OF telegram_chat.Store_GetObject_effect [OF assms(1-3)] assms(7)] assms(4-6) by auto

theorem Store_GetObject_streams_object_witness:
  "\<exists>info s'. Store_GetObject demo_oenv ''b'' ''k'' (Some \<lparr>br_start = 2, br_end = 6\<rparr>) demo_stored =
     (Inr ((''cdefg'', None), info), s') \<and> oi_Size info = 8"
proof -
  let ?r = "Some \<lparr>br_start = 2, br_end = 6\<rparr>"
  obtain s' where run: "Store_GetObject demo_oenv ''b'' ''k'' ?r demo_stored = (Inr ((''cdefg'', None), demo_info), s')"
    using demo_runs by (metis prod.collapse)
  have "byte_slice ?r ''abcdefgh'' = ''cdefg''" "range_ok ?r ''abcdefgh''" by code_simp+
  with Store_GetObject_streams_object [OF fake.telegram_chat_axioms demo_stored_facts _ _ _ run] demo_runs
  show ?thesis using run by (simp add: in_i64_def)
qed

text \<open>C2: Storing and reading back: after a put that succeeds, a get of the key whose stream ends without
  an error delivers the bytes that were put, whether they went out as one message or in chunks, and
  any range of them.\<close>
theorem Store_put_then_get:
  assumes "telegram_chat c msgs" "store_inv msgs s" "served_by c s" "plain_uploads s" "in_i64 (pi_Size input)"
    and put: "Store_PutObject env input s = (Inr etag, s1)"
    and rng: "range_ok rng (take (nat (pi_Size input)) (rd_data (body_of input)))"
    and get: "Store_GetObject env' (pi_Bucket input) (pi_Key input) rng s1 = (Inr ((data, None), info), s2)"
  shows "data = byte_slice rng (take (nat (pi_Size input)) (rd_data (body_of input))) \<and> oi_Size info = pi_Size input"
proof -
  have p: "store_inv msgs s1" "served_by c s1"
      "object_bytes msgs s1 (pi_Bucket input, pi_Key input) = Some (take (nat (pi_Size input)) (rd_data (body_of input)))"
      "0 \<le> pi_Size input" "0 < pi_Size input \<longrightarrow> int (length (rd_data (body_of input))) = pi_Size input"
    using wp_Inr [OF put_effect [OF assms(1-5)] put] by auto
  then have len: "int (length (take (nat (pi_Size input)) (rd_data (body_of input)))) = pi_Size input"
    by (cases "pi_Size input = 0") auto
  with wp_Inr [OF telegram_chat.Store_GetObject_effect [OF assms(1) p(1,2)] get] p(3) rng assms(5)
  show ?thesis by auto
qed

theorem Store_put_then_get_witness:
  "\<exists>info s2. Store_GetObject demo_oenv ''b'' ''k'' None demo_stored = (Inr ((''abcdefgh'', None), info), s2)"
proof -
  obtain s2 where run: "Store_GetObject demo_oenv ''b'' ''k'' None demo_stored = (Inr ((''abcdefgh'', None), demo_info), s2)"
    using demo_runs by (metis prod.collapse)
  with Store_put_then_get [OF fake.telegram_chat_axioms demo_store_facts demo_plain(1) _ demo_put_eq,
      of None demo_oenv "''abcdefgh''" demo_info s2]
  show ?thesis by (simp add: demo_body in_i64_def range_ok_def byte_slice_def)
qed

text \<open>C6: \<^verbatim>\<open>DeleteObject\<close> refines the removal of an entry: the object is gone, every other object is
  untouched, and so for an object that is not there, where it succeeds without doing anything.\<close>
theorem Store_DeleteObject_refines:
  assumes "telegram_chat c msgs" "store_inv msgs s" "served_by c s" "\<And>n. sq_fault env n \<noteq> Some (Sent MetaErrNotFound)"
    and "Store_DeleteObject env b k s = (Inr u, s')"
  shows "object_bytes msgs s' = (object_bytes msgs s)((b, k) := None) \<and> store_inv msgs s' \<and> served_by c s'"
  using wp_Inr [OF telegram_chat.Store_DeleteObject_effect [OF assms(1-4)] assms(5)] by auto

theorem Store_DeleteObject_refines_witness:
  "object_bytes fake_msgs (snd (Store_DeleteObject demo_oenv ''b'' ''k'' demo_stored)) (''b'', ''k'') = None"
proof -
  have "Store_DeleteObject demo_oenv ''b'' ''k'' demo_stored =
      (Inr (), snd (Store_DeleteObject demo_oenv ''b'' ''k'' demo_stored))"
    using demo_runs by (simp add: prod_eq_iff)
  from Store_DeleteObject_refines [OF fake.telegram_chat_axioms demo_stored_facts _ this]
  show ?thesis by (simp add: demo_oenv_def demo_env_def sqlite_env.defs)
qed

end
