(* ===== verification/StoreMultipart.thy ===== *)
theory StoreMultipart
  imports StorePut
begin

text \<open>
  Multipart uploads of \<^verbatim>\<open>store/store.go\<close>. The map of uploads and the map of parts are association
  lists; where the code ranges over the uploads to find the oldest, \<open>ev_order\<close> gives the order in
  which the run time goes through the keys.
\<close>

definition maxMultipartUploads :: nat where "maxMultipartUploads = 1000"

definition set_upload :: "string \<Rightarrow> multipartUpload \<Rightarrow> (string \<times> multipartUpload) list \<Rightarrow> (string \<times> multipartUpload) list" where
  "set_upload k v m = (k, v) # filter (\<lambda>p. fst p \<noteq> k) m"

definition drop_upload :: "string \<Rightarrow> (string \<times> multipartUpload) list \<Rightarrow> (string \<times> multipartUpload) list" where
  "drop_upload k m = filter (\<lambda>p. fst p \<noteq> k) m"

definition part_records :: "multipartPart \<Rightarrow> (string \<times> int) list" where
  "part_records part = map (\<lambda>c. (mc_telegramFileID c, mc_telegramMessageID c)) (mp_chunks part)"

definition logMultipartOrphansLocked :: "string \<Rightarrow> string \<Rightarrow> ('w, unit) act" where
  "logMultipartOrphansLocked uploadID reason =
     sbind (sget (\<lambda>s. map_of (multipartUploads s) uploadID)) (\<lambda>u.
       case u of
         None \<Rightarrow> sret ()
       | Some upload \<Rightarrow>
           let records = concat (map (part_records \<circ> snd) (mu_parts upload)) in
           swhen (records \<noteq> []) (logOrphanUpload (mu_bucket upload) (mu_key upload) records
             (Msg (''multipart upload '' @ uploadID @ '': '' @ reason))))"

text \<open>The oldest of the uploads in the order of the range: the first of the earliest.\<close>

fun oldest_upload :: "(string \<times> multipartUpload) list \<Rightarrow> string \<Rightarrow> int \<Rightarrow> string list \<Rightarrow> string" where
  "oldest_upload m oldestID oldest [] = oldestID"
| "oldest_upload m oldestID oldest (uploadID # ids) =
     (case map_of m uploadID of
        None \<Rightarrow> oldest_upload m oldestID oldest ids
      | Some upload \<Rightarrow>
          if oldestID = [] \<or> mu_createdAt upload < oldest
          then oldest_upload m uploadID (mu_createdAt upload) ids
          else oldest_upload m oldestID oldest ids)"

definition evictOldestMultipartUploadLocked :: "oenv \<Rightarrow> ('w, unit) act" where
  "evictOldestMultipartUploadLocked env =
     sbind (sget (\<lambda>s. (multipartUploads s, ev_order env (tick s) (map fst (multipartUploads s))))) (\<lambda>(m, ids).
     if length m \<le> maxMultipartUploads then sret ()
     else
       let oldestID = oldest_upload m [] 0 ids in
       swhen (oldestID \<noteq> [])
         (sbind (logMultipartOrphansLocked oldestID ''evict'') (\<lambda>_.
          smodify (\<lambda>s. s\<lparr>multipartUploads := drop_upload oldestID (multipartUploads s)\<rparr>))))"

definition newUploadID :: "oenv \<Rightarrow> ('w, string) act" where
  "newUploadID env = sbind (rand_read env) (\<lambda>buf. sret (EncodeToString buf))"

definition CreateMultipartUpload :: "oenv \<Rightarrow> string \<Rightarrow> string \<Rightarrow> string \<Rightarrow> ('w, string) act" where
  "CreateMultipartUpload env bucket key contentType =
     sbind (HeadBucket bucket) (\<lambda>_.
     sbind (newUploadID env) (\<lambda>uploadID.
     sbind (clock_now env) (\<lambda>now.
     sbind (smodify (\<lambda>s. s\<lparr>multipartUploads := set_upload uploadID
              \<lparr>mu_bucket = bucket, mu_key = key, mu_contentType = contentType, mu_createdAt = now, mu_parts = []\<rparr>
              (multipartUploads s)\<rparr>)) (\<lambda>_.
     sbind (evictOldestMultipartUploadLocked env) (\<lambda>_. sret uploadID)))))"

text \<open>The upload of an id, if it is for this bucket and key.\<close>

definition find_upload :: "string \<Rightarrow> string \<Rightarrow> string \<Rightarrow> 'w ostate \<Rightarrow> multipartUpload option" where
  "find_upload uploadID bucket key s =
     (case map_of (multipartUploads s) uploadID of
        Some u \<Rightarrow> if mu_bucket u \<noteq> bucket \<or> mu_key u \<noteq> key then None else Some u
      | None \<Rightarrow> None)"

definition need_upload :: "string \<Rightarrow> string \<Rightarrow> string \<Rightarrow> ('w, multipartUpload) act" where
  "need_upload uploadID bucket key =
     sbind (sget (find_upload uploadID bucket key)) (\<lambda>u.
       case u of None \<Rightarrow> sfail (Sent ErrNoSuchUpload) | Some upload \<Rightarrow> sret upload)"

record UploadPartInput =
  pt_Bucket :: string
  pt_Key :: string
  pt_UploadID :: string
  pt_PartNumber :: int
  pt_Size :: int
  pt_Body :: "reader option"

subsection \<open>Uploading a part\<close>

definition part_chunk_records :: "multipartChunk list \<Rightarrow> (string \<times> int) list" where
  "part_chunk_records chunks = map (\<lambda>c. (mc_telegramFileID c, mc_telegramMessageID c)) chunks"

function partLoop ::
    "oenv \<Rightarrow> UploadPartInput \<Rightarrow> string \<Rightarrow> int \<Rightarrow> multipartChunk list \<Rightarrow> bytes \<Rightarrow> int \<Rightarrow> int \<Rightarrow> reader \<Rightarrow>
     ('w, multipartChunk list \<times> bytes \<times> reader) act" where
  "partLoop env input contentType chunkSize chunks hashed remaining partIndex body s =
     (if remaining \<le> 0 then (Inr (chunks, hashed, body), s)
      else if chunkSize \<le> 0 then (Inl (Sent ErrEntityTooLarge), s)
      else
        let thisChunkSize = (if remaining < chunkSize then remaining else chunkSize) in
        case ReadFull (nat thisChunkSize) body of
          Inl err \<Rightarrow> abandon (pt_Bucket input) (pt_Key input) (part_chunk_records chunks) err s
        | Inr (partData, body') \<Rightarrow>
            (case stry (bucketBindingM (pt_Bucket input)) s of
               (Inl err, s1) \<Rightarrow> (Inl err, s1)
             | (Inr (Inl err), s1) \<Rightarrow> abandon (pt_Bucket input) (pt_Key input) (part_chunk_records chunks) err s1
             | (Inr (Inr binding), s1) \<Rightarrow>
                 (case stry (uploadTelegram env binding (bytes_upload ''document'' (bb_ChatID binding) partData
                        (pt_Key input) contentType
                        (renderCaption s1 (pt_Bucket input) (pt_Key input) (pt_Size input) partIndex
                          (chunk_count (pt_Size input) chunkSize)))) s1 of
                    (Inl err, s2) \<Rightarrow> (Inl err, s2)
                  | (Inr (Inl err), s2) \<Rightarrow> abandon (pt_Bucket input) (pt_Key input) (part_chunk_records chunks) err s2
                  | (Inr (Inr uploaded), s2) \<Rightarrow>
                      partLoop env input contentType chunkSize
                        (chunks @ [\<lparr>mc_size = int (length partData), mc_telegramType = uf_Type uploaded,
                           mc_telegramFileID = uf_FileID uploaded, mc_telegramMessageID = uf_MessageID uploaded,
                           mc_telegramFileUniqueID = uf_FileUniqueID uploaded,
                           mc_sha256 = EncodeToString (ev_sha256 env partData)\<rparr>])
                        (hashed @ partData) (remaining - int (length partData)) (partIndex + 1) body' s2)))"
  by pat_completeness auto
termination
  by (relation "measure (\<lambda>(env, input, ct, cs, chunks, hashed, remaining, part, body, s). nat remaining)")
     (auto simp: ReadFull_Inr split: if_splits)

declare partLoop.simps [simp del]

definition uploadMultipartPartChunks ::
    "oenv \<Rightarrow> UploadPartInput \<Rightarrow> reader \<Rightarrow> string \<Rightarrow> ('w, multipartChunk list \<times> string \<times> bytes \<times> int) act" where
  "uploadMultipartPartChunks env input body contentType =
     sbind (sget (\<lambda>s. opt_Upload (options s))) (\<lambda>config.
     let cs1 = (if uc_ChunkSize config \<le> 0 then uc_ChunkSize DefaultUploadConfig else uc_ChunkSize config);
         limit = limit_of config ''document'';
         chunkSize = (if limit > 0 \<and> cs1 > limit then limit else cs1) in
     if chunkSize \<le> 0 then sfail (Sent ErrEntityTooLarge)
     else
       sbind (partLoop env input contentType chunkSize [] [] (pt_Size input) 1 body) (\<lambda>(chunks, hashed, rest).
       sbind (slift (ReadAll rest)) (\<lambda>extra.
       if extra \<noteq> [] then sfail (size_error (i64 (pt_Size input + int (length extra))) (pt_Size input))
       else sret (chunks, EncodeToString (ev_md5 env hashed), ev_md5 env hashed, pt_Size input))))"

definition logMultipartPartOrphans :: "string \<Rightarrow> string \<Rightarrow> multipartPart \<Rightarrow> gerror \<Rightarrow> ('w, unit) act" where
  "logMultipartPartOrphans bucket key part err =
     swhen (part_records part \<noteq> []) (logOrphanUpload bucket key (part_records part) err)"

definition UploadPart :: "oenv \<Rightarrow> UploadPartInput \<Rightarrow> ('w, string) act" where
  "UploadPart env input =
     (if pt_PartNumber input < 1 \<or> pt_UploadID input = [] \<or> pt_Size input < 0 then sfail (Sent ErrInvalidArgument)
      else
        let body = (case pt_Body input of Some r \<Rightarrow> r | None \<Rightarrow> \<lparr>rd_data = [], rd_err = None\<rparr>) in
        sbind (need_upload (pt_UploadID input) (pt_Bucket input) (pt_Key input)) (\<lambda>upload.
        sbind (sget (\<lambda>s. opt_MaxUploads (options s))) (\<lambda>maxUploads.
        sbind (acquire env maxUploads) (\<lambda>_.
        sbind (uploadMultipartPartChunks env input body (mu_contentType upload)) (\<lambda>(chunks, etag, md5Bytes, sz).
        sbind (need_upload (pt_UploadID input) (pt_Bucket input) (pt_Key input)) (\<lambda>upload2.
        sbind (case map_of (mu_parts upload2) (pt_PartNumber input) of
                 Some old \<Rightarrow> swhen (mp_chunks old \<noteq> [])
                   (logMultipartPartOrphans (pt_Bucket input) (pt_Key input) old
                     (Msg (''multipart part '' @ Itoa (pt_PartNumber input) @ '' replaced'')))
               | None \<Rightarrow> sret ()) (\<lambda>_.
        sbind (smodify (\<lambda>s. s\<lparr>multipartUploads := set_upload (pt_UploadID input)
                 (upload2\<lparr>mu_parts := (pt_PartNumber input,
                    \<lparr>mp_number = pt_PartNumber input, mp_etag = etag, mp_md5Bytes = md5Bytes, mp_size = sz,
                     mp_chunks = chunks\<rparr>) # filter (\<lambda>p. fst p \<noteq> pt_PartNumber input) (mu_parts upload2)\<rparr>)
                 (multipartUploads s)\<rparr>)) (\<lambda>_. sret etag))))))))"

subsection \<open>Completing and aborting\<close>

record CompletedPart =
  cp_PartNumber :: int
  cp_ETag :: string

definition etagMatches :: "string \<Rightarrow> string \<Rightarrow> bool" where
  "etagMatches stored submitted \<longleftrightarrow> Trim submitted [CHR 0x22] = Trim stored [CHR 0x22]"

fun completePartsLoop ::
    "(int \<times> multipartPart) list \<Rightarrow> int \<Rightarrow> multipartPart list \<Rightarrow> CompletedPart list \<Rightarrow> gerror + multipartPart list" where
  "completePartsLoop parts lastPart acc [] = Inr acc"
| "completePartsLoop parts lastPart acc (requestedPart # requested) =
     (if cp_PartNumber requestedPart \<le> lastPart then Inl (Sent ErrInvalidPartOrder)
      else case map_of parts (cp_PartNumber requestedPart) of
          None \<Rightarrow> Inl (Sent ErrInvalidPart)
        | Some part \<Rightarrow>
            if \<not> etagMatches (mp_etag part) (cp_ETag requestedPart) then Inl (Sent ErrInvalidPart)
            else completePartsLoop parts (cp_PartNumber requestedPart) (acc @ [part]) requested)"

definition completeParts :: "multipartUpload \<Rightarrow> CompletedPart list \<Rightarrow> gerror + multipartPart list" where
  "completeParts u requested = completePartsLoop (mu_parts u) 0 [] requested"

definition multipartETag :: "oenv \<Rightarrow> multipartPart list \<Rightarrow> string" where
  "multipartETag env parts =
     EncodeToString (ev_md5 env (concat (map mp_md5Bytes parts))) @ ''-'' @ Itoa (int (length parts))"

text \<open>The chunk rows: part numbers count on through all parts, offsets add up.\<close>

fun layout_chunks :: "string \<Rightarrow> string \<Rightarrow> int \<Rightarrow> int \<Rightarrow> multipartChunk list \<Rightarrow> Chunk list" where
  "layout_chunks bucket key offset partNumber [] = []"
| "layout_chunks bucket key offset partNumber (c # cs) =
     \<lparr>ck_Bucket = bucket, ck_Key = key, ck_PartNumber = partNumber, ck_Offset = offset, ck_Size = mc_size c,
      ck_TelegramType = mc_telegramType c, ck_TelegramFileID = mc_telegramFileID c,
      ck_TelegramMessageID = mc_telegramMessageID c, ck_TelegramFileUniqueID = mc_telegramFileUniqueID c,
      ck_SHA256 = mc_sha256 c\<rparr> #
     layout_chunks bucket key (i64 (offset + mc_size c)) (partNumber + 1) cs"

definition buildMultipartObject ::
    "oenv \<Rightarrow> string \<Rightarrow> string \<Rightarrow> string \<Rightarrow> multipartPart list \<Rightarrow> int \<Rightarrow> Object \<times> Chunk list \<times> string" where
  "buildMultipartObject env bucket key contentType parts now =
     (let sz = foldl (\<lambda>sz part. i64 (sz + mp_size part)) 0 parts;
          etag = multipartETag env parts;
          chunks = layout_chunks bucket key 0 1 (concat (map mp_chunks parts)) in
      (\<lparr>ob_Bucket = bucket, ob_Key = key, ob_Size = sz, ob_ContentType = contentType, ob_ETag = etag,
        ob_SHA256 = [], ob_LastModified = now, ob_ChunkCount = int (length chunks),
        ob_TelegramType = ''document'', ob_UploadStrategy = ''multipart''\<rparr>, chunks, etag))"

definition CompleteMultipartUpload ::
    "oenv \<Rightarrow> string \<Rightarrow> string \<Rightarrow> string \<Rightarrow> CompletedPart list \<Rightarrow> ('w, string) act" where
  "CompleteMultipartUpload env bucket key uploadID requested =
     (if uploadID = [] \<or> requested = [] then sfail (Sent ErrInvalidArgument)
      else
        sbind (need_upload uploadID bucket key) (\<lambda>upload.
        sbind (slift (completeParts upload requested)) (\<lambda>parts.
        sbind (previous_chunks env bucket key) (\<lambda>previousChunks.
        sbind (clock_now env) (\<lambda>now.
        let (object, chunks, etag) = buildMultipartObject env bucket key (mu_contentType upload) parts now in
        sbind (stry (PutObject env object chunks)) (\<lambda>r.
          case r of
            Inl err \<Rightarrow> sbind (logMetadataPutObject bucket key (int (length chunks)) etag (Some err)) (\<lambda>_. sfail err)
          | Inr _ \<Rightarrow>
              sbind (logMetadataPutObject bucket key (int (length chunks)) etag None) (\<lambda>_.
              sbind (cleanupReplacedChunks bucket key previousChunks) (\<lambda>_.
              sbind (smodify (\<lambda>s. s\<lparr>multipartUploads := drop_upload uploadID (multipartUploads s)\<rparr>)) (\<lambda>_.
              sret etag)))))))))"

definition AbortMultipartUpload :: "string \<Rightarrow> string \<Rightarrow> string \<Rightarrow> ('w, unit) act" where
  "AbortMultipartUpload bucket key uploadID =
     (if uploadID = [] then sfail (Sent ErrInvalidArgument)
      else
        sbind (need_upload uploadID bucket key) (\<lambda>_.
        sbind (logMultipartOrphansLocked uploadID ''abort'') (\<lambda>_.
        smodify (\<lambda>s. s\<lparr>multipartUploads := drop_upload uploadID (multipartUploads s)\<rparr>))))"

end
