(* ===== verification/MultiEffects.thy ===== *)
theory MultiEffects
  imports StoreRefine StoreMultipart
begin

text \<open>
  Multipart uploads over the contract \<open>telegram_chat\<close>: which lists of parts a completion accepts, the
  object it builds, the effect of uploading a part, and the refinement of the completion.
\<close>

subsection \<open>The requested parts\<close>

definition part_accepted :: "multipartUpload \<Rightarrow> CompletedPart \<Rightarrow> multipartPart \<Rightarrow> bool" where
  "part_accepted u r p \<longleftrightarrow> map_of (mu_parts u) (cp_PartNumber r) = Some p \<and> etagMatches (mp_etag p) (cp_ETag r)"

lemma completePartsLoop_Inr:
  "completePartsLoop parts n acc requested = Inr ps \<longleftrightarrow>
     sorted_wrt (<) (n # map cp_PartNumber requested) \<and>
     (\<exists>qs. ps = acc @ qs \<and> list_all2 (\<lambda>r p. map_of parts (cp_PartNumber r) = Some p \<and>
        etagMatches (mp_etag p) (cp_ETag r)) requested qs)"
proof (induction requested arbitrary: n acc)
  case (Cons r rs)
  have sorted: "sorted_wrt (<) (n # map cp_PartNumber (r # rs)) \<longleftrightarrow>
      n < cp_PartNumber r \<and> sorted_wrt (<) (cp_PartNumber r # map cp_PartNumber rs)"
    by auto
  show ?case
    unfolding sorted completePartsLoop.simps
    by (auto simp: Cons.IH list_all2_Cons1 split: option.splits)
qed auto

lemma completePartsLoop_Inl:
  "completePartsLoop parts n acc requested = Inl e \<Longrightarrow> e = Sent ErrInvalidPartOrder \<or> e = Sent ErrInvalidPart"
  by (induction requested arbitrary: n acc) (auto split: if_splits option.splits)

subsection \<open>The object that is built\<close>

text \<open>The bytes of stored chunks, and that the sizes are right.\<close>

fun part_bytes :: "chat_view \<Rightarrow> string \<Rightarrow> multipartChunk list \<Rightarrow> bytes option" where
  "part_bytes view chat [] = Some []"
| "part_bytes view chat (ck # cks) =
     (case view (chat, mc_telegramMessageID ck) of
        None \<Rightarrow> None
      | Some (fid, d) \<Rightarrow>
          if fid = mc_telegramFileID ck \<and> int (length d) = mc_size ck
          then map_option (\<lambda>bs. d @ bs) (part_bytes view chat cks) else None)"

definition part_msgs :: "string \<Rightarrow> multipartPart \<Rightarrow> (string \<times> int) set" where
  "part_msgs chat p = (\<lambda>ck. (chat, mc_telegramMessageID ck)) ` set (mp_chunks p)"

text \<open>A part as \<^verbatim>\<open>UploadPart\<close> leaves it: its chunks spell out its bytes, and its size is their number.\<close>

definition part_holds :: "chat_view \<Rightarrow> string \<Rightarrow> multipartPart \<Rightarrow> bytes \<Rightarrow> bool" where
  "part_holds view chat p bs \<longleftrightarrow> part_bytes view chat (mp_chunks p) = Some bs \<and> mp_size p = int (length bs)"

lemma part_bytes_append:
  "part_bytes v chat (cs @ ds) =
     (case part_bytes v chat cs of None \<Rightarrow> None | Some a \<Rightarrow> map_option (\<lambda>b. a @ b) (part_bytes v chat ds))"
  by (cases "part_bytes v chat ds"; induction cs) (auto split: option.splits if_splits)

lemma part_bytes_length: "part_bytes v chat cs = Some bs \<Longrightarrow> int (length bs) = sum_list (map mc_size cs)"
  by (induction cs arbitrary: bs) (auto split: option.splits if_splits)

lemma part_bytes_nonneg: "part_bytes v chat cs = Some bs \<Longrightarrow> ck \<in> set cs \<Longrightarrow> 0 \<le> mc_size ck"
  by (induction cs arbitrary: bs) (auto split: option.splits if_splits)

lemma parts_bytes:
  "list_all2 (part_holds v chat) parts datas \<Longrightarrow> part_bytes v chat (concat (map mp_chunks parts)) = Some (concat datas)"
  by (induction rule: list_all2_induct) (auto simp: part_bytes_append part_holds_def)

lemma layout_chunks_bytes: "chunk_bytes v chat (layout_chunks b k off n cs) = part_bytes v chat cs"
  by (induction cs arbitrary: off n) (auto split: option.splits)

lemma layout_chunks_id:
  "ck \<in> set (layout_chunks b k off n cs) \<Longrightarrow> ck_id ck = (b, k)"
  "ck_TelegramMessageID ` set (layout_chunks b k off n cs) = mc_telegramMessageID ` set cs"
  by (induction cs arbitrary: off n) (auto simp: ck_id_def)

lemma length_layout [simp]: "length (layout_chunks b k off n cs) = length cs"
  by (induction cs arbitrary: off n) auto

lemma layout_chunks_laid_out:
  assumes "\<forall>ck \<in> set cs. 0 \<le> mc_size ck" "0 \<le> off" "in_i64 (off + sum_list (map mc_size cs))"
  shows "laid_out off n (layout_chunks b k off n cs)"
  using assms
proof (induction cs arbitrary: off n)
  case (Cons ck cs)
  have nn: "0 \<le> sum_list (map mc_size cs)" using Cons.prems(1) by (intro sum_list_nonneg) auto
  have step: "i64 (off + mc_size ck) = off + mc_size ck"
    by (rule i64_id) (rule in_i64_between [OF in_i64_0 Cons.prems(3)], use Cons.prems(1,2) nn in auto)
  have "laid_out (off + mc_size ck) (n + 1) (layout_chunks b k (off + mc_size ck) (n + 1) cs)"
    by (rule Cons.IH) (use Cons.prems in \<open>auto simp: add.assoc\<close>)
  then show ?case using Cons.prems(1) by (simp add: step)
qed simp

lemma foldl_i64_sum:
  assumes "\<forall>p \<in> set parts. 0 \<le> mp_size p" "0 \<le> a" "in_i64 (a + sum_list (map mp_size parts))"
  shows "foldl (\<lambda>sz part. i64 (sz + mp_size part)) a parts = a + sum_list (map mp_size parts)"
  using assms
proof (induction parts arbitrary: a)
  case (Cons p parts)
  have nn: "0 \<le> sum_list (map mp_size parts)" using Cons.prems(1) by (intro sum_list_nonneg) auto
  have step: "i64 (a + mp_size p) = a + mp_size p"
    by (rule i64_id) (rule in_i64_between [OF in_i64_0 Cons.prems(3)], use Cons.prems(1,2) nn in auto)
  show ?case
    using Cons.IH [of "a + mp_size p"] Cons.prems by (simp add: step add.assoc)
qed simp

lemma part_sizes:
  "list_all2 (part_holds v chat) parts datas \<Longrightarrow> sum_list (map mp_size parts) = int (length (concat datas))"
  "list_all2 (part_holds v chat) parts datas \<Longrightarrow> \<forall>p \<in> set parts. 0 \<le> mp_size p"
  by (induction rule: list_all2_induct) (auto simp: part_holds_def)

text \<open>The object of a completion: its size is the sum of the parts and its rows lie end to end.\<close>

lemma buildMultipartObject_ok:
  assumes parts: "list_all2 (part_holds v chat) parts datas" and len: "in_i64 (int (length (concat datas)))"
    and b: "buildMultipartObject env b k ct parts now = (ob, cks, etag)"
  shows "ob_Size ob = int (length (concat datas))" "ob_id ob = (b, k)" "chunk_bytes v chat cks = Some (concat datas)"
    "laid_out 0 1 cks" "etag = EncodeToString (ev_md5 env (concat (map mp_md5Bytes parts))) @ ''-'' @ Itoa (int (length parts))"
    "(\<lambda>ck. (chat, ck_TelegramMessageID ck)) ` set cks = (\<Union>p \<in> set parts. part_msgs chat p)"
    "chunks_for ob cks" "ob_ETag ob = etag"
proof -
  note sz = part_sizes [OF parts] and pb = parts_bytes [OF parts]
  show "ob_Size ob = int (length (concat datas))"
    using b foldl_i64_sum [OF sz(2), of 0] sz(1) len by (auto simp: buildMultipartObject_def Let_def)
  show id: "ob_id ob = (b, k)" using b by (auto simp: buildMultipartObject_def Let_def ob_id_def)
  have cks: "cks = layout_chunks b k 0 1 (concat (map mp_chunks parts))"
    using b by (auto simp: buildMultipartObject_def Let_def)
  show "chunk_bytes v chat cks = Some (concat datas)" by (simp add: cks layout_chunks_bytes pb)
  show laid: "laid_out 0 1 cks" unfolding cks
    by (rule layout_chunks_laid_out) (use part_bytes_nonneg [OF pb] part_bytes_length [OF pb] len in auto)
  show "etag = EncodeToString (ev_md5 env (concat (map mp_md5Bytes parts))) @ ''-'' @ Itoa (int (length parts))"
    "ob_ETag ob = etag"
    using b by (auto simp: buildMultipartObject_def Let_def multipartETag_def)
  have "(\<lambda>ck. (chat, ck_TelegramMessageID ck)) ` set cks = Pair chat ` (ck_TelegramMessageID ` set cks)" by auto
  then show "(\<lambda>ck. (chat, ck_TelegramMessageID ck)) ` set cks = (\<Union>p \<in> set parts. part_msgs chat p)"
    by (auto simp: cks layout_chunks_id(2) part_msgs_def)
  show "chunks_for ob cks"
    using laid_out_distinct [OF laid] layout_chunks_id(1) by (auto simp: chunks_for_def cks id)
qed


subsection \<open>Uploading a part\<close>

text \<open>Chunks of a part that went out after \<open>w0\<close> and spell out \<open>bs\<close>.\<close>

definition chunks_sent :: "('w \<Rightarrow> chat_view) \<Rightarrow> 'w \<Rightarrow> 'w ostate \<Rightarrow> string \<Rightarrow> multipartChunk list \<Rightarrow> bytes \<Rightarrow> bool" where
  "chunks_sent msgs w0 s b cks bs \<longleftrightarrow> part_bytes (msgs (world s)) (bucketChatID s b) cks = Some bs \<and>
     (\<forall>ck \<in> set cks. msgs w0 (bucketChatID s b, mc_telegramMessageID ck) = None)"

lemma part_bytes_mono: "v \<subseteq>\<^sub>m v' \<Longrightarrow> part_bytes v chat cs = Some bs \<Longrightarrow> part_bytes v' chat cs = Some bs"
  by (induction cs arbitrary: bs) (force split: option.splits if_splits prod.splits simp: map_le_def dom_def)+

lemma chunks_sent_grows: "chunks_sent msgs w0 s b cks bs \<Longrightarrow> grows msgs s s' \<Longrightarrow> chunks_sent msgs w0 s' b cks bs"
  unfolding chunks_sent_def grows_def by (auto simp: same_binding intro: part_bytes_mono)

lemma chunks_sent_snoc:
  assumes "chunks_sent msgs w0 s b cks bs" "grows msgs s s'" "msgs w0 \<subseteq>\<^sub>m msgs (world s)"
    "uploaded msgs (world s) rq f (world s')" "up_ChatID rq = bucketChatID s b" "up_Type rq = ''document''"
    "up_Reader rq = \<lparr>rd_data = d, rd_err = None\<rparr>" "mc_telegramMessageID ck = uf_MessageID f"
    "mc_telegramFileID ck = uf_FileID f" "mc_size ck = int (length d)"
  shows "chunks_sent msgs w0 s' b (cks @ [ck]) (bs @ d)"
proof -
  have chat: "bucketChatID s' = bucketChatID s" using assms(2) by (simp add: grows_def same_binding)
  have fresh: "msgs (world s) (bucketChatID s b, uf_MessageID f) = None"
    and sent: "msgs (world s') (bucketChatID s b, uf_MessageID f) = Some (uf_FileID f, d)"
    using assms(4-7) by (auto simp: uploaded_def)
  have "msgs w0 (bucketChatID s b, uf_MessageID f) = None"
    using fresh assms(3) by (metis domIff map_le_def)
  with chunks_sent_grows [OF assms(1,2)] sent assms(8-10) show ?thesis
    by (auto simp: chunks_sent_def part_bytes_append chat)
qed

context telegram_chat
begin

lemma partLoop_effect:
  assumes "served_by c s" "chunks_sent msgs w0 s (pt_Bucket input) chunks hashed" "msgs w0 \<subseteq>\<^sub>m msgs (world s)"
  shows "wp (partLoop env input ct chunkSize chunks hashed remaining part body)
    (spelled (\<lambda>s' cs bs. chunks_sent msgs w0 s' (pt_Bucket input) cs bs) s remaining body hashed) (\<lambda>e s'. grows msgs s s') s"
  using assms
proof (induction env input ct chunkSize chunks hashed remaining part body s rule: partLoop.induct)
  case (1 env input ct chunkSize chunks hashed remaining part body s)
  let ?n = "if remaining < chunkSize then remaining else chunkSize"
  note prems = "1.prems" and IH = "1.IH"
  have ab: "wp (abandon bk k us e) Q (\<lambda>e s'. grows msgs s s') s"
    for bk k us e and Q :: "multipartChunk list \<times> bytes \<times> reader \<Rightarrow> 'w ostate \<Rightarrow> bool"
    by (rule wp_mono [OF abandon_effect [where Q = "Q"]]) (auto intro: quiet_grows)
  consider "remaining \<le> 0 \<or> chunkSize \<le> 0 \<or> isl (ReadFull (nat ?n) body)"
    | d body' where "\<not> remaining \<le> 0" "\<not> chunkSize \<le> 0" "ReadFull (nat ?n) body = Inr (d, body')"
    by (cases "ReadFull (nat ?n) body") auto
  then show ?case
  proof cases
    case 1
    then show ?thesis using prems ab
      unfolding wp_def by (subst partLoop.simps) (auto simp: Let_def spelled_def split: sum.split)
  next
    case 2
    note n = 2(1,2) and rf = 2(3)
    have len: "0 < ?n" "?n \<le> remaining" using n by auto
    show ?thesis
      unfolding wp_def partLoop.simps [of env input ct chunkSize chunks hashed remaining part body s]
        if_not_P [OF n(1)] if_not_P [OF n(2)] Let_def rf sum.case prod.case
    proof (rule send_chunk_effect [unfolded wp_def, OF prems(1)], goal_cases)
      case (1 binding f s2)
      note chat = 1(1) and g = 1(4) and up = 1(5)
      show ?case
      proof (rule spelled_step [unfolded wp_def, OF rf len g],
          rule IH [unfolded wp_def, OF n refl rf refl 1(2) [symmetric] refl refl 1(3) [symmetric] refl refl], goal_cases)
        case 1
        show ?case using g prems(1) same_served [of s s2 c] by (simp add: grows_def)
      next
        case 2
        show ?case by (rule chunks_sent_snoc [OF prems(2) g prems(3) up]) (simp_all add: chat)
      next
        case 3
        show ?case using prems(3) g by (auto simp: grows_def intro: map_le_trans)
      qed
    qed
  qed
qed

lemma uploadMultipartPartChunks_effect:
  assumes srv: "served_by c s" and sz: "0 \<le> pt_Size input"
  shows "wp (uploadMultipartPartChunks env input body ct)
    (\<lambda>(chunks, etag, md5, n) s'. grows msgs s s' \<and>
       chunks_sent msgs (world s) s' (pt_Bucket input) chunks (rd_data body) \<and>
       rd_err body = None \<and> n = int (length (rd_data body)) \<and> n = pt_Size input \<and>
       md5 = ev_md5 env (rd_data body) \<and> etag = EncodeToString md5)
    (\<lambda>e s'. grows msgs s s') s"
proof -
  have loop: "wp (sbind (partLoop env input ct chunkSize [] [] (pt_Size input) 1 body) (\<lambda>(chunks, hashed, rest).
       sbind (slift (ReadAll rest)) (\<lambda>extra.
       if extra \<noteq> [] then sfail (size_error (i64 (pt_Size input + int (length extra))) (pt_Size input))
       else sret (chunks, EncodeToString (ev_md5 env hashed), ev_md5 env hashed, pt_Size input))))
    (\<lambda>(chunks, etag, md5, n) s'. grows msgs s s' \<and>
       chunks_sent msgs (world s) s' (pt_Bucket input) chunks (rd_data body) \<and>
       rd_err body = None \<and> n = int (length (rd_data body)) \<and> n = pt_Size input \<and>
       md5 = ev_md5 env (rd_data body) \<and> etag = EncodeToString md5)
    (\<lambda>e s'. grows msgs s s') s" for chunkSize
    unfolding wp_sbind [of "partLoop e i ct cs a b r p bd" for e i ct cs a b r p bd]
  proof (rule wp_mono [OF partLoop_effect [OF srv, where ?w0.0 = "world s"]], goal_cases)
    case (3 x s')
    obtain chunks hashed rest where x: "x = (chunks, hashed, rest)" by (cases x)
    show ?case
    proof (cases "ReadAll rest")
      case (Inr extra)
      then have e: "extra = drop (nat (pt_Size input)) (rd_data body)" "rd_err body = None"
        using 3 by (auto simp: x ReadAll_Inr spelled_def)
      show ?thesis unfolding x prod.case wp_sbind [of "slift r" for r] wp_slift Inr sum.case
        using 3 e sz by (cases "extra = []") (auto simp: x spelled_def wp_sfail wp_sret)
    qed (use 3 in \<open>simp add: x spelled_def wp_simps\<close>)
  qed (simp_all add: chunks_sent_def)
  show ?thesis
    unfolding uploadMultipartPartChunks_def Let_def wp_sbind [of "sget f" for f] wp_sget wp_if
    using loop by (auto simp: wp_sfail)
qed

text \<open>A part that was uploaded holds its body in messages that are new.\<close>

lemma UploadPart_effect:
  assumes srv: "served_by c s"
    and body: "body = (case pt_Body input of Some r \<Rightarrow> r | None \<Rightarrow> \<lparr>rd_data = [], rd_err = None\<rparr>)"
  shows "wp (UploadPart env input)
    (\<lambda>etag s'. grows msgs s s' \<and> 0 < pt_PartNumber input \<and> rd_err body = None \<and>
       int (length (rd_data body)) = pt_Size input \<and> etag = EncodeToString (ev_md5 env (rd_data body)) \<and>
       (\<exists>u p. find_upload (pt_UploadID input) (pt_Bucket input) (pt_Key input) s' = Some u \<and>
          map_of (mu_parts u) (pt_PartNumber input) = Some p \<and> mp_etag p = etag \<and>
          mp_md5Bytes p = ev_md5 env (rd_data body) \<and>
          part_holds (msgs (world s')) (bucketChatID s (pt_Bucket input)) p (rd_data body) \<and>
          (\<forall>m \<in> part_msgs (bucketChatID s (pt_Bucket input)) p. msgs (world s) m = None)))
    (\<lambda>e s'. grows msgs s s') s" (is "wp _ ?Q ?E s")
proof (cases "pt_PartNumber input < 1 \<or> pt_UploadID input = [] \<or> pt_Size input < 0")
  case True
  then show ?thesis by (simp add: UploadPart_def wp_sfail)
next
  case False
  have need: "quiet_act (need_upload i b k)" for i b k
    unfolding need_upload_def by (intro quiet_intro) (auto split: option.splits intro!: quiet_intro)
  have old: "quiet_act (case x of Some old \<Rightarrow> swhen (mp_chunks old \<noteq> []) (logMultipartPartOrphans b k old e) | None \<Rightarrow> sret ())"
    for x b k e
    unfolding logMultipartPartOrphans_def by (auto split: option.splits intro!: quiet_intro)
  show ?thesis
    unfolding UploadPart_def if_not_P [OF False] Let_def body [symmetric]
  proof (rule wp_quiet_step [OF need], goal_cases)
    case (1 upload s1)
    show ?case unfolding wp_sbind [of "sget f" for f] wp_sget
    proof (rule wp_quiet_step [OF quiet_acquire], goal_cases)
      case (1 x1 s2)
      then have q2: "quiet s s2" using \<open>quiet s s1\<close> by (blast intro: quiet_trans)
      then have srv2: "served_by c s2" and chat2: "bucketChatID s2 = bucketChatID s" and w2: "world s2 = world s"
        using srv same_served [of s s2 c] same_binding(2) [of s s2] by (simp_all add: quiet_def)
      show ?case unfolding wp_sbind [of "uploadMultipartPartChunks e i b ct" for e i b ct]
      proof (rule wp_mono [OF uploadMultipartPartChunks_effect [OF srv2]], goal_cases)
        case 1
        then show ?case using False by simp
      next
        case (2 x s3)
        obtain chunks etag md5 n where x: "x = (chunks, etag, md5, n)" by (cases x)
        have g3: "grows msgs s s3" using 2 q2 by (auto simp: x intro: quiet_grows_trans)
        have sent: "chunks_sent msgs (world s) s3 (pt_Bucket input) chunks (rd_data body)" using 2 by (simp add: x w2)
        show ?case unfolding x prod.case
        proof (rule wp_quiet_step [OF need], goal_cases)
          case (1 u s4)
          then have u: "mu_bucket u = pt_Bucket input" "mu_key u = pt_Key input"
            by (auto simp: need_upload_def find_upload_def sbind_def sget_def sret_def sfail_def
                split: option.splits if_splits)
          from 1 have q4: "quiet s3 s4" by simp
          show ?case
          proof (rule wp_quiet_step [OF old], goal_cases)
            case (1 x5 s5)
            then have g5: "grows msgs s s5" using q4 g3 by (blast intro: quiet_trans grows_quiet_trans)
            have sent5: "chunks_sent msgs (world s) s5 (pt_Bucket input) chunks (rd_data body)"
              using sent 1 q4 by (blast intro: chunks_sent_grows quiet_grows quiet_trans)
            have chat5: "bucketChatID s5 = bucketChatID s" using g5 by (simp add: grows_def same_binding)
            show ?case
              using 2 g5 sent5 False u
              by (auto simp: x wp_sbind wp_smodify wp_sret grows_def same_def find_upload_def set_upload_def
                  part_holds_def part_msgs_def chunks_sent_def chat5)
          qed (use q4 g3 in \<open>blast intro: grows_quiet_trans quiet_trans\<close>)
        qed (use g3 in \<open>blast intro: grows_quiet_trans\<close>)
      qed (use q2 in \<open>blast intro: quiet_grows_trans\<close>)
    qed (use 1 in \<open>blast intro: quiet_grows quiet_trans\<close>)
  qed (rule quiet_grows)
qed

end

subsection \<open>The completion\<close>

text \<open>The row that a completion writes refers to the messages of the parts.\<close>

lemma completed_replaced:
  assumes inv: "store_inv msgs s" and hold: "list_all2 (part_holds (msgs (world s)) (bucketChatID s b)) parts datas"
    and len: "in_i64 (int (length (concat datas)))"
    and new: "\<And>p bk'. p \<in> set parts \<Longrightarrow> part_msgs (bucketChatID s b) p \<inter> chunk_msgs s bk' = {}"
    and build: "buildMultipartObject env b k ct parts now = (ob, cks, etag)" and q: "quiet s s2"
    and s3: "bindings_of s3 = bindings_of s2" "world s3 = world s2" "tables_wf (tabs s2) \<longrightarrow> tables_wf (tabs s3)"
      "contents (tabs s3) = (contents (tabs s2))(ob_id ob \<mapsto> (scanObject (object_row ob), sort_key ck_PartNumber cks))"
  shows "replaced msgs s (b, k) (concat datas) (\<Union>p \<in> set parts. part_msgs (bucketChatID s b) p) s3"
proof -
  note ob = buildMultipartObject_ok [OF hold len build]
  have w2: "world s2 = world s" and b2: "bindings_of s2 = bindings_of s" using q by (simp_all add: quiet_def same_def)
  have chat2: "bucketChatID s2 = bucketChatID s" using b2 by (rule bindings_cong(2))
  have "store_inv msgs s3 \<and> object_bytes msgs s3 = (object_bytes msgs s)((b, k) \<mapsto> concat datas) \<and>
      (\<forall>bk'. chunk_msgs s3 bk' \<inter> chunk_msgs s (b, k) = {}) \<and>
      (\<forall>bk'. chunk_msgs s3 bk' = (if bk' = (b, k)
         then (\<lambda>ck. (bucketChatID s (fst (b, k)), ck_TelegramMessageID ck)) ` set cks else chunk_msgs s bk'))"
  proof (rule replace_refines [OF inv quiet_grows [OF q] _ ob(4) _ ob(1) s3(1,2,3) s3(4) [unfolded ob(2)]])
    show "chunk_bytes (msgs (world s2)) (bucketChatID s2 (fst (b, k))) cks = Some (concat datas)"
      using ob(3) by (simp add: w2 chat2)
    show "(\<lambda>ck. (bucketChatID s (fst (b, k)), ck_TelegramMessageID ck)) ` set cks \<inter> chunk_msgs s bk' = {}" for bk'
      using new [of _ bk'] ob(6) by auto
  qed
  with ob(6) quiet_grows [OF q] s3(1,2) show ?thesis unfolding replaced_def by (metis fst_conv)
qed

lemma quiet_uploads: "quiet s (s\<lparr>multipartUploads := mu\<rparr>)"
  by (simp add: quiet_def same_def)

context telegram_chat
begin

lemma CompleteMultipartUpload_effect:
  assumes inv: "store_inv msgs s" and served: "served_by c s"
    and u: "find_upload uploadID b k s = Some u" and parts: "completeParts u requested = Inr parts"
    and hold: "list_all2 (part_holds (msgs (world s)) (bucketChatID s b)) parts datas"
    and len: "in_i64 (int (length (concat datas)))"
    and new: "\<And>p bk'. p \<in> set parts \<Longrightarrow> part_msgs (bucketChatID s b) p \<inter> chunk_msgs s bk' = {}"
  shows "wp (CompleteMultipartUpload env b k uploadID requested)
    (\<lambda>etag s'. store_inv msgs s' \<and> served_by c s' \<and>
       object_bytes msgs s' = (object_bytes msgs s)((b, k) \<mapsto> concat datas) \<and>
       map_of (multipartUploads s') uploadID = None \<and>
       etag = EncodeToString (ev_md5 env (concat (map mp_md5Bytes parts))) @ ''-'' @ Itoa (int (length parts)) \<and>
       touches msgs s (b, k) s' \<and>
       chunk_msgs s' (b, k) = (\<Union>p \<in> set parts. part_msgs (bucketChatID s b) p))
    (\<lambda>e s'. quiet s s') s" (is "wp _ ?Q ?E s")
proof (cases "uploadID = [] \<or> requested = []")
  case True
  then show ?thesis by (simp add: CompleteMultipartUpload_def wp_sfail)
next
  case False
  have fin: "wp (sbind (logMetadataPutObject b k n et None) (\<lambda>_. sbind (cleanupReplacedChunks b k prev) (\<lambda>_.
      sbind (smodify (\<lambda>s. s\<lparr>multipartUploads := drop_upload uploadID (multipartUploads s)\<rparr>)) (\<lambda>_. sret etag)))) ?Q ?E s3"
    if q: "quiet s s2" and prev: "prev \<noteq> [] \<Longrightarrow> \<exists>ob. contents (tabs s) (b, k) = Some (ob, prev)"
      and b: "buildMultipartObject env b k (mu_contentType u) parts now = (ob, cks, etag)"
      and s3: "bindings_of s3 = bindings_of s2" "world s3 = world s2" "tables_wf (tabs s2) \<longrightarrow> tables_wf (tabs s3)"
        "contents (tabs s3) = (contents (tabs s2))(ob_id ob \<mapsto> (scanObject (object_row ob), sort_key ck_PartNumber cks))"
    for s2 s3 prev now ob cks etag n et
  proof -
    note ob = buildMultipartObject_ok [OF hold len b]
    have "replaced msgs s (b, k) (concat datas) (\<Union>p \<in> set parts. part_msgs (bucketChatID s b) p) s3"
      by (rule completed_replaced [OF inv hold len new b q s3])
    then have r: "replaced msgs s (b, k) (concat datas) (\<Union>p \<in> set parts. part_msgs (bucketChatID s b) p) (s3\<lparr>events := es\<rparr>)" for es
      by (rule replaced_quiet) (simp add: quiet_def same_def)
    show ?thesis
      unfolding logMetadataPutObject_def wp_sbind wp_emit
    proof (rule wp_mono [OF cleanup_overwrites [OF served r prev]], goal_cases)
      case (2 x s4)
      have "map_of (drop_upload uploadID m) uploadID = None" for m :: "(string \<times> multipartUpload) list"
        by (auto simp: drop_upload_def map_of_eq_None_iff)
      with overwritten_quiet [OF 2 quiet_uploads] ob(5) show ?case
        by (simp add: wp_smodify wp_sret overwritten_def)
    qed simp_all
  qed
  show ?thesis
    unfolding CompleteMultipartUpload_def if_not_P [OF False] need_upload_def
      wp_sbind [of "sbind m f" for m f] wp_sbind [of "sget f" for f] wp_sget u option.case wp_sbind [of "sret x" for x] wp_sret
      wp_sbind [of "slift r" for r] wp_slift parts sum.case
  proof (rule wp_quiet_step [OF quiet_previous], goal_cases)
    case (1 prev s1)
    have prev: "prev \<noteq> [] \<Longrightarrow> \<exists>ob. contents (tabs s) (b, k) = Some (ob, prev)"
      using previous_chunks_ok [OF 1(1)] by simp
    show ?case
    proof (rule wp_quiet_step [OF quiet_clock], goal_cases)
      case (1 now s2)
      then have q2: "quiet s s2" using \<open>quiet s s1\<close> by (blast intro: quiet_trans)
      obtain ob cks etag where b: "buildMultipartObject env b k (mu_contentType u) parts now = (ob, cks, etag)"
        by (metis prod.collapse)
      note ok = buildMultipartObject_ok [OF hold len b]
      show ?case unfolding b Let_def prod.case wp_sbind [of "stry m" for m] wp_stry
      proof (rule wp_PutObject [OF ok(7)], goal_cases)
        case (1 s3)
        then show ?case using fin [OF q2 prev b] by simp
      next
        case (2 e s3)
        then show ?case using q2 by (auto intro: wp_mono [OF log_fail(1)] quiet_trans)
      qed
    qed (use 1 in \<open>auto intro: quiet_trans\<close>)
  qed simp
qed

end

subsection \<open>The bound on open uploads\<close>

text \<open>The search finds an upload that no other is older than.\<close>

definition not_older :: "(string \<times> multipartUpload) list \<Rightarrow> string list \<Rightarrow> string \<Rightarrow> int \<Rightarrow> bool" where
  "not_older m ids r t \<longleftrightarrow> r \<noteq> [] \<and> (\<exists>u. map_of m r = Some u \<and> mu_createdAt u \<le> t \<and>
     (\<forall>i \<in> set ids. \<forall>v. map_of m i = Some v \<longrightarrow> mu_createdAt u \<le> mu_createdAt v))"

lemma oldest_upload_from:
  assumes "\<forall>i \<in> set ids. i \<noteq> []" "oid \<noteq> []" "map_of m oid = Some u" "mu_createdAt u = t"
  shows "not_older m ids (oldest_upload m oid t ids) t"
  using assms
proof (induction ids arbitrary: oid u t)
  case (Cons i ids)
  show ?case
  proof (cases "map_of m i")
    case None
    then show ?thesis using Cons.IH [of oid u t] Cons.prems by (auto simp: not_older_def)
  next
    case (Some v)
    show ?thesis
    proof (cases "mu_createdAt v < t")
      case True
      with Some Cons.IH [of i v "mu_createdAt v"] Cons.prems show ?thesis by (auto simp: not_older_def)
    next
      case False
      with Some Cons.IH [of oid u t] Cons.prems show ?thesis by (auto simp: not_older_def)
    qed
  qed
qed (simp add: not_older_def)

lemma oldest_upload_min:
  "\<forall>i \<in> set ids. i \<noteq> [] \<Longrightarrow> i \<in> set ids \<Longrightarrow> map_of m i \<noteq> None \<Longrightarrow> \<exists>t'. not_older m ids (oldest_upload m [] t ids) t'"
proof (induction ids)
  case (Cons j ids)
  show ?case
  proof (cases "map_of m j")
    case None
    with Cons have "i \<in> set ids" by auto
    with Cons None show ?thesis by (auto simp: not_older_def)
  next
    case (Some v)
    with oldest_upload_from [of ids j m v "mu_createdAt v"] Cons.prems show ?thesis
      by (auto simp: not_older_def)
  qed
qed simp

definition uploads_ok :: "'w ostate \<Rightarrow> bool" where
  "uploads_ok s \<longleftrightarrow> distinct (map fst (multipartUploads s)) \<and> [] \<notin> fst ` set (multipartUploads s) \<and>
     length (multipartUploads s) \<le> maxMultipartUploads"

lemma length_drop_upload:
  "distinct (map fst m) \<Longrightarrow> map_of m i \<noteq> None \<Longrightarrow> Suc (length (drop_upload i m)) = length m"
proof (induction m)
  case (Cons p m)
  have id: "map_of m i = None \<Longrightarrow> drop_upload i m = m"
    by (auto simp: drop_upload_def map_of_eq_None_iff filter_id_conv)
  show ?case
    using Cons id by (cases "fst p = i") (auto simp: drop_upload_def map_of_eq_None_iff)
qed simp

lemma map_of_drop_upload: "map_of (drop_upload i m) = (map_of m)(i := None)"
  by (induction m) (auto simp: drop_upload_def)

lemma map_of_set_upload: "map_of (set_upload i v m) = (map_of m)(i \<mapsto> v)"
  using map_of_drop_upload [of i m] by (auto simp: set_upload_def drop_upload_def)

lemma logs_keep_uploads: "multipartUploads (snd (logMultipartOrphansLocked i r s)) = multipartUploads s"
  by (auto simp: logMultipartOrphansLocked_def sbind_def sget_def sret_def swhen_def Let_def logOrphanUpload_def
      emit_def smodify_def split: option.split)

lemma logs_succeed: "fst (logMultipartOrphansLocked i r s) = Inr ()"
  by (auto simp: logMultipartOrphansLocked_def sbind_def sget_def sret_def swhen_def Let_def logOrphanUpload_def
      emit_def smodify_def split: option.split)

text \<open>The eviction, on a map of at most one upload too many.\<close>

lemma evict_effect:
  fixes s :: "'w ostate"
  assumes d: "distinct (map fst (multipartUploads s))" "[] \<notin> fst ` set (multipartUploads s)"
    "length (multipartUploads s) \<le> Suc maxMultipartUploads" and order: "\<And>n ids. set (ev_order env n ids) = set ids"
    and run: "evictOldestMultipartUploadLocked env s = (r, s')"
  shows "r = Inr () \<and> uploads_ok s' \<and>
    (multipartUploads s' = multipartUploads s \<or>
     length (multipartUploads s) = Suc maxMultipartUploads \<and>
     (\<exists>old u. map_of (multipartUploads s) old = Some u \<and>
       (\<forall>v \<in> ran (map_of (multipartUploads s)). mu_createdAt u \<le> mu_createdAt v) \<and>
       map_of (multipartUploads s') = (map_of (multipartUploads s))(old := None)))"
proof (cases "length (multipartUploads s) \<le> maxMultipartUploads")
  case True
  then show ?thesis using run d
    by (auto simp: evictOldestMultipartUploadLocked_def sbind_def sget_def sret_def uploads_ok_def)
next
  case False
  let ?m = "multipartUploads s"
  define ids where "ids = ev_order env (tick s) (map fst ?m)"
  define old where "old = oldest_upload ?m [] 0 ids"
  have ids: "set ids = fst ` set ?m" by (simp add: ids_def order)
  have some: "?m \<noteq> []" using False by auto
  then obtain i where i: "i \<in> set ids" "map_of ?m i \<noteq> None"
    by (metis ids hd_in_set image_eqI map_of_eq_None_iff)
  have "\<forall>i \<in> set ids. i \<noteq> []" using d(2) ids by metis
  from oldest_upload_min [OF this i, of 0] obtain u where ne: "old \<noteq> []" and u: "map_of ?m old = Some u"
    and min: "\<forall>i \<in> set ids. \<forall>v. map_of ?m i = Some v \<longrightarrow> mu_createdAt u \<le> mu_createdAt v"
    by (auto simp: not_older_def old_def)
  have min: "mu_createdAt u \<le> mu_createdAt v" if "v \<in> ran (map_of ?m)" for v
  proof -
    from that obtain i where "map_of ?m i = Some v" by (auto simp: ran_def)
    moreover from this have "i \<in> set ids" by (metis ids map_of_eq_None_iff option.distinct(1))
    ultimately show ?thesis using min by blast
  qed
  obtain s1 where s1: "logMultipartOrphansLocked old ''evict'' s = (Inr (), s1)" "multipartUploads s1 = ?m"
    using logs_succeed [of old "''evict''" s] logs_keep_uploads [of old "''evict''" s] by (metis prod.collapse)
  have run': "r = Inr ()" "s' = s1\<lparr>multipartUploads := drop_upload old ?m\<rparr>"
    using run False ne s1
    by (auto simp: evictOldestMultipartUploadLocked_def sbind_def sget_def sret_def Let_def swhen_def smodify_def
        ids_def [symmetric] old_def [symmetric])
  have len: "Suc (length (drop_upload old ?m)) = length ?m" using length_drop_upload [OF d(1)] u by simp
  have "uploads_ok s'"
    using d len by (auto simp: uploads_ok_def run' drop_upload_def distinct_map_filter)
  then show ?thesis using u min False d(3) by (auto simp: run' map_of_drop_upload)
qed


end
