(* ===== verification/MultiProps.thy ===== *)
theory MultiProps
  imports StoreProps MultiEffects
begin

text \<open>
  The properties of multipart uploads, with runs on the fake client.
\<close>

text \<open>The selection accepts the requested parts exactly if their numbers are positive and strictly
  ascending and each of them was uploaded with the ETag that is given.\<close>

lemma completeParts_accepts:
  "(completeParts u requested = Inr parts \<longleftrightarrow>
      sorted_wrt (<) (0 # map cp_PartNumber requested) \<and> list_all2 (part_accepted u) requested parts) \<and>
   completeParts u requested \<in> range Inr \<union> {Inl (Sent ErrInvalidPartOrder), Inl (Sent ErrInvalidPart)}"
proof -
  have "completeParts u requested \<in> range Inr \<union> {Inl (Sent ErrInvalidPartOrder), Inl (Sent ErrInvalidPart)}"
    using completePartsLoop_Inl [of "mu_parts u" 0 "[]" requested]
    by (cases "completeParts u requested") (auto simp: completeParts_def)
  then show ?thesis
    using completePartsLoop_Inr [of "mu_parts u" 0 "[]" requested parts]
    by (auto simp: completeParts_def part_accepted_def [abs_def])
qed

text \<open>For the evaluation by rewriting: the id is only computed when its bytes are there.\<close>

lemma newUploadID_run [code]:
  "newUploadID env s =
     (case rand_read env s of (Inr buf, s1) \<Rightarrow> (Inr (EncodeToString buf), s1) | (Inl e, s1) \<Rightarrow> (Inl e, s1))"
  by (simp add: newUploadID_def sbind_def sret_def split: prod.split sum.split)

text \<open>The runs of the witnesses: an upload of two parts, the first of two chunks.\<close>

definition demo_created :: "FakeTelegram ostate" where
  "demo_created = snd (CreateMultipartUpload demo_oenv ''b'' ''m'' ''text/plain'' demo_store)"

definition demo_id :: string where
  "demo_id = replicate 32 (CHR ''0'')"

definition demo_part :: "int \<Rightarrow> bytes \<Rightarrow> UploadPartInput" where
  "demo_part n data = \<lparr>pt_Bucket = ''b'', pt_Key = ''m'', pt_UploadID = demo_id, pt_PartNumber = n,
     pt_Size = int (length data), pt_Body = Some \<lparr>rd_data = data, rd_err = None\<rparr>\<rparr>"

definition demo_part1 :: "FakeTelegram ostate" where
  "demo_part1 = snd (UploadPart demo_oenv (demo_part 1 ''abcde'') demo_created)"

definition demo_part2 :: "FakeTelegram ostate" where
  "demo_part2 = snd (UploadPart demo_oenv (demo_part 2 ''fg'') demo_part1)"

definition demo_request :: "CompletedPart list" where
  "demo_request = [\<lparr>cp_PartNumber = 1, cp_ETag = ''6162''\<rparr>, \<lparr>cp_PartNumber = 2, cp_ETag = ''6667''\<rparr>]"

definition demo_upload :: multipartUpload where
  "demo_upload = the (find_upload demo_id ''b'' ''m'' demo_part2)"

definition demo_parts :: "multipartPart list" where
  "demo_parts = map (\<lambda>n. the (map_of (mu_parts demo_upload) n)) [1, 2]"

lemma demo_run_create: "fst (CreateMultipartUpload demo_oenv ''b'' ''m'' ''text/plain'' demo_store) = Inr demo_id"
  by code_simp

lemma demo_run_part1: "fst (UploadPart demo_oenv (demo_part 1 ''abcde'') demo_created) = Inr ''6162''"
  by code_simp

lemma demo_run_part2: "fst (UploadPart demo_oenv (demo_part 2 ''fg'') demo_part1) = Inr ''6667''"
  by code_simp

lemma demo_run_upload: "find_upload demo_id ''b'' ''m'' demo_part2 \<noteq> None"
  by code_simp

lemma demo_run_parts: "completeParts demo_upload demo_request = Inr demo_parts"
  by code_simp

lemma demo_run_hold:
  "list_all2 (part_holds (fake_msgs (world demo_part2)) (bucketChatID demo_part2 ''b'')) demo_parts [''abcde'', ''fg'']"
  by code_simp

lemma demo_run_complete:
  "fst (CompleteMultipartUpload demo_oenv ''b'' ''m'' demo_id demo_request demo_part2) = Inr ''6162-2''"
  by code_simp


lemma demo_create_eq:
  "CreateMultipartUpload demo_oenv ''b'' ''m'' ''text/plain'' demo_store = (Inr demo_id, demo_created)"
  and demo_part1_eq: "UploadPart demo_oenv (demo_part 1 ''abcde'') demo_created = (Inr ''6162'', demo_part1)"
  and demo_part2_eq: "UploadPart demo_oenv (demo_part 2 ''fg'') demo_part1 = (Inr ''6667'', demo_part2)"
  using demo_run_create demo_run_part1 demo_run_part2
  by (simp_all add: demo_created_def demo_part1_def demo_part2_def prod_eq_iff)

lemma quiet_CreateMultipartUpload: "quiet_act (CreateMultipartUpload env b k ct)"
  unfolding CreateMultipartUpload_def newUploadID_def evictOldestMultipartUploadLocked_def
    logMultipartOrphansLocked_def Let_def prod.case
  by (intro quiet_intro quiet_smodify) (auto simp: quiet_def same_def split: option.splits
      intro!: quiet_intro quiet_smodify)

lemma demo_sent_facts:
  "grows fake_msgs demo_store demo_created" "grows fake_msgs demo_created demo_part1" "grows fake_msgs demo_part1 demo_part2"
proof -
  show g1: "grows fake_msgs demo_store demo_created"
    using quiet_actD [OF quiet_CreateMultipartUpload demo_create_eq] by (rule quiet_grows)
  then have s1: "served_by fake_client demo_created"
    using demo_store_facts(2) same_served [of demo_store demo_created] by (simp add: grows_def)
  show g2: "grows fake_msgs demo_created demo_part1"
    using wp_Inr [OF telegram_chat.UploadPart_effect [OF fake.telegram_chat_axioms s1 refl] demo_part1_eq] by simp
  then have "served_by fake_client demo_part1"
    using s1 same_served [of demo_created demo_part1] by (simp add: grows_def)
  then show "grows fake_msgs demo_part1 demo_part2"
    using wp_Inr [OF telegram_chat.UploadPart_effect [OF fake.telegram_chat_axioms _ refl] demo_part2_eq] by simp
qed

lemma demo_part2_facts:
  "store_inv fake_msgs demo_part2" "served_by fake_client demo_part2" "chunk_msgs demo_part2 bk = {}"
proof -
  have g: "grows fake_msgs demo_store demo_part2" using demo_sent_facts by (blast intro: grows_trans)
  then show "store_inv fake_msgs demo_part2" by (rule store_inv_grows [OF demo_store_facts(1)])
  show "served_by fake_client demo_part2"
    using g demo_store_facts(2) same_served [of demo_store demo_part2] by (simp add: grows_def)
  have "tabs demo_part2 = tabs demo_store" using g by (simp add: grows_def same_def)
  then show "chunk_msgs demo_part2 bk = {}"
    by (simp add: chunk_msgs_def demo_store_def empty_tables_def contents_def find_object_def sqlite.defs)
qed

text \<open>C14: A part that is accepted is stored: its body had exactly the size announced, the ETag is the
  MD5 sum of it, the upload has the part under its number, the chunks of the part spell out the body
  in messages that were not there before, and neither the tables nor any older message changed.\<close>
theorem UploadPart_stores:
  assumes "telegram_chat c msgs" "served_by c s" "UploadPart env input s = (Inr etag, s')"
    and "pt_Body input = Some body"
  shows "int (length (rd_data body)) = pt_Size input \<and> rd_err body = None \<and>
    etag = EncodeToString (ev_md5 env (rd_data body)) \<and>
    tabs s' = tabs s \<and> msgs (world s) \<subseteq>\<^sub>m msgs (world s') \<and>
    (\<exists>u p. find_upload (pt_UploadID input) (pt_Bucket input) (pt_Key input) s' = Some u \<and>
       map_of (mu_parts u) (pt_PartNumber input) = Some p \<and> mp_etag p = etag \<and>
       part_holds (msgs (world s')) (bucketChatID s (pt_Bucket input)) p (rd_data body) \<and>
       (\<forall>m \<in> part_msgs (bucketChatID s (pt_Bucket input)) p. msgs (world s) m = None))"
proof -
  have "wp (UploadPart env input)
    (\<lambda>etag s'. grows msgs s s' \<and> 0 < pt_PartNumber input \<and> rd_err body = None \<and>
       int (length (rd_data body)) = pt_Size input \<and> etag = EncodeToString (ev_md5 env (rd_data body)) \<and>
       (\<exists>u p. find_upload (pt_UploadID input) (pt_Bucket input) (pt_Key input) s' = Some u \<and>
          map_of (mu_parts u) (pt_PartNumber input) = Some p \<and> mp_etag p = etag \<and>
          mp_md5Bytes p = ev_md5 env (rd_data body) \<and>
          part_holds (msgs (world s')) (bucketChatID s (pt_Bucket input)) p (rd_data body) \<and>
          (\<forall>m \<in> part_msgs (bucketChatID s (pt_Bucket input)) p. msgs (world s) m = None)))
    (\<lambda>e s'. grows msgs s s') s"
    by (rule telegram_chat.UploadPart_effect [OF assms(1,2)]) (simp add: assms(4))
  from wp_Inr [OF this assms(3)] show ?thesis by (auto simp: grows_def same_def)
qed

theorem UploadPart_stores_witness:
  "\<exists>u p. find_upload demo_id ''b'' ''m'' demo_part2 = Some u \<and> map_of (mu_parts u) 2 = Some p \<and>
     part_holds (fake_msgs (world demo_part2)) (bucketChatID demo_part1 ''b'') p ''fg''"
proof -
  have "served_by fake_client demo_part1"
    using demo_sent_facts(1,2) demo_store_facts(2) same_served [of demo_store demo_created]
      same_served [of demo_created demo_part1] by (simp add: grows_def)
  from UploadPart_stores [OF fake.telegram_chat_axioms this demo_part2_eq] show ?thesis
    by (auto simp: demo_part_def)
qed

text \<open>C13: A completion refines the update of a map: if the parts hold the byte strings \<open>datas\<close>, then after
  a completion that succeeds the key holds their concatenation in the order of the request, no
  other object has changed, the upload is gone, and the ETag is that of the MD5 sums of the parts with
  their number.\<close>
theorem CompleteMultipartUpload_refines:
  assumes "telegram_chat c msgs" "store_inv msgs s" "served_by c s"
    and "find_upload uploadID b k s = Some u" "completeParts u requested = Inr parts"
    and "list_all2 (part_holds (msgs (world s)) (bucketChatID s b)) parts datas" "in_i64 (int (length (concat datas)))"
    and "\<And>p bk'. p \<in> set parts \<Longrightarrow> part_msgs (bucketChatID s b) p \<inter> chunk_msgs s bk' = {}"
    and "CompleteMultipartUpload env b k uploadID requested s = (Inr etag, s')"
  shows "object_bytes msgs s' = (object_bytes msgs s)((b, k) \<mapsto> concat datas) \<and> store_inv msgs s' \<and> served_by c s' \<and>
    map_of (multipartUploads s') uploadID = None \<and>
    etag = EncodeToString (ev_md5 env (concat (map mp_md5Bytes parts))) @ ''-'' @ Itoa (int (length parts))"
  using wp_Inr [OF telegram_chat.CompleteMultipartUpload_effect [OF assms(1-8)] assms(9)] by simp

theorem CompleteMultipartUpload_refines_witness:
  "object_bytes fake_msgs (snd (CompleteMultipartUpload demo_oenv ''b'' ''m'' demo_id demo_request demo_part2))
     (''b'', ''m'') = Some ''abcdefg''"
proof -
  have run: "CompleteMultipartUpload demo_oenv ''b'' ''m'' demo_id demo_request demo_part2 =
      (Inr ''6162-2'', snd (CompleteMultipartUpload demo_oenv ''b'' ''m'' demo_id demo_request demo_part2))"
    using demo_run_complete by (simp add: prod_eq_iff)
  have u: "find_upload demo_id ''b'' ''m'' demo_part2 = Some demo_upload"
    using demo_run_upload by (auto simp: demo_upload_def)
  show ?thesis
    using CompleteMultipartUpload_refines [OF fake.telegram_chat_axioms demo_part2_facts(1,2) u demo_run_parts
        demo_run_hold _ _ run]
    by (simp add: demo_part2_facts(3) in_i64_def)
qed

text \<open>C16: The number of open uploads is bounded: creating one keeps at most 1000 of them, and if that
  is exceeded exactly one goes, which no other is older than; all others stay as they are. (With equal
  creation times the new one may be the one that goes.)\<close>
theorem CreateMultipartUpload_bounded:
  assumes "uploads_ok s" "\<And>n ids. set (ev_order env n ids) = set ids" "\<And>n buf. ev_rand env n = Inr buf \<Longrightarrow> buf \<noteq> []"
    and run: "CreateMultipartUpload env b k ct s = (Inr i, s')"
  shows "uploads_ok s' \<and> (\<exists>u. mu_bucket u = b \<and> mu_key u = k \<and> mu_contentType u = ct \<and> mu_parts u = [] \<and>
    (let m = (map_of (multipartUploads s))(i \<mapsto> u) in
       map_of (multipartUploads s') = m \<or>
       length (multipartUploads s) = maxMultipartUploads \<and> (\<exists>old v. m old = Some v \<and>
         (\<forall>w \<in> ran m. mu_createdAt v \<le> mu_createdAt w) \<and> map_of (multipartUploads s') = m(old := None))))"
proof -
  obtain buf s1 s2 r where head: "rand_read env s = (Inr buf, s1)" and i: "i = EncodeToString buf"
    and now: "clock_now env s1 = (Inr (fst s2), snd s2)"
    and ev: "evictOldestMultipartUploadLocked env ((snd s2)\<lparr>multipartUploads := set_upload i
        \<lparr>mu_bucket = b, mu_key = k, mu_contentType = ct, mu_createdAt = fst s2, mu_parts = []\<rparr>
        (multipartUploads (snd s2))\<rparr>) = (r, s')"
    using run unfolding CreateMultipartUpload_def newUploadID_def
    by (auto simp: sbind_Inr sret_def smodify_def HeadBucket_def split: if_splits)
  let ?u = "\<lparr>mu_bucket = b, mu_key = k, mu_contentType = ct, mu_createdAt = fst s2, mu_parts = []\<rparr>"
  have m: "multipartUploads (snd s2) = multipartUploads s"
    using head now by (auto simp: rand_read_def clock_now_def time_Now_def tick_up_def dest!: sym [of _ "snd s2"])
  let ?m = "set_upload i ?u (multipartUploads s)"
  have ne: "i \<noteq> []"
    using head assms(3) by (force simp: i rand_read_def EncodeToString_def Let_def)
  have len: "length ?m \<le> Suc (length (multipartUploads s))"
    by (simp add: set_upload_def)
  have ok: "distinct (map fst ?m)" "[] \<notin> fst ` set ?m" "length ?m \<le> Suc maxMultipartUploads"
    using assms(1) ne order_trans [OF len] by (auto simp: uploads_ok_def set_upload_def distinct_map_filter)
  have "uploads_ok s' \<and> (multipartUploads s' = ?m \<or> length ?m = Suc maxMultipartUploads \<and>
     (\<exists>old v. map_of ?m old = Some v \<and> (\<forall>w \<in> ran (map_of ?m). mu_createdAt v \<le> mu_createdAt w) \<and>
       map_of (multipartUploads s') = (map_of ?m)(old := None)))"
    using evict_effect [OF _ _ _ assms(2) ev] ok by (simp add: m)
  moreover have "length (multipartUploads s) = maxMultipartUploads" if "length ?m = Suc maxMultipartUploads"
    using that len assms(1) by (simp add: uploads_ok_def)
  ultimately show ?thesis
    unfolding Let_def
    by (intro conjI exI [of _ ?u], unfold map_of_set_upload [symmetric]) (simp, simp, simp, simp, simp, metis)
qed

theorem CreateMultipartUpload_bounded_witness:
  "uploads_ok (snd (CreateMultipartUpload demo_oenv ''b'' ''m'' ''text/plain'' demo_store))"
proof -
  obtain i s' where run: "CreateMultipartUpload demo_oenv ''b'' ''m'' ''text/plain'' demo_store = (Inr i, s')"
    by (simp add: CreateMultipartUpload_def sbind_def HeadBucket_def demo_store_def isBucketUnavailable_def
        newUploadID_def rand_read_def demo_oenv_def sret_def clock_now_def time_Now_def smodify_def sget_def
        evictOldestMultipartUploadLocked_def set_upload_def maxMultipartUploads_def tick_up_def
        sqlite.defs sqlite_env.defs)
  have "uploads_ok demo_store" by (simp add: uploads_ok_def demo_store_def sqlite.defs)
  from CreateMultipartUpload_bounded [OF this _ _ run] run show ?thesis
    by (simp add: demo_oenv_def sqlite_env.defs)
qed

end
