(* ===== verification/MultiAccept.thy ===== *)
theory MultiAccept
  imports MultiProps
begin

text \<open>Which completions of a multipart upload are accepted (CompleteMultipartUpload in
  internal/store/store.go): the steps after the selection of the parts cannot fail when the database
  does not, so that the checks alone decide, and each refusal leaves everything as it was.\<close>

text \<open>Steps that never fail.\<close>

named_theorems succeeds_intro \<open>steps that never fail\<close>

definition succeeds :: "('s, 'a) st \<Rightarrow> bool" where
  "succeeds m \<longleftrightarrow> (\<forall>s. \<exists>x s'. m s = (Inr x, s'))"

lemma succeeds_basic [succeeds_intro]:
  "succeeds (sret x)" "succeeds (sget f)" "succeeds (smodify g)" "succeeds (emit e)" "succeeds (stry m)"
  by (auto simp: succeeds_def sret_def sget_def smodify_def emit_def stry_def split: prod.split sum.split)

lemma succeeds_clock [succeeds_intro]: "succeeds (clock_now env)"
  by (simp add: succeeds_def clock_now_def time_Now_def)

lemma succeeds_sbind [succeeds_intro]: "succeeds m \<Longrightarrow> (\<And>x. succeeds (k x)) \<Longrightarrow> succeeds (sbind m k)"
  unfolding succeeds_def sbind_def by (metis (no_types, lifting) old.prod.case old.sum.simps(6))

lemma succeeds_sfor [succeeds_intro]: "(\<And>x. succeeds (f x)) \<Longrightarrow> succeeds (sfor xs f)"
  by (induction xs) (auto intro!: succeeds_intro)

lemma succeeds_cleanup [succeeds_intro]:
  "succeeds (previous_chunks env b k)" "succeeds (logMetadataPutObject b k n etag err)" "succeeds (cleanupReplacedChunks b k cks)"
  by (auto simp: previous_chunks_def logMetadataPutObject_def cleanupReplacedChunks_def intro!: succeeds_intro split: sum.split prod.split)

text \<open>Without a failure of the database the rows of an object and of numbered chunks can always be written.\<close>

lemma insert_chunks_succeeds:
  assumes "\<forall>n. sq_fault env n = None"
  shows "distinct (map ck_pk cks) \<Longrightarrow> \<forall>c \<in> set cks. ck_pk c \<notin> ck_pk ` set (tb_chunks (tabs s)) \<Longrightarrow>
    \<exists>s'. sfor cks (\<lambda>c. exec env (sql_insert_chunk c)) s = (Inr (), s')"
proof (induction cks arbitrary: s)
  case Nil
  then show ?case by (simp add: sret_def)
next
  case (Cons c cks)
  let ?s = "(tick_up s)\<lparr>tabs := (tabs s)\<lparr>tb_chunks := tb_chunks (tabs s) @ [c]\<rparr>\<rparr>"
  have "exec env (sql_insert_chunk c) s = (Inr (), ?s)"
    using Cons.prems(2) assms by (simp add: exec_def sql_insert_chunk_def)
  moreover have "\<exists>s'. sfor cks (\<lambda>c. exec env (sql_insert_chunk c)) ?s = (Inr (), s')"
    using Cons.prems by (intro Cons.IH) (auto, metis image_eqI)
  ultimately show ?case by (simp add: sbind_def)
qed

lemma PutObject_succeeds:
  assumes "\<forall>n. sq_fault env n = None" "chunks_for ob cks"
  shows "\<exists>s'. PutObject env ob cks s = (Inr (), s')"
proof -
  let ?id = "(ob_Bucket ob, ob_Key ob)"
  let ?s1 = "tick_up s"
  define s2 where "s2 = (tick_up ?s1)\<lparr>tabs := (tabs s)\<lparr>tb_chunks := filter (\<lambda>r. ck_id r \<noteq> ?id) (tb_chunks (tabs s))\<rparr>\<rparr>"
  define s3 where "s3 = (tick_up s2)\<lparr>tabs := (tabs s2)\<lparr>tb_objects := upsert_by ob_id (object_row ob) (tb_objects (tabs s2))\<rparr>\<rparr>"
  have e: "exec env (sql_delete_chunks (\<lambda>bk. bk = ?id)) ?s1 = (Inr (), s2)" "exec env (sql_upsert_object (object_row ob)) s2 = (Inr (), s3)"
    using assms(1) by (simp_all add: exec_def sql_delete_chunks_def sql_upsert_object_def s2_def s3_def)
  have ids: "\<forall>c \<in> set cks. ck_id c = ?id" "distinct (map ck_PartNumber cks)"
    using assms(2) by (simp_all add: chunks_for_def ob_id_def)
  have "distinct (map ck_pk cks)"
    using ids(2) by (auto simp: distinct_map ck_pk_def inj_on_def)
  moreover have "\<forall>c \<in> set cks. ck_pk c \<notin> ck_pk ` set (tb_chunks (tabs s3))"
    using ids(1) by (auto simp: s3_def s2_def ck_pk_def ck_id_def)
  ultimately obtain s4 where "sfor cks (\<lambda>c. exec env (sql_insert_chunk c)) s3 = (Inr (), s4)"
    using insert_chunks_succeeds [OF assms(1)] by blast
  with e have "PutObject env ob cks s = (Inr (), tick_up s4)"
    using assms(1) by (simp add: PutObject_body putObjectInTx_def in_tx_def sbind_def)
  then show ?thesis by blast
qed

lemma layout_numbers: "map ck_PartNumber (layout_chunks b k off n cs) = map (\<lambda>i. n + int i) [0..<length cs]"
proof (induction cs arbitrary: off n)
  case (Cons c cs)
  show ?case by (simp add: Cons.IH upt_conv_Cons map_Suc_upt [symmetric] del: upt_Suc)
qed simp

lemma built_chunks_for:
  "buildMultipartObject env b k ct parts now = (ob, cks, etag) \<Longrightarrow> chunks_for ob cks"
proof -
  assume "buildMultipartObject env b k ct parts now = (ob, cks, etag)"
  then have ob: "ob_id ob = (b, k)" and cks: "cks = layout_chunks b k 0 1 (concat (map mp_chunks parts))"
    by (auto simp: buildMultipartObject_def Let_def ob_id_def)
  have "distinct (map ck_PartNumber cks)"
    unfolding cks layout_numbers by (simp add: distinct_map inj_on_def)
  then show ?thesis
    using layout_chunks_id(1) by (auto simp: chunks_for_def ob cks)
qed

lemma put_step_succeeds:
  fixes m :: "('w ostate, 'b) st"
  assumes "\<forall>n. sq_fault env n = None" "chunks_for ob cks" "succeeds m"
  shows "succeeds (sbind (stry (PutObject env ob cks)) (\<lambda>r. case r of Inl err \<Rightarrow> f err | Inr _ \<Rightarrow> m))"
proof -
  have "stry (PutObject env ob cks) s = (Inr (Inr ()), snd (PutObject env ob cks s))" for s :: "'w ostate"
    using PutObject_succeeds [OF assms(1,2), of s] by (auto simp: stry_def)
  with assms(3) show ?thesis by (simp add: succeeds_def sbind_def)
qed

lemma CompleteMultipartUpload_succeeds:
  fixes s :: "'w ostate"
  assumes "\<forall>n. sq_fault env n = None" "i \<noteq> []" "requested \<noteq> []" "find_upload i b k s = Some u"
    and "completeParts u requested = Inr parts"
  shows "\<exists>etag s'. CompleteMultipartUpload env b k i requested s = (Inr etag, s')"
proof -
  let ?rest = "\<lambda>previousChunks. sbind (clock_now env) (\<lambda>now.
        let (object, chunks, etag) = buildMultipartObject env b k (mu_contentType u) parts now in
        sbind (stry (PutObject env object chunks)) (\<lambda>r.
          case r of
            Inl err \<Rightarrow> sbind (logMetadataPutObject b k (int (length chunks)) etag (Some err)) (\<lambda>_. sfail err)
          | Inr _ \<Rightarrow>
              sbind (logMetadataPutObject b k (int (length chunks)) etag None) (\<lambda>_.
              sbind (cleanupReplacedChunks b k previousChunks) (\<lambda>_.
              sbind (smodify (\<lambda>s :: 'w ostate. s\<lparr>multipartUploads := drop_upload i (multipartUploads s)\<rparr>)) (\<lambda>_.
              sret etag)))))"
  have "succeeds (sbind (previous_chunks env b k) ?rest :: ('w ostate, string) st)"
    by (rule succeeds_sbind [OF succeeds_cleanup(1)], rule succeeds_sbind [OF succeeds_clock])
      (auto simp: Let_def split: prod.split intro!: put_step_succeeds [OF assms(1)] built_chunks_for intro: succeeds_intro)
  moreover have "CompleteMultipartUpload env b k i requested s = sbind (previous_chunks env b k) ?rest s"
    using assms(2-) by (simp add: CompleteMultipartUpload_def need_upload_def sbind_def sget_def sret_def slift_def)
  ultimately show ?thesis by (simp add: succeeds_def)
qed

text \<open>C15: As long as the database does not fail, a completion succeeds exactly if it names an upload id
  and at least one part, the upload is open under that id for this bucket and key, the part numbers
  are positive and strictly ascending, and each of the parts was uploaded with the ETag that is given,
  quotes aside. Otherwise nothing changes, and the answer is ErrInvalidArgument without an id or a
  part, ErrNoSuchUpload without the upload, and a part out of order or an invalid part else.\<close>
theorem CompleteMultipartUpload_accepts:
  assumes "\<forall>n. sq_fault env n = None"
  shows "((\<exists>etag s'. CompleteMultipartUpload env b k i requested s = (Inr etag, s')) \<longleftrightarrow>
      i \<noteq> [] \<and> requested \<noteq> [] \<and> (\<exists>u parts. find_upload i b k s = Some u \<and>
        sorted_wrt (<) (0 # map cp_PartNumber requested) \<and> list_all2 (part_accepted u) requested parts)) \<and>
    (\<forall>e s'. CompleteMultipartUpload env b k i requested s = (Inl e, s') \<longrightarrow> s' = s \<and>
      (if i = [] \<or> requested = [] then e = Sent ErrInvalidArgument
       else if find_upload i b k s = None then e = Sent ErrNoSuchUpload
       else e = Sent ErrInvalidPartOrder \<or> e = Sent ErrInvalidPart))"
proof -
  let ?m = "CompleteMultipartUpload env b k i requested s"
  consider "i = [] \<or> requested = []" | "i \<noteq> []" "requested \<noteq> []" "find_upload i b k s = None"
    | u where "i \<noteq> []" "requested \<noteq> []" "find_upload i b k s = Some u" by blast
  then show ?thesis
  proof cases
    case 1
    then have "?m = (Inl (Sent ErrInvalidArgument), s)" by (auto simp: CompleteMultipartUpload_def sfail_def)
    with 1 show ?thesis by auto
  next
    case 2
    then have "?m = (Inl (Sent ErrNoSuchUpload), s)"
      by (simp add: CompleteMultipartUpload_def need_upload_def sbind_def sget_def sfail_def)
    with 2 show ?thesis by simp
  next
    case 3
    show ?thesis
    proof (cases "completeParts u requested")
      case (Inl e)
      then have "?m = (Inl e, s)"
        using 3 by (simp add: CompleteMultipartUpload_def need_upload_def sbind_def sget_def sret_def slift_def)
      with 3 Inl completeParts_accepts [of u requested] show ?thesis by auto
    next
      case (Inr parts)
      from CompleteMultipartUpload_succeeds [OF assms 3 Inr] completeParts_accepts [of u requested parts] Inr 3 show ?thesis by auto
    qed
  qed
qed

theorem CompleteMultipartUpload_accepts_witness:
  "(\<exists>etag s'. CompleteMultipartUpload demo_oenv ''b'' ''m'' demo_id demo_request demo_part2 = (Inr etag, s')) \<and>
   \<not> (\<exists>etag s'. CompleteMultipartUpload demo_oenv ''b'' ''m'' demo_id (rev demo_request) demo_part2 = (Inr etag, s')) \<and>
   \<not> (\<exists>etag s'. CompleteMultipartUpload demo_oenv ''b'' ''m'' demo_id [] demo_part2 = (Inr etag, s'))"
proof -
  have nofault: "\<forall>n. sq_fault demo_oenv n = None"
    by (simp add: demo_oenv_def demo_env_def sqlite_env.defs)
  have "\<exists>etag s'. CompleteMultipartUpload demo_oenv ''b'' ''m'' demo_id demo_request demo_part2 = (Inr etag, s')"
    using demo_run_complete by (metis prod.collapse)
  moreover have "\<not> sorted_wrt (<) (0 # map cp_PartNumber (rev demo_request))"
    by (simp add: demo_request_def)
  ultimately show ?thesis
    using CompleteMultipartUpload_accepts [OF nofault, of "''b''" "''m''" demo_id "rev demo_request" demo_part2]
      CompleteMultipartUpload_accepts [OF nofault, of "''b''" "''m''" demo_id "[]" demo_part2] by blast
qed

end
