(* ===== verification/StoreList.thy ===== *)
theory StoreList
  imports StoreGet MetaOps
begin

text \<open>
  \<^verbatim>\<open>ListObjects\<close> of \<^verbatim>\<open>store/store.go\<close>: pages of rows from the metadata store are turned into objects and
  common prefixes until the limit is reached; \<^verbatim>\<open>advanceContinuationPastPrefix\<close> skips the rest of the
  last common prefix. The specification, one pass over all rows, is in the theory of its properties.
\<close>

record ListObjectsInput =
  li_Bucket :: string
  li_Prefix :: string
  li_Delimiter :: string
  li_AfterKey :: string
  li_Limit :: int

record ListObjectsResult =
  lr_Objects :: "ObjectInfo list"
  lr_CommonPrefixes :: "string list"
  lr_Next :: string
  lr_IsTruncated :: bool

text \<open>The local variables of the loop besides the result.\<close>

record list_state =
  ls_Objects :: "ObjectInfo list"
  ls_Prefixes :: "string list"
  ls_Next :: string
  ls_seen :: "string set"
  ls_afterKey :: string
  ls_truncated :: bool
  ls_stop :: bool

definition emitted :: "list_state \<Rightarrow> int" where
  "emitted ls = int (length (ls_Objects ls)) + int (length (ls_Prefixes ls))"

definition emit_object :: "Object \<Rightarrow> list_state \<Rightarrow> list_state" where
  "emit_object ob ls = ls\<lparr>ls_Objects := ls_Objects ls @ [objectInfoFromMetadata ob], ls_Next := ob_Key ob,
     ls_afterKey := ob_Key ob\<rparr>"

definition pass_over :: "Object \<Rightarrow> list_state \<Rightarrow> list_state" where
  "pass_over ob ls = ls\<lparr>ls_Next := ob_Key ob, ls_afterKey := ob_Key ob\<rparr>"

definition emit_prefix :: "Object \<Rightarrow> string \<Rightarrow> list_state \<Rightarrow> list_state" where
  "emit_prefix ob p ls = ls\<lparr>ls_seen := insert p (ls_seen ls), ls_Prefixes := ls_Prefixes ls @ [p],
     ls_Next := ob_Key ob, ls_afterKey := ob_Key ob\<rparr>"

text \<open>The common prefix a row falls under, \<open>None\<close> for a row that is listed itself.\<close>

definition common_prefix :: "ListObjectsInput \<Rightarrow> Object \<Rightarrow> string option" where
  "common_prefix input ob =
     (if li_Delimiter input = [] then None
      else let remainder = TrimPrefix (ob_Key ob) (li_Prefix input) in
        case Index remainder (li_Delimiter input) of
          None \<Rightarrow> None
        | Some idx \<Rightarrow> Some (li_Prefix input @ take idx remainder @ li_Delimiter input))"

definition page_query :: "ListObjectsInput \<Rightarrow> string \<Rightarrow> int \<Rightarrow> ListQuery" where
  "page_query input afterKey n =
     \<lparr>lq_Bucket = li_Bucket input, lq_Prefix = li_Prefix input, lq_AfterKey = afterKey, lq_Limit = n\<rparr>"

subsection \<open>Skipping the rest of a common prefix\<close>

text \<open>The inner loop of \<^verbatim>\<open>advanceContinuationPastPrefix\<close>: the cursor and whether another row was met.\<close>

fun advanceScan :: "ListObjectsInput \<Rightarrow> string \<Rightarrow> string \<Rightarrow> Object list \<Rightarrow> string \<times> bool" where
  "advanceScan input prfx cursor [] = (cursor, False)"
| "advanceScan input prfx cursor (ob # obs) =
     (case Index (TrimPrefix (ob_Key ob) (li_Prefix input)) (li_Delimiter input) of
        None \<Rightarrow> (cursor, True)
      | Some idx \<Rightarrow>
          if li_Prefix input @ take idx (TrimPrefix (ob_Key ob) (li_Prefix input)) @ li_Delimiter input \<noteq> prfx
          then (cursor, True)
          else advanceScan input prfx (ob_Key ob) obs)"

lemma advanceScan_all: "advanceScan input p c obs = (c', False) \<Longrightarrow> c' = (if obs = [] then c else ob_Key (last obs))"
  by (induction obs arbitrary: c) (auto split: option.splits if_splits)

lemma page_last:
  assumes "ListObjects env (page_query input a n) s = (Inr objects, s')" "objects \<noteq> []" "0 < n"
  shows "length (rows_after env (li_Bucket input) (li_Prefix input) (ob_Key (last objects)) (tabs s')) <
    length (rows_after env (li_Bucket input) (li_Prefix input) a (tabs s))"
proof -
  note page = ListObjects_page [OF assms(1)]
  let ?rows = "take (nat n) (rows_after env (li_Bucket input) (li_Prefix input) a (tabs s))"
  from page(2) assms(3) have obs: "objects = map scanObject ?rows" by (simp add: page_query_def)
  with assms(2) have "?rows \<noteq> []" "ob_Key (last objects) = ob_Key (last ?rows)" by (auto simp: last_map)
  moreover from this have "last ?rows \<in> set (rows_after env (li_Bucket input) (li_Prefix input) a (tabs s))"
    using last_in_set in_set_takeD by metis
  ultimately show ?thesis using rows_after_shrinks page(1) by fastforce
qed

function advanceLoop :: "oenv \<Rightarrow> ListObjectsInput \<Rightarrow> string \<Rightarrow> string \<Rightarrow> ('w, string \<times> bool) act" where
  "advanceLoop env input prfx cursor s =
     (case ListObjects env (page_query input cursor 32) s of
        (Inl e, s') \<Rightarrow> (Inl e, s')
      | (Inr objects, s') \<Rightarrow>
          if objects = [] then (Inr (cursor, False), s')
          else (case advanceScan input prfx cursor objects of
              (cursor', True) \<Rightarrow> (Inr (cursor', True), s')
            | (cursor', False) \<Rightarrow>
                if length objects < 32 then (Inr (cursor', False), s')
                else advanceLoop env input prfx cursor' s'))"
  by pat_completeness auto
termination
proof (relation "measure (\<lambda>(env, input, p, c, s).
    length (rows_after env (li_Bucket input) (li_Prefix input) c (tabs s)))", goal_cases)
  case (2 env input prfx cursor s r s' objects cursor' b)
  then have l: "ListObjects env (page_query input cursor 32) s = (Inr objects, s')" and ne: "objects \<noteq> []"
    and sc: "advanceScan input prfx cursor objects = (cursor', False)" by simp_all
  from advanceScan_all [OF sc] ne have "cursor' = ob_Key (last objects)" by simp
  then show ?case using page_last [OF l ne] by simp
qed simp

declare advanceLoop.simps [simp del]

definition advanceContinuationPastPrefix :: "oenv \<Rightarrow> ListObjectsInput \<Rightarrow> string \<Rightarrow> string \<Rightarrow> ('w, string \<times> bool) act" where
  "advanceContinuationPastPrefix env input prfx afterKey = advanceLoop env input prfx afterKey"

subsection \<open>The listing\<close>

text \<open>The loop over the rows of a page; the flag is \<^verbatim>\<open>pageFull\<close>.\<close>

fun pageLoop :: "oenv \<Rightarrow> ListObjectsInput \<Rightarrow> int \<Rightarrow> Object list \<Rightarrow> list_state \<Rightarrow> ('w, list_state \<times> bool) act" where
  "pageLoop env input limit [] ls = sret (ls, False)"
| "pageLoop env input limit (ob # obs) ls =
     (case common_prefix input ob of
        None \<Rightarrow>
          if emitted ls \<ge> limit then sret (ls, True)
          else let ls1 = emit_object ob ls in
            if emitted ls1 \<ge> limit then sret (ls1, True) else pageLoop env input limit obs ls1
      | Some prfx \<Rightarrow>
          if prfx \<in> ls_seen ls then pageLoop env input limit obs (pass_over ob ls)
          else if emitted ls \<ge> limit then sret (ls, True)
          else let ls1 = emit_prefix ob prfx ls in
            if emitted ls1 \<ge> limit then
              sbind (advanceContinuationPastPrefix env input prfx (ls_afterKey ls1)) (\<lambda>(lastKey, hasMore).
                sret (ls1\<lparr>ls_Next := lastKey, ls_afterKey := lastKey, ls_truncated := hasMore, ls_stop := True\<rparr>,
                      False))
            else pageLoop env input limit obs ls1)"

definition query_limit :: "int \<Rightarrow> list_state \<Rightarrow> int" where
  "query_limit limit ls =
     (let q = i64 (i64 ((limit - emitted ls) * 4) + 1) in if q < 2 then 2 else q)"

lemma query_limit_pos: "0 < query_limit limit ls"
  by (simp add: query_limit_def Let_def)

lemma reads_only_advanceLoop: "tabs (snd (advanceLoop env input p c s)) = tabs s"
proof (induction env input p c s rule: advanceLoop.induct)
  case (1 env input p c s)
  obtain r s' where l: "ListObjects env (page_query input c 32) s = (r, s')" by fastforce
  have t: "tabs s' = tabs s" using reads_onlyD [OF reads_only_ListObjects l] .
  show ?case
    using 1 [OF l [symmetric]] l t
    by (subst advanceLoop.simps) (auto split: sum.splits prod.splits bool.splits)
qed

lemma reads_only_pageLoop: "tabs (snd (pageLoop env input limit obs ls s)) = tabs s"
proof (induction obs arbitrary: ls s)
  case Nil then show ?case by (simp add: sret_def)
next
  case (Cons ob obs)
  then show ?case
    using reads_only_advanceLoop [of env input _ _ s]
    by (auto simp: Let_def sbind_def sret_def advanceContinuationPastPrefix_def
        split: option.splits prod.splits sum.splits) (metis snd_conv)+
qed

lemma list_state_simps [simp]:
  "ls_afterKey (emit_object ob l) = ob_Key ob" "ls_afterKey (pass_over ob l) = ob_Key ob"
  "ls_afterKey (emit_prefix ob p l) = ob_Key ob" "ls_stop (emit_object ob l) = ls_stop l"
  "ls_stop (pass_over ob l) = ls_stop l" "ls_stop (emit_prefix ob p l) = ls_stop l"
  "ls_Next (emit_object ob l) = ob_Key ob" "ls_Next (pass_over ob l) = ob_Key ob"
  "ls_Next (emit_prefix ob p l) = ob_Key ob"
  "ls_truncated (emit_object ob l) = ls_truncated l" "ls_truncated (pass_over ob l) = ls_truncated l"
  "ls_truncated (emit_prefix ob p l) = ls_truncated l"
  "ls_seen (emit_object ob l) = ls_seen l" "ls_seen (pass_over ob l) = ls_seen l"
  "ls_seen (emit_prefix ob p l) = insert p (ls_seen l)"
  "emitted (emit_object ob l) = emitted l + 1" "emitted (pass_over ob l) = emitted l"
  "emitted (emit_prefix ob p l) = emitted l + 1"
  by (simp_all add: emit_object_def pass_over_def emit_prefix_def emitted_def)

lemma pageLoop_after:
  "pageLoop env input limit obs ls s = (Inr (ls', False), s') \<Longrightarrow> \<not> ls_stop ls' \<Longrightarrow>
     ls_afterKey ls' = (if obs = [] then ls_afterKey ls else ob_Key (last obs))"
proof (induction obs arbitrary: ls)
  case (Cons ob obs)
  show ?case using Cons.prems
    by (auto simp: Let_def sbind_Inr split: option.splits if_splits dest!: Cons.IH)
qed simp

function listLoop :: "oenv \<Rightarrow> ListObjectsInput \<Rightarrow> int \<Rightarrow> list_state \<Rightarrow> ('w, list_state) act" where
  "listLoop env input limit ls s =
     (if emitted ls \<ge> limit then (Inr ls, s)
      else
        let queryLimit = query_limit limit ls in
        case ListObjects env (page_query input (ls_afterKey ls) queryLimit) s of
          (Inl e, s1) \<Rightarrow> (Inl e, s1)
        | (Inr objects, s1) \<Rightarrow>
            if objects = [] then (Inr ls, s1)
            else (case pageLoop env input limit objects ls s1 of
                (Inl e, s2) \<Rightarrow> (Inl e, s2)
              | (Inr (ls', pageFull), s2) \<Rightarrow>
                  if ls_stop ls' then (Inr ls', s2)
                  else if pageFull then (Inr ls', s2)
                  else if int (length objects) < queryLimit then (Inr ls', s2)
                  else listLoop env input limit ls' s2))"
  by pat_completeness auto
termination
proof (relation "measure (\<lambda>(env, input, limit, ls, s).
    length (rows_after env (li_Bucket input) (li_Prefix input) (ls_afterKey ls) (tabs s)))", goal_cases)
  case (2 env input limit ls s q r s1 objects r2 s2 x ls' pageFull)
  then have l: "ListObjects env (page_query input (ls_afterKey ls) (query_limit limit ls)) s = (Inr objects, s1)"
    and ne: "objects \<noteq> []" and p: "pageLoop env input limit objects ls s1 = (Inr (ls', False), s2)"
    and st: "\<not> ls_stop ls'" by auto
  have "ls_afterKey ls' = ob_Key (last objects)" using pageLoop_after [OF p st] ne by simp
  moreover have "tabs s2 = tabs s1" using reads_only_pageLoop [of env input limit objects ls s1] p by simp
  ultimately show ?case using page_last [OF l ne query_limit_pos] by simp
qed simp

declare listLoop.simps [simp del]

definition Store_ListObjects :: "oenv \<Rightarrow> ListObjectsInput \<Rightarrow> ('w, ListObjectsResult) act" where
  "Store_ListObjects env input =
     sbind (HeadBucket (li_Bucket input)) (\<lambda>_.
     let limit = (if li_Limit input < 0 then 1000 else li_Limit input) in
     sbind (listLoop env input limit
       \<lparr>ls_Objects = [], ls_Prefixes = [], ls_Next = [], ls_seen = {}, ls_afterKey = li_AfterKey input,
        ls_truncated = False, ls_stop = False\<rparr>) (\<lambda>ls.
     sbind (if ls_Next ls = [] then sret False
            else if ls_truncated ls then sret True
            else sbind (ListObjects env (page_query input (ls_Next ls) 1)) (\<lambda>next. sret (next \<noteq> [])))
       (\<lambda>truncated.
     sret \<lparr>lr_Objects = ls_Objects ls, lr_CommonPrefixes = ls_Prefixes ls, lr_Next = ls_Next ls,
           lr_IsTruncated = truncated\<rparr>)))"

end
