(* ===== verification/StoreListProps.thy ===== *)
theory StoreListProps
  imports StoreList StoreProps
begin

text \<open>
  The listing of the object store refines one pass over the sorted rows. \<open>entries\<close> is that pass: rows
  without a common prefix are listed, each common prefix is listed once. A page is the first entries
  of the pass, and the next page goes on where it stopped.
\<close>

subsection \<open>The pass over all rows\<close>

fun entries :: "ListObjectsInput \<Rightarrow> string set \<Rightarrow> Object list \<Rightarrow> (Object + string) list" where
  "entries input seen [] = []"
| "entries input seen (ob # obs) =
     (case common_prefix input ob of
        None \<Rightarrow> Inl ob # entries input seen obs
      | Some p \<Rightarrow> if p \<in> seen then entries input seen obs else Inr p # entries input (insert p seen) obs)"

definition listed :: "(Object + string) list \<Rightarrow> ObjectInfo list" where
  "listed es = map objectInfoFromMetadata (List.map_filter (\<lambda>e. case e of Inl ob \<Rightarrow> Some ob | Inr _ \<Rightarrow> None) es)"

definition commons :: "(Object + string) list \<Rightarrow> string list" where
  "commons es = List.map_filter (\<lambda>e. case e of Inl _ \<Rightarrow> None | Inr p \<Rightarrow> Some p) es"

lemma listed_simps [simp]:
  "listed [] = []" "listed (Inl ob # es) = objectInfoFromMetadata ob # listed es" "listed (Inr p # es) = listed es"
  "listed (es @ fs) = listed es @ listed fs"
  by (simp_all add: listed_def map_filter_simps) (simp add: List.map_filter_def)

lemma commons_simps [simp]:
  "commons [] = []" "commons (Inl ob # es) = commons es" "commons (Inr p # es) = p # commons es"
  "commons (es @ fs) = commons es @ commons fs"
  by (simp_all add: commons_def map_filter_simps) (simp add: List.map_filter_def)

lemma length_entries: "length (listed es) + length (commons es) = length es"
proof (induction es)
  case (Cons e es)
  then show ?case by (cases e) simp_all
qed simp

definition seen_after :: "ListObjectsInput \<Rightarrow> string set \<Rightarrow> Object list \<Rightarrow> string set" where
  "seen_after input seen obs = seen \<union> {p. \<exists>ob \<in> set obs. common_prefix input ob = Some p}"

lemma seen_after_simps [simp]:
  "seen_after input seen [] = seen"
  "seen_after input seen (ob # obs) = seen_after input
     (case common_prefix input ob of None \<Rightarrow> seen | Some p \<Rightarrow> insert p seen) obs"
  by (auto simp: seen_after_def split: option.split)

lemma entries_append: "entries input seen (xs @ ys) = entries input seen xs @ entries input (seen_after input seen xs) ys"
  by (induction xs arbitrary: seen) (auto split: option.split simp: insert_absorb)

lemma entries_seen: "\<forall>ob \<in> set obs. \<exists>p \<in> seen. common_prefix input ob = Some p \<Longrightarrow> entries input seen obs = []"
  by (induction obs) auto

lemma entries_fresh:
  "\<forall>ob \<in> set obs. \<forall>p \<in> seen. common_prefix input ob \<noteq> Some p \<Longrightarrow> entries input (seen \<union> seen') obs = entries input seen' obs"
  by (induction obs arbitrary: seen') (auto split: option.split simp flip: Un_insert_right)

subsection \<open>How far the loop went\<close>

definition went :: "ListObjectsInput \<Rightarrow> list_state \<Rightarrow> Object list \<Rightarrow> list_state \<Rightarrow> bool" where
  "went input ls xs ls' \<longleftrightarrow>
     ls_Objects ls' = ls_Objects ls @ listed (entries input (ls_seen ls) xs) \<and>
     ls_Prefixes ls' = ls_Prefixes ls @ commons (entries input (ls_seen ls) xs) \<and>
     ls_seen ls' = seen_after input (ls_seen ls) xs \<and>
     (if xs = [] then ls_Next ls' = ls_Next ls \<and> ls_afterKey ls' = ls_afterKey ls
      else ls_Next ls' = ob_Key (last xs) \<and> ls_afterKey ls' = ob_Key (last xs))"

lemma went_refl [simp]: "went input ls [] ls"
  by (simp add: went_def)

lemma went_trans: "went input ls xs ls1 \<Longrightarrow> went input ls1 ys ls2 \<Longrightarrow> went input ls (xs @ ys) ls2"
  unfolding went_def
  by (auto simp: entries_append seen_after_def split: if_splits)

lemma went_steps:
  "common_prefix input ob = None \<Longrightarrow> went input ls [ob] (emit_object ob ls)"
  "common_prefix input ob = Some p \<Longrightarrow> p \<in> ls_seen ls \<Longrightarrow> went input ls [ob] (pass_over ob ls)"
  "common_prefix input ob = Some p \<Longrightarrow> p \<notin> ls_seen ls \<Longrightarrow> went input ls [ob] (emit_prefix ob p ls)"
  by (auto simp: went_def emit_object_def pass_over_def emit_prefix_def)

lemma went_emitted: "went input ls xs ls' \<Longrightarrow> emitted ls' = emitted ls + int (length (entries input (ls_seen ls) xs))"
  using length_entries [of "entries input (ls_seen ls) xs"] by (simp add: went_def emitted_def)

text \<open>Between the rows that were passed and the rest, no common prefix is cut in two.\<close>

definition clean_cut :: "ListObjectsInput \<Rightarrow> Object list \<Rightarrow> Object list \<Rightarrow> bool" where
  "clean_cut input xs ys \<longleftrightarrow> xs = [] \<or> ys = [] \<or> common_prefix input (last xs) = None \<or>
     common_prefix input (hd ys) \<noteq> common_prefix input (last xs)"

abbreviation rest_of :: "Object list \<Rightarrow> string \<Rightarrow> Object list" where
  "rest_of rows a \<equiv> filter (\<lambda>r. a < ob_Key r) rows"

lemma rest_of_rest:
  assumes "sorted_wrt (<) (map ob_Key rows)" "rest_of rows a = xs @ ys" "xs \<noteq> []"
  shows "rest_of rows (ob_Key (last xs)) = ys"
proof -
  obtain zs z where xs: "xs = zs @ [z]" using assms(3) by (cases xs rule: rev_cases) auto
  have "sorted_wrt (<) (map ob_Key (rest_of rows a))"
    using assms(1) by (induction rows) auto
  then have sw: "\<forall>x \<in> set zs. ob_Key x < ob_Key z" "\<forall>y \<in> set ys. ob_Key z < ob_Key y"
    by (auto simp: assms(2) xs sorted_wrt_append)
  have "z \<in> set (rest_of rows a)" by (simp add: assms(2) xs)
  then have "a < ob_Key z" by simp
  then have "rest_of rows (ob_Key z) = rest_of (rest_of rows a) (ob_Key z)"
    by (auto intro!: filter_cong)
  also have "\<dots> = ys"
    using sw by (auto simp: assms(2) xs filter_empty_conv filter_id_conv)
  finally show ?thesis by (simp add: xs)
qed

subsection \<open>The loops\<close>

lemma store_page:
  assumes "ListObjects env (page_query input a n) s = (Inr obs, s')" "0 < n"
  shows "obs = take (nat n) (rest_of (prefix_listing env (li_Bucket input) (li_Prefix input) (tabs s)) a) \<and> tabs s' = tabs s"
  using sqlite_pages.page_ok [of "nat n" env "li_Bucket input" "li_Prefix input" a s obs s'] assms
    reads_onlyD [OF reads_only_ListObjects assms(1)]
  by (simp add: page_query_def)

lemma advanceScan_takeWhile:
  assumes "li_Delimiter input \<noteq> []"
  shows "advanceScan input p c obs =
    (let ws = takeWhile (\<lambda>ob. common_prefix input ob = Some p) obs in
      (if ws = [] then c else ob_Key (last ws), ws \<noteq> obs))"
  by (induction obs arbitrary: c) (auto simp: assms common_prefix_def Let_def split: option.split)

lemma advanceLoop_rows:
  assumes "advanceLoop env input p c s = (Inr (c', more'), s')" "li_Delimiter input \<noteq> []" "tables_wf (tabs s)"
    and rows: "rows = prefix_listing env (li_Bucket input) (li_Prefix input) (tabs s)"
  shows "\<exists>ws. rest_of rows c = ws @ rest_of rows c' \<and> (\<forall>ob \<in> set ws. common_prefix input ob = Some p) \<and>
    c' = (if ws = [] then c else ob_Key (last ws)) \<and> (more' \<longleftrightarrow> rest_of rows c' \<noteq> []) \<and>
    (more' \<longrightarrow> common_prefix input (hd (rest_of rows c')) \<noteq> Some p) \<and> tabs s' = tabs s"
  using assms
proof (induction env input p c s rule: advanceLoop.induct)
  case (1 env input p c s)
  let ?Z = "rest_of rows c" and ?P = "\<lambda>ob. common_prefix input ob = Some p"
  have sw: "sorted_wrt (<) (map ob_Key rows)" unfolding "1.prems"(4) by (rule sqlite_pages.rows_sorted) (rule "1.prems"(3))
  obtain r s1 where l: "ListObjects env (page_query input c 32) s = (r, s1)" by fastforce
  with "1.prems"(1) obtain obs where r: "r = Inr obs"
    by (cases r) (simp_all add: advanceLoop.simps)
  note page = store_page [OF l [unfolded r], simplified, folded "1.prems"(4)]
  define ws where "ws = takeWhile ?P obs"
  have sc: "advanceScan input p c obs = (if ws = [] then c else ob_Key (last ws), ws \<noteq> obs)"
    by (simp add: advanceScan_takeWhile [OF "1.prems"(2)] ws_def Let_def)
  obtain R where Z: "?Z = obs @ R" using page by (metis append_take_drop_id)
  show ?case
  proof (cases "ws = obs")
    case False
    have obs: "obs = ws @ dropWhile ?P obs" "dropWhile ?P obs \<noteq> []" "\<not> ?P (hd (dropWhile ?P obs))"
      using False hd_dropWhile [of ?P obs] by (auto simp: ws_def takeWhile_eq_all_conv)
    have "obs \<noteq> []" using False by (auto simp: ws_def)
    with "1.prems"(1) l r sc False have res: "c' = (if ws = [] then c else ob_Key (last ws))" "more'" "s' = s1"
      by (auto simp: advanceLoop.simps [of env input p c s])
    have Zw: "?Z = ws @ (dropWhile ?P obs @ R)" using Z obs(1) by (metis append_assoc)
    have rest: "rest_of rows c' = dropWhile ?P obs @ R"
      using Zw rest_of_rest [OF sw Zw] by (cases "ws = []") (simp_all add: res)
    have "\<forall>ob \<in> set ws. ?P ob" by (auto simp: ws_def dest: set_takeWhileD)
    then show ?thesis
      unfolding rest using Zw obs(2,3) conjunct2 [OF page] res by (intro exI [of _ ws] conjI) simp_all
  next
    case True
    have all: "\<forall>ob \<in> set obs. ?P ob" using True by (metis ws_def set_takeWhileD)
    show ?thesis
    proof (cases "obs = [] \<or> length obs < 32")
      case stop: True
      then have res: "c' = (if obs = [] then c else ob_Key (last obs))" "\<not> more'" "s' = s1"
        using "1.prems"(1) l r sc True by (auto simp: advanceLoop.simps [of env input p c s] split: if_split_asm)
      have Zo: "?Z = obs @ []" using stop page by (auto simp: min_def split: if_splits)
      have "rest_of rows c' = []" using Zo rest_of_rest [OF sw Zo] by (cases "obs = []") (simp_all add: res)
      then show ?thesis using Zo all conjunct2 [OF page] res by (intro exI [of _ obs] conjI) simp_all
    next
      case False
      let ?c1 = "ob_Key (last obs)"
      have rec: "advanceLoop env input p ?c1 s1 = (Inr (c', more'), s')"
        using "1.prems"(1) False l r sc True by (simp add: advanceLoop.simps [of env input p c s])
      have rest: "rest_of rows ?c1 = R" by (rule rest_of_rest [OF sw Z]) (use False in simp)
      have t1: "tabs s1 = tabs s" using page by simp
      have sc': "advanceScan input p c obs = (?c1, False)" using sc True False by simp
      have "\<exists>ws. rest_of rows ?c1 = ws @ rest_of rows c' \<and> (\<forall>ob \<in> set ws. common_prefix input ob = Some p) \<and>
        c' = (if ws = [] then ?c1 else ob_Key (last ws)) \<and> (more' \<longleftrightarrow> rest_of rows c' \<noteq> []) \<and>
        (more' \<longrightarrow> common_prefix input (hd (rest_of rows c')) \<noteq> Some p) \<and> tabs s' = tabs s1"
        by (rule "1.IH" [OF l [unfolded r, symmetric] refl _ sc' [symmetric] refl _ rec])
          (use False "1.prems" t1 in auto)
      then obtain ws' where w: "rest_of rows ?c1 = ws' @ rest_of rows c'" "\<forall>ob \<in> set ws'. ?P ob"
        "c' = (if ws' = [] then ?c1 else ob_Key (last ws'))" "more' \<longleftrightarrow> rest_of rows c' \<noteq> []"
        "more' \<longrightarrow> \<not> ?P (hd (rest_of rows c'))" "tabs s' = tabs s1" by blast
      have "?Z = (obs @ ws') @ rest_of rows c'" using Z rest w(1) by simp
      moreover have "c' = (if obs @ ws' = [] then c else ob_Key (last (obs @ ws')))"
        using False by (subst w(3)) simp
      moreover have "\<forall>ob \<in> set (obs @ ws'). ?P ob" using all w(2) by auto
      ultimately show ?thesis using w(4,5,6) t1 by metis
    qed
  qed
qed

lemma went_rest:
  assumes "went input ls xs ls'" "rest_of rows (ls_afterKey ls) = xs @ ys" "sorted_wrt (<) (map ob_Key rows)"
  shows "rest_of rows (ls_afterKey ls') = ys"
  using assms rest_of_rest [OF assms(3,2)] by (cases "xs = []") (simp_all add: went_def)

lemma went_skip:
  assumes "\<forall>ob \<in> set ws. common_prefix input ob = Some p" "p \<in> ls_seen ls"
    "k = (if ws = [] then ls_afterKey ls else ob_Key (last ws))" "ls_Next ls = ls_afterKey ls"
  shows "went input ls ws (ls\<lparr>ls_Next := k, ls_afterKey := k, ls_truncated := t, ls_stop := st\<rparr>)"
proof -
  have "entries input (ls_seen ls) ws = []" using assms(1,2) by (intro entries_seen) blast
  moreover have "seen_after input (ls_seen ls) ws = ls_seen ls" using assms(1,2) by (auto simp: seen_after_def)
  ultimately show ?thesis using assms(3,4) by (simp add: went_def)
qed

text \<open>What a loop has left: if it is full, a clean cut; otherwise it has seen its rows.\<close>

definition cut_at :: "ListObjectsInput \<Rightarrow> int \<Rightarrow> list_state \<Rightarrow> Object list \<Rightarrow> Object list \<Rightarrow> list_state \<Rightarrow> bool" where
  "cut_at input limit ls xs ys ls' \<longleftrightarrow> went input ls xs ls' \<and> emitted ls' = limit \<and> xs \<noteq> [] \<and> clean_cut input xs ys \<and>
     (ls_truncated ls' \<longrightarrow> ys \<noteq> [])"

lemma cut_at_trans:
  assumes "went input ls xs ls1" "cut_at input limit ls1 xs' ys ls'"
  shows "cut_at input limit ls (xs @ xs') ys ls'"
  using assms went_trans [OF assms(1), of xs' ls'] by (auto simp: cut_at_def clean_cut_def)

lemma pageLoop_rows:
  assumes "pageLoop env input limit obs ls s = (Inr (ls', full), s')" "emitted ls < limit" "tables_wf (tabs s)"
    and rows: "rows = prefix_listing env (li_Bucket input) (li_Prefix input) (tabs s)"
    and "rest_of rows (ls_afterKey ls) = obs @ R" "\<not> ls_truncated ls" "\<not> ls_stop ls"
  shows "tabs s' = tabs s \<and>
    (if full \<or> ls_stop ls' then \<exists>xs ys. obs @ R = xs @ ys \<and> cut_at input limit ls xs ys ls'
     else went input ls obs ls' \<and> emitted ls' < limit \<and> \<not> ls_truncated ls')"
  using assms(1,2,5-)
proof (induction obs arbitrary: ls)
  case Nil
  then show ?case by (auto simp: sret_def)
next
  case (Cons ob obs)
  have sw: "sorted_wrt (<) (map ob_Key rows)" unfolding rows by (rule sqlite_pages.rows_sorted) (rule assms(3))
  have rest: "rest_of rows (ls_afterKey ls) = [ob] @ (obs @ R)" using Cons.prems(3) by simp
  have step: ?case if w: "went input ls [ob] ls1" and p: "pageLoop env input limit obs ls1 s = (Inr (ls', full), s')"
    "emitted ls1 < limit" "\<not> ls_truncated ls1" "\<not> ls_stop ls1" for ls1
  proof (cases "full \<or> ls_stop ls'")
    case True
    with Cons.IH [OF p(1,2) went_rest [OF w rest sw] p(3,4)] obtain xs ys where
      "tabs s' = tabs s" "obs @ R = xs @ ys" "cut_at input limit ls1 xs ys ls'" by auto
    with True cut_at_trans [OF w] show ?thesis by (metis append_Cons append_Nil)
  next
    case False
    with Cons.IH [OF p(1,2) went_rest [OF w rest sw] p(3,4)] went_trans [OF w, of obs ls'] show ?thesis by simp
  qed
  show ?case
  proof (cases "common_prefix input ob")
    case None
    note w = went_steps(1) [OF None, of ls]
    show ?thesis
    proof (cases "emitted ls + 1 \<ge> limit")
      case True
      then have r: "ls' = emit_object ob ls" "full" "s' = s"
        using Cons.prems(1,2) by (auto simp: None Let_def sret_def)
      have "cut_at input limit ls [ob] (obs @ R) ls'"
        using w True Cons.prems(2,4) by (auto simp: cut_at_def r clean_cut_def None)
      with r show ?thesis by (metis append_Cons append_Nil)
    next
      case False
      then show ?thesis using Cons.prems by (intro step [OF w]) (simp_all add: None Let_def)
    qed
  next
    case (Some p)
    show ?thesis
    proof (cases "p \<in> ls_seen ls")
      case True
      then show ?thesis using Cons.prems
        by (intro step [OF went_steps(2) [OF Some True]]) (simp_all add: Some Let_def)
    next
      case False
      let ?ls1 = "emit_prefix ob p ls"
      note w = went_steps(3) [OF Some False]
      show ?thesis
      proof (cases "emitted ls + 1 \<ge> limit")
        case True
        then obtain k more' where adv: "advanceLoop env input p (ob_Key ob) s = (Inr (k, more'), s')"
          and r: "ls' = ?ls1\<lparr>ls_Next := k, ls_afterKey := k, ls_truncated := more', ls_stop := True\<rparr>" "\<not> full"
          using Cons.prems(1,2) False
          by (auto simp: Some Let_def sbind_Inr sret_def advanceContinuationPastPrefix_def)
        have delim: "li_Delimiter input \<noteq> []" using Some by (auto simp: common_prefix_def)
        obtain ws where ws: "rest_of rows (ob_Key ob) = ws @ rest_of rows k" "\<forall>ob \<in> set ws. common_prefix input ob = Some p"
          "k = (if ws = [] then ob_Key ob else ob_Key (last ws))" "more' \<longleftrightarrow> rest_of rows k \<noteq> []"
          "more' \<longrightarrow> common_prefix input (hd (rest_of rows k)) \<noteq> Some p" "tabs s' = tabs s"
          using advanceLoop_rows [OF adv delim assms(3) rows] by blast
        have "rest_of rows (ob_Key ob) = obs @ R" using went_rest [OF w rest sw] by simp
        then have split: "(ob # obs) @ R = (ob # ws) @ rest_of rows k" using ws(1) by simp
        have "went input ?ls1 ws ls'"
          unfolding r(1) by (rule went_skip [OF ws(2)]) (use ws(3) in simp_all)
        with w have "went input ls ([ob] @ ws) ls'" by (rule went_trans)
        moreover have "emitted ls' = limit" using True Cons.prems(2) by (simp add: r emitted_def emit_prefix_def)
        moreover have "common_prefix input (last (ob # ws)) = Some p" using ws(2) Some by simp
        then have "clean_cut input (ob # ws) (rest_of rows k)"
          using ws(4,5) by (auto simp: clean_cut_def)
        ultimately have "cut_at input limit ls (ob # ws) (rest_of rows k) ls'"
          using ws(4) by (simp add: cut_at_def r)
        then have "\<exists>xs ys. (ob # obs) @ R = xs @ ys \<and> cut_at input limit ls xs ys ls'" using split by blast
        moreover have "ls_stop ls'" by (simp add: r)
        ultimately show ?thesis using ws(6) by simp
      next
        case no: False
        then show ?thesis using Cons.prems False by (intro step [OF w]) (simp_all add: Some Let_def)
      qed
    qed
  qed
qed

lemma listLoop_rows:
  assumes "listLoop env input limit ls s = (Inr ls', s')" "emitted ls \<le> limit" "tables_wf (tabs s)"
    and rows: "rows = prefix_listing env (li_Bucket input) (li_Prefix input) (tabs s)"
    and "\<not> ls_truncated ls" "\<not> ls_stop ls"
  shows "tabs s' = tabs s \<and>
    (\<exists>xs ys. rest_of rows (ls_afterKey ls) = xs @ ys \<and>
       (cut_at input limit ls xs ys ls' \<or>
        went input ls xs ls' \<and> \<not> ls_truncated ls' \<and> (emitted ls' < limit \<and> ys = [] \<or> emitted ls' = limit \<and> xs = [])))"
  using assms
proof (induction env input limit ls s rule: listLoop.induct)
  case (1 env input limit ls s)
  let ?Z = "rest_of rows (ls_afterKey ls)" and ?q = "query_limit limit ls"
  show ?case
  proof (cases "emitted ls \<ge> limit")
    case True
    then have "ls' = ls" "s' = s" "emitted ls = limit" using "1.prems" by (simp_all add: listLoop.simps)
    then show ?thesis using "1.prems" by (intro conjI exI [of _ "[]"] exI [of _ ?Z]) simp_all
  next
    case False
    have sw: "sorted_wrt (<) (map ob_Key rows)" unfolding "1.prems"(4)
      by (rule sqlite_pages.rows_sorted) (rule "1.prems"(3))
    obtain r s1 where l: "ListObjects env (page_query input (ls_afterKey ls) ?q) s = (r, s1)" by fastforce
    with "1.prems"(1) False obtain obs where r: "r = Inr obs"
      by (cases r) (simp_all add: listLoop.simps [of env input limit ls s] Let_def)
    note page = store_page [OF l [unfolded r] query_limit_pos, folded "1.prems"(4)]
    show ?thesis
    proof (cases "obs = []")
      case True
      then have "ls' = ls" "s' = s1" using "1.prems"(1) False l r by (simp_all add: listLoop.simps Let_def)
      moreover have "?Z = []" using page True query_limit_pos [of limit ls] by simp
      ultimately show ?thesis using False "1.prems"(5) page by (intro conjI exI [of _ "[]"]) simp_all
    next
      case ne: False
      have "?Z = obs @ drop (nat ?q) ?Z" using page by (metis append_take_drop_id)
      moreover have "int (length obs) < ?q \<longrightarrow> drop (nat ?q) ?Z = []" using conjunct1 [OF page] by auto
      ultimately obtain R where Z: "?Z = obs @ R" and R: "int (length obs) < ?q \<longrightarrow> R = []" by blast
      obtain r2 s2 where p: "pageLoop env input limit obs ls s1 = (r2, s2)" by fastforce
      with "1.prems"(1) False l r ne obtain ls1 full where r2: "r2 = Inr (ls1, full)"
        by (cases r2) (auto simp: listLoop.simps [of env input limit ls s] Let_def)
      have t1: "tabs s1 = tabs s" using page by simp
      note pl = pageLoop_rows [OF p [unfolded r2] _ _ _ Z, unfolded t1, OF _ "1.prems"(3,4,5,6)]
      show ?thesis
      proof (cases "full \<or> ls_stop ls1")
        case True
        then have res: "ls' = ls1" "s' = s2"
          using "1.prems"(1) False l r ne p r2 by (auto simp: listLoop.simps [of env input limit ls s] Let_def split: if_split_asm)
        show ?thesis using pl False True unfolding res Z by auto
      next
        case go: False
        then have w: "went input ls obs ls1" "emitted ls1 < limit" "\<not> ls_truncated ls1" "tabs s2 = tabs s"
          using pl False by auto
        show ?thesis
        proof (cases "int (length obs) < ?q")
          case True
          then have res: "ls' = ls1" "s' = s2"
            using "1.prems"(1) False l r ne p r2 go
            by (auto simp: listLoop.simps [of env input limit ls s] Let_def)
          then show ?thesis using w R True Z by (intro conjI exI [of _ obs] exI [of _ "[]"]) simp_all
        next
          case no: False
          have rec: "listLoop env input limit ls1 s2 = (Inr ls', s')"
            using "1.prems"(1) False l r ne p r2 go no
            by (simp add: listLoop.simps [of env input limit ls s] Let_def)
          have "tabs s' = tabs s2 \<and> (\<exists>xs ys. rest_of rows (ls_afterKey ls1) = xs @ ys \<and>
             (cut_at input limit ls1 xs ys ls' \<or>
              went input ls1 xs ls' \<and> \<not> ls_truncated ls' \<and>
                (emitted ls' < limit \<and> ys = [] \<or> emitted ls' = limit \<and> xs = [])))"
            by (rule "1.IH" [OF False refl l [unfolded r, symmetric] refl ne p [unfolded r2, symmetric] refl refl])
              (use go no rec w "1.prems"(3,4) in simp_all)
          then obtain xs ys where t: "tabs s' = tabs s2" and split: "rest_of rows (ls_afterKey ls1) = xs @ ys"
            and xs: "cut_at input limit ls1 xs ys ls' \<or> went input ls1 xs ls' \<and> \<not> ls_truncated ls' \<and>
                (emitted ls' < limit \<and> ys = [] \<or> emitted ls' = limit \<and> xs = [])" by blast
          have "?Z = (obs @ xs) @ ys" using Z split went_rest [OF w(1) Z sw] by simp
          moreover have "emitted ls' = limit \<longrightarrow> xs = [] \<longrightarrow> \<not> went input ls1 xs ls'"
            using w(2) by (auto dest: went_emitted)
          ultimately show ?thesis
            using xs cut_at_trans [OF w(1)] went_trans [OF w(1)] t w(4) by metis
        qed
      qed
    qed
  qed
qed

subsection \<open>Common prefixes are not cut in two\<close>

lemma prefix_between:
  "HasPrefix x p \<Longrightarrow> HasPrefix z p \<Longrightarrow> x < y \<Longrightarrow> y < z \<Longrightarrow> HasPrefix y p"
proof (induction p arbitrary: x y z)
  case (Cons c p)
  from Cons.prems(1) obtain x' where x: "x = c # x'" "HasPrefix x' p" by (cases x) (auto simp: HasPrefix_def)
  from Cons.prems(2) obtain z' where z: "z = c # z'" "HasPrefix z' p" by (cases z) (auto simp: HasPrefix_def)
  from Cons.prems(3,4) obtain y' where y: "y = c # y'" "x' < y'" "y' < z'"
    by (cases y) (auto simp: x z)
  show ?case using Cons.IH [OF x(2) z(2) y(2,3)] by (simp add: y HasPrefix_def)
qed simp

lemma Index_same_head: "Index (a @ sep @ u) sep = Some (length a) \<Longrightarrow> Index (a @ sep @ v) sep = Some (length a)"
proof (induction a)
  case Nil
  then show ?case by (cases "sep @ v") (simp, metis Index.simps(2) HasPrefix_append append_Nil list.size(3))
next
  case (Cons c a)
  have "take (length sep) (c # a @ sep @ u) = take (length sep) (c # a @ sep @ v)"
    by (cases sep) (simp_all add: take_Cons')
  with Cons show ?case by (auto simp: HasPrefix_def split: if_splits)
qed

lemma common_prefix_between:
  assumes "common_prefix input x = Some p" "common_prefix input z = Some p"
    "ob_Key x < ob_Key y" "ob_Key y < ob_Key z"
    and pre: "HasPrefix (ob_Key x) (li_Prefix input)" "HasPrefix (ob_Key z) (li_Prefix input)"
  shows "common_prefix input y = Some p"
proof -
  let ?P = "li_Prefix input" and ?d = "li_Delimiter input"
  have split: "ob_Key ob = p @ drop (length p) (ob_Key ob) \<and>
      (\<exists>a. p = ?P @ a @ ?d \<and> Index (drop (length ?P) (ob_Key ob)) ?d = Some (length a))"
    if "common_prefix input ob = Some p" "HasPrefix (ob_Key ob) ?P" for ob
  proof -
    let ?r = "drop (length ?P) (ob_Key ob)"
    have key: "ob_Key ob = ?P @ ?r" using that(2) by (rule HasPrefix_split)
    then have "TrimPrefix (ob_Key ob) ?P = ?r" by (metis TrimPrefix_append)
    with that(1) obtain i where i: "Index ?r ?d = Some i" "p = ?P @ take i ?r @ ?d"
      by (auto simp: common_prefix_def Let_def split: if_splits option.splits)
    have "?r = take i ?r @ ?d @ drop (i + length ?d) ?r" "i \<le> length ?r"
      using Index_split [OF i(1)] Index_SomeD [OF i(1)] by auto
    with key i show ?thesis
      by (metis append_assoc append_eq_conv_conj length_take min.absorb2)
  qed
  obtain a where p: "p = ?P @ a @ ?d" and i: "Index (drop (length ?P) (ob_Key x)) ?d = Some (length a)"
    using split [OF assms(1) pre(1)] by blast
  have "HasPrefix (ob_Key x) p" "HasPrefix (ob_Key z) p"
    using split [OF assms(1) pre(1)] split [OF assms(2) pre(2)] by (metis HasPrefix_append)+
  then have y: "ob_Key y = p @ drop (length p) (ob_Key y)" and x: "ob_Key x = p @ drop (length p) (ob_Key x)"
    using prefix_between [OF _ _ assms(3,4)] HasPrefix_split by blast+
  have "drop (length ?P) (ob_Key x) = a @ ?d @ drop (length p) (ob_Key x)"
    using x unfolding p by (metis append_assoc append_eq_conv_conj)
  then have "Index (a @ ?d @ drop (length p) (ob_Key y)) ?d = Some (length a)"
    using i by (metis Index_same_head)
  moreover have "TrimPrefix (ob_Key y) ?P = a @ ?d @ drop (length p) (ob_Key y)"
    using y unfolding p by (metis TrimPrefix_append append_assoc)
  moreover have "?d \<noteq> []" using assms(1) by (auto simp: common_prefix_def)
  ultimately show ?thesis by (simp add: common_prefix_def p)
qed

lemma clean_cut_fresh:
  assumes "clean_cut input xs ys" "xs \<noteq> []" "sorted_wrt (<) (map ob_Key (xs @ ys))"
    and pre: "\<forall>ob \<in> set (xs @ ys). HasPrefix (ob_Key ob) (li_Prefix input)"
    and y: "y \<in> set ys" and x: "x \<in> set xs" and cp: "common_prefix input x = Some p"
  shows "common_prefix input y \<noteq> Some p"
proof
  assume cy: "common_prefix input y = Some p"
  obtain zs z where xs: "xs = zs @ [z]" using assms(2) by (cases xs rule: rev_cases) auto
  obtain w ws where ys: "ys = w # ws" using y by (cases ys) auto
  have ord: "\<forall>x \<in> set zs. ob_Key x < ob_Key z" "ob_Key z < ob_Key w" "\<forall>y \<in> set ws. ob_Key w < ob_Key y"
    using assms(3) by (auto simp: xs ys sorted_wrt_append)
  have cz: "common_prefix input z = Some p"
    using x y ord cp cy pre common_prefix_between [of input x p y z] by (fastforce simp: xs ys)
  have cw: "common_prefix input w = Some p"
    using y ord cz cy pre common_prefix_between [of input z p y w] by (fastforce simp: xs ys)
  show False using assms(1) cz cw by (simp add: clean_cut_def xs ys)
qed

subsection \<open>The listing\<close>

lemma sorted_listing: "tables_wf t \<Longrightarrow> sorted_wrt (<) (map ob_Key (prefix_listing env b p t))"
  using sorted_sel_objects [of t "like_pred env b p" b] by (simp add: prefix_listing_def like_pred_def comp_def)

lemma sorted_rest: "sorted_wrt (<) (map ob_Key rows) \<Longrightarrow> sorted_wrt (<) (map ob_Key (rest_of rows a))"
  by (induction rows) auto

lemma listing_prefix:
  "like_exact env b p t \<Longrightarrow> ob \<in> set (prefix_listing env b p t) \<Longrightarrow> HasPrefix (ob_Key ob) p"
  by (auto simp: like_exact_def prefix_listing_def sel_objects_def ob_id_def like_pred_def)

lemma Store_ListObjects_rows:
  assumes "Store_ListObjects env input s = (Inr r, s')" "tables_wf (tabs s)"
    and rows: "rows = prefix_listing env (li_Bucket input) (li_Prefix input) (tabs s)"
    and lim: "lim = (if li_Limit input < 0 then 1000 else li_Limit input)"
  shows "\<exists>xs ys. rest_of rows (li_AfterKey input) = xs @ ys \<and> clean_cut input xs ys \<and>
    lr_Objects r = listed (entries input {} xs) \<and> lr_CommonPrefixes r = commons (entries input {} xs) \<and>
    (int (length (entries input {} xs)) < lim \<and> ys = [] \<or> int (length (entries input {} xs)) = lim) \<and>
    (xs \<noteq> [] \<longrightarrow> lr_Next r = ob_Key (last xs)) \<and> (lr_IsTruncated r \<longleftrightarrow> xs \<noteq> [] \<and> ys \<noteq> []) \<and> (lim > 0 \<and> xs = [] \<longrightarrow> ys = [])"
proof -
  let ?ls0 = "\<lparr>ls_Objects = [], ls_Prefixes = [], ls_Next = [], ls_seen = {}, ls_afterKey = li_AfterKey input,
    ls_truncated = False, ls_stop = False\<rparr>"
  obtain s1 ls' tr s2 s3 where head: "HeadBucket (li_Bucket input) s = (Inr (), s1)"
    and loop: "listLoop env input lim ?ls0 s1 = (Inr ls', s2)"
    and fin: "(if ls_Next ls' = [] then sret False else if ls_truncated ls' then sret True
       else sbind (ListObjects env (page_query input (ls_Next ls') 1)) (\<lambda>nxt. sret (nxt \<noteq> []))) s2 = (Inr tr, s3)"
    and r: "r = \<lparr>lr_Objects = ls_Objects ls', lr_CommonPrefixes = ls_Prefixes ls', lr_Next = ls_Next ls', lr_IsTruncated = tr\<rparr>"
    using assms(1) by (auto simp: Store_ListObjects_def sbind_Inr sret_def Let_def lim [symmetric])
  have s1: "s1 = s" using head by (auto simp: HeadBucket_def split: if_splits)
  have sw: "sorted_wrt (<) (map ob_Key rows)" unfolding rows by (rule sorted_listing) (rule assms(2))
  have e0: "emitted ?ls0 \<le> lim" by (simp add: emitted_def lim)
  from listLoop_rows [OF loop [unfolded s1] e0 assms(2) rows]
  obtain xs ys where t: "tabs s2 = tabs s" and split: "rest_of rows (li_AfterKey input) = xs @ ys"
    and cut: "cut_at input lim ?ls0 xs ys ls' \<or> went input ?ls0 xs ls' \<and> \<not> ls_truncated ls' \<and>
      (emitted ls' < lim \<and> ys = [] \<or> emitted ls' = lim \<and> xs = [])" by auto
  have w: "went input ?ls0 xs ls'" using cut by (auto simp: cut_at_def)
  have em: "emitted ls' = int (length (entries input {} xs))" using went_emitted [OF w] by (simp add: emitted_def)
  have nxt: "if xs = [] then ls_Next ls' = [] else ls_Next ls' = ob_Key (last xs)"
    using w by (simp add: went_def split: if_splits)
  have next_ne: "ls_Next ls' \<noteq> []" if "xs \<noteq> []"
  proof -
    have "last xs \<in> set (rest_of rows (li_AfterKey input))" using that by (simp add: split)
    then have "li_AfterKey input < ob_Key (last xs)" by simp
    then show ?thesis using nxt that by auto
  qed
  have rest: "rest_of rows (ls_Next ls') = ys" if "xs \<noteq> []"
    using rest_of_rest [OF sw split that] nxt that by simp
  have tr: "tr \<longleftrightarrow> xs \<noteq> [] \<and> ys \<noteq> []"
  proof (cases "xs = []")
    case True
    then show ?thesis using fin nxt by (simp add: sret_def)
  next
    case False
    show ?thesis
    proof (cases "ls_truncated ls'")
      case True
      then show ?thesis using fin next_ne [OF False] cut False by (auto simp: sret_def cut_at_def)
    next
      case no: False
      then obtain obs s4 where q: "ListObjects env (page_query input (ls_Next ls') 1) s2 = (Inr obs, s4)"
        and trq: "tr \<longleftrightarrow> obs \<noteq> []"
        using fin next_ne [OF False] by (auto simp: sbind_Inr sret_def)
      have "obs = take 1 (rest_of rows (ls_Next ls'))"
        using store_page [OF q] by (simp add: t rows)
      with rest [OF False] trq False show ?thesis by (cases ys) simp_all
    qed
  qed
  have clean: "clean_cut input xs ys" using cut by (auto simp: cut_at_def clean_cut_def)
  have cases: "(emitted ls' < lim \<and> ys = []) \<or> emitted ls' = lim" using cut by (auto simp: cut_at_def)
  have "lim > 0 \<and> xs = [] \<longrightarrow> ys = []" using cut em by (auto simp: cut_at_def)
  moreover have "lr_Objects r = listed (entries input {} xs)" "lr_CommonPrefixes r = commons (entries input {} xs)"
    using w by (simp_all add: r went_def)
  ultimately show ?thesis
    using split clean cases em tr nxt
    by (intro exI [of _ xs] exI [of _ ys]) (simp add: r)
qed

text \<open>C17: A page of a listing is the first entries of the pass over the sorted rows behind the cursor: the
  keys without a common prefix and each common prefix once, at most the limit together. A page that
  is not truncated has all of them; a truncated page is full, and the pass behind the cursor it gives
  has exactly the entries that are missing, so that reading on neither repeats nor skips a key or a
  common prefix. (No key may match the prefix only up to case, which SQLite's \<^verbatim>\<open>LIKE\<close> would let pass.)\<close>
theorem Store_ListObjects_pages:
  assumes "Store_ListObjects env input s = (Inr r, s')" "tables_wf (tabs s)" "0 < li_Limit input"
    and "like_exact env (li_Bucket input) (li_Prefix input) (tabs s)"
  defines "all a \<equiv> entries input {}
      (filter (\<lambda>ob. a < ob_Key ob) (prefix_listing env (li_Bucket input) (li_Prefix input) (tabs s)))"
  shows "lr_Objects r = listed (take (nat (li_Limit input)) (all (li_AfterKey input))) \<and>
    lr_CommonPrefixes r = commons (take (nat (li_Limit input)) (all (li_AfterKey input))) \<and>
    (if lr_IsTruncated r
     then nat (li_Limit input) \<le> length (all (li_AfterKey input)) \<and>
       all (lr_Next r) = drop (nat (li_Limit input)) (all (li_AfterKey input))
     else length (all (li_AfterKey input)) \<le> nat (li_Limit input))"
proof -
  let ?rows = "prefix_listing env (li_Bucket input) (li_Prefix input) (tabs s)" and ?n = "nat (li_Limit input)"
  obtain xs ys where split: "rest_of ?rows (li_AfterKey input) = xs @ ys" and clean: "clean_cut input xs ys"
    and res: "lr_Objects r = listed (entries input {} xs)" "lr_CommonPrefixes r = commons (entries input {} xs)"
    and len: "int (length (entries input {} xs)) < li_Limit input \<and> ys = [] \<or> int (length (entries input {} xs)) = li_Limit input"
    and nxt: "xs \<noteq> [] \<longrightarrow> lr_Next r = ob_Key (last xs)" and tr: "lr_IsTruncated r \<longleftrightarrow> xs \<noteq> [] \<and> ys \<noteq> []"
    and none: "xs = [] \<longrightarrow> ys = []"
    using Store_ListObjects_rows [OF assms(1,2) refl refl] assms(3) by auto
  have sw: "sorted_wrt (<) (map ob_Key ?rows)" by (rule sorted_listing) (rule assms(2))
  have all: "all (li_AfterKey input) = entries input {} xs @ entries input (seen_after input {} xs) ys"
    by (simp add: all_def split entries_append)
  have tk: "take ?n (all (li_AfterKey input)) = entries input {} xs"
    using len by (auto simp: all)
  have "all (lr_Next r) = drop ?n (all (li_AfterKey input)) \<and> ?n \<le> length (all (li_AfterKey input))"
    if "lr_IsTruncated r"
  proof -
    have ne: "xs \<noteq> []" "ys \<noteq> []" using that tr by simp_all
    have pre: "\<forall>ob \<in> set (xs @ ys). HasPrefix (ob_Key ob) (li_Prefix input)"
      unfolding split [symmetric] using listing_prefix [OF assms(4)] by auto
    have sxy: "sorted_wrt (<) (map ob_Key (xs @ ys))"
      unfolding split [symmetric] by (rule sorted_rest) (rule sw)
    have "entries input (seen_after input {} xs \<union> {}) ys = entries input {} ys"
      using clean_cut_fresh [OF clean ne(1) sxy pre]
      by (intro entries_fresh) (auto simp: seen_after_def)
    moreover have "all (lr_Next r) = entries input {} ys"
      unfolding all_def using nxt ne(1) rest_of_rest [OF sw split ne(1)] by simp
    ultimately show ?thesis using len ne by (auto simp: all)
  qed
  moreover have "length (all (li_AfterKey input)) \<le> ?n" if "\<not> lr_IsTruncated r"
    using that tr none len by (auto simp: all)
  ultimately show ?thesis unfolding tk using res by auto
qed

text \<open>A bucket with the keys \<^verbatim>\<open>a/1\<close>, \<^verbatim>\<open>a/2\<close> and \<^verbatim>\<open>b\<close>, listed one entry at a time.\<close>

definition demo_row :: "string \<Rightarrow> Object" where
  "demo_row k = demo_object ''b'' k"

definition demo_listing :: "FakeTelegram ostate" where
  "demo_listing = demo_store\<lparr>tabs := (tabs demo_store)\<lparr>tb_objects := map demo_row [''b'', ''a/2'', ''a/1'']\<rparr>\<rparr>"

definition demo_list_input :: ListObjectsInput where
  "demo_list_input = \<lparr>li_Bucket = ''b'', li_Prefix = [], li_Delimiter = ''/'', li_AfterKey = [], li_Limit = 1\<rparr>"

definition demo_page :: ListObjectsResult where
  "demo_page = \<lparr>lr_Objects = [], lr_CommonPrefixes = [''a/''], lr_Next = ''a/2'', lr_IsTruncated = True\<rparr>"

lemma demo_run_list: "fst (Store_ListObjects demo_oenv demo_list_input demo_listing) = Inr demo_page"
  by code_simp

theorem Store_ListObjects_pages_witness:
  "1 \<le> length (entries demo_list_input {} (prefix_listing demo_oenv ''b'' [] (tabs demo_listing))) \<and>
   fst (Store_ListObjects demo_oenv demo_list_input demo_listing) = Inr demo_page"
proof -
  have run: "Store_ListObjects demo_oenv demo_list_input demo_listing =
      (Inr demo_page, snd (Store_ListObjects demo_oenv demo_list_input demo_listing))"
    using demo_run_list by (simp add: prod_eq_iff)
  have wf: "tables_wf (tabs demo_listing)"
    by (simp add: tables_wf_def demo_listing_def demo_store_def empty_tables_def demo_row_def demo_object_def
        ob_id_def sqlite.defs)
  have exact: "like_exact demo_oenv ''b'' [] (tabs demo_listing)"
    using demo_like by (simp add: like_exact_def like_pred_law demo_oenv_def demo_env_def ci_prefix_def ToLower_def sqlite_env.defs)
  have "[] < ob_Key ob" if "ob \<in> set (prefix_listing demo_oenv ''b'' [] (tabs demo_listing))" for ob
    using that by (auto simp: prefix_listing_def sel_objects_def demo_listing_def demo_store_def demo_row_def
        demo_object_def sqlite.defs split: if_split_asm)
  then have "filter (\<lambda>ob. [] < ob_Key ob) (prefix_listing demo_oenv ''b'' [] (tabs demo_listing)) =
      prefix_listing demo_oenv ''b'' [] (tabs demo_listing)" by (simp add: filter_id_conv)
  with Store_ListObjects_pages [OF run wf] exact demo_run_list show ?thesis
    by (simp add: demo_list_input_def demo_page_def)
qed

end
