(* ===== verification/Http.thy ===== *)
theory Http
  imports Json StoreState "HOL-Library.AList"
begin

text \<open>
  Requests and URLs: what the handlers use of \<^verbatim>\<open>net/http\<close>, \<^verbatim>\<open>net/url\<close> and \<^verbatim>\<open>time\<close>. A header is an
  association list from canonical names to values, as \<^verbatim>\<open>http.Header\<close> is a map.
\<close>

subsection \<open>Escaping in URLs\<close>

definition hex_value :: "char \<Rightarrow> nat option" where
  "hex_value c =
     (let n = of_char c :: nat in
      if 48 \<le> n \<and> n \<le> 57 then Some (n - 48)
      else if 97 \<le> n \<and> n \<le> 102 then Some (n - 87)
      else if 65 \<le> n \<and> n \<le> 70 then Some (n - 55) else None)"

text \<open>\<^verbatim>\<open>url.PathUnescape\<close>, and with the flag \<^verbatim>\<open>url.QueryUnescape\<close>.\<close>

fun unescape :: "bool \<Rightarrow> string \<Rightarrow> string option" where
  "unescape form [] = Some []"
| "unescape form (c # s) =
     (if c = CHR ''%'' then
        (case s of
           h # l # r \<Rightarrow>
             (case (hex_value h, hex_value l) of
                (Some a, Some b) \<Rightarrow> map_option (\<lambda>t. char_of (16 * a + b) # t) (unescape form r)
              | _ \<Rightarrow> None)
         | _ \<Rightarrow> None)
      else map_option (\<lambda>t. (if form \<and> c = CHR ''+'' then CHR '' '' else c) # t) (unescape form s))"

definition PathUnescape :: "string \<Rightarrow> string option" where
  "PathUnescape s = unescape False s"

text \<open>\<^verbatim>\<open>escape(path, encodePath)\<close> and \<^verbatim>\<open>validEncoded\<close>.\<close>

definition path_plain :: "char \<Rightarrow> bool" where
  "path_plain c \<longleftrightarrow> unreserved c \<or> c \<in> set ''$&+,/:;=@''"

definition escape_path :: "string \<Rightarrow> string" where
  "escape_path s = concat (map (\<lambda>c. if path_plain c then [c] else pct c) s)"

definition validEncoded :: "string \<Rightarrow> bool" where
  "validEncoded s \<longleftrightarrow> list_all (\<lambda>c. path_plain c \<or> c \<in> set ''!()*[]%'' \<or> c = CHR 0x27) s"

record url =
  u_Scheme :: string
  u_Host :: string
  u_Path :: string
  u_RawPath :: string
  u_RawQuery :: string

definition EscapedPath :: "url \<Rightarrow> string" where
  "EscapedPath u =
     (if u_RawPath u \<noteq> [] \<and> validEncoded (u_RawPath u) \<and> unescape False (u_RawPath u) = Some (u_Path u)
      then u_RawPath u
      else if u_Path u = ''*'' then ''*''
      else escape_path (u_Path u))"

text \<open>\<^verbatim>\<open>u.Query()\<close>: the pairs in the order of the query, those that do not decode left out.\<close>

type_synonym query = "(string \<times> string) list"

definition query_pair :: "string \<Rightarrow> (string \<times> string) option" where
  "query_pair token =
     (if Contains token '';'' \<or> token = [] then None
      else (case Cut token ''='' of (k, v, _) \<Rightarrow>
        (case (unescape True k, unescape True v) of (Some k', Some v') \<Rightarrow> Some (k', v') | _ \<Rightarrow> None)))"

definition Query :: "url \<Rightarrow> query" where
  "Query u = List.map_filter query_pair (Split (u_RawQuery u) CHR ''&'')"

definition query_Get :: "query \<Rightarrow> string \<Rightarrow> string" where
  "query_Get q k = (case map_of q k of Some v \<Rightarrow> v | None \<Rightarrow> [])"

definition query_Has :: "query \<Rightarrow> string \<Rightarrow> bool" where
  "query_Has q k \<longleftrightarrow> k \<in> fst ` set q"

subsection \<open>Headers and requests\<close>

type_synonym header = "(string \<times> string list) list"

definition header_Values :: "header \<Rightarrow> string \<Rightarrow> string list" where
  "header_Values h name = (case map_of h name of Some vs \<Rightarrow> vs | None \<Rightarrow> [])"

text \<open>\<^verbatim>\<open>Header.Get\<close> and \<^verbatim>\<open>Header.Set\<close> of a canonical name, \<^verbatim>\<open>Header.Add\<close>.\<close>

definition header_Get :: "header \<Rightarrow> string \<Rightarrow> string" where
  "header_Get h name = (case header_Values h name of v # _ \<Rightarrow> v | [] \<Rightarrow> [])"

definition header_Set :: "string \<Rightarrow> string \<Rightarrow> header \<Rightarrow> header" where
  "header_Set name v h = AList.update name [v] h"

definition header_Add :: "string \<Rightarrow> string \<Rightarrow> header \<Rightarrow> header" where
  "header_Add name v h = AList.update name (header_Values h name @ [v]) h"

text \<open>\<^verbatim>\<open>http.CanonicalHeaderKey\<close>: upper case at the start and after a hyphen, if all bytes may occur in
  a field name.\<close>

definition token_char :: "char \<Rightarrow> bool" where
  "token_char c \<longleftrightarrow> alnum c \<or> c \<in> set ''!#$%&*+-.^_|~'' \<or> c = CHR 0x27 \<or> c = CHR 0x60"

fun canonical_key :: "bool \<Rightarrow> string \<Rightarrow> string" where
  "canonical_key up [] = []"
| "canonical_key up (c # s) = (if up then upper c else lower c) # canonical_key (c = CHR ''-'') s"

definition CanonicalHeaderKey :: "string \<Rightarrow> string" where
  "CanonicalHeaderKey s = (if list_all token_char s then canonical_key True s else s)"

record Request =
  rq_Method :: string
  rq_URL :: url
  rq_Host :: string
  rq_Header :: header
  rq_ContentLength :: int
  rq_Body :: "reader option"
  rq_RemoteAddr :: string

definition get_header :: "Request \<Rightarrow> string \<Rightarrow> string" where
  "get_header r name = header_Get (rq_Header r) name"

text \<open>\<^verbatim>\<open>strings.Fields\<close>.\<close>

fun fields_from :: "string \<Rightarrow> string \<Rightarrow> string list" where
  "fields_from cur [] = (if cur = [] then [] else [rev cur])"
| "fields_from cur (c # s) =
     (if is_space c then (if cur = [] then fields_from [] s else rev cur # fields_from [] s)
      else fields_from (c # cur) s)"

definition Fields :: "string \<Rightarrow> string list" where
  "Fields s = fields_from [] s"

subsection \<open>Points in time\<close>

text \<open>A date of the calendar, its days since 1970, and \<^verbatim>\<open>time.Parse("20060102T150405Z", s)\<close>: nanoseconds
  since 1970 and the date. Go takes a fraction behind the seconds although the layout has none.\<close>

definition leap_year :: "int \<Rightarrow> bool" where
  "leap_year y \<longleftrightarrow> y mod 4 = 0 \<and> (y mod 100 \<noteq> 0 \<or> y mod 400 = 0)"

definition days_in :: "int \<Rightarrow> int \<Rightarrow> int" where
  "days_in y m = (if m = 2 then (if leap_year y then 29 else 28) else if m \<in> {4, 6, 9, 11} then 30 else 31)"

definition days_from_civil :: "int \<Rightarrow> int \<Rightarrow> int \<Rightarrow> int" where
  "days_from_civil y m d =
     (let y' = (if m \<le> 2 then y - 1 else y);
          m' = (if m \<le> 2 then m + 9 else m - 3) in
      365 * y' + y' div 4 - y' div 100 + y' div 400 + (153 * m' + 2) div 5 + d - 719469)"

definition take_digits :: "nat \<Rightarrow> string \<Rightarrow> (int \<times> string) option" where
  "take_digits n s =
     (if length s < n then None else map_option (\<lambda>v. (v, drop n s)) (digits_value 0 (take n s)))"

definition is_digit :: "char \<Rightarrow> bool" where
  "is_digit c \<longleftrightarrow> digit_value c \<noteq> None"

definition take_fraction :: "string \<Rightarrow> int \<times> string" where
  "take_fraction s =
     (case s of
        p # d # r \<Rightarrow>
          if (p = CHR ''.'' \<or> p = CHR '','') \<and> is_digit d then
            let ds = takeWhile is_digit (d # r); ns = take 9 ds in
            ((case digits_value 0 ns of Some v \<Rightarrow> v * 10 ^ (9 - length ns) | None \<Rightarrow> 0), drop (length ds) (d # r))
          else (0, s)
      | _ \<Rightarrow> (0, s))"

definition parse_amz_time :: "string \<Rightarrow> (int \<times> int \<times> int \<times> int) option" where
  "parse_amz_time s0 =
     Option.bind (take_digits 4 s0) (\<lambda>(y, s1).
     Option.bind (take_digits 2 s1) (\<lambda>(m, s2).
     if m < 1 \<or> m > 12 then None else
     Option.bind (take_digits 2 s2) (\<lambda>(d, s3).
     if \<not> HasPrefix s3 ''T'' then None else
     Option.bind (take_digits 2 (drop 1 s3)) (\<lambda>(hh, s4).
     if hh \<ge> 24 then None else
     Option.bind (take_digits 2 s4) (\<lambda>(mi, s5).
     if mi \<ge> 60 then None else
     Option.bind (take_digits 2 s5) (\<lambda>(ss, s6).
     if ss \<ge> 60 then None else
     let (ns, s7) = take_fraction s6 in
     if s7 \<noteq> ''Z'' \<or> d < 1 \<or> d > days_in y m then None
     else Some (((days_from_civil y m d * 24 + hh) * 60 + mi) * 60 * 1000000000 + ss * 1000000000 + ns, y, m, d)))))))"

definition pad2 :: "int \<Rightarrow> string" where
  "pad2 n = (if n < 10 then ''0'' else []) @ Itoa n"

definition pad4 :: "int \<Rightarrow> string" where
  "pad4 n = (if n < 10 then ''000'' else if n < 100 then ''00'' else if n < 1000 then ''0'' else []) @ Itoa n"

definition format_date :: "int \<Rightarrow> int \<Rightarrow> int \<Rightarrow> string" where
  "format_date y m d = pad4 y @ pad2 m @ pad2 d"

lemmas [go_defs] = hex_value_def PathUnescape_def path_plain_def escape_path_def validEncoded_def EscapedPath_def
  query_pair_def Query_def query_Get_def query_Has_def header_Values_def header_Get_def header_Set_def header_Add_def
  token_char_def CanonicalHeaderKey_def get_header_def Fields_def leap_year_def days_in_def days_from_civil_def
  take_digits_def is_digit_def take_fraction_def parse_amz_time_def pad2_def pad4_def format_date_def

end
