(* ===== verification/Responses.thy ===== *)
theory Responses
  imports Http Captions
begin

text \<open>
  What the handlers write: responses, points in time as text, and XML documents. A response is the
  status, the header and the bytes of the body, with the error that cut the body short. The header is
  threaded through the handlers as \<^verbatim>\<open>w.Header()\<close>; it is sent with the status.
\<close>

record Response =
  rp_Status :: int
  rp_Header :: header
  rp_Body :: bytes
  rp_Cut :: "gerror option"

definition respond :: "int \<Rightarrow> header \<Rightarrow> bytes \<Rightarrow> Response" where
  "respond status h body = \<lparr>rp_Status = status, rp_Header = h, rp_Body = body, rp_Cut = None\<rparr>"

definition header_Del :: "string \<Rightarrow> header \<Rightarrow> header" where
  "header_Del name h = AList.delete name h"

definition http_Error :: "header \<Rightarrow> string \<Rightarrow> int \<Rightarrow> Response" where
  "http_Error h message status =
     respond status (header_Set ''X-Content-Type-Options'' ''nosniff''
       (header_Set ''Content-Type'' ''text/plain; charset=utf-8'' (header_Del ''Content-Length'' h)))
       (message @ [CHR 0x0A])"

definition http_NotFound :: "header \<Rightarrow> Response" where
  "http_NotFound h = http_Error h ''404 page not found'' 404"

subsection \<open>Points in time as text\<close>

text \<open>The civil date of a number of days since 1970, and the seconds of the day.\<close>

definition civil_from_days :: "int \<Rightarrow> int \<times> int \<times> int" where
  "civil_from_days n =
     (let z = n + 719468;
          era = z div 146097;
          doe = z - era * 146097;
          yoe = (doe - doe div 1460 + doe div 36524 - doe div 146096) div 365;
          doy = doe - (365 * yoe + yoe div 4 - yoe div 100);
          mp = (5 * doy + 2) div 153;
          m = (if mp < 10 then mp + 3 else mp - 9) in
      (yoe + era * 400 + (if m \<le> 2 then 1 else 0), m, doy - (153 * mp + 2) div 5 + 1))"

definition clock_text :: "int \<Rightarrow> string" where
  "clock_text secs = pad2 (secs div 3600) @ '':'' @ pad2 (secs div 60 mod 60) @ '':'' @ pad2 (secs mod 60)"

text \<open>\<^verbatim>\<open>t.UTC().Format(time.RFC3339)\<close> and \<^verbatim>\<open>Format(http.TimeFormat)\<close> of a time in nanoseconds.\<close>

definition format_RFC3339 :: "int \<Rightarrow> string" where
  "format_RFC3339 t =
     (let secs = t div 1000000000 in
      case civil_from_days (secs div 86400) of
        (y, m, d) \<Rightarrow> pad4 y @ ''-'' @ pad2 m @ ''-'' @ pad2 d @ ''T'' @ clock_text (secs mod 86400) @ ''Z'')"

definition weekday_names :: "string list" where
  "weekday_names = [''Sun'', ''Mon'', ''Tue'', ''Wed'', ''Thu'', ''Fri'', ''Sat'']"

definition month_names :: "string list" where
  "month_names = [''Jan'', ''Feb'', ''Mar'', ''Apr'', ''May'', ''Jun'', ''Jul'', ''Aug'', ''Sep'', ''Oct'', ''Nov'', ''Dec'']"

definition format_http :: "int \<Rightarrow> string" where
  "format_http t =
     (let secs = t div 1000000000; n = secs div 86400 in
      case civil_from_days n of
        (y, m, d) \<Rightarrow>
          weekday_names ! nat ((n + 4) mod 7) @ '', '' @ pad2 d @ '' '' @ month_names ! nat (m - 1) @ '' '' @
          pad4 y @ '' '' @ clock_text (secs mod 86400) @ '' GMT'')"

subsection \<open>XML documents\<close>

text \<open>\<^verbatim>\<open>xml.EscapeText\<close>: a rune that XML does not allow, or a byte that is no rune, becomes U+FFFD.\<close>

definition xml_replacement :: bytes where
  "xml_replacement = [CHR 0xEF, CHR 0xBF, CHR 0xBD]"

definition xml_escape_ascii :: "char \<Rightarrow> string" where
  "xml_escape_ascii c =
     (if c = CHR 0x22 then ''&#34;'' else if c = CHR 0x27 then ''&#39;'' else if c = CHR ''&'' then ''&amp;''
      else if c = CHR ''<'' then ''&lt;'' else if c = CHR ''>'' then ''&gt;'' else if c = CHR 0x09 then ''&#x9;''
      else if c = CHR 0x0A then ''&#xA;'' else if c = CHR 0x0D then ''&#xD;''
      else if of_char c < (32 :: nat) then xml_replacement else [c])"

function EscapeText :: "bytes \<Rightarrow> string" where
  "EscapeText [] = []"
| "EscapeText (c # s) =
     (if of_char c < (128 :: nat) then xml_escape_ascii c @ EscapeText s
      else let w = rune_width (c # s) in
        if w = 1 \<or> take w (c # s) \<in> {[CHR 0xEF, CHR 0xBF, CHR 0xBE], [CHR 0xEF, CHR 0xBF, CHR 0xBF]}
        then xml_replacement @ EscapeText (drop w (c # s))
        else take w (c # s) @ EscapeText (drop w (c # s)))"
  by pat_completeness auto
termination
  by (relation "measure length") (use rune_width_pos in \<open>auto simp del: rune_width.simps\<close>)

datatype xml = Elem string "(string \<times> string) list" "xml list" | CharData string

fun xml_text :: "xml \<Rightarrow> string" where
  "xml_text (CharData s) = EscapeText s"
| "xml_text (Elem name attrs children) =
     ''<'' @ name @ concat (map (\<lambda>(k, v). '' '' @ k @ ''='' @ [CHR 0x22] @ EscapeText v @ [CHR 0x22]) attrs) @ ''>'' @
     concat (map xml_text children) @ ''</'' @ name @ ''>''"

text \<open>A field of a struct, and one that is left out when empty.\<close>

definition leaf :: "string \<Rightarrow> string \<Rightarrow> xml" where
  "leaf name v = Elem name [] [CharData v]"

definition omitempty :: "string \<Rightarrow> string \<Rightarrow> xml list" where
  "omitempty name v = (if v = [] then [] else [leaf name v])"

definition xml_Header :: string where
  "xml_Header = ''<?xml version='' @ [CHR 0x22] @ ''1.0'' @ [CHR 0x22] @ '' encoding='' @ [CHR 0x22] @ ''UTF-8'' @
     [CHR 0x22] @ ''?>'' @ [CHR 0x0A]"

lemmas [go_defs] = respond_def header_Del_def http_Error_def http_NotFound_def civil_from_days_def clock_text_def
  format_RFC3339_def format_http_def leaf_def omitempty_def

end
