(* ===== verification/S3Errors.thy ===== *)
theory S3Errors
  imports Responses
begin

text \<open>
  \<^verbatim>\<open>internal/s3api/errors.go\<close> and \<^verbatim>\<open>xml.go\<close>: the S3 errors, their XML document, the mapping of the
  store's errors, and the documents of the answers as trees.
\<close>

record S3Error =
  se_Code :: string
  se_Message :: string
  se_Status :: int

definition s3_error :: "string \<Rightarrow> string \<Rightarrow> int \<Rightarrow> S3Error" where
  "s3_error code message status = \<lparr>se_Code = code, se_Message = message, se_Status = status\<rparr>"

definition S3NotImplemented :: S3Error where
  "S3NotImplemented = s3_error ''NotImplemented''
     ''A header you provided implies functionality that is not implemented.'' 501"

definition S3EntityTooLarge :: S3Error where
  "S3EntityTooLarge = s3_error ''EntityTooLarge''
     ''Your proposed upload exceeds the maximum allowed object size.'' 400"

definition S3InvalidAccessKey :: S3Error where
  "S3InvalidAccessKey = s3_error ''InvalidAccessKeyId''
     ''The AWS Access Key Id you provided does not exist in our records.'' 403"

definition S3SignatureMismatch :: S3Error where
  "S3SignatureMismatch = s3_error ''SignatureDoesNotMatch''
     ''The request signature we calculated does not match the signature you provided.'' 403"

definition S3NoSuchBucket :: S3Error where
  "S3NoSuchBucket = s3_error ''NoSuchBucket'' ''The specified bucket does not exist.'' 404"

definition S3NoSuchKey :: S3Error where
  "S3NoSuchKey = s3_error ''NoSuchKey'' ''The specified key does not exist.'' 404"

definition S3InvalidRange :: S3Error where
  "S3InvalidRange = s3_error ''InvalidRange'' ''The requested range is not satisfiable.'' 416"

definition S3MissingContentLength :: S3Error where
  "S3MissingContentLength = s3_error ''MissingContentLength''
     ''You must provide the Content-Length HTTP header.'' 411"

definition S3NoSuchUpload :: S3Error where
  "S3NoSuchUpload = s3_error ''NoSuchUpload'' ''The specified multipart upload does not exist.'' 404"

definition S3InvalidPart :: S3Error where
  "S3InvalidPart = s3_error ''InvalidPart''
     ''One or more of the specified parts could not be found or did not match the supplied ETag.'' 400"

definition S3InvalidPartOrder :: S3Error where
  "S3InvalidPartOrder = s3_error ''InvalidPartOrder'' ''The list of parts was not in ascending order.'' 400"

definition S3InvalidArgument :: S3Error where
  "S3InvalidArgument = s3_error ''InvalidArgument'' ''Invalid Argument'' 400"

definition S3ServiceUnavailable :: S3Error where
  "S3ServiceUnavailable = s3_error ''ServiceUnavailable'' ''Reduce your request rate.'' 503"

definition S3InternalError :: S3Error where
  "S3InternalError = s3_error ''InternalError'' ''We encountered an internal error. Please try again.'' 500"

text \<open>The document of an error; empty resource and request id are left out.\<close>

definition ErrorResponse :: "S3Error \<Rightarrow> string \<Rightarrow> string \<Rightarrow> xml" where
  "ErrorResponse e resource requestID =
     Elem ''Error'' [] ([leaf ''Code'' (se_Code e), leaf ''Message'' (se_Message e)] @
       omitempty ''Resource'' resource @ omitempty ''RequestId'' requestID)"

definition writeError :: "header \<Rightarrow> S3Error \<Rightarrow> string \<Rightarrow> string \<Rightarrow> bool \<Rightarrow> Response" where
  "writeError h s3err resource requestID suppressBody =
     (let e = (if se_Status s3err = 0 then S3InternalError else s3err);
          h1 = header_Set ''Content-Encoding'' ''identity'' (header_Set ''Content-Type'' ''application/xml'' h) in
      if suppressBody then respond (se_Status e) h1 []
      else
        let body = xml_text (ErrorResponse e resource requestID) in
        respond (se_Status e)
          (header_Set ''Content-Length'' (Itoa (int (length xml_Header) + int (length body))) h1)
          (xml_Header @ body))"

definition WriteError :: "header \<Rightarrow> S3Error \<Rightarrow> string \<Rightarrow> string \<Rightarrow> Response" where
  "WriteError h s3err resource requestID = writeError h s3err resource requestID False"

definition WriteErrorResponse :: "header \<Rightarrow> Request \<Rightarrow> S3Error \<Rightarrow> string \<Rightarrow> string \<Rightarrow> Response" where
  "WriteErrorResponse h r s3err resource requestID =
     writeError h s3err resource requestID (rq_Method r = ''HEAD'')"

definition MapError :: "gerror option \<Rightarrow> S3Error" where
  "MapError err =
     (case err of
        None \<Rightarrow> S3InternalError
      | Some e \<Rightarrow>
          if errors_Is e ErrNotImplemented then S3NotImplemented
          else if errors_Is e ErrEntityTooLarge then S3EntityTooLarge
          else if errors_Is e ErrInvalidAccessKeyID then S3InvalidAccessKey
          else if errors_Is e ErrSignatureDoesNotMatch then S3SignatureMismatch
          else if errors_Is e ErrNoSuchBucket then S3NoSuchBucket
          else if errors_Is e ErrNoSuchKey then S3NoSuchKey
          else if errors_Is e ErrInvalidRange then S3InvalidRange
          else if errors_Is e ErrMissingContentLength then S3MissingContentLength
          else if errors_Is e ErrNoSuchUpload then S3NoSuchUpload
          else if errors_Is e ErrInvalidPart then S3InvalidPart
          else if errors_Is e ErrInvalidPartOrder then S3InvalidPartOrder
          else if errors_Is e ErrInvalidArgument then S3InvalidArgument
          else if errors_Is e ErrInvalidArgumentValue \<or> Error e = ''invalid argument'' then S3InvalidArgument
          else if errors_Is e ErrServiceUnavailableValue \<or> Error e = ''service unavailable''
          then S3ServiceUnavailable
          else S3InternalError)"

subsection \<open>The documents of \<^verbatim>\<open>xml.go\<close>\<close>

definition s3_xmlns :: "(string \<times> string) list" where
  "s3_xmlns = [(''xmlns'', ''http://s3.amazonaws.com/doc/2006-03-01/'')]"

record xBucket =
  xb_Name :: string
  xb_CreationDate :: string

definition xml_Bucket :: "xBucket \<Rightarrow> xml" where
  "xml_Bucket b = Elem ''Bucket'' [] (leaf ''Name'' (xb_Name b) # omitempty ''CreationDate'' (xb_CreationDate b))"

definition ListAllMyBucketsResult :: "xBucket list \<Rightarrow> xml" where
  "ListAllMyBucketsResult bs =
     Elem ''ListAllMyBucketsResult'' s3_xmlns [Elem ''Buckets'' [] (map xml_Bucket bs)]"

record xContents =
  xc_Key :: string
  xc_LastModified :: string
  xc_ETag :: string
  xc_Size :: int
  xc_StorageClass :: string

definition xml_Contents :: "xContents \<Rightarrow> xml" where
  "xml_Contents c = Elem ''Contents'' [] (leaf ''Key'' (xc_Key c) # omitempty ''LastModified'' (xc_LastModified c) @
     omitempty ''ETag'' (xc_ETag c) @ leaf ''Size'' (Itoa (xc_Size c)) # omitempty ''StorageClass'' (xc_StorageClass c))"

definition xml_CommonPrefixes :: "string \<Rightarrow> xml" where
  "xml_CommonPrefixes p = Elem ''CommonPrefixes'' [] [leaf ''Prefix'' p]"

record ListBucketResult =
  lb_Name :: string
  lb_Prefix :: string
  lb_Delimiter :: string
  lb_MaxKeys :: int
  lb_KeyCount :: int
  lb_ContinuationToken :: string
  lb_NextContinuationToken :: string
  lb_StartAfter :: string
  lb_IsTruncated :: bool
  lb_Contents :: "xContents list"
  lb_CommonPrefixes :: "string list"

definition xml_ListBucketResult :: "ListBucketResult \<Rightarrow> xml" where
  "xml_ListBucketResult l = Elem ''ListBucketResult'' s3_xmlns
     (leaf ''Name'' (lb_Name l) # omitempty ''Prefix'' (lb_Prefix l) @ omitempty ''Delimiter'' (lb_Delimiter l) @
      leaf ''MaxKeys'' (Itoa (lb_MaxKeys l)) # leaf ''KeyCount'' (Itoa (lb_KeyCount l)) #
      omitempty ''ContinuationToken'' (lb_ContinuationToken l) @
      omitempty ''NextContinuationToken'' (lb_NextContinuationToken l) @ omitempty ''StartAfter'' (lb_StartAfter l) @
      leaf ''IsTruncated'' (if lb_IsTruncated l then ''true'' else ''false'') #
      map xml_Contents (lb_Contents l) @ map xml_CommonPrefixes (lb_CommonPrefixes l))"

definition InitiateMultipartUploadResult :: "string \<Rightarrow> string \<Rightarrow> string \<Rightarrow> xml" where
  "InitiateMultipartUploadResult bucket key uploadID = Elem ''InitiateMultipartUploadResult'' s3_xmlns
     [leaf ''Bucket'' bucket, leaf ''Key'' key, leaf ''UploadId'' uploadID]"

definition CompleteMultipartUploadResult :: "string \<Rightarrow> string \<Rightarrow> string \<Rightarrow> xml" where
  "CompleteMultipartUploadResult bucket key etag = Elem ''CompleteMultipartUploadResult'' s3_xmlns
     [leaf ''Bucket'' bucket, leaf ''Key'' key, leaf ''ETag'' etag]"

definition CopyObjectResult :: "string \<Rightarrow> string \<Rightarrow> xml" where
  "CopyObjectResult etag lastModified = Elem ''CopyObjectResult'' s3_xmlns
     [leaf ''ETag'' etag, leaf ''LastModified'' lastModified]"

lemmas S3_errors [go_defs] = s3_error_def S3NotImplemented_def S3EntityTooLarge_def S3InvalidAccessKey_def
  S3SignatureMismatch_def S3NoSuchBucket_def S3NoSuchKey_def S3InvalidRange_def S3MissingContentLength_def
  S3NoSuchUpload_def S3InvalidPart_def S3InvalidPartOrder_def S3InvalidArgument_def S3ServiceUnavailable_def
  S3InternalError_def

end
