(* ===== verification/Cors.thy ===== *)
theory Cors
  imports S3Errors
begin

text \<open>
  \<^verbatim>\<open>internal/s3api/cors.go\<close>. A compiled regular expression is the set of strings it matches;
  \<open>compile\<close> stands for \<^verbatim>\<open>regexp.Compile\<close> followed by \<^verbatim>\<open>MatchString\<close>, \<open>None\<close> when the expression is refused.
  A map that is ranged over is an association list.
\<close>

type_synonym regexp = "string \<Rightarrow> bool"

type_synonym OriginMatcher = "regexp list"

record CORSPolicy =
  cp_global :: OriginMatcher
  cp_buckets :: "(string \<times> OriginMatcher) list"

definition QuoteMeta :: "string \<Rightarrow> string" where
  "QuoteMeta s = concat (map (\<lambda>c. if c \<in> insert CHR 0x5C (set ''.+*?()|[]{}^$'') then [CHR 0x5C, c] else [c]) s)"

text \<open>The expression that a pattern stands for.\<close>

definition origin_expression :: "string \<Rightarrow> string" where
  "origin_expression pattern =
     (if 2 \<le> length pattern \<and> HasPrefix pattern ''/'' \<and> HasSuffix pattern ''/''
      then take (length pattern - 2) (drop 1 pattern)
      else if Contains pattern ''*'' then ''^'' @ Join (map QuoteMeta (Split pattern CHR ''*'')) ''.*'' @ ''$''
      else ''^'' @ QuoteMeta pattern @ ''$'')"

fun compileOriginMatcher :: "(string \<Rightarrow> regexp option) \<Rightarrow> string list \<Rightarrow> gerror + OriginMatcher" where
  "compileOriginMatcher compile [] = Inr []"
| "compileOriginMatcher compile (pattern # patterns) =
     (if pattern = [] then compileOriginMatcher compile patterns
      else case compile (''(?i:'' @ origin_expression pattern @ '')'') of
          None \<Rightarrow> Inl (Msg (''compile origin pattern '' @ Quote pattern))
        | Some rule \<Rightarrow>
            (case compileOriginMatcher compile patterns of
               Inl e \<Rightarrow> Inl e
             | Inr rules \<Rightarrow> Inr (rule # rules)))"

fun compile_buckets ::
    "(string \<Rightarrow> regexp option) \<Rightarrow> (string \<times> string list) list \<Rightarrow> gerror + (string \<times> OriginMatcher) list" where
  "compile_buckets compile [] = Inr []"
| "compile_buckets compile ((bucket, patterns) # rest) =
     (case compileOriginMatcher compile patterns of
        Inl err \<Rightarrow> Inl (Wrapf (''bucket '' @ Quote bucket @ '' CORS policy'') err)
      | Inr matcher \<Rightarrow>
          (case compile_buckets compile rest of
             Inl e \<Rightarrow> Inl e
           | Inr ms \<Rightarrow> Inr (if matcher \<noteq> [] then (bucket, matcher) # ms else ms)))"

definition CompileCORSPolicy ::
    "(string \<Rightarrow> regexp option) \<Rightarrow> string list \<Rightarrow> (string \<times> string list) list \<Rightarrow> gerror + CORSPolicy" where
  "CompileCORSPolicy compile global buckets =
     (case compileOriginMatcher compile global of
        Inl err \<Rightarrow> Inl (Wrapf ''global CORS policy'' err)
      | Inr globalMatcher \<Rightarrow>
          (case compile_buckets compile buckets of
             Inl e \<Rightarrow> Inl e
           | Inr bs \<Rightarrow> Inr \<lparr>cp_global = globalMatcher, cp_buckets = bs\<rparr>))"

definition allow :: "OriginMatcher \<Rightarrow> string \<Rightarrow> bool" where
  "allow m origin \<longleftrightarrow> list_ex (\<lambda>rule. rule origin) m"

definition matcherForBucket :: "CORSPolicy option \<Rightarrow> string \<Rightarrow> bool \<Rightarrow> OriginMatcher" where
  "matcherForBucket p bucket hasBucket =
     (case p of
        None \<Rightarrow> []
      | Some policy \<Rightarrow>
          (case (if hasBucket then map_of (cp_buckets policy) bucket else None) of
             Some matcher \<Rightarrow> matcher
           | None \<Rightarrow> cp_global policy))"

subsection \<open>Headers\<close>

definition vary_tokens :: "header \<Rightarrow> string list" where
  "vary_tokens h =
     map ToLower (filter (\<lambda>t. t \<noteq> []) (map TrimSpace (concat (map (\<lambda>v. Split v CHR '','') (header_Values h ''Vary'')))))"

fun addVary_loop :: "string list \<Rightarrow> header \<Rightarrow> string list \<Rightarrow> header" where
  "addVary_loop seen h [] = h"
| "addVary_loop seen h (name # names) =
     (let key = ToLower (TrimSpace name) in
      if key = [] \<or> key \<in> set seen then addVary_loop seen h names
      else addVary_loop (key # seen) (header_Add ''Vary'' name h) names)"

definition addVary :: "header \<Rightarrow> string list \<Rightarrow> header" where
  "addVary h names = addVary_loop (vary_tokens h) h names"

definition corsAllowMethods :: string where
  "corsAllowMethods = ''GET, HEAD, PUT, POST, DELETE, OPTIONS''"

definition corsAllowHeaders :: string where
  "corsAllowHeaders = ''Authorization, Content-Type, Range, X-Amz-Date, X-Amz-Content-Sha256''"

definition corsExposeHeaders :: string where
  "corsExposeHeaders = ''ETag, Content-Range, Content-Length, Accept-Ranges, Last-Modified''"

definition corsPreflightMaxAge :: string where
  "corsPreflightMaxAge = ''3600''"

definition corsMethods :: "string list" where
  "corsMethods = [''GET'', ''HEAD'', ''PUT'', ''POST'', ''DELETE'', ''OPTIONS'']"

definition corsHeaders :: "string list" where
  "corsHeaders = [''authorization'', ''content-type'', ''range'', ''x-amz-date'', ''x-amz-content-sha256'']"

definition requestedHeadersAllowed :: "string \<Rightarrow> bool" where
  "requestedHeadersAllowed v \<longleftrightarrow>
     list_all (\<lambda>part. let name = TrimSpace part in name = [] \<or> ToLower name \<in> set corsHeaders) (Split v CHR '','')"

definition originAllowed :: "Request \<Rightarrow> OriginMatcher \<Rightarrow> header \<Rightarrow> header \<times> bool" where
  "originAllowed r matcher h =
     (let origin = get_header r ''Origin'' in
      if \<not> allow matcher origin then (h, False)
      else (header_Set ''Access-Control-Expose-Headers'' corsExposeHeaders
              (header_Set ''Access-Control-Allow-Origin'' origin h), True))"

definition corsPreflight :: "Request \<Rightarrow> OriginMatcher \<Rightarrow> header \<Rightarrow> Response" where
  "corsPreflight r matcher h0 =
     (let h = addVary h0 [''Origin'', ''Access-Control-Request-Method'', ''Access-Control-Request-Headers''];
          origin = get_header r ''Origin'';
          method = ToUpper (TrimSpace (get_header r ''Access-Control-Request-Method'')) in
      if \<not> allow matcher origin \<or> method \<notin> set corsMethods \<or>
         \<not> requestedHeadersAllowed (get_header r ''Access-Control-Request-Headers'')
      then respond 403 h []
      else respond 204
        (header_Set ''Access-Control-Max-Age'' corsPreflightMaxAge
          (header_Set ''Access-Control-Allow-Headers'' corsAllowHeaders
            (header_Set ''Access-Control-Allow-Methods'' corsAllowMethods
              (header_Set ''Access-Control-Allow-Origin'' origin h)))) [])"

end
