(* ===== verification/ListToken.thy ===== *)
theory ListToken
  imports Json Captions
begin

text \<open>
  \<^verbatim>\<open>internal/s3api/list_token.go\<close>: the continuation token of a listing is the JSON document
  \<^verbatim>\<open>{"last_key": ...}\<close> in base64. What the file uses of \<^verbatim>\<open>encoding/base64\<close> and \<^verbatim>\<open>encoding/json\<close> is written
  out: the raw URL alphabet, the escaping of a string, and a parser of JSON texts.
\<close>

subsection \<open>base64.RawURLEncoding\<close>

definition b64_char :: "nat \<Rightarrow> char" where
  "b64_char n =
     (if n < 26 then char_of (65 + n) else if n < 52 then char_of (71 + n)
      else if n < 62 then char_of (n - 4) else if n = 62 then CHR ''-'' else CHR ''_'')"

definition b64_value :: "char \<Rightarrow> nat option" where
  "b64_value c =
     (let n = of_char c in
      if 65 \<le> n \<and> n \<le> 90 then Some (n - 65) else if 97 \<le> n \<and> n \<le> 122 then Some (n - 71)
      else if 48 \<le> n \<and> n \<le> 57 then Some (n + 4) else if n = 45 then Some 62
      else if n = 95 then Some 63 else None)"

fun b64_EncodeToString :: "bytes \<Rightarrow> string" where
  "b64_EncodeToString [] = []"
| "b64_EncodeToString [a] =
     (let x = of_char a :: nat in [b64_char (x div 4), b64_char (x mod 4 * 16)])"
| "b64_EncodeToString [a, b] =
     (let x = of_char a; y = of_char b :: nat in
      [b64_char (x div 4), b64_char (x mod 4 * 16 + y div 16), b64_char (y mod 16 * 4)])"
| "b64_EncodeToString (a # b # c # s) =
     (let x = of_char a; y = of_char b; z = of_char c :: nat in
      [b64_char (x div 4), b64_char (x mod 4 * 16 + y div 16), b64_char (y mod 16 * 4 + z div 64),
       b64_char (z mod 64)] @ b64_EncodeToString s)"

text \<open>Decoding passes over line breaks and does not look at the bits left over at the end.\<close>

fun b64_groups :: "nat list \<Rightarrow> bytes option" where
  "b64_groups [] = Some []"
| "b64_groups [p] = None"
| "b64_groups [p, q] = Some [char_of (p * 4 + q div 16)]"
| "b64_groups [p, q, r] = Some [char_of (p * 4 + q div 16), char_of (q mod 16 * 16 + r div 4)]"
| "b64_groups (p # q # r # t # s) =
     map_option ((@) [char_of (p * 4 + q div 16), char_of (q mod 16 * 16 + r div 4), char_of (r mod 4 * 64 + t)])
       (b64_groups s)"

definition b64_DecodeString :: "string \<Rightarrow> bytes option" where
  "b64_DecodeString s =
     Option.bind (those (map b64_value (filter (\<lambda>c. c \<noteq> CHR 0x0A \<and> c \<noteq> CHR 0x0D) s))) b64_groups"

subsection \<open>Strings in JSON texts\<close>

definition replacement_rune :: bytes where
  "replacement_rune = [CHR 0xEF, CHR 0xBF, CHR 0xBD]"

definition u_escape :: "nat \<Rightarrow> string" where
  "u_escape n = [CHR 0x5C, CHR ''u'', CHR ''0'', CHR ''0'', hex_digit (n div 16), lower (hex_digit n)]"

text \<open>The escape of an ASCII character, with the escaping for HTML that \<^verbatim>\<open>json.Marshal\<close> has switched on.\<close>

definition escape_ascii :: "char \<Rightarrow> string" where
  "escape_ascii c =
     (if c = CHR 0x22 \<or> c = CHR 0x5C then [CHR 0x5C, c]
      else if c = CHR 0x08 then [CHR 0x5C, CHR ''b''] else if c = CHR 0x0C then [CHR 0x5C, CHR ''f'']
      else if c = CHR 0x0A then [CHR 0x5C, CHR ''n''] else if c = CHR 0x0D then [CHR 0x5C, CHR ''r'']
      else if c = CHR 0x09 then [CHR 0x5C, CHR ''t'']
      else if of_char c < (32 :: nat) \<or> c \<in> {CHR ''<'', CHR ''>'', CHR ''&''} then u_escape (of_char c)
      else [c])"

function json_escape :: "bytes \<Rightarrow> string" where
  "json_escape [] = []"
| "json_escape (c # s) =
     (if of_char c < (128 :: nat) then escape_ascii c @ json_escape s
      else let w = rune_width (c # s) in
        if w = 1 then CHR 0x5C # ''ufffd'' @ json_escape s
        else if take w (c # s) = [CHR 0xE2, CHR 0x80, CHR 0xA8] then CHR 0x5C # ''u2028'' @ json_escape (drop w (c # s))
        else if take w (c # s) = [CHR 0xE2, CHR 0x80, CHR 0xA9] then CHR 0x5C # ''u2029'' @ json_escape (drop w (c # s))
        else take w (c # s) @ json_escape (drop w (c # s)))"
  by pat_completeness auto
termination
  by (relation "measure length") (use rune_width_pos in \<open>auto simp del: rune_width.simps\<close>)

definition json_string :: "bytes \<Rightarrow> string" where
  "json_string s = CHR 0x22 # json_escape s @ [CHR 0x22]"

text \<open>The UTF-8 encoding of a code point, and the string without invalid bytes.\<close>

definition rune_bytes :: "nat \<Rightarrow> bytes" where
  "rune_bytes n =
     (if n < 128 then [char_of n]
      else if n < 2048 then [char_of (192 + n div 64), char_of (128 + n mod 64)]
      else if n < 65536 then
        (if 55296 \<le> n \<and> n < 57344 then replacement_rune
         else [char_of (224 + n div 4096), char_of (128 + n div 64 mod 64), char_of (128 + n mod 64)])
      else [char_of (240 + n div 262144), char_of (128 + n div 4096 mod 64), char_of (128 + n div 64 mod 64),
            char_of (128 + n mod 64)])"

function ToValidUTF8 :: "bytes \<Rightarrow> bytes" where
  "ToValidUTF8 [] = []"
| "ToValidUTF8 (c # s) =
     (if of_char c < (128 :: nat) then c # ToValidUTF8 s
      else let w = rune_width (c # s) in
        if w = 1 then replacement_rune @ ToValidUTF8 s
        else take w (c # s) @ ToValidUTF8 (drop w (c # s)))"
  by pat_completeness auto
termination
  by (relation "measure length") (use rune_width_pos in \<open>auto simp del: rune_width.simps\<close>)

text \<open>\<^verbatim>\<open>getu4\<close>: four hexadecimal digits.\<close>

definition hex_nibble :: "char \<Rightarrow> nat option" where
  "hex_nibble c =
     (let n = of_char c :: nat in
      if 48 \<le> n \<and> n \<le> 57 then Some (n - 48) else if 97 \<le> n \<and> n \<le> 102 then Some (n - 87)
      else if 65 \<le> n \<and> n \<le> 70 then Some (n - 55) else None)"

definition getu4 :: "string \<Rightarrow> nat option" where
  "getu4 s =
     (if length s < 4 then None
      else map_option (foldl (\<lambda>a d. 16 * a + d) 0) (those (map hex_nibble (take 4 s))))"

definition simple_escape :: "char \<Rightarrow> char option" where
  "simple_escape e =
     map_of [(CHR 0x22, CHR 0x22), (CHR 0x5C, CHR 0x5C), (CHR ''/'', CHR ''/''), (CHR ''b'', CHR 0x08),
             (CHR ''f'', CHR 0x0C), (CHR ''n'', CHR 0x0A), (CHR ''r'', CHR 0x0D), (CHR ''t'', CHR 0x09)] e"

text \<open>The text behind the opening quote: the string and the text behind the closing quote.\<close>

function parse_chars :: "string \<Rightarrow> (bytes \<times> string) option" where
  "parse_chars [] = None"
| "parse_chars (c # s) =
     (if c = CHR 0x22 then Some ([], s)
      else if c = CHR 0x5C then
        (case s of
           [] \<Rightarrow> None
         | e # r \<Rightarrow>
             if e = CHR ''u'' then
               (case getu4 r of
                  None \<Rightarrow> None
                | Some hi \<Rightarrow>
                    if 55296 \<le> hi \<and> hi < 56320 \<and> take 2 (drop 4 r) = [CHR 0x5C, CHR ''u'']
                    then (case getu4 (drop 6 r) of
                        Some lo \<Rightarrow>
                          if 56320 \<le> lo \<and> lo < 57344
                          then map_option (apfst ((@) (rune_bytes (65536 + (hi - 55296) * 1024 + (lo - 56320)))))
                            (parse_chars (drop 10 r))
                          else map_option (apfst ((@) (rune_bytes hi))) (parse_chars (drop 4 r))
                      | None \<Rightarrow> None)
                    else map_option (apfst ((@) (rune_bytes hi))) (parse_chars (drop 4 r)))
             else (case simple_escape e of
                 None \<Rightarrow> None
               | Some d \<Rightarrow> map_option (apfst ((#) d)) (parse_chars r)))
      else if of_char c < (32 :: nat) then None
      else if of_char c < (128 :: nat) then map_option (apfst ((#) c)) (parse_chars s)
      else let w = rune_width (c # s) in
        if w = 1 then map_option (apfst ((@) replacement_rune)) (parse_chars s)
        else map_option (apfst ((@) (take w (c # s)))) (parse_chars (drop w (c # s))))"
  by pat_completeness auto
termination
  by (relation "measure length") (use rune_width_pos in \<open>auto simp del: rune_width.simps\<close>)

subsection \<open>JSON texts\<close>

definition skip_ws :: "string \<Rightarrow> string" where
  "skip_ws s = dropWhile (\<lambda>c. c \<in> {CHR '' '', CHR 0x09, CHR 0x0A, CHR 0x0D}) s"

definition is_dec :: "char \<Rightarrow> bool" where
  "is_dec c \<longleftrightarrow> digit_value c \<noteq> None"

text \<open>A number: an optional sign, digits without a leading zero, an optional fraction, an optional exponent.\<close>

definition parse_number :: "string \<Rightarrow> (json \<times> string) option" where
  "parse_number s =
     (let (sign, s1) = (case s of c # r \<Rightarrow> if c = CHR ''-'' then ([c], r) else ([], s) | [] \<Rightarrow> ([], []));
          ds = (if HasPrefix s1 ''0'' then ''0'' else takeWhile is_dec s1);
          s2 = drop (length ds) s1;
          frac = (case s2 of c # r \<Rightarrow> if c = CHR ''.'' then c # takeWhile is_dec r else [] | [] \<Rightarrow> []);
          s3 = drop (length frac) s2;
          expo = (case s3 of
                    c # r \<Rightarrow>
                      if c = CHR ''e'' \<or> c = CHR ''E''
                      then (let sg = (case r of d # _ \<Rightarrow> if d = CHR ''+'' \<or> d = CHR ''-'' then [d] else [] | [] \<Rightarrow> [])
                            in c # sg @ takeWhile is_dec (drop (length sg) r))
                      else []
                  | [] \<Rightarrow> []);
          s4 = drop (length expo) s3 in
      if ds = [] \<or> frac = ''.'' \<or> (expo \<noteq> [] \<and> \<not> is_dec (last expo)) then None
      else if frac = [] \<and> expo = []
      then map_option (\<lambda>v. (JNum (if sign = [] then v else - v), s4)) (digits_value 0 ds)
      else Some (JFloat (sign @ ds @ frac @ expo), s4))"

text \<open>Values, elements and members. Each step takes a character, so the length of the text bounds the
  recursion; \<^verbatim>\<open>encoding/json\<close> refuses documents nested more than 10000 deep, which is left out.\<close>

fun parse_value :: "nat \<Rightarrow> string \<Rightarrow> (json \<times> string) option"
  and parse_elems :: "nat \<Rightarrow> string \<Rightarrow> (json list \<times> string) option"
  and parse_membs :: "nat \<Rightarrow> string \<Rightarrow> ((string \<times> json) list \<times> string) option" where
  "parse_value 0 s = None"
| "parse_value (Suc n) s0 =
     (case skip_ws s0 of
        [] \<Rightarrow> None
      | c # s \<Rightarrow>
          if c = CHR 0x22 then map_option (apfst JStr) (parse_chars s)
          else if c = CHR 0x7B then
            (case skip_ws s of
               d # r \<Rightarrow> if d = CHR 0x7D then Some (JObj [], r) else map_option (apfst JObj) (parse_membs n s)
             | [] \<Rightarrow> None)
          else if c = CHR ''['' then
            (case skip_ws s of
               d # r \<Rightarrow> if d = CHR '']'' then Some (JArr [], r) else map_option (apfst JArr) (parse_elems n s)
             | [] \<Rightarrow> None)
          else if HasPrefix (c # s) ''true'' then Some (JBool True, drop 3 s)
          else if HasPrefix (c # s) ''false'' then Some (JBool False, drop 4 s)
          else if HasPrefix (c # s) ''null'' then Some (JNull, drop 3 s)
          else parse_number (c # s))"
| "parse_elems 0 s = None"
| "parse_elems (Suc n) s =
     (case parse_value n s of
        None \<Rightarrow> None
      | Some (v, r) \<Rightarrow>
          (case skip_ws r of
             [] \<Rightarrow> None
           | c # r2 \<Rightarrow>
               if c = CHR '']'' then Some ([v], r2)
               else if c = CHR '','' then map_option (apfst ((#) v)) (parse_elems n r2) else None))"
| "parse_membs 0 s = None"
| "parse_membs (Suc n) s =
     (case skip_ws s of
        [] \<Rightarrow> None
      | q # s1 \<Rightarrow>
          if q \<noteq> CHR 0x22 then None
          else (case parse_chars s1 of
              None \<Rightarrow> None
            | Some (name, s2) \<Rightarrow>
                (case skip_ws s2 of
                   [] \<Rightarrow> None
                 | d # s3 \<Rightarrow>
                     if d \<noteq> CHR '':'' then None
                     else (case parse_value n s3 of
                         None \<Rightarrow> None
                       | Some (v, r) \<Rightarrow>
                           (case skip_ws r of
                              [] \<Rightarrow> None
                            | c # r2 \<Rightarrow>
                                if c = CHR 0x7D then Some ([(name, v)], r2)
                                else if c = CHR '','' then map_option (apfst ((#) (name, v))) (parse_membs n r2)
                                else None)))))"

definition json_parse :: "bytes \<Rightarrow> json option" where
  "json_parse s =
     (case parse_value (Suc (length s)) s of
        Some (v, r) \<Rightarrow> if skip_ws r = [] then Some v else None
      | None \<Rightarrow> None)"

subsection \<open>The token\<close>

record continuationTokenPayload =
  ct_LastKey :: "string option"

definition payload_text :: "string \<Rightarrow> string" where
  "payload_text lastKey = CHR 0x7B # json_string ''last_key'' @ '':'' @ json_string lastKey @ [CHR 0x7D]"

text \<open>A pointer to a string: \<^verbatim>\<open>null\<close> makes it nil, a string sets it.\<close>

fun decode_string_pointer :: "string option decoder" where
  "decode_string_pointer JNull old = (None, True)"
| "decode_string_pointer (JStr s) old = (Some s, True)"
| "decode_string_pointer _ old = (old, False)"

definition decode_payload :: "continuationTokenPayload decoder" where
  "decode_payload = decode_struct [field ''last_key'' ct_LastKey ct_LastKey_update decode_string_pointer]"

definition EncodeContinuationToken :: "string \<Rightarrow> string" where
  "EncodeContinuationToken lastKey = b64_EncodeToString (payload_text lastKey)"

definition DecodeContinuationToken :: "string \<Rightarrow> gerror + string" where
  "DecodeContinuationToken token =
     (case b64_DecodeString token of
        None \<Rightarrow> Inl (Msg ''illegal base64 data'')
      | Some payload \<Rightarrow>
          (case Unmarshal json_parse decode_payload \<lparr>ct_LastKey = None\<rparr> payload of
             Inl err \<Rightarrow> Inl err
           | Inr decoded \<Rightarrow>
               (case ct_LastKey decoded of
                  None \<Rightarrow> Inl (Sent ErrInvalidArgumentValue)
                | Some k \<Rightarrow> Inr k)))"

end
