(* ===== verification/SigV4.thy ===== *)
theory SigV4
  imports Http "HOL-Library.Product_Lexorder"
begin

text \<open>
  \<^verbatim>\<open>internal/s3api/sigv4.go\<close>: AWS signature version 4, in the header and in the query. The hash functions
  and \<^verbatim>\<open>time.ParseDuration\<close> are parameters; log lines are left out. Reading the body to hash it and
  putting a fresh reader in its place leaves the request as it was, so that \<open>Verify\<close> is a function.
\<close>

definition EmptyPayloadSHA256 :: string where
  "EmptyPayloadSHA256 = ''e3b0c44298fc1c149afbf4c8996fb92427ae41e4649b934ca495991b7852b855''"

record crypto =
  cr_sha256 :: "bytes \<Rightarrow> bytes"
  cr_hmac :: "bytes \<Rightarrow> string \<Rightarrow> bytes"
  cr_ParseDuration :: "string \<Rightarrow> int option"

record Identity =
  id_AccessKey :: string
  id_Presigned :: bool

record SigV4Verifier =
  sv_region :: string
  sv_keys :: "string \<rightharpoonup> string"
  sv_clock :: int
  sv_maxSkew :: int

record sigV4Authorization =
  au_accessKey :: string
  au_date :: string
  au_region :: string
  au_service :: string
  au_signedHeaders :: "string list"
  au_signature :: string
  au_xAmzDate :: string
  au_expires :: int
  au_presigned :: bool

subsection \<open>Parsing the authorization\<close>

text \<open>The comma separated fields of the header, later ones win.\<close>

fun auth_fields :: "string list \<Rightarrow> (string \<times> string) list option" where
  "auth_fields [] = Some []"
| "auth_fields (part # parts) =
     (case Cut (TrimSpace part) ''='' of
        (key, val, ok) \<Rightarrow>
          if \<not> ok \<or> val = [] then None
          else map_option (\<lambda>vs. vs @ [(key, val)]) (auth_fields parts))"

definition auth_field :: "(string \<times> string) list \<Rightarrow> string \<Rightarrow> string" where
  "auth_field vs k = (case map_of vs k of Some v \<Rightarrow> v | None \<Rightarrow> [])"

definition sig_prefix :: string where
  "sig_prefix = ''AWS4-HMAC-SHA256 ''"

definition parseSigV4Authorization :: "string \<Rightarrow> gerror + sigV4Authorization" where
  "parseSigV4Authorization hdr =
     (if \<not> HasPrefix hdr sig_prefix then Inl (Msg ''invalid authorization scheme'')
      else case auth_fields (Split (drop (length sig_prefix) hdr) CHR '','') of
        None \<Rightarrow> Inl (Msg ''invalid authorization field'')
      | Some values \<Rightarrow>
          let credentialParts = Split (auth_field values ''Credential'') CHR ''/'' in
          if length credentialParts \<noteq> 5 \<or> credentialParts ! 4 \<noteq> ''aws4_request''
          then Inl (Msg ''invalid credential scope'')
          else
            let signedHeaders = Split (auth_field values ''SignedHeaders'') CHR '';'' in
            if hd signedHeaders = [] \<or> auth_field values ''Signature'' = []
            then Inl (Msg ''missing authorization fields'')
            else Inr \<lparr>au_accessKey = credentialParts ! 0, au_date = credentialParts ! 1,
                      au_region = credentialParts ! 2, au_service = credentialParts ! 3,
                      au_signedHeaders = signedHeaders, au_signature = ToLower (auth_field values ''Signature''),
                      au_xAmzDate = [], au_expires = 0, au_presigned = False\<rparr>)"

definition seconds :: "int \<Rightarrow> int" where
  "seconds n = n * 1000000000"

definition parseSigV4QueryAuthorization :: "crypto \<Rightarrow> query \<Rightarrow> gerror + sigV4Authorization" where
  "parseSigV4QueryAuthorization cr values =
     (if query_Get values ''X-Amz-Algorithm'' \<noteq> ''AWS4-HMAC-SHA256'' then Inl (Msg ''invalid authorization scheme'')
      else
        let credential = query_Get values ''X-Amz-Credential'';
            xAmzDate = query_Get values ''X-Amz-Date'';
            expiresValue = query_Get values ''X-Amz-Expires'';
            signedHeadersValue = query_Get values ''X-Amz-SignedHeaders'';
            signature = query_Get values ''X-Amz-Signature'' in
        if credential = [] \<or> xAmzDate = [] \<or> expiresValue = [] \<or> signedHeadersValue = [] \<or> signature = []
        then Inl (Msg ''missing authorization fields'')
        else
          let credentialParts = Split credential CHR ''/'' in
          if length credentialParts \<noteq> 5 \<or> credentialParts ! 4 \<noteq> ''aws4_request''
          then Inl (Msg ''invalid credential scope'')
          else case cr_ParseDuration cr (expiresValue @ ''s'') of
            None \<Rightarrow> Inl (Msg ''invalid expires'')
          | Some expiresSeconds \<Rightarrow>
              if expiresSeconds \<le> 0 \<or> expiresSeconds > seconds (7 * 24 * 3600) then Inl (Msg ''invalid expires'')
              else
                let signedHeaders = Split signedHeadersValue CHR '';'' in
                if hd signedHeaders = [] then Inl (Msg ''missing signed headers'')
                else Inr \<lparr>au_accessKey = credentialParts ! 0, au_date = credentialParts ! 1,
                          au_region = credentialParts ! 2, au_service = credentialParts ! 3,
                          au_signedHeaders = signedHeaders, au_signature = ToLower signature,
                          au_xAmzDate = xAmzDate, au_expires = expiresSeconds, au_presigned = True\<rparr>)"

definition parseSigV4RequestAuth :: "crypto \<Rightarrow> Request \<Rightarrow> gerror + sigV4Authorization" where
  "parseSigV4RequestAuth cr r =
     (if get_header r ''Authorization'' \<noteq> [] then
        (case parseSigV4Authorization (get_header r ''Authorization'') of
           Inl err \<Rightarrow> Inl err
         | Inr auth \<Rightarrow> Inr (auth\<lparr>au_xAmzDate := get_header r ''X-Amz-Date''\<rparr>))
      else parseSigV4QueryAuthorization cr (Query (rq_URL r)))"

subsection \<open>Time\<close>

definition validateRequestTime :: "SigV4Verifier \<Rightarrow> string \<Rightarrow> string \<Rightarrow> gerror option" where
  "validateRequestTime v xAmzDate scopeDate =
     (case parse_amz_time xAmzDate of
        None \<Rightarrow> Some (Msg ''parsing time'')
      | Some (signedAt, y, m, d) \<Rightarrow>
          if scopeDate \<noteq> format_date y m d then Some (Msg ''credential scope date does not match request timestamp'')
          else if sv_maxSkew v \<le> 0 then None
          else if signedAt < sv_clock v - sv_maxSkew v \<or> signedAt > sv_clock v + sv_maxSkew v
          then Some (Msg ''request timestamp outside allowed skew'')
          else None)"

definition validatePresignedRequestTime :: "SigV4Verifier \<Rightarrow> string \<Rightarrow> string \<Rightarrow> int \<Rightarrow> gerror option" where
  "validatePresignedRequestTime v xAmzDate scopeDate expires =
     (case parse_amz_time xAmzDate of
        None \<Rightarrow> Some (Msg ''parsing time'')
      | Some (signedAt, y, m, d) \<Rightarrow>
          if scopeDate \<noteq> format_date y m d then Some (Msg ''credential scope date does not match request timestamp'')
          else if sv_maxSkew v > 0 \<and> signedAt > sv_clock v + sv_maxSkew v
          then Some (Msg ''request timestamp outside allowed skew'')
          else if sv_clock v > signedAt + expires then Some (Msg ''request expired'')
          else None)"

subsection \<open>The canonical request\<close>

definition hexSHA256 :: "crypto \<Rightarrow> string \<Rightarrow> string" where
  "hexSHA256 cr data = EncodeToString (cr_sha256 cr data)"

definition payloadHash :: "crypto \<Rightarrow> Request \<Rightarrow> gerror + string" where
  "payloadHash cr r =
     (let hash = get_header r ''X-Amz-Content-Sha256'' in
      if hash = [] then
        (if rq_Body r = None then Inr EmptyPayloadSHA256 else Inl (Msg ''missing payload hash''))
      else if hash = ''UNSIGNED-PAYLOAD'' then Inr hash
      else case rq_Body r of
          None \<Rightarrow> if hash \<noteq> EmptyPayloadSHA256 then Inl (Msg ''payload hash mismatch'') else Inr hash
        | Some b \<Rightarrow>
            (case ReadAll b of
               Inl err \<Rightarrow> Inl (Wrapf ''read body'' err)
             | Inr body \<Rightarrow>
                 if hexSHA256 cr body \<noteq> ToLower hash then Inl (Msg ''payload hash mismatch'') else Inr (ToLower hash)))"

definition canonicalURI :: "url \<Rightarrow> string" where
  "canonicalURI u = (let path = EscapedPath u in if path = [] then ''/'' else path)"

definition sigV4Encode :: "string \<Rightarrow> bool \<Rightarrow> string" where
  "sigV4Encode s encodeSlash =
     concat (map (\<lambda>c. if unreserved c then [c] else if c = CHR ''/'' \<and> \<not> encodeSlash then [c] else pct c) s)"

text \<open>The decoding in \<^verbatim>\<open>canonicalQueryComponent\<close>: a percent sign that starts no escape stays.\<close>

fun lenient_decode :: "string \<Rightarrow> string" where
  "lenient_decode [] = []"
| "lenient_decode (c # s) =
     (case s of
        h # l # r \<Rightarrow>
          if c = CHR ''%'' then
            (case (hex_value h, hex_value l) of
               (Some a, Some b) \<Rightarrow> char_of (16 * a + b) # lenient_decode r
             | _ \<Rightarrow> c # lenient_decode s)
          else c # lenient_decode s
      | _ \<Rightarrow> c # lenient_decode s)"

definition canonicalQueryComponent :: "string \<Rightarrow> string" where
  "canonicalQueryComponent raw = sigV4Encode (lenient_decode raw) True"

definition canonical_pairs :: "string \<Rightarrow> bool \<Rightarrow> (string \<times> string) list" where
  "canonical_pairs rawQuery excludeSignature =
     List.map_filter (\<lambda>token.
       case Cut token ''='' of (key, val, hasValue) \<Rightarrow>
         if excludeSignature \<and> canonicalQueryComponent key = ''X-Amz-Signature'' then None
         else Some (canonicalQueryComponent key, canonicalQueryComponent (if hasValue then val else [])))
       (Split rawQuery CHR ''&'')"

definition canonicalQueryString :: "url \<Rightarrow> bool \<Rightarrow> string" where
  "canonicalQueryString u excludeSignature =
     (if u_RawQuery u = [] then []
      else Join (map (\<lambda>(k, v). k @ ''='' @ v) (sort (canonical_pairs (u_RawQuery u) excludeSignature))) ''&'')"

definition headerValue :: "Request \<Rightarrow> string \<Rightarrow> string option" where
  "headerValue r name =
     (let plain = (case header_Values (rq_Header r) (CanonicalHeaderKey name) of
                     [] \<Rightarrow> None | vs \<Rightarrow> Some (Join vs '','')) in
      if name = ''host'' then
        (if rq_Host r \<noteq> [] then Some (rq_Host r)
         else if u_Host (rq_URL r) \<noteq> [] then Some (u_Host (rq_URL r)) else None)
      else if name = ''content-length'' \<and> header_Values (rq_Header r) ''Content-Length'' = [] \<and> rq_ContentLength r \<ge> 0
      then Some (Itoa (rq_ContentLength r))
      else plain)"

definition normalizeHeaderValue :: "string \<Rightarrow> string" where
  "normalizeHeaderValue val = Join (Fields (TrimSpace val)) '' ''"

fun normalize_names :: "string list \<Rightarrow> string list \<Rightarrow> gerror + string list" where
  "normalize_names acc [] = Inr acc"
| "normalize_names acc (hdr # hdrs) =
     (let name = ToLower (TrimSpace hdr) in
      if name = [] then Inl (Msg ''empty signed header'')
      else if name \<in> set acc then Inl (Msg ''duplicate signed header'')
      else normalize_names (acc @ [name]) hdrs)"

fun header_lines :: "Request \<Rightarrow> string list \<Rightarrow> gerror + string list" where
  "header_lines r [] = Inr []"
| "header_lines r (name # names) =
     (case headerValue r name of
        None \<Rightarrow> Inl (Msg ''missing signed header'')
      | Some v \<Rightarrow>
          (case header_lines r names of
             Inl e \<Rightarrow> Inl e
           | Inr ls \<Rightarrow> Inr ((name @ '':'' @ normalizeHeaderValue v) # ls)))"

abbreviation newline :: string where "newline \<equiv> [CHR 0x0A]"

definition canonicalHeaders :: "Request \<Rightarrow> string list \<Rightarrow> gerror + string \<times> string" where
  "canonicalHeaders r signedHeaders =
     (case normalize_names [] signedHeaders of
        Inl e \<Rightarrow> Inl e
      | Inr names \<Rightarrow>
          let sorted_names = sort names in
          (case header_lines r sorted_names of
             Inl e \<Rightarrow> Inl e
           | Inr ls \<Rightarrow> Inr (Join ls newline @ newline, Join sorted_names '';'')))"

definition buildCanonicalRequest :: "Request \<Rightarrow> string list \<Rightarrow> string \<Rightarrow> bool \<Rightarrow> gerror + string" where
  "buildCanonicalRequest r signedHeaders hash excludeSignatureQuery =
     (case canonicalHeaders r signedHeaders of
        Inl err \<Rightarrow> Inl err
      | Inr (hdrs, signedHeaderList) \<Rightarrow>
          Inr (Join [rq_Method r, canonicalURI (rq_URL r), canonicalQueryString (rq_URL r) excludeSignatureQuery,
                     hdrs, signedHeaderList, hash] newline))"

subsection \<open>Signing and verifying\<close>

definition deriveSigningKey :: "crypto \<Rightarrow> string \<Rightarrow> string \<Rightarrow> string \<Rightarrow> string \<Rightarrow> bytes" where
  "deriveSigningKey cr secret date region service =
     (let dateKey = cr_hmac cr (''AWS4'' @ secret) date;
          regionKey = cr_hmac cr dateKey region;
          serviceKey = cr_hmac cr regionKey service in
      cr_hmac cr serviceKey ''aws4_request'')"

definition signature_over :: "crypto \<Rightarrow> bytes \<Rightarrow> string \<Rightarrow> string \<Rightarrow> string \<Rightarrow> string" where
  "signature_over cr signingKey xAmzDate credentialScope canonicalRequest =
     EncodeToString (cr_hmac cr signingKey
       (Join [''AWS4-HMAC-SHA256'', xAmzDate, credentialScope, hexSHA256 cr canonicalRequest] newline))"

definition cloneRequestWithHeader :: "Request \<Rightarrow> string \<Rightarrow> string \<Rightarrow> Request" where
  "cloneRequestWithHeader r name val = r\<lparr>rq_Header := header_Set name val (rq_Header r)\<rparr>"

definition fallbackAcceptedByRewrittenAcceptEncoding ::
    "crypto \<Rightarrow> Request \<Rightarrow> string list \<Rightarrow> string \<Rightarrow> bytes \<Rightarrow> string \<Rightarrow> string \<Rightarrow> string \<Rightarrow> bool \<Rightarrow> bool" where
  "fallbackAcceptedByRewrittenAcceptEncoding cr r signedHeaders signature signingKey xAmzDate credentialScope
       canonicalPayloadHash presigned \<longleftrightarrow>
     get_header r ''Accept-Encoding'' \<noteq> [] \<and>
     list_ex (\<lambda>hdr. EqualFold (TrimSpace hdr) ''accept-encoding'') signedHeaders \<and>
     list_ex (\<lambda>fallbackValue.
         case buildCanonicalRequest (cloneRequestWithHeader r ''Accept-Encoding'' fallbackValue) signedHeaders
             canonicalPayloadHash presigned of
           Inl _ \<Rightarrow> False
         | Inr fallbackCanonicalRequest \<Rightarrow>
             signature_over cr signingKey xAmzDate credentialScope fallbackCanonicalRequest = signature)
       [''identity'', ''gzip'']"

definition Verify :: "crypto \<Rightarrow> SigV4Verifier \<Rightarrow> Request \<Rightarrow> gerror + Identity" where
  "Verify cr v r =
     (let mismatch = Sent ErrSignatureDoesNotMatch in
      case parseSigV4RequestAuth cr r of
        Inl err \<Rightarrow> Inl mismatch
      | Inr auth \<Rightarrow>
          if au_region auth \<noteq> sv_region v \<or> au_service auth \<noteq> ''s3'' then Inl mismatch
          else if au_accessKey auth = [] then Inl (Sent ErrInvalidAccessKeyID)
          else case sv_keys v (au_accessKey auth) of
              None \<Rightarrow> Inl (Sent ErrInvalidAccessKeyID)
            | Some secret \<Rightarrow>
                if au_xAmzDate auth = [] then Inl mismatch
                else if (if au_presigned auth
                         then validatePresignedRequestTime v (au_xAmzDate auth) (au_date auth) (au_expires auth)
                         else validateRequestTime v (au_xAmzDate auth) (au_date auth)) \<noteq> None then Inl mismatch
                else case (if au_presigned auth then Inr ''UNSIGNED-PAYLOAD'' else payloadHash cr r) of
                    Inl err \<Rightarrow> Inl mismatch
                  | Inr canonicalPayloadHash \<Rightarrow>
                      (case buildCanonicalRequest r (au_signedHeaders auth) canonicalPayloadHash (au_presigned auth) of
                         Inl err \<Rightarrow> Inl mismatch
                       | Inr canonicalRequest \<Rightarrow>
                           let credentialScope = Join [au_date auth, au_region auth, au_service auth, ''aws4_request''] ''/'';
                               signingKey = deriveSigningKey cr secret (au_date auth) (au_region auth) (au_service auth);
                               expectedSignature = signature_over cr signingKey (au_xAmzDate auth) credentialScope
                                 canonicalRequest in
                           if expectedSignature = au_signature auth \<or>
                              fallbackAcceptedByRewrittenAcceptEncoding cr r (au_signedHeaders auth) (au_signature auth)
                                signingKey (au_xAmzDate auth) credentialScope canonicalPayloadHash (au_presigned auth)
                           then Inr \<lparr>id_AccessKey = au_accessKey auth, id_Presigned = au_presigned auth\<rparr>
                           else Inl mismatch))"

end
