(* ===== verification/S3Server.thy ===== *)
theory S3Server
  imports Cors ListToken SigV4 StoreList StoreMultipart
begin

text \<open>
  \<^verbatim>\<open>internal/s3api/server.go\<close>: the S3 API over the object store. A handler takes the header set so far and
  the state of the store and returns the response and the state it leaves; log lines are left out.
  Parameters: the crypto functions of the verifier, the decoding of the XML body of
  \<^verbatim>\<open>CompleteMultipartUpload\<close>, and the time at which the request arrives.
\<close>

record s3_env =
  s3_crypto :: crypto
  s3_Decode :: "reader \<Rightarrow> gerror + CompletedPart list"
  s3_now :: int

record S3Options =
  so_Region :: string
  so_Credentials :: "string \<rightharpoonup> string"
  so_PublicReadBuckets :: "string \<rightharpoonup> bool"
  so_Ready :: "bool option"
  so_SigV4MaxSkew :: int
  so_CORS :: "CORSPolicy option"

record Server =
  srv_ready :: bool
  srv_verify :: SigV4Verifier
  srv_publicReadBuckets :: "string \<rightharpoonup> bool"
  srv_cors :: "CORSPolicy option"

text \<open>\<^verbatim>\<open>NewSigV4Verifier\<close> and \<^verbatim>\<open>NewServer\<close>; the clock is read when a request is verified.\<close>

definition NewSigV4Verifier :: "string \<Rightarrow> (string \<rightharpoonup> string) \<Rightarrow> int option \<Rightarrow> SigV4Verifier" where
  "NewSigV4Verifier region keys maxSkew =
     \<lparr>sv_region = region, sv_keys = keys, sv_clock = 0,
      sv_maxSkew = (case maxSkew of Some d \<Rightarrow> d | None \<Rightarrow> seconds (15 * 60))\<rparr>"

definition NewServer :: "S3Options \<Rightarrow> Server" where
  "NewServer opts =
     \<lparr>srv_ready = (case so_Ready opts of Some b \<Rightarrow> b | None \<Rightarrow> True),
      srv_verify = NewSigV4Verifier (so_Region opts) (so_Credentials opts)
        (if so_SigV4MaxSkew opts \<noteq> 0 then Some (so_SigV4MaxSkew opts) else None),
      srv_publicReadBuckets = (\<lambda>b. if so_PublicReadBuckets opts b = Some True then Some True else None),
      srv_cors = so_CORS opts\<rparr>"

type_synonym 'w handler = "header \<Rightarrow> 'w ostate \<Rightarrow> Response \<times> 'w ostate"

text \<open>A call of the store with the answer to its error and to its result.\<close>

definition on_store :: "('w, 'a) act \<Rightarrow> (gerror \<Rightarrow> Response) \<Rightarrow> ('a \<Rightarrow> Response) \<Rightarrow> 'w ostate \<Rightarrow> Response \<times> 'w ostate" where
  "on_store m bad good s = (case m s of (Inl e, s') \<Rightarrow> (bad e, s') | (Inr x, s') \<Rightarrow> (good x, s'))"

definition fail_with :: "Request \<Rightarrow> header \<Rightarrow> S3Error \<Rightarrow> Response" where
  "fail_with r h e = WriteErrorResponse h r e (u_Path (rq_URL r)) []"

definition fail_mapped :: "Request \<Rightarrow> header \<Rightarrow> gerror \<Rightarrow> Response" where
  "fail_mapped r h e = fail_with r h (MapError (Some e))"

definition writeXML :: "header \<Rightarrow> int \<Rightarrow> xml \<Rightarrow> Response" where
  "writeXML h status v = respond status (header_Set ''Content-Type'' ''application/xml'' h) (xml_Header @ xml_text v)"

subsection \<open>Paths and the choice of the handler\<close>

definition splitPath :: "url \<Rightarrow> string \<times> string \<times> bool" where
  "splitPath u =
     (let path = (if EscapedPath u = [] then ''/'' else EscapedPath u);
          trimmed = TrimPrefix path ''/'' in
      if trimmed = [] then ([], [], False)
      else case Cut trimmed ''/'' of
          (bucketPart, keyPart, _) \<Rightarrow>
            let bucket = (case PathUnescape bucketPart of Some b \<Rightarrow> b | None \<Rightarrow> bucketPart) in
            if keyPart = [] then (bucket, [], True)
            else (bucket, (case PathUnescape keyPart of Some k \<Rightarrow> k | None \<Rightarrow> keyPart), True))"

definition allowsPresignedRequest :: "Request \<Rightarrow> bool" where
  "allowsPresignedRequest r \<longleftrightarrow>
     rq_Method r \<in> {''GET'', ''HEAD''} \<and>
     (case splitPath (rq_URL r) of (_, key, hasBucket) \<Rightarrow> hasBucket \<and> key \<noteq> [])"

definition hasSigV4Header :: "Request \<Rightarrow> bool" where
  "hasSigV4Header r \<longleftrightarrow> list_ex (\<lambda>(name, _). HasPrefix (ToLower name) ''x-amz-'') (rq_Header r)"

definition hasSigV4QueryAuth :: "Request \<Rightarrow> bool" where
  "hasSigV4QueryAuth r \<longleftrightarrow> list_ex (\<lambda>(key, _). HasPrefix (ToLower key) ''x-amz-'') (Query (rq_URL r))"

definition allowsAnonymousPublicRead :: "Server \<Rightarrow> Request \<Rightarrow> bool" where
  "allowsAnonymousPublicRead srv r \<longleftrightarrow>
     get_header r ''Authorization'' = [] \<and> \<not> hasSigV4Header r \<and> \<not> hasSigV4QueryAuth r \<and>
     rq_Method r \<in> {''GET'', ''HEAD''} \<and>
     (case splitPath (rq_URL r) of
        (bucket, key, hasBucket) \<Rightarrow> hasBucket \<and> key \<noteq> [] \<and> srv_publicReadBuckets srv bucket = Some True)"

fun prefers_loop :: "string list \<Rightarrow> bool" where
  "prefers_loop [] = False"
| "prefers_loop (part # parts) =
     (let mediaType = TrimSpace (hd (SplitN2 part '';'')) in
      if mediaType = ''text/html'' then True
      else if mediaType \<in> {''application/xml'', ''text/xml'', ''*/*''} then False
      else prefers_loop parts)"

definition prefersHTML :: "string \<Rightarrow> bool" where
  "prefersHTML accept \<longleftrightarrow> accept \<noteq> [] \<and> prefers_loop (Split (ToLower accept) CHR '','')"

definition listing_keys :: "string list" where
  "listing_keys = [''list-type'', ''delimiter'', ''prefix'', ''continuation-token'', ''max-keys'', ''start-after'',
     ''encoding-type'', ''fetch-owner'']"

definition shouldServeHTMLRoot :: "Request \<Rightarrow> bool" where
  "shouldServeHTMLRoot r \<longleftrightarrow>
     u_Path (rq_URL r) = ''/'' \<and> prefersHTML (get_header r ''Accept'') \<and>
     get_header r ''Authorization'' = [] \<and> get_header r ''X-Amz-Date'' = [] \<and>
     get_header r ''X-Amz-Content-Sha256'' = [] \<and> \<not> hasSigV4Header r \<and>
     \<not> list_ex (\<lambda>(key, _). HasPrefix (ToLower key) ''x-amz-'' \<or> ToLower key \<in> set listing_keys) (Query (rq_URL r))"

subsection \<open>Buckets\<close>

definition h_listBuckets :: "oenv \<Rightarrow> Request \<Rightarrow> 'w handler" where
  "h_listBuckets env r h = on_store (Store_ListBuckets env) (fail_mapped r h)
     (\<lambda>buckets. writeXML h 200 (ListAllMyBucketsResult
        (map (\<lambda>b. \<lparr>xb_Name = bk_Name b, xb_CreationDate = format_RFC3339 (bk_CreatedAt b)\<rparr>) buckets)))"

definition quoted :: "string \<Rightarrow> string" where
  "quoted etag = CHR 0x22 # etag @ [CHR 0x22]"

definition contents_of :: "ObjectInfo \<Rightarrow> xContents" where
  "contents_of ob =
     \<lparr>xc_Key = oi_Key ob, xc_LastModified = format_RFC3339 (oi_LastModified ob), xc_ETag = quoted (oi_ETag ob),
      xc_Size = oi_Size ob, xc_StorageClass = ''STANDARD''\<rparr>"

definition list_response :: "string \<Rightarrow> query \<Rightarrow> int \<Rightarrow> ListObjectsResult \<Rightarrow> ListBucketResult" where
  "list_response bucket qry maxKeys result =
     \<lparr>lb_Name = bucket, lb_Prefix = query_Get qry ''prefix'', lb_Delimiter = query_Get qry ''delimiter'',
      lb_MaxKeys = maxKeys,
      lb_KeyCount = int (length (lr_Objects result)) + int (length (lr_CommonPrefixes result)),
      lb_ContinuationToken = query_Get qry ''continuation-token'',
      lb_NextContinuationToken =
        (if lr_IsTruncated result \<and> lr_Next result \<noteq> [] then EncodeContinuationToken (lr_Next result) else []),
      lb_StartAfter = [], lb_IsTruncated = lr_IsTruncated result,
      lb_Contents = map contents_of (lr_Objects result), lb_CommonPrefixes = lr_CommonPrefixes result\<rparr>"

definition h_listObjectsV2 :: "oenv \<Rightarrow> Request \<Rightarrow> string \<Rightarrow> 'w handler" where
  "h_listObjectsV2 env r bucket h s =
     (let qry = Query (rq_URL r);
          bad = fail_with r h S3InvalidArgument in
      if query_Get qry ''list-type'' \<noteq> [] \<and> query_Get qry ''list-type'' \<noteq> ''2'' then (bad, s)
      else
        case (if query_Get qry ''max-keys'' = [] then Some 1000
              else (case ParseInt (query_Get qry ''max-keys'') of
                  Some n \<Rightarrow> if n < 0 then None else Some n
                | None \<Rightarrow> None)) of
          None \<Rightarrow> (bad, s)
        | Some maxKeys \<Rightarrow>
            (case (if query_Get qry ''continuation-token'' = [] then Inr []
                   else DecodeContinuationToken (query_Get qry ''continuation-token'')) of
               Inl _ \<Rightarrow> (bad, s)
             | Inr afterKey \<Rightarrow>
                 on_store (Store_ListObjects env
                     \<lparr>li_Bucket = bucket, li_Prefix = query_Get qry ''prefix'',
                      li_Delimiter = query_Get qry ''delimiter'', li_AfterKey = afterKey, li_Limit = maxKeys\<rparr>)
                   (fail_mapped r h)
                   (\<lambda>result. writeXML h 200 (xml_ListBucketResult (list_response bucket qry maxKeys result))) s))"

definition handleBucket :: "oenv \<Rightarrow> Request \<Rightarrow> string \<Rightarrow> 'w handler" where
  "handleBucket env r bucket h =
     (if rq_Method r = ''PUT'' \<or> rq_Method r = ''HEAD''
      then on_store (HeadBucket bucket) (fail_mapped r h) (\<lambda>_. respond 200 h [])
      else if rq_Method r = ''GET'' then h_listObjectsV2 env r bucket h
      else if rq_Method r = ''DELETE''
      then on_store (Store_DeleteBucket env bucket) (fail_mapped r h) (\<lambda>_. respond 204 h [])
      else Pair (http_NotFound h))"

subsection \<open>Multipart uploads\<close>

definition h_createMultipartUpload :: "oenv \<Rightarrow> Request \<Rightarrow> string \<Rightarrow> string \<Rightarrow> 'w handler" where
  "h_createMultipartUpload env r bucket key h =
     on_store (CreateMultipartUpload env bucket key (get_header r ''Content-Type'')) (fail_mapped r h)
       (\<lambda>uploadID. writeXML h 200 (InitiateMultipartUploadResult bucket key uploadID))"

definition h_uploadPart :: "oenv \<Rightarrow> Request \<Rightarrow> string \<Rightarrow> string \<Rightarrow> 'w handler" where
  "h_uploadPart env r bucket key h s =
     (let qry = Query (rq_URL r); uploadID = query_Get qry ''uploadId'' in
      case ParseInt (query_Get qry ''partNumber'') of
        None \<Rightarrow> (fail_with r h S3InvalidArgument, s)
      | Some partNumber \<Rightarrow>
          if uploadID = [] \<or> partNumber < 1 then (fail_with r h S3InvalidArgument, s)
          else if rq_ContentLength r < 0 then (fail_with r h S3MissingContentLength, s)
          else on_store (UploadPart env \<lparr>pt_Bucket = bucket, pt_Key = key, pt_UploadID = uploadID,
                   pt_PartNumber = partNumber, pt_Size = rq_ContentLength r, pt_Body = rq_Body r\<rparr>)
                 (fail_mapped r h) (\<lambda>etag. respond 200 (header_Set ''ETag'' (quoted etag) h) []) s)"

definition h_completeMultipartUpload :: "s3_env \<Rightarrow> oenv \<Rightarrow> Request \<Rightarrow> string \<Rightarrow> string \<Rightarrow> 'w handler" where
  "h_completeMultipartUpload se env r bucket key h s =
     (let uploadID = query_Get (Query (rq_URL r)) ''uploadId'' in
      if uploadID = [] then (fail_with r h S3InvalidArgument, s)
      else
        case s3_Decode se (case rq_Body r of Some b \<Rightarrow> b | None \<Rightarrow> \<lparr>rd_data = [], rd_err = None\<rparr>) of
          Inl _ \<Rightarrow> (fail_with r h S3InvalidArgument, s)
        | Inr parts \<Rightarrow>
            on_store (CompleteMultipartUpload env bucket key uploadID parts) (fail_mapped r h)
              (\<lambda>etag. writeXML h 200 (CompleteMultipartUploadResult bucket key (quoted etag))) s)"

definition h_abortMultipartUpload :: "Request \<Rightarrow> string \<Rightarrow> string \<Rightarrow> 'w handler" where
  "h_abortMultipartUpload r bucket key h s =
     (let uploadID = query_Get (Query (rq_URL r)) ''uploadId'' in
      if uploadID = [] then (fail_with r h S3InvalidArgument, s)
      else on_store (AbortMultipartUpload bucket key uploadID) (fail_mapped r h) (\<lambda>_. respond 204 h []) s)"

subsection \<open>Objects\<close>

definition h_putObject :: "oenv \<Rightarrow> Request \<Rightarrow> string \<Rightarrow> string \<Rightarrow> 'w handler" where
  "h_putObject env r bucket key h s =
     (if rq_ContentLength r < 0 then (fail_with r h S3MissingContentLength, s)
      else on_store (Store_PutObject env
             \<lparr>pi_Bucket = bucket, pi_Key = key, pi_ContentType = get_header r ''Content-Type'',
              pi_Size = rq_ContentLength r, pi_Body = rq_Body r\<rparr>)
           (fail_mapped r h) (\<lambda>etag. respond 200 (header_Set ''ETag'' (quoted etag) h) []) s)"

definition parseCopySource :: "string \<Rightarrow> gerror + string \<times> string" where
  "parseCopySource source0 =
     (let s1 = TrimPrefix source0 ''/'';
          s2 = (case Index s1 ''?'' of Some i \<Rightarrow> take i s1 | None \<Rightarrow> s1) in
      case SplitN2 s2 ''/'' of
        [b, k] \<Rightarrow>
          if b = [] \<or> k = [] then Inl (Msg (''invalid x-amz-copy-source '' @ Quote s2))
          else (case (PathUnescape b, PathUnescape k) of
              (None, _) \<Rightarrow> Inl (Msg ''invalid x-amz-copy-source bucket'')
            | (_, None) \<Rightarrow> Inl (Msg ''invalid x-amz-copy-source key'')
            | (Some bucket, Some key) \<Rightarrow> Inr (bucket, key))
      | _ \<Rightarrow> Inl (Msg (''invalid x-amz-copy-source '' @ Quote s2)))"

definition h_copyObject :: "oenv \<Rightarrow> Request \<Rightarrow> string \<Rightarrow> string \<Rightarrow> 'w handler" where
  "h_copyObject env r destBucket destKey h s =
     (case parseCopySource (get_header r ''X-Amz-Copy-Source'') of
        Inl _ \<Rightarrow> (fail_with r h S3InvalidArgument, s)
      | Inr (sourceBucket, sourceKey) \<Rightarrow>
          on_store (Store_CopyObject env sourceBucket sourceKey destBucket destKey) (fail_mapped r h)
            (\<lambda>(etag, lastModified). writeXML h 200 (CopyObjectResult (quoted etag) (format_RFC3339 lastModified))) s)"

definition writeObjectHeaders :: "ObjectInfo \<Rightarrow> header \<Rightarrow> header" where
  "writeObjectHeaders info h =
     (let h1 = header_Set ''ETag'' (quoted (oi_ETag info)) (header_Set ''Accept-Ranges'' ''bytes'' h);
          h2 = (if oi_ContentType info \<noteq> [] then header_Set ''Content-Type'' (oi_ContentType info) h1 else h1) in
      header_Set ''Last-Modified'' (format_http (oi_LastModified info)) h2)"

definition h_headObject :: "oenv \<Rightarrow> Request \<Rightarrow> string \<Rightarrow> string \<Rightarrow> 'w handler" where
  "h_headObject env r bucket key h =
     on_store (Store_HeadObject env bucket key) (fail_mapped r h)
       (\<lambda>info. respond 200 (header_Set ''Content-Length'' (Itoa (oi_Size info)) (writeObjectHeaders info h)) [])"

text \<open>The range of a request: with a \<^verbatim>\<open>Range\<close> header the size is looked up first.\<close>

definition requested_range :: "oenv \<Rightarrow> Request \<Rightarrow> string \<Rightarrow> string \<Rightarrow> ('w, ByteRange option) act" where
  "requested_range env r bucket key =
     (if get_header r ''Range'' = [] then sret None
      else
        sbind (Store_HeadObject env bucket key) (\<lambda>info.
        sbind (slift (ParseRange (get_header r ''Range'') (oi_Size info))) (\<lambda>parsed. sret (Some parsed))))"

definition get_response :: "header \<Rightarrow> ByteRange option \<Rightarrow> (bytes \<times> gerror option) \<times> ObjectInfo \<Rightarrow> Response" where
  "get_response h rng out =
     (case out of ((data, err), info) \<Rightarrow>
        let h1 = writeObjectHeaders info h;
            h2 = (case rng of
                    None \<Rightarrow> header_Set ''Content-Length'' (Itoa (oi_Size info)) h1
                  | Some br \<Rightarrow> header_Set ''Content-Length'' (Itoa (Length br))
                      (header_Set ''Content-Range''
                        (''bytes '' @ Itoa (br_start br) @ ''-'' @ Itoa (br_end br) @ ''/'' @ Itoa (oi_Size info)) h1)) in
        \<lparr>rp_Status = (if rng = None then 200 else 206), rp_Header = h2, rp_Body = data, rp_Cut = err\<rparr>)"

definition h_getObject :: "oenv \<Rightarrow> Request \<Rightarrow> string \<Rightarrow> string \<Rightarrow> 'w handler" where
  "h_getObject env r bucket key h =
     on_store
       (sbind (requested_range env r bucket key) (\<lambda>rng.
        sbind (Store_GetObject env bucket key rng) (\<lambda>out. sret (rng, out))))
       (fail_mapped r h) (\<lambda>(rng, out). get_response h rng out)"

definition handleObject :: "s3_env \<Rightarrow> oenv \<Rightarrow> Request \<Rightarrow> string \<Rightarrow> string \<Rightarrow> 'w handler" where
  "handleObject se env r bucket key h =
     (let qry = Query (rq_URL r) in
      if rq_Method r = ''POST'' then
        (if query_Has qry ''uploads'' then h_createMultipartUpload env r bucket key h
         else if query_Get qry ''uploadId'' \<noteq> [] then h_completeMultipartUpload se env r bucket key h
         else Pair (http_NotFound h))
      else if rq_Method r = ''PUT'' then
        (if query_Get qry ''uploadId'' \<noteq> [] \<or> query_Get qry ''partNumber'' \<noteq> [] then h_uploadPart env r bucket key h
         else if get_header r ''X-Amz-Copy-Source'' \<noteq> [] then h_copyObject env r bucket key h
         else h_putObject env r bucket key h)
      else if rq_Method r = ''GET'' then h_getObject env r bucket key h
      else if rq_Method r = ''HEAD'' then h_headObject env r bucket key h
      else if rq_Method r = ''DELETE'' then
        (if query_Get qry ''uploadId'' \<noteq> [] then h_abortMultipartUpload r bucket key h
         else on_store (Store_DeleteObject env bucket key) (fail_mapped r h) (\<lambda>_. respond 204 h []))
      else Pair (http_NotFound h))"

subsection \<open>ServeHTTP\<close>

text \<open>The header after the CORS step, and the response if it answers the request.\<close>

definition handleCORS :: "Server \<Rightarrow> Request \<Rightarrow> header \<Rightarrow> header \<times> Response option" where
  "handleCORS srv r h =
     (case splitPath (rq_URL r) of
        (bucket, _, hasBucket) \<Rightarrow>
          let matcher = matcherForBucket (srv_cors srv) bucket hasBucket in
          if matcher = [] then (h, None)
          else
            let h1 = addVary h [''Origin''] in
            if get_header r ''Origin'' = [] then (h1, None)
            else if rq_Method r = ''OPTIONS'' \<and> get_header r ''Access-Control-Request-Method'' \<noteq> []
            then (h1, Some (corsPreflight r matcher h1))
            else (fst (originAllowed r matcher h1), None))"

text \<open>Whether a request may go on: anonymously, or with the identity of its signature.\<close>

definition authorize :: "s3_env \<Rightarrow> Server \<Rightarrow> Request \<Rightarrow> S3Error option" where
  "authorize se srv r =
     (if allowsAnonymousPublicRead srv r then None
      else case Verify (s3_crypto se) ((srv_verify srv)\<lparr>sv_clock := s3_now se\<rparr>) r of
          Inl err \<Rightarrow> Some (MapError (Some err))
        | Inr ident \<Rightarrow>
            if id_Presigned ident \<and> \<not> allowsPresignedRequest r then Some S3SignatureMismatch else None)"

definition ServeHTTP :: "s3_env \<Rightarrow> oenv \<Rightarrow> Server \<Rightarrow> Request \<Rightarrow> 'w ostate \<Rightarrow> Response \<times> 'w ostate" where
  "ServeHTTP se env srv r s =
     (if u_Path (rq_URL r) = ''/healthz'' then
        ((if rq_Method r \<noteq> ''GET'' then http_NotFound [] else respond 200 [] ''ok''), s)
      else if u_Path (rq_URL r) = ''/readyz'' then
        ((if rq_Method r \<noteq> ''GET'' then http_NotFound []
          else if srv_ready srv then respond 200 [] ''ready'' else respond 503 [] ''not ready''), s)
      else case handleCORS srv r [] of
          (h, Some response) \<Rightarrow> (response, s)
        | (h, None) \<Rightarrow>
            if shouldServeHTMLRoot r then (http_Error h ''Not Implemented'' 501, s)
            else case authorize se srv r of
                Some e \<Rightarrow> (fail_with r h e, s)
              | None \<Rightarrow>
                  (case splitPath (rq_URL r) of
                     (bucket, key, hasBucket) \<Rightarrow>
                       if \<not> hasBucket then
                         (if rq_Method r \<noteq> ''GET'' then (http_NotFound h, s) else h_listBuckets env r h s)
                       else if key = [] then handleBucket env r bucket h s
                       else handleObject se env r bucket key h s))"

end
