(* ===== verification/SigV4Props.thy ===== *)
theory SigV4Props
  imports SigV4 "HOL-Library.Multiset"
begin

text \<open>
  What a signature binds. A request that is accepted was signed with the key on file, at the time it
  says, over its body; the canonical request determines method, path, query, signed headers and
  payload hash; and the canonical query is a normal form of the decoded parameters.
\<close>

subsection \<open>Hexadecimal escapes\<close>

lemma hex_value_hex_digit [simp]: "hex_value (hex_digit n) = Some (n mod 16)"
proof -
  have "\<forall>k \<in> set [0..<16]. hex_value (''0123456789ABCDEF'' ! k) = Some k" by code_simp
  then show ?thesis by (simp add: hex_digit_def)
qed

lemma char_of_nibbles [simp]: "char_of (16 * (of_char c div 16 mod 16) + of_char c mod 16 :: nat) = c"
proof -
  have "of_char c < (256 :: nat)" by simp
  then have "of_char c div 16 < (16 :: nat)" by (intro less_mult_imp_div_less) simp
  then have "of_char c div 16 mod 16 = (of_char c div 16 :: nat)" by simp
  then have "16 * (of_char c div 16 mod 16) + of_char c mod 16 = (of_char c :: nat)" by simp
  then show ?thesis by (simp only: char_of_char)
qed

lemma lenient_decode_pct: "lenient_decode (pct c @ s) = c # lenient_decode s"
  by (simp add: pct_def Let_def)

lemma unreserved_not_pct: "unreserved c \<Longrightarrow> c \<noteq> CHR ''%''"
  by (auto simp: unreserved_def alnum_def)

lemma lenient_decode_plain: "c \<noteq> CHR ''%'' \<Longrightarrow> lenient_decode (c # s) = c # lenient_decode s"
  by (auto split: list.split)

text \<open>Decoding undoes the encoding, so the encoding of a component is a normal form.\<close>

lemma decode_encode [simp]: "lenient_decode (sigV4Encode s True) = s"
proof (induction s)
  case (Cons c s)
  then show ?case
    by (cases "unreserved c")
      (simp_all add: sigV4Encode_def lenient_decode_pct lenient_decode_plain unreserved_not_pct del: lenient_decode.simps)
qed (simp add: sigV4Encode_def)

lemma sigV4Encode_inj: "sigV4Encode a True = sigV4Encode b True \<longleftrightarrow> a = b"
  by (metis decode_encode)

lemma pct_chars: "x \<in> set (pct c) \<Longrightarrow> x = CHR ''%'' \<or> unreserved x"
  by (auto simp: pct_def Let_def unreserved_hex)

lemma sigV4Encode_chars: "x \<in> set (sigV4Encode s True) \<Longrightarrow> x = CHR ''%'' \<or> unreserved x"
  by (auto simp: sigV4Encode_def dest: pct_chars split: if_splits)

lemma sigV4Encode_avoid [simp]:
  "CHR 0x0A \<notin> set (sigV4Encode s True)" "CHR ''='' \<notin> set (sigV4Encode s True)" "CHR ''&'' \<notin> set (sigV4Encode s True)"
  by (auto dest!: sigV4Encode_chars simp: unreserved_def alnum_def)

subsection \<open>The canonical query\<close>

definition decoded_pair :: "string \<Rightarrow> string \<times> string" where
  "decoded_pair token = (case Cut token ''='' of (k, v, _) \<Rightarrow> (lenient_decode k, lenient_decode v))"

definition encode_pair :: "string \<times> string \<Rightarrow> string \<times> string" where
  "encode_pair = map_prod (\<lambda>k. sigV4Encode k True) (\<lambda>v. sigV4Encode v True)"

lemma canonical_pairs_all:
  "canonical_pairs q False = map (encode_pair \<circ> decoded_pair) (Split q CHR ''&'')"
proof -
  have "canonical_pairs q False = List.map_filter (\<lambda>t. Some ((encode_pair \<circ> decoded_pair) t)) (Split q CHR ''&'')"
    unfolding canonical_pairs_def
    by (rule arg_cong [where f = "\<lambda>f. List.map_filter f _"])
      (auto simp: fun_eq_iff decoded_pair_def encode_pair_def canonicalQueryComponent_def Cut_def split: option.split)
  then show ?thesis by (simp add: List.map_filter_def comp_def)
qed

lemma Join_inj:
  assumes "\<forall>x \<in> set xs. d \<notin> set x" "\<forall>y \<in> set ys. d \<notin> set y" "xs \<noteq> []" "ys \<noteq> []" "Join xs [d] = Join ys [d]"
  shows "xs = ys"
proof -
  have "Split (Join zs [d]) d = zs" if "\<forall>x \<in> set zs. d \<notin> set x" "zs \<noteq> []" for zs
    using that
  proof (induction zs rule: induct_list012)
    case (2 x)
    have "d \<notin> set x \<Longrightarrow> Split x d = [x]" by (induction x) auto
    with 2 show ?case by simp
  next
    case (3 x y zs)
    have "d \<notin> set x \<Longrightarrow> Split (x @ d # s) d = x # Split s d" for s by (induction x) auto
    with 3 show ?case by simp
  qed simp
  with assms show ?thesis by metis
qed

lemma pair_text_inj:
  "CHR ''='' \<notin> set k \<Longrightarrow> CHR ''='' \<notin> set k' \<Longrightarrow> k @ CHR ''='' # v = k' @ CHR ''='' # v' \<Longrightarrow> k = k' \<and> v = v'"
  by (metis Cut_single prod.inject)

text \<open>The text of a list of encoded parameters determines it; and of the sorted list, the parameters with their
  repetitions.\<close>

abbreviation query_text :: "(string \<times> string) list \<Rightarrow> string" where
  "query_text ps \<equiv> Join (map (\<lambda>(k, v). k @ ''='' @ v) ps) ''&''"

lemma query_text_inj:
  assumes "set ps \<union> set qs \<subseteq> range encode_pair" "ps \<noteq> []" "qs \<noteq> []" "query_text ps = query_text qs"
  shows "ps = qs"
proof -
  let ?text = "\<lambda>(k, v). k @ ''='' @ v"
  have amp: "\<forall>x \<in> set (map ?text zs). CHR ''&'' \<notin> set x" if "set zs \<subseteq> range encode_pair" for zs
    using that by (auto simp: encode_pair_def)
  have "inj_on ?text (range encode_pair)"
    by (rule inj_onI) (auto simp: encode_pair_def dest: pair_text_inj [rotated 2])
  then have "inj_on ?text (set ps \<union> set qs)" using assms(1) by (rule inj_on_subset)
  moreover have "map ?text ps = map ?text qs" using Join_inj [OF amp amp _ _ assms(4)] assms(1-3) by simp
  ultimately show ?thesis using map_inj_on by blast
qed

lemma sort_eq_mset: "sort xs = sort ys \<longleftrightarrow> mset xs = mset ys" for xs ys :: "'a :: linorder list"
  by (metis mset_sort properties_for_sort sorted_sort)

text \<open>C11: The canonical query is a normal form: two non-empty queries have the same canonical string exactly
  if they have the same parameters after decoding, counted with their repetitions. So the order of
  the parameters and the way they are escaped do not matter, and nothing else is lost.\<close>
theorem canonicalQueryString_normal_form:
  fixes u u' :: url
  assumes "u_RawQuery u \<noteq> []" "u_RawQuery u' \<noteq> []"
  shows "canonicalQueryString u False = canonicalQueryString u' False \<longleftrightarrow>
    mset (map decoded_pair (Split (u_RawQuery u) CHR ''&'')) = mset (map decoded_pair (Split (u_RawQuery u') CHR ''&''))"
proof -
  define ps where "ps w = map decoded_pair (Split (u_RawQuery w) CHR ''&'')" for w :: url
  have "canonicalQueryString w False = query_text (sort (map encode_pair (ps w)))" if "u_RawQuery w \<noteq> []" for w
    using that by (simp add: canonicalQueryString_def canonical_pairs_all ps_def)
  then have "canonicalQueryString u False = canonicalQueryString u' False \<longleftrightarrow>
      query_text (sort (map encode_pair (ps u))) = query_text (sort (map encode_pair (ps u')))"
    using assms by simp
  also have "\<dots> \<longleftrightarrow> sort (map encode_pair (ps u)) = sort (map encode_pair (ps u'))"
  proof -
    have "sort (map encode_pair (ps w)) \<noteq> []" for w
      by (metis ps_def Split_nonempty list.map_disc_iff length_0_conv length_sort)
    then show ?thesis by (intro iffI query_text_inj) auto
  qed
  also have "\<dots> \<longleftrightarrow> image_mset encode_pair (mset (ps u)) = image_mset encode_pair (mset (ps u'))"
    by (simp add: sort_eq_mset)
  also have "\<dots> \<longleftrightarrow> mset (ps u) = mset (ps u')"
  proof -
    have "inj encode_pair" by (rule injI) (auto simp: encode_pair_def sigV4Encode_inj)
    then show ?thesis by (rule inj_eq [OF multiset.inj_map])
  qed
  finally show ?thesis by (simp only: ps_def)
qed


definition url_of_query :: "string \<Rightarrow> url" where
  "url_of_query q = \<lparr>u_Scheme = [], u_Host = [], u_Path = ''/'', u_RawPath = [], u_RawQuery = q\<rparr>"

theorem canonicalQueryString_normal_form_witness:
  "canonicalQueryString (url_of_query ''b=2&a=%2f'') False = canonicalQueryString (url_of_query ''a=/&b=2'') False"
proof -
  have "mset (map decoded_pair (Split ''b=2&a=%2f'' CHR ''&'')) = mset (map decoded_pair (Split ''a=/&b=2'' CHR ''&''))"
    by code_simp
  then show ?thesis
    using canonicalQueryString_normal_form [of "url_of_query ''b=2&a=%2f''" "url_of_query ''a=/&b=2''"]
    by (simp add: url_of_query_def)
qed

subsection \<open>The canonical request\<close>

lemma EscapedPath_no_newline: "CHR 0x0A \<notin> set (EscapedPath u)"
proof -
  have "CHR 0x0A \<notin> set s" if "validEncoded s" for s
    using that by (induction s) (auto simp: validEncoded_def path_plain_def unreserved_def alnum_def)
  moreover have "CHR 0x0A \<notin> set (escape_path s)" for s
  proof
    assume "CHR 0x0A \<in> set (escape_path s)"
    then obtain c where "CHR 0x0A \<in> set (if path_plain c then [c] else pct c)"
      unfolding escape_path_def set_concat set_map by blast
    then show False
      by (cases "path_plain c") (auto simp: path_plain_def unreserved_def alnum_def dest: pct_chars)
  qed
  ultimately show ?thesis by (auto simp: EscapedPath_def)
qed

lemma in_Join: "x \<in> set (Join xs sep) \<Longrightarrow> x \<in> set sep \<or> (\<exists>y \<in> set xs. x \<in> set y)"
  by (induction xs sep rule: Join.induct) auto

lemma canonicalURI_no_newline: "CHR 0x0A \<notin> set (canonicalURI u)"
  using EscapedPath_no_newline [of u] by (simp add: canonicalURI_def Let_def)

lemma set_map_filter: "set (List.map_filter f xs) = {y. \<exists>x \<in> set xs. f x = Some y}"
  by (induction xs) (auto simp: List.map_filter_simps split: option.split)

lemma canonical_pairs_form:
  "p \<in> set (canonical_pairs q ex) \<Longrightarrow> \<exists>a b. p = (canonicalQueryComponent a, canonicalQueryComponent b)"
proof -
  assume "p \<in> set (canonical_pairs q ex)"
  then obtain t where t: "(case Cut t ''='' of (key, val, hasValue) \<Rightarrow>
       if ex \<and> canonicalQueryComponent key = ''X-Amz-Signature'' then None
       else Some (canonicalQueryComponent key, canonicalQueryComponent (if hasValue then val else []))) = Some p"
    unfolding canonical_pairs_def set_map_filter by blast
  obtain k v b where "Cut t ''='' = (k, v, b)" by (cases "Cut t ''=''") auto
  with t show ?thesis by (simp split: if_split_asm) blast+
qed

lemma canonicalQueryString_no_newline: "CHR 0x0A \<notin> set (canonicalQueryString u ex)"
proof
  let ?f = "\<lambda>(k, v). k @ ''='' @ v" and ?ps = "canonical_pairs (u_RawQuery u) ex"
  assume "CHR 0x0A \<in> set (canonicalQueryString u ex)"
  then have "CHR 0x0A \<in> set (Join (map ?f (sort ?ps)) ''&'')"
    unfolding canonicalQueryString_def by (cases "u_RawQuery u = []") simp_all
  from in_Join [OF this] obtain p where p: "p \<in> set ?ps" "CHR 0x0A \<in> set (?f p)" by auto
  from canonical_pairs_form [OF p(1)] obtain a b where "p = (canonicalQueryComponent a, canonicalQueryComponent b)" by blast
  with p(2) show False by (simp add: canonicalQueryComponent_def)
qed

lemma lower_low: "lower c = d \<Longrightarrow> of_char d < (97 :: nat) \<Longrightarrow> c = d"
proof (rule ccontr)
  assume l: "lower c = d" and d: "of_char d < (97 :: nat)" and ne: "c \<noteq> d"
  then have c: "65 \<le> (of_char c :: nat)" "of_char c \<le> (90 :: nat)" and "d = char_of (of_char c + 32 :: nat)"
    by (auto simp: lower_def split: if_splits)
  then have "(of_char d :: nat) = of_char c + 32" by (simp only: of_char_of) (simp add: take_bit_eq_mod)
  with c d show False by simp
qed

lemma set_trim_by: "set (trim_by p s) \<subseteq> set s"
  by (auto simp: trim_by_def dest!: set_dropWhileD)

lemma in_normalized: "of_char d < (97 :: nat) \<Longrightarrow> d \<in> set (ToLower (TrimSpace h)) \<Longrightarrow> d \<in> set h"
proof -
  assume d: "of_char d < (97 :: nat)" "d \<in> set (ToLower (TrimSpace h))"
  then obtain c where "lower c = d" "c \<in> set (TrimSpace h)" by (auto simp: ToLower_def)
  with lower_low [of c d] d(1) set_trim_by [of is_space h] show ?thesis unfolding TrimSpace_def by blast
qed

lemma normalize_names_no_newline:
  "normalize_names acc hs = Inr ns \<Longrightarrow> \<forall>x \<in> set acc \<union> set hs. CHR 0x0A \<notin> set x \<Longrightarrow> \<forall>x \<in> set ns. CHR 0x0A \<notin> set x"
proof (induction acc hs rule: normalize_names.induct)
  case (2 acc h hs)
  let ?n = "ToLower (TrimSpace h)"
  have "CHR 0x0A \<notin> set ?n" using "2.prems"(2) in_normalized [of "CHR 0x0A" h] by auto
  with 2 show ?case by (auto simp: Let_def split: if_splits)
qed simp

lemma cut_newline:
  "CHR 0x0A \<notin> set a \<Longrightarrow> CHR 0x0A \<notin> set a' \<Longrightarrow> a @ CHR 0x0A # x = a' @ CHR 0x0A # x' \<Longrightarrow> a = a' \<and> x = x'"
  by (metis Cut_single prod.inject)

lemma cut_last_newline:
  assumes "CHR 0x0A \<notin> set a" "CHR 0x0A \<notin> set a'" "x @ CHR 0x0A # a = x' @ CHR 0x0A # a'"
  shows "a = a' \<and> x = x'"
proof -
  have "rev a @ CHR 0x0A # rev x = rev a' @ CHR 0x0A # rev x'"
    using arg_cong [OF assms(3), of rev] by simp
  with cut_newline [of "rev a" "rev a'" "rev x" "rev x'"] assms(1,2) show ?thesis by simp
qed

subsection \<open>The signed headers\<close>

text \<open>The names a request signs and what it signs for each of them.\<close>

definition signed_values :: "Request \<Rightarrow> string list \<Rightarrow> (string \<times> string option) list" where
  "signed_values r hs =
     map (\<lambda>n. (n, map_option normalizeHeaderValue (headerValue r n))) (sort (map (\<lambda>h. ToLower (TrimSpace h)) hs))"

lemma normalize_names_eq:
  "normalize_names acc hs = Inr ns \<Longrightarrow> ns = acc @ map (\<lambda>h. ToLower (TrimSpace h)) hs \<and> (\<forall>h \<in> set hs. ToLower (TrimSpace h) \<noteq> [])"
  by (induction acc hs rule: normalize_names.induct) (auto simp: Let_def split: if_splits)

lemma fields_from_no_space:
  "\<forall>c \<in> set cur. \<not> is_space c \<Longrightarrow> \<forall>f \<in> set (fields_from cur s). \<forall>c \<in> set f. \<not> is_space c"
proof (induction cur s rule: fields_from.induct)
  case (2 cur c s)
  consider "is_space c" "cur = []" | "is_space c" "cur \<noteq> []" | "\<not> is_space c" by blast
  then show ?case
  proof cases
    case 1
    from "2.IH"(1) [OF this] have "\<forall>f \<in> set (fields_from [] s). \<forall>c \<in> set f. \<not> is_space c" by simp
    with 1 show ?thesis by (simp only: fields_from.simps if_True simp_thms)
  next
    case 2
    from "2.IH"(2) [OF this] have "\<forall>f \<in> set (fields_from [] s). \<forall>c \<in> set f. \<not> is_space c" by simp
    with 2 "2.prems" show ?thesis by (simp only: fields_from.simps if_True if_False simp_thms set_simps ball_simps set_rev)
  next
    case 3
    from "2.IH"(3) [OF this] 3 "2.prems" have "\<forall>f \<in> set (fields_from (c # cur) s). \<forall>c \<in> set f. \<not> is_space c" by simp
    with 3 show ?thesis by (simp only: fields_from.simps if_False simp_thms)
  qed
qed simp

lemma normalizeHeaderValue_no_newline: "CHR 0x0A \<notin> set (normalizeHeaderValue v)"
proof
  assume "CHR 0x0A \<in> set (normalizeHeaderValue v)"
  then obtain f where f: "f \<in> set (Fields (TrimSpace v))" "CHR 0x0A \<in> set f"
    by (auto simp: normalizeHeaderValue_def dest!: in_Join)
  have "\<forall>f \<in> set (fields_from [] (TrimSpace v)). \<forall>c \<in> set f. \<not> is_space c" by (rule fields_from_no_space) simp
  with f have "\<not> is_space (CHR 0x0A)" unfolding Fields_def by blast
  then show False by (simp add: is_space_def)
qed

lemma header_lines_Inr:
  "header_lines r ns = Inr ls \<Longrightarrow>
     \<exists>vs. map (headerValue r) ns = map Some vs \<and> ls = map2 (\<lambda>n v. n @ '':'' @ normalizeHeaderValue v) ns vs"
proof (induction ns arbitrary: ls)
  case (Cons n ns)
  then obtain v ls' where v: "headerValue r n = Some v" and ls': "header_lines r ns = Inr ls'"
    and ls: "ls = (n @ '':'' @ normalizeHeaderValue v) # ls'"
    by (auto split: option.splits sum.splits)
  from Cons.IH [OF ls'] obtain vs where "map (headerValue r) ns = map Some vs"
    "ls' = map2 (\<lambda>n v. n @ '':'' @ normalizeHeaderValue v) ns vs" by blast
  then show ?case using v ls by (intro exI [of _ "v # vs"]) simp
qed simp

lemma Join_names_inj:
  assumes "\<forall>x \<in> set xs. x \<noteq> [] \<and> d \<notin> set x" "\<forall>y \<in> set ys. y \<noteq> [] \<and> d \<notin> set y" "Join xs [d] = Join ys [d]"
  shows "xs = ys"
proof -
  have empty: "zs = []" if "Join zs [d] = []" "\<forall>z \<in> set zs. z \<noteq> []" for zs
    using that by (induction zs "[d]" rule: Join.induct) auto
  show ?thesis
  proof (cases "xs = [] \<or> ys = []")
    case True
    then show ?thesis using empty [of xs] empty [of ys] assms by auto
  next
    case False
    then show ?thesis using Join_inj [of xs d ys] assms by blast
  qed
qed

lemma canonicalHeaders_parts:
  assumes "canonicalHeaders r hs = Inr (H, L)"
  defines "names \<equiv> sort (map (\<lambda>h. ToLower (TrimSpace h)) hs)"
  obtains vs where "map (headerValue r) names = map Some vs" "length vs = length names" "L = Join names '';''"
    "H = Join (map2 (\<lambda>n v. n @ '':'' @ normalizeHeaderValue v) names vs) newline @ newline"
    "\<forall>n \<in> set names. n \<noteq> []"
proof -
  obtain ns ls where ns: "normalize_names [] hs = Inr ns" and ls: "header_lines r (sort ns) = Inr ls"
    and H: "H = Join ls newline @ newline" and L: "L = Join (sort ns) '';''"
    using assms(1) by (auto simp: canonicalHeaders_def Let_def split: sum.splits)
  from normalize_names_eq [OF ns] have n: "sort ns = names" "\<forall>n \<in> set names. n \<noteq> []" by (auto simp: names_def)
  from header_lines_Inr [OF ls] obtain vs where vs: "map (headerValue r) names = map Some vs"
    "ls = map2 (\<lambda>n v. n @ '':'' @ normalizeHeaderValue v) names vs" unfolding n(1) by blast
  from arg_cong [OF vs(1), of length] have "length vs = length names" by simp
  with vs n H L show ?thesis using that by simp
qed

lemma map2_cancel:
  assumes "length vs = length ns" "length vs' = length ns"
    "map2 (\<lambda>n v. n @ '':'' @ f v) ns vs = map2 (\<lambda>n v. n @ '':'' @ f v) ns vs'"
  shows "map f vs = map f vs'"
proof (rule nth_equalityI)
  show "length (map f vs) = length (map f vs')" using assms(1,2) by simp
  show "map f vs ! i = map f vs' ! i" if "i < length (map f vs)" for i
    using that assms(1,2) arg_cong [OF assms(3), of "\<lambda>xs. xs ! i"] by simp
qed

lemma canonicalHeaders_inj:
  assumes ch: "canonicalHeaders r hs = Inr (H, L)" "canonicalHeaders r' hs' = Inr (H, L)"
    and plain: "\<forall>h \<in> set hs \<union> set hs'. CHR 0x0A \<notin> set h \<and> CHR '';'' \<notin> set h"
  shows "signed_values r hs = signed_values r' hs'"
proof -
  let ?names = "\<lambda>hs. sort (map (\<lambda>h. ToLower (TrimSpace h)) hs)"
  let ?line = "\<lambda>n v. n @ '':'' @ normalizeHeaderValue v"
  from canonicalHeaders_parts [OF ch(1)] obtain vs where vs: "map (headerValue r) (?names hs) = map Some vs"
    "length vs = length (?names hs)" "L = Join (?names hs) '';''" "\<forall>n \<in> set (?names hs). n \<noteq> []"
    "H = Join (map2 ?line (?names hs) vs) newline @ newline" by metis
  from canonicalHeaders_parts [OF ch(2)] obtain vs' where vs': "map (headerValue r') (?names hs') = map Some vs'"
    "length vs' = length (?names hs')" "L = Join (?names hs') '';''" "\<forall>n \<in> set (?names hs'). n \<noteq> []"
    "H = Join (map2 ?line (?names hs') vs') newline @ newline" by metis
  have clean: "CHR 0x0A \<notin> set n \<and> CHR '';'' \<notin> set n" if "n \<in> set (?names hs) \<union> set (?names hs')" for n
    using that plain in_normalized [of "CHR 0x0A"] in_normalized [of "CHR '';''"] by fastforce
  have names: "?names hs = ?names hs'"
    by (rule Join_names_inj [of _ "CHR '';''"]) (use vs(3,4) vs'(3,4) clean in auto)
  have lines: "\<forall>x \<in> set (map2 ?line ns us). x \<noteq> [] \<and> CHR 0x0A \<notin> set x"
    if "set ns \<subseteq> set (?names hs)" for ns us
  proof
    fix x assume "x \<in> set (map2 ?line ns us)"
    then obtain n v where x: "x = ?line n v" "(n, v) \<in> set (zip ns us)" by auto
    then have "CHR 0x0A \<notin> set n" using that clean [of n] by (blast dest: set_zip_leftD)
    then show "x \<noteq> [] \<and> CHR 0x0A \<notin> set x" using normalizeHeaderValue_no_newline by (simp add: x(1))
  qed
  have "Join (map2 ?line (?names hs) vs) newline = Join (map2 ?line (?names hs) vs') newline"
    using vs(5) vs'(5) unfolding names [symmetric] by (metis append_same_eq)
  from Join_names_inj [OF lines [OF subset_refl] lines [OF subset_refl] this]
  have "map2 ?line (?names hs) vs = map2 ?line (?names hs) vs'" .
  then have "map normalizeHeaderValue vs = map normalizeHeaderValue vs'"
    by (rule map2_cancel [rotated 2]) (use vs(2) vs'(2) names in auto)
  moreover have "map (\<lambda>n. map_option normalizeHeaderValue (headerValue q n)) ns = map Some (map normalizeHeaderValue us)"
    if "map (headerValue q) ns = map Some us" for q ns us
    using arg_cong [OF that, of "map (map_option normalizeHeaderValue)"] by (simp add: comp_def)
  ultimately have "map (\<lambda>n. map_option normalizeHeaderValue (headerValue r n)) (?names hs) =
      map (\<lambda>n. map_option normalizeHeaderValue (headerValue r' n)) (?names hs')"
    using vs(1) vs'(1) by metis
  then show ?thesis unfolding signed_values_def names by (simp add: list_eq_iff_nth_eq)
qed

text \<open>C12: The canonical request is unambiguous: if two requests have the same one, they agree in the method,
  the escaped path, the canonical query, the names of the signed headers, the value of each of them up to
  blanks, and the payload hash. Header values may hold anything, line feeds included.\<close>
theorem buildCanonicalRequest_unambiguous:
  assumes "buildCanonicalRequest r hs hash ex = Inr c" "buildCanonicalRequest r' hs' hash' ex' = Inr c"
    and "CHR 0x0A \<notin> set (rq_Method r)" "CHR 0x0A \<notin> set (rq_Method r')"
    and "CHR 0x0A \<notin> set hash" "CHR 0x0A \<notin> set hash'"
    and "\<forall>h \<in> set hs \<union> set hs'. CHR 0x0A \<notin> set h \<and> CHR '';'' \<notin> set h"
  shows "rq_Method r = rq_Method r' \<and> canonicalURI (rq_URL r) = canonicalURI (rq_URL r') \<and>
    canonicalQueryString (rq_URL r) ex = canonicalQueryString (rq_URL r') ex' \<and>
    signed_values r hs = signed_values r' hs' \<and> hash = hash'"
proof -
  obtain H L where h: "canonicalHeaders r hs = Inr (H, L)"
    and c: "c = Join [rq_Method r, canonicalURI (rq_URL r), canonicalQueryString (rq_URL r) ex, H, L, hash] newline"
    using assms(1) by (auto simp: buildCanonicalRequest_def split: sum.splits)
  obtain H' L' where h': "canonicalHeaders r' hs' = Inr (H', L')"
    and c': "c = Join [rq_Method r', canonicalURI (rq_URL r'), canonicalQueryString (rq_URL r') ex', H', L', hash'] newline"
    using assms(2) by (auto simp: buildCanonicalRequest_def split: sum.splits)
  have L: "CHR 0x0A \<notin> set L" if ch: "canonicalHeaders r hs = Inr (H, L)" "\<forall>h \<in> set hs. CHR 0x0A \<notin> set h"
    for r hs H L
  proof -
    obtain ns where ns: "normalize_names [] hs = Inr ns" "L = Join (sort ns) '';''"
      using ch(1) by (auto simp: canonicalHeaders_def Let_def split: sum.splits)
    from normalize_names_no_newline [OF ns(1)] ch(2) have "\<forall>x \<in> set ns. CHR 0x0A \<notin> set x" by simp
    then show ?thesis by (auto simp: ns(2) dest!: in_Join)
  qed
  note Ls = L [OF h] L [OF h']
  have e1: "rq_Method r = rq_Method r' \<and>
      canonicalURI (rq_URL r) @ CHR 0x0A # canonicalQueryString (rq_URL r) ex @ CHR 0x0A # (H @ CHR 0x0A # L @ CHR 0x0A # hash) =
      canonicalURI (rq_URL r') @ CHR 0x0A # canonicalQueryString (rq_URL r') ex' @ CHR 0x0A # (H' @ CHR 0x0A # L' @ CHR 0x0A # hash')"
    by (rule cut_newline [OF assms(3,4)]) (use c c' in simp)
  have e2: "canonicalURI (rq_URL r) = canonicalURI (rq_URL r') \<and>
      canonicalQueryString (rq_URL r) ex @ CHR 0x0A # (H @ CHR 0x0A # L @ CHR 0x0A # hash) =
      canonicalQueryString (rq_URL r') ex' @ CHR 0x0A # (H' @ CHR 0x0A # L' @ CHR 0x0A # hash')"
    by (rule cut_newline [OF canonicalURI_no_newline canonicalURI_no_newline conjunct2 [OF e1]])
  have e3: "canonicalQueryString (rq_URL r) ex = canonicalQueryString (rq_URL r') ex' \<and>
      H @ CHR 0x0A # L @ CHR 0x0A # hash = H' @ CHR 0x0A # L' @ CHR 0x0A # hash'"
    by (rule cut_newline [OF canonicalQueryString_no_newline canonicalQueryString_no_newline conjunct2 [OF e2]])
  have e4: "hash = hash' \<and> H @ CHR 0x0A # L = H' @ CHR 0x0A # L'"
    by (rule cut_last_newline [OF assms(5,6)]) (use e3 in simp)
  have e5: "L = L' \<and> H = H'"
    by (rule cut_last_newline [OF Ls(1) Ls(2)]) (use e4 assms(7) in auto)
  have "signed_values r hs = signed_values r' hs'"
    by (rule canonicalHeaders_inj [OF h _ assms(7)]) (use h' e5 in simp)
  with e1 e2 e3 e4 show ?thesis by simp
qed

text \<open>A request signed in the header, with stand-ins for the hash functions.\<close>

definition demo_crypto :: crypto where
  "demo_crypto = \<lparr>cr_sha256 = take 2, cr_hmac = (\<lambda>k d. take 2 (k @ d)), cr_ParseDuration = (\<lambda>_. None)\<rparr>"

definition demo_signed :: Request where
  "demo_signed =
     \<lparr>rq_Method = ''PUT'', rq_URL = \<lparr>u_Scheme = [], u_Host = [], u_Path = ''/b/k'', u_RawPath = [], u_RawQuery = ''x=1''\<rparr>,
      rq_Host = ''h'', rq_Header =
        [(''Authorization'', [''AWS4-HMAC-SHA256 Credential=AK/20240229/us/s3/aws4_request, SignedHeaders=host, Signature=4157'']),
         (''X-Amz-Date'', [''20240229T000000Z'']), (''X-Amz-Content-Sha256'', [''6162''])],
      rq_ContentLength = 3, rq_Body = Some \<lparr>rd_data = ''abc'', rd_err = None\<rparr>, rq_RemoteAddr = []\<rparr>"

definition demo_verifier :: SigV4Verifier where
  "demo_verifier = \<lparr>sv_region = ''us'', sv_keys = [''AK'' \<mapsto> ''secret''], sv_clock = 1709164860 * 1000000000,
     sv_maxSkew = 900 * 1000000000\<rparr>"

lemma demo_Verify: "Verify demo_crypto demo_verifier demo_signed = Inr \<lparr>id_AccessKey = ''AK'', id_Presigned = False\<rparr>"
  by code_simp

theorem buildCanonicalRequest_unambiguous_witness:
  "\<exists>c. buildCanonicalRequest demo_signed [''host''] ''6162'' False = Inr c \<and>
     signed_values demo_signed [''host''] = signed_values demo_signed ['' Host'']"
proof -
  have b: "buildCanonicalRequest demo_signed [''host''] ''6162'' False = Inr (''PUT'' @ newline @ ''/b/k'' @ newline @
      ''x=1'' @ newline @ ''host:h'' @ newline @ newline @ ''host'' @ newline @ ''6162'')"
    "buildCanonicalRequest demo_signed ['' Host''] ''6162'' False = Inr (''PUT'' @ newline @ ''/b/k'' @ newline @
      ''x=1'' @ newline @ ''host:h'' @ newline @ newline @ ''host'' @ newline @ ''6162'')"
    by code_simp+
  show ?thesis
    using buildCanonicalRequest_unambiguous [OF b] b(1) by (auto simp: demo_signed_def)
qed

subsection \<open>Accepted requests\<close>

text \<open>The payload hash that goes into the canonical request is that of the body, unless the client
  declared it unsigned.\<close>

definition hash_of_body :: "crypto \<Rightarrow> Request \<Rightarrow> string \<Rightarrow> bool" where
  "hash_of_body cr r hash \<longleftrightarrow>
     (case rq_Body r of
        None \<Rightarrow> hash = EmptyPayloadSHA256
      | Some b \<Rightarrow> rd_err b = None \<and> hash = hexSHA256 cr (rd_data b))"

lemma payloadHash_Inr:
  "payloadHash cr r = Inr hash \<Longrightarrow>
     hash_of_body cr r hash \<or> hash = ''UNSIGNED-PAYLOAD'' \<and> get_header r ''X-Amz-Content-Sha256'' = ''UNSIGNED-PAYLOAD''"
  by (auto simp: payloadHash_def hash_of_body_def Let_def ReadAll_Inr split: if_splits option.splits sum.splits)

text \<open>The request as it is, or with \<^verbatim>\<open>Accept-Encoding\<close> as a proxy may have found it.\<close>

definition as_signed :: "Request \<Rightarrow> Request set" where
  "as_signed r = {r, cloneRequestWithHeader r ''Accept-Encoding'' ''identity'', cloneRequestWithHeader r ''Accept-Encoding'' ''gzip''}"

lemma fallback_signed:
  "fallbackAcceptedByRewrittenAcceptEncoding cr r hs sg key date scope hash pre \<Longrightarrow>
     \<exists>r' \<in> as_signed r. \<exists>c. buildCanonicalRequest r' hs hash pre = Inr c \<and> sg = signature_over cr key date scope c"
  by (fastforce simp: fallbackAcceptedByRewrittenAcceptEncoding_def as_signed_def split: sum.splits)

definition signed_in_time :: "SigV4Verifier \<Rightarrow> sigV4Authorization \<Rightarrow> bool" where
  "signed_in_time v auth \<longleftrightarrow> (\<exists>t y m d. parse_amz_time (au_xAmzDate auth) = Some (t, y, m, d) \<and>
     au_date auth = format_date y m d \<and> (0 < sv_maxSkew v \<longrightarrow> t \<le> sv_clock v + sv_maxSkew v) \<and>
     (if au_presigned auth then sv_clock v \<le> t + au_expires auth
      else 0 < sv_maxSkew v \<longrightarrow> sv_clock v - sv_maxSkew v \<le> t))"

lemma validate_times:
  "validateRequestTime v (au_xAmzDate auth) (au_date auth) = None \<Longrightarrow> \<not> au_presigned auth \<Longrightarrow> signed_in_time v auth"
  "validatePresignedRequestTime v (au_xAmzDate auth) (au_date auth) (au_expires auth) = None \<Longrightarrow> au_presigned auth \<Longrightarrow>
     signed_in_time v auth"
  by (auto simp: validateRequestTime_def validatePresignedRequestTime_def signed_in_time_def split: option.splits if_splits)

lemma parse_expires:
  assumes "parseSigV4RequestAuth cr r = Inr auth" "au_presigned auth"
  shows "0 < au_expires auth \<and> au_expires auth \<le> seconds (7 * 24 * 3600)"
proof -
  have "\<not> au_presigned a" if "parseSigV4Authorization h = Inr a" for h a
    using that by (auto simp: parseSigV4Authorization_def Let_def split: if_splits option.splits)
  moreover have "0 < au_expires a \<and> au_expires a \<le> seconds (7 * 24 * 3600)" if "parseSigV4QueryAuthorization cr q = Inr a" for q a
    using that by (auto simp: parseSigV4QueryAuthorization_def Let_def split: if_splits option.splits)
  ultimately show ?thesis
    using assms by (auto simp: parseSigV4RequestAuth_def split: if_splits sum.splits)
qed

text \<open>C10: A request is only accepted under a key on file, for this region and the service s3, within the
  allowed time (at most seven days for a presigned one), and with a signature that is the keyed hash, under
  the key derived from the secret on file, of the canonical request of the request itself or of its
  form before a proxy rewrote \<^verbatim>\<open>Accept-Encoding\<close>. The payload hash in that canonical request is that of the
  body, except when the request is presigned or its \<^verbatim>\<open>X-Amz-Content-Sha256\<close> is \<^verbatim>\<open>UNSIGNED-PAYLOAD\<close>: then it is
  these words, and the signature does not bind the body. Everything else is refused with one of two
  errors.\<close>
theorem Verify_sound:
  "case Verify cr v r of
     Inl err \<Rightarrow> err = Sent ErrSignatureDoesNotMatch \<or> err = Sent ErrInvalidAccessKeyID
   | Inr ident \<Rightarrow> \<exists>auth secret hash r' c. parseSigV4RequestAuth cr r = Inr auth \<and>
       ident = \<lparr>id_AccessKey = au_accessKey auth, id_Presigned = au_presigned auth\<rparr> \<and>
       sv_keys v (au_accessKey auth) = Some secret \<and> au_region auth = sv_region v \<and> au_service auth = ''s3'' \<and>
       signed_in_time v auth \<and> (au_presigned auth \<longrightarrow> au_expires auth \<le> seconds (7 * 24 * 3600)) \<and>
       (hash_of_body cr r hash \<or> hash = ''UNSIGNED-PAYLOAD'' \<and>
         (au_presigned auth \<or> get_header r ''X-Amz-Content-Sha256'' = ''UNSIGNED-PAYLOAD'')) \<and>
       r' \<in> as_signed r \<and> buildCanonicalRequest r' (au_signedHeaders auth) hash (au_presigned auth) = Inr c \<and>
       au_signature auth = signature_over cr (deriveSigningKey cr secret (au_date auth) (sv_region v) ''s3'') (au_xAmzDate auth)
         (Join [au_date auth, sv_region v, ''s3'', ''aws4_request''] ''/'') c"
proof (cases "Verify cr v r")
  case (Inl err)
  then show ?thesis by (auto simp: Verify_def Let_def split: sum.splits if_splits option.splits)
next
  case (Inr ident)
  then obtain auth where a: "parseSigV4RequestAuth cr r = Inr auth"
    by (auto simp: Verify_def Let_def split: sum.splits)
  with Inr obtain secret where rg: "au_region auth = sv_region v" "au_service auth = ''s3''"
    and k: "sv_keys v (au_accessKey auth) = Some secret"
    by (auto simp: Verify_def Let_def split: if_splits option.splits)
  let ?time = "if au_presigned auth then validatePresignedRequestTime v (au_xAmzDate auth) (au_date auth) (au_expires auth)
     else validateRequestTime v (au_xAmzDate auth) (au_date auth)"
  from Inr a k have t: "?time = None"
    by (auto simp: Verify_def Let_def split: if_splits)
  from Inr a k t obtain hash where h: "(if au_presigned auth then Inr ''UNSIGNED-PAYLOAD'' else payloadHash cr r) = Inr hash"
    by (cases "if au_presigned auth then Inr ''UNSIGNED-PAYLOAD'' else payloadHash cr r")
      (simp_all add: Verify_def Let_def split: if_split_asm)
  let ?key = "deriveSigningKey cr secret (au_date auth) (sv_region v) ''s3''"
  let ?scope = "Join [au_date auth, sv_region v, ''s3'', ''aws4_request''] ''/''"
  from Inr a k t h rg obtain c where b: "buildCanonicalRequest r (au_signedHeaders auth) hash (au_presigned auth) = Inr c"
    and sig: "signature_over cr ?key (au_xAmzDate auth) ?scope c = au_signature auth \<or>
      fallbackAcceptedByRewrittenAcceptEncoding cr r (au_signedHeaders auth) (au_signature auth) ?key (au_xAmzDate auth)
        ?scope hash (au_presigned auth)"
    and ident: "ident = \<lparr>id_AccessKey = au_accessKey auth, id_Presigned = au_presigned auth\<rparr>"
    by (cases "buildCanonicalRequest r (au_signedHeaders auth) hash (au_presigned auth)")
      (simp_all add: Verify_def Let_def split: if_split_asm)
  from sig obtain r' c' where r': "r' \<in> as_signed r" "buildCanonicalRequest r' (au_signedHeaders auth) hash (au_presigned auth) = Inr c'"
    "au_signature auth = signature_over cr ?key (au_xAmzDate auth) ?scope c'"
  proof
    assume "signature_over cr ?key (au_xAmzDate auth) ?scope c = au_signature auth"
    with b that [of r c] show ?thesis by (simp add: as_signed_def)
  next
    assume "fallbackAcceptedByRewrittenAcceptEncoding cr r (au_signedHeaders auth) (au_signature auth) ?key (au_xAmzDate auth)
        ?scope hash (au_presigned auth)"
    from fallback_signed [OF this] that show ?thesis by blast
  qed
  have "signed_in_time v auth" using t validate_times by (cases "au_presigned auth") simp_all
  moreover have "hash_of_body cr r hash \<or> hash = ''UNSIGNED-PAYLOAD'' \<and>
      (au_presigned auth \<or> get_header r ''X-Amz-Content-Sha256'' = ''UNSIGNED-PAYLOAD'')"
    using h payloadHash_Inr [of cr r hash] by (cases "au_presigned auth") auto
  ultimately show ?thesis
    using Inr a rg k ident r' parse_expires [OF a] by auto
qed

theorem Verify_sound_witness:
  "\<exists>secret. sv_keys demo_verifier ''AK'' = Some secret \<and> Verify demo_crypto demo_verifier demo_signed \<in> range Inr"
  using Verify_sound [where cr = demo_crypto and v = demo_verifier and r = demo_signed] by (auto simp: demo_Verify)

end
