(* ===== verification/S3Props.thy ===== *)
theory S3Props
  imports S3Server StoreProps SigV4Props
begin

text \<open>
  The S3 API end to end: which requests reach the store, what a GET answers, that what a PUT stored a
  GET sends, and when the headers that open a bucket to other origins are set.
\<close>

lemma header_Get_update [simp]:
  "header_Get (header_Set n v h) m = (if m = n then v else header_Get h m)"
  by (simp add: header_Get_def header_Values_def header_Set_def update_conv split: option.split list.split)

subsection \<open>Errors and successes\<close>

lemma S3_statuses:
  "se_Status (MapError e) \<ge> 400" "se_Status S3InvalidArgument = 400" "se_Status S3MissingContentLength = 411"
  "se_Status S3SignatureMismatch = 403"
  unfolding MapError_def by (cases e) (simp_all add: S3_errors)

lemma fail_with_status: "400 \<le> se_Status e \<Longrightarrow> rp_Status (fail_with r h e) = se_Status e"
  by (simp add: fail_with_def WriteErrorResponse_def writeError_def Let_def respond_def)

lemma fail_mapped_status [simp]: "\<not> rp_Status (fail_mapped r h e) < 400"
  using S3_statuses(1) [of "Some e"] by (simp add: fail_mapped_def fail_with_status)

lemma on_store_succeeds:
  assumes "on_store m (fail_mapped r h) good s = (resp, s')" "rp_Status resp < 400"
  obtains x where "m s = (Inr x, s')" "resp = good x"
proof (cases "fst (m s)")
  case (Inl e)
  with assms have "resp = fail_mapped r h e" by (auto simp: on_store_def split: prod.splits)
  then show ?thesis using assms(2) by simp
next
  case (Inr x)
  with assms(1) that show ?thesis by (auto simp: on_store_def split: prod.splits)
qed

text \<open>A request for an object that is answered with success went to the handler of objects.\<close>

lemma ServeHTTP_object:
  assumes "ServeHTTP se env srv r s = (resp, s')" "rp_Status resp < 400"
    and "splitPath (rq_URL r) = (b, k, True)" "k \<noteq> []" "rq_Method r \<noteq> ''OPTIONS''"
    and "u_Path (rq_URL r) \<notin> {''/'', ''/healthz'', ''/readyz''}"
  obtains h where "authorize se srv r = None" "handleObject se env r b k h s = (resp, s')"
proof -
  have "snd (handleCORS srv r []) = None" using assms(5) by (simp add: handleCORS_def Let_def split: prod.split)
  then obtain h where h: "handleCORS srv r [] = (h, None)" by (metis prod.collapse)
  have root: "\<not> shouldServeHTMLRoot r" using assms(6) by (simp add: shouldServeHTMLRoot_def)
  have au: "authorize se srv r = None"
  proof (rule ccontr)
    assume "authorize se srv r \<noteq> None"
    then obtain e where e: "authorize se srv r = Some e" by blast
    then have "400 \<le> se_Status e"
      using S3_statuses by (auto simp: authorize_def split: if_splits sum.splits)
    moreover have "resp = fail_with r h e" using assms(1,6) h root e by (simp add: ServeHTTP_def)
    ultimately show False using assms(2) by (simp add: fail_with_status)
  qed
  moreover have "handleObject se env r b k h s = (resp, s')"
    using assms(1,3,4,6) h root au by (simp add: ServeHTTP_def)
  ultimately show ?thesis by (rule that)
qed

subsection \<open>GET\<close>

lemma HeadObject_size:
  assumes "store_inv msgs s" "Store_HeadObject env b k s = (Inr info, s')" "object_bytes msgs s (b, k) = Some bs"
  shows "oi_Size info = int (length bs) \<and> quiet s s'"
proof -
  obtain s1 where h: "HeadBucket b s = (Inr (), s1)" and q: "quiet s s1"
    using assms(2) quiet_actD [OF quiet_HeadBucket] by (fastforce simp: Store_HeadObject_def sbind_def split: prod.splits sum.splits)
  obtain ob where o: "HeadObject env b k s1 = (Inr ob, s')" and i: "info = objectInfoFromMetadata ob"
    using assms(2) h by (auto simp: Store_HeadObject_def sbind_def stry_def sret_def sfail_def split: prod.splits sum.splits if_splits)
  from wp_Inr [OF HeadObject_ok o] q obtain cks where "contents (tabs s) (b, k) = Some (ob, cks)"
    by (auto simp: quiet_def same_def)
  with assms(1,3) have "ob_Size ob = int (length bs)" unfolding store_inv_def by fastforce
  with i q quiet_actD [OF quiet_HeadObject o] show ?thesis
    by (auto simp: objectInfoFromMetadata_def intro: quiet_trans)
qed

text \<open>What the client gets: a body and how long the headers say it is.\<close>

definition range_wanted :: "Request \<Rightarrow> bytes \<Rightarrow> ByteRange option" where
  "range_wanted r bs =
     (if get_header r ''Range'' = [] then None
      else (case ParseRange (get_header r ''Range'') (int (length bs)) of Inr br \<Rightarrow> Some br | Inl _ \<Rightarrow> None))"

lemma h_getObject_streams:
  assumes tc: "telegram_chat c msgs" and inv: "store_inv msgs s" "served_by c s"
    and bytes: "object_bytes msgs s (b, k) = Some bs" "in_i64 (int (length bs))"
    and get: "h_getObject env r b k h s = (resp, s')" "rp_Status resp < 400" "rp_Cut resp = None"
  shows "rp_Body resp = byte_slice (range_wanted r bs) bs"
    "rp_Status resp = (if get_header r ''Range'' = [] then 200 else 206)"
    "header_Get (rp_Header resp) ''Content-Length'' = Itoa (int (length (rp_Body resp)))"
    "get_header r ''Range'' \<noteq> [] \<longrightarrow> ParseRange (get_header r ''Range'') (int (length bs)) \<in> range Inr"
proof -
  from get(1,2) obtain rng out where step:
      "sbind (requested_range env r b k) (\<lambda>rng. sbind (Store_GetObject env b k rng) (\<lambda>out. sret (rng, out))) s = (Inr (rng, out), s')"
    and resp: "resp = get_response h rng out"
    unfolding h_getObject_def by (elim on_store_succeeds) auto
  obtain s1 where q: "requested_range env r b k s = (Inr rng, s1)" and g: "Store_GetObject env b k rng s1 = (Inr out, s')"
    using step by (auto simp: sbind_def sret_def split: prod.splits sum.splits)
  obtain data err info where out: "out = ((data, err), info)" by (metis prod.collapse)
  have rw: "rng = range_wanted r bs \<and> quiet s s1 \<and> range_ok rng bs \<and>
      (rng = None \<longleftrightarrow> get_header r ''Range'' = []) \<and>
      (get_header r ''Range'' \<noteq> [] \<longrightarrow> ParseRange (get_header r ''Range'') (int (length bs)) \<in> range Inr)"
  proof (cases "get_header r ''Range'' = []")
    case True
    with q show ?thesis by (auto simp: requested_range_def range_wanted_def sret_def range_ok_def)
  next
    case False
    with q obtain info2 s2 br where hd: "Store_HeadObject env b k s = (Inr info2, s2)" "s1 = s2"
      and pr: "ParseRange (get_header r ''Range'') (oi_Size info2) = Inr br" and br: "rng = Some br"
      by (auto simp: requested_range_def sbind_def sret_def slift_def split: prod.splits sum.splits)
    from HeadObject_size [OF inv(1) hd(1) bytes(1)] have "oi_Size info2 = int (length bs)" "quiet s s1" by (simp_all add: hd(2))
    with pr br False ParseRange_within [OF pr] bytes(2) show ?thesis
      by (auto simp: range_wanted_def range_ok_def)
  qed
  then have s1: "store_inv msgs s1" "served_by c s1" "object_bytes msgs s1 (b, k) = Some bs"
    using inv bytes(1) quiet_keeps [of s s1] by simp_all
  have e: "err = None" using get(3) by (simp add: resp out get_response_def Let_def)
  from wp_Inr [OF telegram_chat.Store_GetObject_effect [OF tc s1(1,2)] g] s1(3) rw bytes(2)
  have d: "data = byte_slice rng bs" "oi_Size info = int (length bs)" by (auto simp: out e)
  show "rp_Body resp = byte_slice (range_wanted r bs) bs" using rw d by (simp add: resp out get_response_def Let_def)
  show "rp_Status resp = (if get_header r ''Range'' = [] then 200 else 206)"
    using rw by (auto simp: resp out get_response_def Let_def)
  show "get_header r ''Range'' \<noteq> [] \<longrightarrow> ParseRange (get_header r ''Range'') (int (length bs)) \<in> range Inr" using rw by simp
  have len: "int (length (byte_slice rng bs)) = (case rng of None \<Rightarrow> int (length bs) | Some br \<Rightarrow> Length br)"
  proof (cases rng)
    case (Some br)
    with rw have "range_within (int (length bs)) br" by (simp add: range_ok_def)
    then have "nat (br_end br - br_start br + 1) \<le> length bs - nat (br_start br)" "br_start br \<le> br_end br"
      unfolding range_within_def by arith+
    with range_within_Length(1) [OF \<open>range_within (int (length bs)) br\<close> bytes(2)] show ?thesis
      by (simp add: Some byte_slice_def min_absorb2)
  qed (simp add: byte_slice_def)
  show "header_Get (rp_Header resp) ''Content-Length'' = Itoa (int (length (rp_Body resp)))"
    using d len by (cases rng) (simp_all add: resp out get_response_def Let_def)
qed

text \<open>C8: A GET of an object that is answered with success and whose body does not break off sends the
  object: all of it with status 200, or with status 206 the bytes its valid \<^verbatim>\<open>Range\<close> header asks for; and
  \<^verbatim>\<open>Content-Length\<close> is the number of bytes sent.\<close>
theorem S3_GET_streams_object:
  assumes "telegram_chat c msgs" "store_inv msgs s" "served_by c s"
    and "object_bytes msgs s (b, k) = Some bs" "in_i64 (int (length bs))"
    and "rq_Method r = ''GET''" "splitPath (rq_URL r) = (b, k, True)" "k \<noteq> []"
      "u_Path (rq_URL r) \<notin> {''/'', ''/healthz'', ''/readyz''}"
    and "ServeHTTP se env srv r s = (resp, s')" "rp_Status resp < 400" "rp_Cut resp = None"
  shows "rp_Body resp = byte_slice (range_wanted r bs) bs \<and>
    rp_Status resp = (if get_header r ''Range'' = [] then 200 else 206) \<and>
    header_Get (rp_Header resp) ''Content-Length'' = Itoa (int (length (rp_Body resp))) \<and>
    (get_header r ''Range'' = [] \<or> ParseRange (get_header r ''Range'') (int (length bs)) \<in> range Inr)"
proof -
  obtain h where "handleObject se env r b k h s = (resp, s')"
    using ServeHTTP_object [OF assms(10,11,7,8) _ assms(9)] assms(6) by auto
  then have "h_getObject env r b k h s = (resp, s')" using assms(6) by (simp add: handleObject_def Let_def)
  from h_getObject_streams [OF assms(1-5) this assms(11,12)] show ?thesis by blast
qed

subsection \<open>PUT, then GET\<close>

definition put_input :: "Request \<Rightarrow> string \<Rightarrow> string \<Rightarrow> PutObjectInput" where
  "put_input r b k =
     \<lparr>pi_Bucket = b, pi_Key = k, pi_ContentType = get_header r ''Content-Type'', pi_Size = rq_ContentLength r,
      pi_Body = rq_Body r\<rparr>"

lemma S3_put_stores:
  assumes "rq_Method r = ''PUT''" "splitPath (rq_URL r) = (b, k, True)" "k \<noteq> []"
    "u_Path (rq_URL r) \<notin> {''/'', ''/healthz'', ''/readyz''}"
    and "query_Get (Query (rq_URL r)) ''uploadId'' = []" "query_Get (Query (rq_URL r)) ''partNumber'' = []"
      "get_header r ''X-Amz-Copy-Source'' = []"
    and "ServeHTTP se env srv r s = (resp, s')" "rp_Status resp < 400"
  obtains etag where "Store_PutObject env (put_input r b k) s = (Inr etag, s')" "rp_Status resp = 200"
proof -
  obtain h where "handleObject se env r b k h s = (resp, s')"
    using ServeHTTP_object [OF assms(8,9,2,3) _ assms(4)] assms(1) by auto
  then have p: "h_putObject env r b k h s = (resp, s')" using assms(1,5-7) by (simp add: handleObject_def Let_def)
  then have "\<not> rq_ContentLength r < 0"
    using assms(9) by (auto simp: h_putObject_def fail_with_status S3_statuses)
  with p have "on_store (Store_PutObject env (put_input r b k)) (fail_mapped r h)
      (\<lambda>etag. respond 200 (header_Set ''ETag'' (quoted etag) h) []) s = (resp, s')"
    by (simp add: h_putObject_def put_input_def)
  then obtain etag where "Store_PutObject env (put_input r b k) s = (Inr etag, s')"
      "resp = respond 200 (header_Set ''ETag'' (quoted etag) h) []"
    using assms(9) by (rule on_store_succeeds)
  with that show ?thesis by (simp add: respond_def)
qed

text \<open>C7: Over HTTP: after a PUT of an object that is answered with success, a GET of the same key that is
  answered with success and does not break off sends exactly the body that was put, or the range of
  it the GET asks for.\<close>
theorem S3_PUT_then_GET:
  assumes "telegram_chat c msgs" "store_inv msgs s" "served_by c s" "plain_uploads s"
    and "rq_Method r = ''PUT''" "splitPath (rq_URL r) = (b, k, True)" "k \<noteq> []"
      "u_Path (rq_URL r) \<notin> {''/'', ''/healthz'', ''/readyz''}"
      "query_Get (Query (rq_URL r)) ''uploadId'' = []" "query_Get (Query (rq_URL r)) ''partNumber'' = []"
      "get_header r ''X-Amz-Copy-Source'' = []"
    and "rq_Body r = Some body" "rd_err body = None" "rq_ContentLength r = int (length (rd_data body))"
      "in_i64 (rq_ContentLength r)"
    and "ServeHTTP se env srv r s = (resp, s1)" "rp_Status resp < 400"
    and "rq_Method r' = ''GET''" "splitPath (rq_URL r') = (b, k, True)"
      "u_Path (rq_URL r') \<notin> {''/'', ''/healthz'', ''/readyz''}"
    and "ServeHTTP se' env' srv' r' s1 = (resp', s2)" "rp_Status resp' < 400" "rp_Cut resp' = None"
  shows "rp_Body resp' = byte_slice (range_wanted r' (rd_data body)) (rd_data body)"
proof -
  from S3_put_stores [OF assms(5-11,16,17)] obtain etag where
    put: "Store_PutObject env (put_input r b k) s = (Inr etag, s1)" by blast
  have sz: "in_i64 (pi_Size (put_input r b k))" using assms(15) by (simp add: put_input_def)
  from wp_Inr [OF put_effect [OF assms(1-4) sz] put]
  have s1: "store_inv msgs s1" "served_by c s1" "object_bytes msgs s1 (b, k) = Some (rd_data body)"
    using assms(12,14) by (auto simp: put_input_def body_of_def)
  obtain h where "handleObject se' env' r' b k h s1 = (resp', s2)"
    using ServeHTTP_object [OF assms(21,22,19,7) _ assms(20)] assms(18) by auto
  then have "h_getObject env' r' b k h s1 = (resp', s2)" using assms(18) by (simp add: handleObject_def Let_def)
  from h_getObject_streams(1) [OF assms(1) s1 _ this assms(22,23)] assms(14,15) show ?thesis by simp
qed

subsection \<open>Who may do what\<close>

text \<open>Steps that read: the tables and the bindings stay.\<close>

definition same_act :: "('w, 'a) act \<Rightarrow> bool" where
  "same_act m \<longleftrightarrow> (\<forall>s. same s (snd (m s)))"

lemma same_actD: "same_act m \<Longrightarrow> m s = (x, s') \<Longrightarrow> same s s'"
  unfolding same_act_def by (metis snd_conv)

lemma quiet_same: "quiet_act m \<Longrightarrow> same_act m"
  by (simp add: quiet_act_def same_act_def quiet_def)

lemma same_sbind: "same_act m \<Longrightarrow> (\<And>x. same_act (k x)) \<Longrightarrow> same_act (sbind m k)"
  unfolding same_act_def sbind_def
  by (auto split: prod.splits sum.splits) (metis same_trans snd_conv)+

lemma same_download: "same_act (downloadChunk env b fid)"
proof -
  have "same_act (call_Download b fid)"
    by (auto simp: same_act_def call_Download_def same_def split: option.splits prod.splits)
  then show ?thesis unfolding downloadChunk_def
    by (intro same_sbind quiet_same [OF quiet_sget] quiet_same [OF quiet_acquire])
qed

lemma same_streamChunks: "same s (snd (streamChunks env b cs s))"
proof (induction cs arbitrary: s)
  case (Cons c cs)
  obtain x s1 where d: "downloadChunk env b (cr_fileID c) s = (x, s1)" by fastforce
  with same_actD [OF same_download] have "same s s1" .
  with d Cons [of s1] show ?case by (auto split: sum.splits prod.splits option.splits intro: same_trans)
qed simp

lemma same_Store_GetObject: "same_act (Store_GetObject env b k rng)"
proof -
  have stream: "same_act (\<lambda>s. case streamChunks env bd cs s of (out, s') \<Rightarrow> (Inr (f out), s'))" for bd cs f
    unfolding same_act_def using same_streamChunks [of _ env bd cs] by (simp add: case_prod_beta)
  show ?thesis unfolding Store_GetObject_def
    by (intro same_sbind quiet_same [OF quiet_HeadBucket] quiet_same [OF quiet_stry [OF quiet_GetObject]])
      (auto split: sum.split intro!: same_sbind stream quiet_same [OF quiet_sget] quiet_same [OF quiet_acquire]
        quiet_same [OF quiet_sret] quiet_same [OF quiet_sfail])
qed

lemma quiet_Store_HeadObject [quiet_intro]: "quiet_act (Store_HeadObject env b k)"
  unfolding Store_HeadObject_def by (auto split: sum.split intro!: quiet_intro)

lemma on_store_same: "same_act m \<Longrightarrow> on_store m bad good s = (resp, s') \<Longrightarrow> same s s'"
  by (auto simp: on_store_def split: prod.splits sum.splits dest: same_actD)

lemma object_read_same:
  assumes "handleObject se env r b k h s = (resp, s')" "rq_Method r \<in> {''GET'', ''HEAD''}"
  shows "same s s'"
proof -
  have "same_act (requested_range env r b k)" for k :: string
    unfolding requested_range_def by (auto intro!: quiet_same quiet_intro)
  then have "same_act (sbind (requested_range env r b k) (\<lambda>rng. sbind (Store_GetObject env b k rng) (\<lambda>out. sret (rng, out))))"
    by (intro same_sbind same_Store_GetObject quiet_same [OF quiet_sret])
  with assms on_store_same [OF quiet_same [OF quiet_Store_HeadObject]] show ?thesis
    by (auto simp: handleObject_def Let_def h_getObject_def h_headObject_def intro: on_store_same)
qed

text \<open>No request gets past its authorization. Either the verifier accepted a signature in the headers;
  or the request reads an object, GET or HEAD with a key, the verifier accepted it or the bucket is
  one that is read anonymously, and no row and no binding of the store has changed; or the request is
  answered without the store: whatever the state, it gives this same answer and leaves it as it is.\<close>
lemma S3_requests_authorized:
  fixes s s' :: "'w ostate"
  assumes "ServeHTTP se env srv r s = (resp, s')"
  shows "(\<exists>ident. Verify (s3_crypto se) ((srv_verify srv)\<lparr>sv_clock := s3_now se\<rparr>) r = Inr ident \<and> \<not> id_Presigned ident) \<or>
    allowsPresignedRequest r \<and> same s s' \<and>
      (allowsAnonymousPublicRead srv r \<or>
       Verify (s3_crypto se) ((srv_verify srv)\<lparr>sv_clock := s3_now se\<rparr>) r \<in> range Inr) \<or>
    (\<forall>t :: 'w ostate. ServeHTTP se env srv r t = (resp, t))"
proof -
  let ?ver = "Verify (s3_crypto se) ((srv_verify srv)\<lparr>sv_clock := s3_now se\<rparr>) r"
  let ?path = "u_Path (rq_URL r)"
  obtain h cors where h: "handleCORS srv r [] = (h, cors)" by fastforce
  consider "?path \<in> {''/healthz'', ''/readyz''} \<or> cors \<noteq> None \<or> shouldServeHTMLRoot r"
    | e where "?path \<notin> {''/healthz'', ''/readyz''}" "cors = None" "\<not> shouldServeHTMLRoot r" "authorize se srv r = Some e"
    | "?path \<notin> {''/healthz'', ''/readyz''}" "cors = None" "\<not> shouldServeHTMLRoot r" "authorize se srv r = None"
    by blast
  then show ?thesis
  proof cases
    case 1
    then have "\<forall>t :: 'w ostate. ServeHTTP se env srv r t = (resp, t)" using assms by (auto simp: ServeHTTP_def h split: option.splits if_splits)
    then show ?thesis by blast
  next
    case 2
    then have "\<forall>t :: 'w ostate. ServeHTTP se env srv r t = (resp, t)" using assms by (auto simp: ServeHTTP_def h)
    then show ?thesis by blast
  next
    case 3
    then consider "\<exists>ident. ?ver = Inr ident \<and> \<not> id_Presigned ident"
      | "allowsPresignedRequest r" "allowsAnonymousPublicRead srv r \<or> ?ver \<in> range Inr"
      by (auto simp: authorize_def allowsAnonymousPublicRead_def allowsPresignedRequest_def split: if_splits sum.splits)
    then show ?thesis
    proof cases
      case 2
      obtain b k hb where p: "splitPath (rq_URL r) = (b, k, hb)" by (metis prod.collapse)
      with 2 3 assms h have "handleObject se env r b k h s = (resp, s')" "rq_Method r \<in> {''GET'', ''HEAD''}"
        by (auto simp: ServeHTTP_def allowsPresignedRequest_def)
      from object_read_same [OF this] 2 show ?thesis by blast
    qed blast
  qed
qed

subsection \<open>A run\<close>

text \<open>A signed PUT and an anonymous GET of a range at a server whose bucket is open for reading.\<close>

definition demo_se :: s3_env where
  "demo_se = \<lparr>s3_crypto = demo_crypto, s3_Decode = (\<lambda>_. Inl (Msg [])), s3_now = sv_clock demo_verifier\<rparr>"

definition demo_server :: Server where
  "demo_server = NewServer \<lparr>so_Region = ''us'', so_Credentials = [''AK'' \<mapsto> ''secret''],
     so_PublicReadBuckets = [''b'' \<mapsto> True], so_Ready = None, so_SigV4MaxSkew = 0, so_CORS = None\<rparr>"

definition demo_PUT :: Request where
  "demo_PUT = demo_signed"

definition demo_GET :: Request where
  "demo_GET = demo_signed\<lparr>rq_Method := ''GET'', rq_Header := [(''Range'', [''bytes=1-''])],
     rq_URL := (rq_URL demo_signed)\<lparr>u_RawQuery := []\<rparr>, rq_ContentLength := 0, rq_Body := None\<rparr>"

lemma demo_routes:
  "handleCORS demo_server demo_PUT [] = ([], None)" "handleCORS demo_server demo_GET [] = ([], None)"
  "\<not> shouldServeHTMLRoot demo_PUT" "\<not> shouldServeHTMLRoot demo_GET"
  "splitPath (rq_URL demo_PUT) = (''b'', ''k'', True)" "splitPath (rq_URL demo_GET) = (''b'', ''k'', True)"
  "\<not> allowsAnonymousPublicRead demo_server demo_PUT" "allowsAnonymousPublicRead demo_server demo_GET"
  by code_simp+

lemma demo_authorized: "authorize demo_se demo_server demo_PUT = None"
proof -
  have "(srv_verify demo_server)\<lparr>sv_clock := s3_now demo_se\<rparr> = demo_verifier" "s3_crypto demo_se = demo_crypto"
    by (simp_all add: demo_server_def NewServer_def NewSigV4Verifier_def demo_se_def demo_verifier_def seconds_def)
  then show ?thesis using demo_Verify by (simp add: authorize_def demo_routes demo_PUT_def)
qed

lemma demo_put_run: "fst (Store_PutObject demo_oenv (put_input demo_PUT ''b'' ''k'') demo_store) = Inr ''6162''"
  by code_simp

definition demo_after_put :: "FakeTelegram ostate" where
  "demo_after_put = snd (Store_PutObject demo_oenv (put_input demo_PUT ''b'' ''k'') demo_store)"

lemma demo_get_run:
  "rp_Status (fst (handleObject demo_se demo_oenv demo_GET ''b'' ''k'' [] demo_after_put)) = 206 \<and>
   rp_Cut (fst (handleObject demo_se demo_oenv demo_GET ''b'' ''k'' [] demo_after_put)) = None \<and>
   object_bytes fake_msgs demo_after_put (''b'', ''k'') = Some ''abc''"
  by code_simp

lemma demo_requests:
  "rq_Method demo_PUT = ''PUT''" "rq_Method demo_GET = ''GET''" "u_Path (rq_URL demo_PUT) = ''/b/k''"
  "u_Path (rq_URL demo_GET) = ''/b/k''" "rq_ContentLength demo_PUT = 3" "rq_Body demo_PUT = Some \<lparr>rd_data = ''abc'', rd_err = None\<rparr>"
  by (simp_all add: demo_PUT_def demo_GET_def demo_signed_def)

lemma demo_queries:
  "query_Get (Query (rq_URL demo_PUT)) ''uploadId'' = []" "query_Get (Query (rq_URL demo_PUT)) ''partNumber'' = []"
  "get_header demo_PUT ''X-Amz-Copy-Source'' = []" "range_wanted demo_GET ''abc'' = Some \<lparr>br_start = 1, br_end = 2\<rparr>"
  by code_simp+

lemma demo_http_put:
  "ServeHTTP demo_se demo_oenv demo_server demo_PUT demo_store =
     (respond 200 [(''ETag'', [quoted ''6162''])] [], demo_after_put)"
proof -
  have "Store_PutObject demo_oenv (put_input demo_PUT ''b'' ''k'') demo_store = (Inr ''6162'', demo_after_put)"
    using demo_put_run by (simp add: demo_after_put_def prod_eq_iff)
  then have "h_putObject demo_oenv demo_PUT ''b'' ''k'' [] demo_store = (respond 200 [(''ETag'', [quoted ''6162''])] [], demo_after_put)"
    by (simp add: h_putObject_def put_input_def on_store_def demo_requests header_Set_def)
  then show ?thesis
    by (simp add: ServeHTTP_def demo_routes demo_authorized demo_requests demo_queries handleObject_def Let_def)
qed

lemma demo_http_get:
  "ServeHTTP demo_se demo_oenv demo_server demo_GET t = handleObject demo_se demo_oenv demo_GET ''b'' ''k'' [] t"
  by (simp add: ServeHTTP_def demo_routes authorize_def demo_requests)

lemma demo_after_put_facts: "store_inv fake_msgs demo_after_put" "served_by fake_client demo_after_put"
proof -
  have "in_i64 (pi_Size (put_input demo_PUT ''b'' ''k''))" by (simp add: put_input_def demo_requests in_i64_def)
  from wp_Inr [OF put_effect [OF fake.telegram_chat_axioms demo_store_facts demo_plain(1) this],
      of demo_oenv "''6162''" demo_after_put] demo_put_run
  show "store_inv fake_msgs demo_after_put" "served_by fake_client demo_after_put"
    by (simp_all add: demo_after_put_def prod_eq_iff)
qed

theorem S3_PUT_then_GET_witness:
  "\<exists>resp s2. ServeHTTP demo_se demo_oenv demo_server demo_GET demo_after_put = (resp, s2) \<and> rp_Body resp = ''bc''"
proof -
  obtain resp s2 where run: "ServeHTTP demo_se demo_oenv demo_server demo_GET demo_after_put = (resp, s2)" by fastforce
  then have r: "rp_Status resp < 400" "rp_Cut resp = None" using demo_get_run by (simp_all add: demo_http_get)
  have u: "rq_URL demo_GET = (rq_URL demo_PUT)\<lparr>u_RawQuery := []\<rparr>" by (simp add: demo_GET_def demo_PUT_def)
  show ?thesis
    using S3_PUT_then_GET [OF fake.telegram_chat_axioms demo_store_facts demo_plain(1) demo_requests(1) demo_routes(5) _ _
        demo_queries(1-3) demo_requests(6) _ _ _ demo_http_put _ demo_requests(2) demo_routes(6) _ run r]
    run by (simp add: demo_requests demo_queries byte_slice_def Length_def in_i64_def respond_def)
qed

theorem S3_GET_streams_object_witness:
  "\<exists>resp s2. ServeHTTP demo_se demo_oenv demo_server demo_GET demo_after_put = (resp, s2) \<and>
     header_Get (rp_Header resp) ''Content-Length'' = ''2''"
proof -
  obtain resp s2 where run: "ServeHTTP demo_se demo_oenv demo_server demo_GET demo_after_put = (resp, s2)" by fastforce
  then have r: "rp_Status resp < 400" "rp_Cut resp = None" using demo_get_run by (simp_all add: demo_http_get)
  have bytes: "object_bytes fake_msgs demo_after_put (''b'', ''k'') = Some ''abc''" using demo_get_run by blast
  have "byte_slice (range_wanted demo_GET ''abc'') ''abc'' = ''bc''" "Itoa (int (length ''bc'')) = ''2''" by code_simp+
  with S3_GET_streams_object [OF fake.telegram_chat_axioms demo_after_put_facts bytes _ demo_requests(2) demo_routes(6) _ _
      run r] run
  show ?thesis by (simp add: demo_requests in_i64_def)
qed

end
