(* ===== verification/StoreUploads.thy ===== *)
theory StoreUploads
  imports MultiEffects StoreList
begin

text \<open>
  The map of open multipart uploads: only its own operations change it, and how. Everything else is
  a sequence of steps that keep \<open>has_uploads mu\<close>.
\<close>

abbreviation has_uploads :: "(string \<times> multipartUpload) list \<Rightarrow> 'w ostate \<Rightarrow> bool" where
  "has_uploads mu s \<equiv> multipartUploads s = mu"

named_theorems uploads_intro \<open>steps that keep the open uploads\<close>

lemma uploads_if [uploads_intro]: "(c \<Longrightarrow> keeps P m) \<Longrightarrow> (\<not> c \<Longrightarrow> keeps P m') \<Longrightarrow> keeps P (if c then m else m')"
  by simp

lemma keeps_swhen [uploads_intro]: "keeps P m \<Longrightarrow> keeps P (swhen c m)"
  by (simp add: swhen_def keeps_sret)

lemmas keeps_basic [uploads_intro] =
  keeps_sret keeps_sfail keeps_sbind keeps_sfor keeps_sget keeps_slift keeps_stry

subsection \<open>Steps of the other components\<close>

lemma uploads_tick [simp]: "multipartUploads (tick_up s) = multipartUploads s"
  by (simp add: tick_up_def)

lemma uploads_sql [uploads_intro]:
  "keeps (has_uploads mu) (query env f)" "keeps (has_uploads mu) (exec env g)"
  by (auto simp: keeps_def query_def exec_def split: option.splits sum.splits)

lemma uploads_in_tx [uploads_intro]:
  fixes m :: "('w, 'a) act"
  assumes "keeps (has_uploads mu) m"
  shows "keeps (has_uploads mu) (in_tx env m)"
  unfolding keeps_def
proof (intro allI impI)
  fix s :: "'w ostate" assume s: "has_uploads mu s"
  obtain r s' where m: "m (tick_up s) = (r, s')" by fastforce
  with keepsD [OF assms m] s show "has_uploads mu (snd (in_tx env m s))"
    by (auto simp: in_tx_def m split: option.splits sum.splits)
qed

lemma uploads_small [uploads_intro]:
  "keeps (has_uploads mu) (clock_now env)" "keeps (has_uploads mu) (time_Now env)" "keeps (has_uploads mu) (emit e)"
  "keeps (has_uploads mu) (select_ctx env)" "keeps (has_uploads mu) (os_step env)" "keeps (has_uploads mu) (rand_read env)"
  "keeps (has_uploads mu) (bucketBindingM b)" "keeps (has_uploads mu) (HeadBucket b)"
  "keeps (has_uploads mu) (markBucketUnavailable b)"
  by (auto simp: keeps_def clock_now_def time_Now_def emit_def smodify_def select_ctx_def os_step_def rand_read_def
      bucketBindingM_def HeadBucket_def markBucketUnavailable_def split: option.splits)

lemma uploads_calls [uploads_intro]:
  "keeps (has_uploads mu) (call_Upload b rq)" "keeps (has_uploads mu) (call_Download b fid)"
  "keeps (has_uploads mu) (call_DeleteMessage b m)"
  by (auto simp: keeps_def call_Upload_def call_Download_def call_DeleteMessage_def split: option.splits prod.splits)

lemma uploads_acquire [uploads_intro]: "keeps (has_uploads mu) (acquire env n)"
  unfolding acquire_def by (intro uploads_intro)

lemma uploads_gate [uploads_intro]: "keeps (has_uploads mu) (gate_wait env k)"
proof -
  have "keeps (has_uploads mu) (\<lambda>s. case ev_sleep env (tick s) of Some e \<Rightarrow> (Inl e, tick_up s) | None \<Rightarrow> (Inr (), tick_up s))"
    by (simp add: keeps_def split: option.splits)
  then show ?thesis unfolding gate_wait_def
    by (intro uploads_intro) (auto split: option.splits intro!: uploads_intro)
qed

lemma uploads_telegram [uploads_intro]:
  "keeps (has_uploads mu) (uploadTelegram env b rq)" "keeps (has_uploads mu) (downloadChunk env b fid)"
proof -
  have "keeps (has_uploads mu) (smodify (\<lambda>s. s\<lparr>uploadGates := (uploadGates s)(k \<mapsto> v)\<rparr>))" for k v
    by (rule keeps_smodify) simp
  then show "keeps (has_uploads mu) (uploadTelegram env b rq)"
    unfolding uploadTelegram_def by (auto split: option.split sum.split intro!: uploads_intro)
  show "keeps (has_uploads mu) (downloadChunk env b fid)"
    unfolding downloadChunk_def by (intro uploads_intro)
qed

lemma uploads_logs [uploads_intro]:
  "keeps (has_uploads mu) (logMetadataPutObject bk k n e err)" "keeps (has_uploads mu) (logOrphanUpload bk k us er)"
  "keeps (has_uploads mu) (abandon bk k us er)" "keeps (has_uploads mu) (logMultipartPartOrphans bk k p er)"
  unfolding logMetadataPutObject_def logOrphanUpload_def abandon_def logMultipartPartOrphans_def
  by (intro uploads_intro)+

lemma uploads_delete_messages [uploads_intro]:
  "keeps (has_uploads mu) (deleteChunkMessage b bk k ck)" "keeps (has_uploads mu) (cleanupReplacedChunks bk k prev)"
proof -
  show d: "keeps (has_uploads mu) (deleteChunkMessage b bk k ck)" for b ck
    unfolding deleteChunkMessage_def by (auto simp: Let_def split: sum.split intro!: uploads_intro)
  show "keeps (has_uploads mu) (cleanupReplacedChunks bk k prev)"
    unfolding cleanupReplacedChunks_def by (auto split: sum.split intro!: uploads_intro d)
qed

subsection \<open>Metadata\<close>

lemma uploads_metadata [uploads_intro]:
  "keeps (has_uploads mu) (GetObject env b k)" "keeps (has_uploads mu) (HeadObject env b k)"
  "keeps (has_uploads mu) (PutObject env ob cks)" "keeps (has_uploads mu) (DeleteObject env b k)"
  "keeps (has_uploads mu) (GetBucket env b)" "keeps (has_uploads mu) (ListBuckets env)"
  "keeps (has_uploads mu) (DeleteBucket env b)" "keeps (has_uploads mu) (ListObjects env q)"
  unfolding GetObject_def HeadObject_def PutObject_def DeleteObject_def GetBucket_def ListBuckets_def DeleteBucket_def
    ListObjects_def selectObject_def listChunksInTx_def
  by (auto split: option.split prod.split intro!: uploads_intro)

subsection \<open>Operations of the store\<close>

lemma uploads_previous [uploads_intro]: "keeps (has_uploads mu) (previous_chunks env b k)"
  unfolding previous_chunks_def by (auto split: sum.split intro!: uploads_intro)

lemma uploads_stage [uploads_intro]: "keeps (has_uploads mu) (stageSingleUpload env input body)"
  unfolding stageSingleUpload_def by (auto simp: Let_def split: prod.split option.split intro!: uploads_intro)

lemma uploads_put_ways [uploads_intro]:
  "keeps (has_uploads mu) (putEmpty env input strategy)" "keeps (has_uploads mu) (putSingle env input body strategy)"
  unfolding putEmpty_def putSingle_def
  by (auto simp: Let_def split: sum.split prod.split intro!: uploads_intro)

lemma stry_binding: "stry (bucketBindingM b) s = (Inr (bucketBinding s b), s)"
  by (simp add: stry_def bucketBindingM_def)

lemma uploads_abandon: "has_uploads mu s \<Longrightarrow> has_uploads mu (snd (abandon bk k us er s))"
  by (rule keepsD [OF uploads_logs(3) prod.collapse [symmetric]])

text \<open>The step that the loops over the chunks of an object and of a part share: look up the binding, send one
  chunk, go on.\<close>

lemma uploads_send_chunk:
  assumes s: "has_uploads mu s"
    and nxt: "\<And>binding u s2. stry (bucketBindingM b) s = (Inr (Inr binding), s) \<Longrightarrow>
      stry (uploadTelegram env binding (rq binding s)) s = (Inr (Inr u), s2) \<Longrightarrow> has_uploads mu s2 \<Longrightarrow>
      has_uploads mu (snd (nxt binding u s2))"
  shows "has_uploads mu (snd (case stry (bucketBindingM b) s of
       (Inl err, s1) \<Rightarrow> (Inl err, s1)
     | (Inr (Inl err), s1) \<Rightarrow> abandon bk k us err s1
     | (Inr (Inr binding), s1) \<Rightarrow>
         (case stry (uploadTelegram env binding (rq binding s1)) s1 of
            (Inl err, s2) \<Rightarrow> (Inl err, s2)
          | (Inr (Inl err), s2) \<Rightarrow> abandon bk k us err s2
          | (Inr (Inr u), s2) \<Rightarrow> nxt binding u s2)))"
proof (cases "bucketBinding s b")
  case (Inl e)
  then show ?thesis using s by (simp add: stry_binding uploads_abandon)
next
  case (Inr binding)
  obtain r s2 where u: "uploadTelegram env binding (rq binding s) s = (r, s2)" by fastforce
  then have st: "stry (uploadTelegram env binding (rq binding s)) s = (Inr r, s2)" by (simp add: stry_def)
  have s2: "has_uploads mu s2" using keepsD [OF uploads_telegram(1) u s] .
  show ?thesis
  proof (cases r)
    case (Inl e)
    then show ?thesis using s2 Inr st by (simp add: stry_binding uploads_abandon)
  next
    case (Inr f)
    with nxt [of binding f s2] s2 st \<open>bucketBinding s b = _\<close> show ?thesis by (simp add: stry_binding)
  qed
qed

lemma chunkLoop_uploads: "has_uploads mu s \<Longrightarrow>
    has_uploads mu (snd (chunkLoop env input chunkSize parts chunks hashed offset remaining part body s))"
proof (induction env input chunkSize parts chunks hashed offset remaining part body s rule: chunkLoop.induct)
  case (1 env input chunkSize parts chunks hashed offset remaining part body s)
  let ?n = "if remaining < chunkSize then remaining else chunkSize"
  show ?case
  proof (cases "remaining \<le> 0 \<or> chunkSize \<le> 0 \<or> isl (ReadFull (nat ?n) body)")
    case True
    then show ?thesis using "1.prems" by (subst chunkLoop.simps) (auto simp: Let_def split: sum.split)
  next
    case False
    then obtain data body' where rf: "ReadFull (nat ?n) body = Inr (data, body')" and n: "\<not> remaining \<le> 0" "\<not> chunkSize \<le> 0"
      by (cases "ReadFull (nat ?n) body") auto
    show ?thesis
      unfolding chunkLoop.simps [of env input chunkSize parts chunks hashed offset remaining part body s] Let_def
        if_not_P [OF n(1)] if_not_P [OF n(2)] rf sum.case prod.case
      by (rule uploads_send_chunk [OF "1.prems"], rule "1.IH" [OF n refl rf refl _ refl refl _ refl refl])
        (erule sym, erule sym, assumption)
  qed
qed

lemma partLoop_uploads: "has_uploads mu s \<Longrightarrow>
    has_uploads mu (snd (partLoop env input ct chunkSize chunks hashed remaining part body s))"
proof (induction env input ct chunkSize chunks hashed remaining part body s rule: partLoop.induct)
  case (1 env input ct chunkSize chunks hashed remaining part body s)
  let ?n = "if remaining < chunkSize then remaining else chunkSize"
  show ?case
  proof (cases "remaining \<le> 0 \<or> chunkSize \<le> 0 \<or> isl (ReadFull (nat ?n) body)")
    case True
    then show ?thesis using "1.prems" by (subst partLoop.simps) (auto simp: Let_def uploads_abandon split: sum.split)
  next
    case False
    then obtain data body' where rf: "ReadFull (nat ?n) body = Inr (data, body')" and n: "\<not> remaining \<le> 0" "\<not> chunkSize \<le> 0"
      by (cases "ReadFull (nat ?n) body") auto
    show ?thesis
      unfolding partLoop.simps [of env input ct chunkSize chunks hashed remaining part body s] Let_def
        if_not_P [OF n(1)] if_not_P [OF n(2)] rf sum.case prod.case
      by (rule uploads_send_chunk [OF "1.prems"], rule "1.IH" [OF n refl rf refl _ refl refl _ refl refl])
        (erule sym, erule sym, assumption)
  qed
qed

lemma uploads_loops [uploads_intro]:
  "keeps (has_uploads mu) (chunkLoop env input cs parts chunks hashed offset remaining part body)"
  "keeps (has_uploads mu) (partLoop env pin ct cs pchunks hashed remaining part body)"
  unfolding keeps_def by (intro allI impI, erule chunkLoop_uploads, intro allI impI, erule partLoop_uploads)

lemma uploads_PutObject [uploads_intro]: "keeps (has_uploads mu) (Store_PutObject env input)"
proof -
  have "keeps (has_uploads mu) (putChunked env input body strategy)" for body strategy
    unfolding putChunked_def Let_def by (auto split: sum.split intro!: uploads_intro)
  then show ?thesis
    unfolding Store_PutObject_def by (auto simp: Let_def intro!: uploads_intro)
qed

lemma uploads_DeleteObject [uploads_intro]: "keeps (has_uploads mu) (Store_DeleteObject env b k)"
  unfolding Store_DeleteObject_def by (auto split: sum.split intro!: uploads_intro)

lemma uploads_HeadObject [uploads_intro]: "keeps (has_uploads mu) (Store_HeadObject env b k)"
  unfolding Store_HeadObject_def by (auto split: sum.split intro!: uploads_intro)

lemma streamChunks_uploads: "has_uploads mu s \<Longrightarrow> has_uploads mu (snd (streamChunks env b sel s))"
proof (induction sel arbitrary: s)
  case (Cons x sel)
  obtain r s1 where d: "downloadChunk env b (cr_fileID x) s = (r, s1)" by fastforce
  have s1: "has_uploads mu s1" using keepsD [OF uploads_telegram(2) d Cons.prems] .
  obtain q s2 where st: "streamChunks env b sel s1 = (q, s2)" by fastforce
  then have "has_uploads mu s2" using Cons.IH [OF s1] by simp
  with s1 st show ?case by (cases q) (simp add: d split: sum.split prod.split option.split)
qed simp

lemma uploads_GetObject [uploads_intro]: "keeps (has_uploads mu) (Store_GetObject env b k rng)"
proof -
  have "keeps (has_uploads mu) (\<lambda>s. case streamChunks env bd sel s of (out, s') \<Rightarrow> (Inr (out, info), s'))"
    for bd sel and info :: ObjectInfo
    unfolding keeps_def case_prod_beta by (simp add: streamChunks_uploads)
  then show ?thesis
    unfolding Store_GetObject_def by (auto split: sum.split intro!: uploads_intro)
qed

lemma uploads_buckets [uploads_intro]:
  "keeps (has_uploads mu) (Store_ListBuckets env)" "keeps (has_uploads mu) (Store_DeleteBucket env b)"
  unfolding Store_ListBuckets_def Store_DeleteBucket_def by (auto split: sum.split intro!: uploads_intro)

subsection \<open>Listing\<close>

text \<open>A listing keeps whatever its queries keep.\<close>

definition keeps_pages :: "oenv \<Rightarrow> ('w ostate \<Rightarrow> bool) \<Rightarrow> bool" where
  "keeps_pages env P \<longleftrightarrow> (\<forall>q. keeps P (ListObjects env q :: ('w, Object list) act))"

lemma keeps_pagesD: "keeps_pages env P \<Longrightarrow> ListObjects env q s = (r, s') \<Longrightarrow> P s \<Longrightarrow> P s'"
  unfolding keeps_pages_def by (rule keepsD [of P "ListObjects env q"]) blast+

lemma keeps_advanceLoop: "keeps_pages env P \<Longrightarrow> P s \<Longrightarrow> P (snd (advanceLoop env input p c s))"
proof (induction env input p c s rule: advanceLoop.induct)
  case (1 env input p c s)
  obtain r s' where l: "ListObjects env (page_query input c 32) s = (r, s')" by fastforce
  have s': "P s'" using keeps_pagesD [OF "1.prems"(1) l "1.prems"(2)] .
  show ?case
  proof (cases "\<exists>objects c'. r = Inr objects \<and> objects \<noteq> [] \<and> advanceScan input p c objects = (c', False) \<and> \<not> length objects < 32")
    case True
    then obtain objects c' where o: "r = Inr objects" "objects \<noteq> []" "advanceScan input p c objects = (c', False)"
      "\<not> length objects < 32" by blast
    from "1.IH" [OF l [unfolded o(1), symmetric] refl o(2) o(3) [symmetric] _ o(4) "1.prems"(1) s'] o l
    show ?thesis by (subst advanceLoop.simps) simp
  next
    case False
    then show ?thesis using l s'
      by (subst advanceLoop.simps) (auto split: sum.split prod.split bool.split)
  qed
qed

lemma keeps_pageLoop: "keeps_pages env P \<Longrightarrow> keeps P (pageLoop env input limit obs ls)"
proof (induction obs arbitrary: ls)
  case (Cons ob obs)
  have "keeps P (advanceContinuationPastPrefix env input p a)" for p a
    using keeps_advanceLoop [OF Cons.prems] by (simp add: keeps_def advanceContinuationPastPrefix_def)
  then show ?case using Cons.IH [OF Cons.prems]
    by (auto simp: Let_def split: option.split intro!: keeps_basic)
qed (simp add: keeps_sret)

lemma keeps_listLoop: "keeps_pages env P \<Longrightarrow> P s \<Longrightarrow> P (snd (listLoop env input limit ls s))"
proof (induction env input limit ls s rule: listLoop.induct)
  case (1 env input limit ls s)
  show ?case
  proof (cases "limit \<le> emitted ls")
    case True
    then show ?thesis using "1.prems" by (subst listLoop.simps) simp
  next
    case False
    obtain r s1 where l: "ListObjects env (page_query input (ls_afterKey ls) (query_limit limit ls)) s = (r, s1)" by fastforce
    have s1: "P s1" using keeps_pagesD [OF "1.prems"(1) l "1.prems"(2)] .
    show ?thesis
    proof (cases "isl r \<or> r = Inr []")
      case True
      then show ?thesis using l s1 False by (subst listLoop.simps) (auto simp: Let_def isl_def)
    next
      case F: False
      then obtain objects where r: "r = Inr objects" "objects \<noteq> []" by (cases r) auto
      obtain q s2 where pg: "pageLoop env input limit objects ls s1 = (q, s2)" by fastforce
      have s2: "P s2" using keepsD [OF keeps_pageLoop [OF "1.prems"(1)] pg s1] .
      show ?thesis
      proof (cases "\<exists>ls'. q = Inr (ls', False) \<and> \<not> ls_stop ls' \<and> \<not> int (length objects) < query_limit limit ls")
        case True
        then obtain ls' where q: "q = Inr (ls', False)" "\<not> ls_stop ls'" "\<not> int (length objects) < query_limit limit ls" by blast
        from "1.IH" [OF _ refl l [unfolded r(1), symmetric] refl r(2) pg [unfolded q(1), symmetric] refl refl q(2) _ q(3)
            "1.prems"(1) s2] False l r pg q
        show ?thesis by (subst listLoop.simps) (simp add: Let_def)
      next
        case False
        then show ?thesis using l r pg s2 \<open>\<not> limit \<le> emitted ls\<close>
          by (subst listLoop.simps) (auto simp: Let_def split: sum.split prod.split)
      qed
    qed
  qed
qed

lemma keeps_Store_ListObjects:
  assumes "keeps_pages env P"
  shows "keeps P (HeadBucket (li_Bucket input)) \<Longrightarrow> keeps P (Store_ListObjects env input)"
proof -
  have "keeps P (listLoop env input limit ls)" for limit ls
    using keeps_listLoop [OF assms] by (simp add: keeps_def)
  moreover have "keeps P (ListObjects env q)" for q using assms by (simp add: keeps_pages_def)
  ultimately show "keeps P (HeadBucket (li_Bucket input)) \<Longrightarrow> keeps P (Store_ListObjects env input)"
    unfolding Store_ListObjects_def Let_def by (intro uploads_intro)
qed

lemma uploads_ListObjects [uploads_intro]: "keeps (has_uploads mu) (Store_ListObjects env input)"
  by (rule keeps_Store_ListObjects) (simp add: keeps_pages_def uploads_intro, rule uploads_intro)

lemma quiet_keeps_act: "quiet_act m \<Longrightarrow> keeps (quiet s0) m"
  unfolding quiet_act_def keeps_def using quiet_trans by blast

lemma quiet_Store_ListObjects [quiet_intro]: "quiet_act (Store_ListObjects env input :: ('w, ListObjectsResult) act)"
proof -
  have "quiet_act (ListObjects env q :: ('w, Object list) act)" for q unfolding ListObjects_def by (intro quiet_intro)
  then have "keeps_pages env (quiet s)" for s :: "'w ostate" unfolding keeps_pages_def by (intro allI quiet_keeps_act)
  then have "keeps (quiet s) (Store_ListObjects env input)" for s :: "'w ostate"
    by (rule keeps_Store_ListObjects) (rule quiet_keeps_act [OF quiet_HeadBucket])
  then show ?thesis unfolding quiet_act_def keeps_def using quiet_refl by blast
qed

subsection \<open>The operations on uploads\<close>

lemma uploads_need [uploads_intro]: "keeps (has_uploads mu) (need_upload i b k)"
  unfolding need_upload_def by (auto split: option.split intro!: uploads_intro)

lemma uploads_orphans [uploads_intro]: "keeps (has_uploads mu) (logMultipartOrphansLocked i r)"
  unfolding logMultipartOrphansLocked_def by (auto simp: Let_def split: option.split intro!: uploads_intro)

lemma need_upload_Inr: "need_upload i b k s = (Inr u, s') \<longleftrightarrow> find_upload i b k s = Some u \<and> s' = s"
  by (auto simp: need_upload_def sbind_def sret_def sfail_def sget_def split: option.split)

lemma quiet_orphans [quiet_intro]: "quiet_act (logMultipartOrphansLocked i r)"
  unfolding logMultipartOrphansLocked_def by (auto simp: Let_def split: option.split intro!: quiet_intro)

definition still :: "'w ostate \<Rightarrow> 'w ostate \<Rightarrow> bool" where
  "still s s' \<longleftrightarrow> quiet s s' \<and> multipartUploads s' = multipartUploads s"

lemma still_refl [simp]: "still s s" and still_trans: "still s s' \<Longrightarrow> still s' s'' \<Longrightarrow> still s s''"
  by (auto simp: still_def intro: quiet_trans)

lemma stillD: "quiet_act m \<Longrightarrow> keeps (has_uploads (multipartUploads s)) m \<Longrightarrow> m s = (r, s') \<Longrightarrow> still s s'"
  unfolding still_def using quiet_actD [of m s r s'] keepsD [of "has_uploads (multipartUploads s)" m s r s'] by simp

lemma wp_still_step:
  assumes "quiet_act m" "keeps (has_uploads (multipartUploads s)) m"
    "\<And>x s'. m s = (Inr x, s') \<Longrightarrow> still s s' \<Longrightarrow> wp (k x) Q E s'" "\<And>e s'. still s s' \<Longrightarrow> E e s'"
  shows "wp (sbind m k) Q E s"
  unfolding wp_sbind
proof (rule wpI)
  show "wp (k x) Q E s'" if "m s = (Inr x, s')" for x s' using that stillD [OF assms(1,2) that] by (rule assms(3))
  show "E e s'" if "m s = (Inl e, s')" for e s' using stillD [OF assms(1,2) that] by (rule assms(4))
qed

lemma evict_drops:
  assumes "evictOldestMultipartUploadLocked env s = (r, s')"
  shows "r = Inr () \<and> quiet s s' \<and>
    (multipartUploads s' = multipartUploads s \<or> (\<exists>old. multipartUploads s' = drop_upload old (multipartUploads s)))"
proof -
  let ?m = "multipartUploads s"
  define old where "old = oldest_upload ?m [] 0 (ev_order env (tick s) (map fst ?m))"
  have eq: "evictOldestMultipartUploadLocked env s =
     (if length ?m \<le> maxMultipartUploads \<or> old = [] then (Inr (), s)
      else sbind (logMultipartOrphansLocked old ''evict'')
        (\<lambda>_. smodify (\<lambda>s. s\<lparr>multipartUploads := drop_upload old (multipartUploads s)\<rparr>)) s)"
    unfolding evictOldestMultipartUploadLocked_def
    by (simp add: sbind_def [of "sget f" for f] sget_def sret_def swhen_def Let_def old_def)
  show ?thesis
  proof (cases "length ?m \<le> maxMultipartUploads \<or> old = []")
    case True
    then show ?thesis using assms unfolding eq by simp
  next
    case False
    obtain q s1 where lg: "logMultipartOrphansLocked old ''evict'' s = (q, s1)" by fastforce
    have q: "q = Inr ()" and s1: "still s s1"
      using logs_succeed [of old "''evict''" s] stillD [OF quiet_orphans uploads_orphans lg] by (simp_all add: lg)
    have "r = Inr () \<and> s' = s1\<lparr>multipartUploads := drop_upload old (multipartUploads s1)\<rparr>"
      using assms lg unfolding eq if_not_P [OF False] by (simp add: sbind_def smodify_def q)
    moreover have "quiet s (s1\<lparr>multipartUploads := mu\<rparr>)" for mu
      using s1 quiet_uploads quiet_trans unfolding still_def by blast
    ultimately show ?thesis using s1 unfolding still_def by auto
  qed
qed

definition new_upload :: "string \<Rightarrow> string \<Rightarrow> string \<Rightarrow> int \<Rightarrow> multipartUpload" where
  "new_upload b k ct now = \<lparr>mu_bucket = b, mu_key = k, mu_contentType = ct, mu_createdAt = now, mu_parts = []\<rparr>"

lemma CreateMultipartUpload_uploads:
  "wp (CreateMultipartUpload env b k ct)
     (\<lambda>i s'. quiet s s' \<and> (\<exists>now. let m = set_upload i (new_upload b k ct now) (multipartUploads s) in
        multipartUploads s' = m \<or> (\<exists>old. multipartUploads s' = drop_upload old m)))
     (\<lambda>e s'. still s s') s" (is "wp _ ?Q ?E s")
proof -
  have id: "quiet_act (newUploadID env)" "keeps (has_uploads mu) (newUploadID env)" for mu
    unfolding newUploadID_def by (intro quiet_intro, intro uploads_intro)
  have fin: "wp (sbind (smodify (\<lambda>s. s\<lparr>multipartUploads := set_upload i
          \<lparr>mu_bucket = b, mu_key = k, mu_contentType = ct, mu_createdAt = now, mu_parts = []\<rparr> (multipartUploads s)\<rparr>))
        (\<lambda>_. sbind (evictOldestMultipartUploadLocked env) (\<lambda>_. sret i))) ?Q ?E s3" if s3: "still s s3" for i now s3
  proof -
    let ?s4 = "s3\<lparr>multipartUploads := set_upload i (new_upload b k ct now) (multipartUploads s3)\<rparr>"
    obtain q s5 where ev: "evictOldestMultipartUploadLocked env ?s4 = (q, s5)" by fastforce
    have "quiet s ?s4" using s3 quiet_uploads [of s3] by (auto simp: still_def intro: quiet_trans)
    with evict_drops [OF ev] s3 have "?Q i s5" unfolding still_def Let_def
      by (auto intro: quiet_trans intro!: exI [of _ now])
    then show ?thesis using evict_drops [OF ev] ev
      unfolding wp_sbind wp_smodify new_upload_def [symmetric] by (simp add: wp_def sret_def)
  qed
  show ?thesis
    unfolding CreateMultipartUpload_def
    by (rule wp_still_step [OF quiet_HeadBucket uploads_small(8)], rule wp_still_step [OF id],
        rule wp_still_step [OF quiet_clock uploads_small(1)], rule fin) (blast intro: still_trans)+
qed

lemma AbortMultipartUpload_uploads:
  "wp (AbortMultipartUpload b k i)
     (\<lambda>_ s'. quiet s s' \<and> find_upload i b k s \<noteq> None \<and> multipartUploads s' = drop_upload i (multipartUploads s))
     (\<lambda>e s'. still s s') s"
proof -
  have need: "quiet_act (need_upload i b k)"
    unfolding need_upload_def by (auto split: option.split intro!: quiet_intro)
  show ?thesis unfolding AbortMultipartUpload_def wp_if
    by (auto simp: wp_sfail intro!: wp_still_step [OF need uploads_need] wp_still_step [OF quiet_orphans uploads_orphans])
      (auto simp: wp_smodify need_upload_Inr still_def intro: quiet_trans quiet_uploads)
qed

text \<open>A part goes into the upload, in place of one of the same number.\<close>

lemma wp_kept_step:
  assumes "keeps (has_uploads mu) m" "has_uploads mu s"
    "\<And>x s'. m s = (Inr x, s') \<Longrightarrow> has_uploads mu s' \<Longrightarrow> wp (k x) Q E s'" "\<And>e s'. has_uploads mu s' \<Longrightarrow> E e s'"
  shows "wp (sbind m k) Q E s"
  unfolding wp_sbind
proof (rule wpI)
  show "wp (k x) Q E s'" if "m s = (Inr x, s')" for x s' using that keepsD [OF assms(1) that assms(2)] by (rule assms(3))
  show "E e s'" if "m s = (Inl e, s')" for e s' using keepsD [OF assms(1) that assms(2)] by (rule assms(4))
qed

definition set_part :: "int \<Rightarrow> multipartPart \<Rightarrow> multipartUpload \<Rightarrow> multipartUpload" where
  "set_part n p u = u\<lparr>mu_parts := (n, p) # filter (\<lambda>q. fst q \<noteq> n) (mu_parts u)\<rparr>"

lemma uploads_parts [uploads_intro]: "keeps (has_uploads mu) (uploadMultipartPartChunks env input body ct)"
  unfolding uploadMultipartPartChunks_def Let_def by (auto intro!: uploads_intro)

lemma UploadPart_uploads:
  "wp (UploadPart env input)
     (\<lambda>_ s'. \<exists>u p. find_upload (pt_UploadID input) (pt_Bucket input) (pt_Key input) s = Some u \<and>
        multipartUploads s' = set_upload (pt_UploadID input) (set_part (pt_PartNumber input) p u) (multipartUploads s))
     (\<lambda>_ s'. multipartUploads s' = multipartUploads s) s" (is "wp _ ?Q ?E s")
proof (cases "pt_PartNumber input < 1 \<or> pt_UploadID input = [] \<or> pt_Size input < 0")
  case True
  then show ?thesis by (simp add: UploadPart_def wp_sfail)
next
  case False
  have fin: "wp (sbind (need_upload (pt_UploadID input) (pt_Bucket input) (pt_Key input)) (\<lambda>upload2.
        sbind (case map_of (mu_parts upload2) (pt_PartNumber input) of
                 Some old \<Rightarrow> swhen (mp_chunks old \<noteq> []) (logMultipartPartOrphans (pt_Bucket input) (pt_Key input) old err)
               | None \<Rightarrow> sret ()) (\<lambda>_.
        sbind (smodify (\<lambda>s. s\<lparr>multipartUploads := set_upload (pt_UploadID input)
                 (upload2\<lparr>mu_parts := (pt_PartNumber input, p) # filter (\<lambda>q. fst q \<noteq> pt_PartNumber input) (mu_parts upload2)\<rparr>)
                 (multipartUploads s)\<rparr>)) (\<lambda>_. sret etag)))) ?Q ?E s4"
    if s4: "has_uploads (multipartUploads s) s4" for p err s4 and etag :: string
  proof (rule wp_kept_step [OF uploads_need s4], goal_cases)
    case (1 u s5)
    then have u: "find_upload (pt_UploadID input) (pt_Bucket input) (pt_Key input) s = Some u"
      using s4 by (simp add: need_upload_Inr find_upload_def)
    have lg: "keeps (has_uploads mu) (case x of Some old \<Rightarrow> swhen (mp_chunks old \<noteq> [])
        (logMultipartPartOrphans (pt_Bucket input) (pt_Key input) old err) | None \<Rightarrow> sret ())" for mu x
      by (auto split: option.split intro!: uploads_intro)
    show ?case
      by (rule wp_kept_step [OF lg 1(2)])
        (use u in \<open>auto simp: wp_sbind wp_smodify wp_sret set_part_def\<close>)
  qed simp
  show ?thesis
    unfolding UploadPart_def if_not_P [OF False] Let_def
  proof (rule wp_kept_step [OF uploads_need refl], goal_cases)
    case (1 u s1)
    show ?case unfolding wp_sbind [of "sget f" for f] wp_sget
    proof (rule wp_kept_step [OF uploads_acquire 1(2)], goal_cases)
      case (1 x s2)
      show ?case
      proof (rule wp_kept_step [OF uploads_parts 1(2)], goal_cases)
        case (1 x s3)
        obtain chunks etag md5 n where x: "x = (chunks, etag, md5, n)" by (cases x)
        show ?case unfolding x prod.case by (rule fin [OF 1(2)])
      qed simp
    qed simp
  qed simp
qed

lemma CompleteMultipartUpload_uploads:
  "wp (CompleteMultipartUpload env b k i requested)
     (\<lambda>_ s'. (\<exists>u parts. find_upload i b k s = Some u \<and> completeParts u requested = Inr parts) \<and>
        multipartUploads s' = drop_upload i (multipartUploads s))
     (\<lambda>_ s'. multipartUploads s' = multipartUploads s) s" (is "wp _ ?Q ?E s")
proof (cases "i = [] \<or> requested = []")
  case True
  then show ?thesis by (simp add: CompleteMultipartUpload_def wp_sfail)
next
  case False
  show ?thesis
    unfolding CompleteMultipartUpload_def if_not_P [OF False]
  proof (rule wp_kept_step [OF uploads_need refl], goal_cases)
    case (1 u s1)
    then have u: "find_upload i b k s = Some u" by (simp add: need_upload_Inr)
    show ?case unfolding wp_sbind [of "slift r" for r] wp_slift
    proof (cases "completeParts u requested", goal_cases)
      case (2 parts)
      have fin: "wp (sbind (cleanupReplacedChunks b k prev) (\<lambda>_.
          sbind (smodify (\<lambda>s. s\<lparr>multipartUploads := drop_upload i (multipartUploads s)\<rparr>)) (\<lambda>_. sret etag))) ?Q ?E s2"
        if "has_uploads (multipartUploads s) s2" for prev s2 and etag :: string
        by (rule wp_kept_step [OF uploads_delete_messages(2) that])
          (use u 2 in \<open>auto simp: wp_sbind wp_smodify wp_sret\<close>)
      have lg: "wp (sbind (logMetadataPutObject b k n etag er) (\<lambda>_. m)) ?Q ?E s3"
        if "has_uploads (multipartUploads s) s3" "\<And>s4. has_uploads (multipartUploads s) s4 \<Longrightarrow> wp m ?Q ?E s4"
        for n etag er m s3
        by (rule wp_kept_step [OF uploads_logs(1) that(1)]) (use that(2) in auto)
      show ?case unfolding 2 sum.case
      proof (rule wp_kept_step [OF uploads_previous 1(2)], goal_cases)
        case (1 prev s2)
        show ?case
        proof (rule wp_kept_step [OF uploads_small(1) 1(2)], goal_cases)
          case (1 now s3)
          show ?case unfolding Let_def case_prod_beta
          proof (rule wp_kept_step [OF keeps_stry [OF uploads_metadata(3)] 1(2)], goal_cases)
            case (1 r s4)
            show ?case
            proof (cases r)
              case (Inl e)
              show ?thesis unfolding Inl sum.case by (rule lg [OF 1(2)]) (simp add: wp_sfail)
            next
              case (Inr x)
              show ?thesis unfolding Inr sum.case by (rule lg [OF 1(2) fin])
            qed
          qed simp
        qed simp
      qed simp
    qed (use 1 in simp)
  qed simp
qed

end
