(* ===== verification/S3Session.thy ===== *)
theory S3Session
  imports S3Props StoreUploads
begin

text \<open>
  Sequences of requests to the S3 API. The abstract server is a map from (bucket, key) to bytes and a map of
  open uploads; \<open>s3_spec\<close> says what a request that is answered so and so does to it, and
  \<open>server_inv\<close> is the invariant of the program's state that every request keeps.
\<close>

subsection \<open>The abstract server\<close>

record s3_abs =
  ab_objects :: "string \<times> string \<rightharpoonup> bytes"
  ab_uploads :: "string \<rightharpoonup> (string \<times> string) \<times> (int \<rightharpoonup> bytes)"

definition upload_abs :: "('w \<Rightarrow> chat_view) \<Rightarrow> 'w ostate \<Rightarrow> multipartUpload \<Rightarrow> (string \<times> string) \<times> (int \<rightharpoonup> bytes)" where
  "upload_abs msgs s u = ((mu_bucket u, mu_key u), \<lambda>n. Option.bind (map_of (mu_parts u) n)
     (\<lambda>p. part_bytes (msgs (world s)) (bucketChatID s (mu_bucket u)) (mp_chunks p)))"

definition abs_state :: "('w \<Rightarrow> chat_view) \<Rightarrow> 'w ostate \<Rightarrow> s3_abs" where
  "abs_state msgs s = \<lparr>ab_objects = object_bytes msgs s,
     ab_uploads = (\<lambda>i. map_option (upload_abs msgs s) (map_of (multipartUploads s) i))\<rparr>"

text \<open>The messages that wait in an open upload.\<close>

definition pending_msgs :: "'w ostate \<Rightarrow> multipartUpload \<Rightarrow> (string \<times> int) set" where
  "pending_msgs s u = (\<Union>p \<in> ran (map_of (mu_parts u)). part_msgs (bucketChatID s (mu_bucket u)) p)"

text \<open>Every part of an open upload holds its bytes; its messages are of no object and of no other upload.\<close>

definition uploads_inv :: "('w \<Rightarrow> chat_view) \<Rightarrow> 'w ostate \<Rightarrow> bool" where
  "uploads_inv msgs s \<longleftrightarrow> (\<forall>i u. map_of (multipartUploads s) i = Some u \<longrightarrow>
     distinct (map fst (mu_parts u)) \<and>
     (\<forall>p \<in> ran (map_of (mu_parts u)). \<exists>bs. part_holds (msgs (world s)) (bucketChatID s (mu_bucket u)) p bs) \<and>
     (\<forall>bk. pending_msgs s u \<inter> chunk_msgs s bk = {}) \<and>
     (\<forall>j v. map_of (multipartUploads s) j = Some v \<longrightarrow> j \<noteq> i \<longrightarrow> pending_msgs s u \<inter> pending_msgs s v = {}))"

definition sized_objects :: "('w \<Rightarrow> chat_view) \<Rightarrow> 'w ostate \<Rightarrow> bool" where
  "sized_objects msgs s \<longleftrightarrow> (\<forall>bk bs. object_bytes msgs s bk = Some bs \<longrightarrow> in_i64 (int (length bs)))"

definition server_inv :: "'w tg_client \<Rightarrow> ('w \<Rightarrow> chat_view) \<Rightarrow> 'w ostate \<Rightarrow> bool" where
  "server_inv c msgs s \<longleftrightarrow> store_inv msgs s \<and> served_by c s \<and> plain_uploads s \<and> uploads_inv msgs s \<and> sized_objects msgs s"

subsection \<open>Open uploads under a step\<close>

lemma part_bytes_live:
  "part_bytes v chat cs = Some bs \<Longrightarrow> ck \<in> set cs \<Longrightarrow> v (chat, mc_telegramMessageID ck) \<noteq> None"
  by (induction cs arbitrary: bs) (auto split: option.splits if_splits)

lemma part_bytes_cong:
  "(\<And>ck. ck \<in> set cs \<Longrightarrow> v' (chat, mc_telegramMessageID ck) = v (chat, mc_telegramMessageID ck)) \<Longrightarrow>
     part_bytes v' chat cs = part_bytes v chat cs"
proof (induction cs)
  case (Cons ck cs)
  then have "part_bytes v' chat cs = part_bytes v chat cs" by simp
  with Cons.prems [of ck] show ?case by (simp split: option.split)
qed simp

lemma pending_live:
  assumes "uploads_inv msgs s" "map_of (multipartUploads s) i = Some u" "m \<in> pending_msgs s u"
  shows "msgs (world s) m \<noteq> None"
proof -
  obtain p where p: "p \<in> ran (map_of (mu_parts u))" "m \<in> part_msgs (bucketChatID s (mu_bucket u)) p"
    using assms(3) by (auto simp: pending_msgs_def)
  with assms(1,2) obtain bs where "part_holds (msgs (world s)) (bucketChatID s (mu_bucket u)) p bs"
    unfolding uploads_inv_def by blast
  with p(2) show ?thesis by (auto simp: part_holds_def part_msgs_def dest: part_bytes_live)
qed

text \<open>A step that leaves their messages alone keeps the open uploads, less those it closes and with new
  ones that are empty.\<close>

lemma uploads_frame:
  assumes inv: "uploads_inv msgs s" and b: "bindings_of s' = bindings_of s"
    and up: "\<And>i u. map_of (multipartUploads s') i = Some u \<Longrightarrow> map_of (multipartUploads s) i = Some u \<or> mu_parts u = []"
    and view: "\<And>i u m. map_of (multipartUploads s') i = Some u \<Longrightarrow> map_of (multipartUploads s) i = Some u \<Longrightarrow>
      m \<in> pending_msgs s u \<Longrightarrow> msgs (world s') m = msgs (world s) m"
    and apart: "\<And>i u bk. map_of (multipartUploads s') i = Some u \<Longrightarrow> map_of (multipartUploads s) i = Some u \<Longrightarrow>
      pending_msgs s u \<inter> chunk_msgs s' bk = {}"
  shows "uploads_inv msgs s'"
    "\<And>i u. map_of (multipartUploads s') i = Some u \<Longrightarrow> upload_abs msgs s' u = upload_abs msgs s u"
proof -
  have chat: "bucketChatID s' = bucketChatID s" using b by (rule bindings_cong(2))
  have pend: "pending_msgs s' u = pending_msgs s u" for u by (simp add: pending_msgs_def chat)
  have none: "pending_msgs s u = {}" if "mu_parts u = []" for u using that by (simp add: pending_msgs_def)
  have bytes: "part_bytes (msgs (world s')) (bucketChatID s (mu_bucket u)) (mp_chunks p) =
      part_bytes (msgs (world s)) (bucketChatID s (mu_bucket u)) (mp_chunks p)"
    if "map_of (multipartUploads s') i = Some u" "p \<in> ran (map_of (mu_parts u))" for i u p
  proof (rule part_bytes_cong)
    fix ck assume "ck \<in> set (mp_chunks p)"
    then have "(bucketChatID s (mu_bucket u), mc_telegramMessageID ck) \<in> pending_msgs s u"
      using that(2) by (auto simp: pending_msgs_def part_msgs_def)
    moreover have "map_of (multipartUploads s) i = Some u" using up [OF that(1)] that(2) by auto
    ultimately show "msgs (world s') (bucketChatID s (mu_bucket u), mc_telegramMessageID ck) =
        msgs (world s) (bucketChatID s (mu_bucket u), mc_telegramMessageID ck)"
      using view [OF that(1)] by blast
  qed
  show "upload_abs msgs s' u = upload_abs msgs s u" if "map_of (multipartUploads s') i = Some u" for i u
  proof -
    have "Option.bind (map_of (mu_parts u) n) (\<lambda>p. part_bytes (msgs (world s')) (bucketChatID s (mu_bucket u)) (mp_chunks p)) =
        Option.bind (map_of (mu_parts u) n) (\<lambda>p. part_bytes (msgs (world s)) (bucketChatID s (mu_bucket u)) (mp_chunks p))" for n
      using bytes [OF that] by (cases "map_of (mu_parts u) n") (auto intro: ranI)
    then show ?thesis by (simp add: upload_abs_def chat)
  qed
  show "uploads_inv msgs s'"
    unfolding uploads_inv_def pend
  proof (intro allI impI, goal_cases)
    case (1 i u)
    from up [OF 1] show ?case
    proof
      assume u: "map_of (multipartUploads s) i = Some u"
      have "\<exists>bs. part_holds (msgs (world s')) (bucketChatID s' (mu_bucket u)) p bs" if "p \<in> ran (map_of (mu_parts u))" for p
        using inv u that bytes [OF 1 that] unfolding uploads_inv_def part_holds_def chat by metis
      moreover have "pending_msgs s u \<inter> pending_msgs s v = {}"
        if "map_of (multipartUploads s') j = Some v" "j \<noteq> i" for j v
        using up [OF that(1)] inv u that(2) none unfolding uploads_inv_def by blast
      moreover have "distinct (map fst (mu_parts u))" using inv u unfolding uploads_inv_def by blast
      ultimately show ?thesis using apart [OF 1 u] by blast
    qed (simp add: none)
  qed
qed

text \<open>A step on the object \<open>bk\<close>.\<close>

lemma uploads_touches:
  assumes inv: "uploads_inv msgs s" and t: "touches msgs s bk s'" and up: "multipartUploads s' = multipartUploads s"
    and new: "\<forall>m \<in> chunk_msgs s' bk. msgs (world s) m = None"
  shows "uploads_inv msgs s' \<and> ab_uploads (abs_state msgs s') = ab_uploads (abs_state msgs s)"
proof -
  have b: "bindings_of s' = bindings_of s" using t by (simp add: touches_def)
  have apart: "pending_msgs s u \<inter> chunk_msgs s bk' = {}" if "map_of (multipartUploads s) i = Some u" for i u bk'
    using inv that unfolding uploads_inv_def by blast
  note frame = uploads_frame [OF inv b, unfolded up]
  have view: "msgs (world s') m = msgs (world s) m"
    if "map_of (multipartUploads s) i = Some u" "m \<in> pending_msgs s u" for i u m
    using t pending_live [OF inv that] apart [OF that(1), of bk] that(2) unfolding touches_def by blast
  have apart': "pending_msgs s u \<inter> chunk_msgs s' bk' = {}" if "map_of (multipartUploads s) i = Some u" for i u bk'
  proof (cases "bk' = bk")
    case True
    then show ?thesis using new pending_live [OF inv that] by blast
  next
    case False
    then show ?thesis using t apart [OF that, of bk'] unfolding touches_def by metis
  qed
  have "uploads_inv msgs s'" by (rule frame(1)) (use view apart' in auto)
  moreover have "upload_abs msgs s' u = upload_abs msgs s u" if "map_of (multipartUploads s) i = Some u" for i u
    by (rule frame(2) [OF _ _ _ that]) (use view apart' in auto)
  ultimately show ?thesis by (auto simp: abs_state_def up fun_eq_iff map_option_case split: option.split)
qed

text \<open>A step that only adds messages, and closes uploads or opens empty ones.\<close>

lemma uploads_grows:
  assumes inv: "uploads_inv msgs s" and g: "grows msgs s s'"
    and up: "\<And>i u. map_of (multipartUploads s') i = Some u \<Longrightarrow> map_of (multipartUploads s) i = Some u \<or> mu_parts u = []"
  shows "uploads_inv msgs s'"
    "\<And>i u. map_of (multipartUploads s') i = Some u \<Longrightarrow> upload_abs msgs s' u = upload_abs msgs s u"
proof -
  have b: "bindings_of s' = bindings_of s" using g by (simp add: grows_def same_def)
  have view: "msgs (world s') m = msgs (world s) m"
    if "map_of (multipartUploads s) i = Some u" "m \<in> pending_msgs s u" for i u m
    using pending_live [OF inv that] g unfolding grows_def map_le_def by (metis domIff)
  have cm: "chunk_msgs s' bk = chunk_msgs s bk" for bk using same_chunk_msgs [of s s'] g by (simp add: grows_def)
  have apart: "pending_msgs s u \<inter> chunk_msgs s' bk = {}" if "map_of (multipartUploads s) i = Some u" for i u bk
    using inv that unfolding uploads_inv_def cm by blast
  show "uploads_inv msgs s'" by (rule uploads_frame(1) [OF inv b up]) (use view apart in auto)
  show "upload_abs msgs s' u = upload_abs msgs s u" if "map_of (multipartUploads s') i = Some u" for i u
    by (rule uploads_frame(2) [OF inv b up _ _ that]) (use view apart in auto)
qed

text \<open>What the rest of the invariant needs.\<close>

lemma server_inv_grows:
  assumes "server_inv c msgs s" "grows msgs s s'" "uploads_inv msgs s'"
  shows "server_inv c msgs s' \<and> ab_objects (abs_state msgs s') = ab_objects (abs_state msgs s)"
proof -
  have b: "bindings_of s' = bindings_of s" using assms(2) by (simp add: grows_def same_def)
  have "object_bytes msgs s' = object_bytes msgs s"
    using store_inv_bytes [of msgs s s'] assms(1,2) by (auto simp: server_inv_def)
  with assms store_inv_grows [of msgs s s'] bindings_served [OF b, of c] bindings_of_eqD [OF b] show ?thesis
    by (simp add: server_inv_def plain_uploads_def abs_state_def sized_objects_def)
qed

lemma server_grows_same:
  assumes "server_inv c msgs s" "grows msgs s s'" "multipartUploads s' = multipartUploads s"
  shows "server_inv c msgs s' \<and> abs_state msgs s' = abs_state msgs s"
proof -
  have inv: "uploads_inv msgs s" using assms(1) by (simp add: server_inv_def)
  note up = uploads_grows [OF inv assms(2), unfolded assms(3)]
  from server_inv_grows [OF assms(1,2) up(1)] up(2) show ?thesis
    by (auto simp: abs_state_def assms(3) fun_eq_iff map_option_case split: option.split)
qed

subsection \<open>The operations\<close>

text \<open>Steps on one object.\<close>

lemma server_touches:
  assumes "server_inv c msgs s" "store_inv msgs s'" "touches msgs s bk s'" "multipartUploads s' = multipartUploads s"
    and "\<forall>m \<in> chunk_msgs s' bk. msgs (world s) m = None" "sized_objects msgs s'"
  shows "server_inv c msgs s' \<and> abs_state msgs s' = (abs_state msgs s)\<lparr>ab_objects := object_bytes msgs s'\<rparr>"
proof -
  have b: "bindings_of s' = bindings_of s" using assms(3) by (simp add: touches_def)
  have "uploads_inv msgs s" using assms(1) by (simp add: server_inv_def)
  from uploads_touches [OF this assms(3-5)] assms(1,2,6) bindings_served [OF b, of c] bindings_of_eqD [OF b] show ?thesis
    by (simp add: server_inv_def plain_uploads_def abs_state_def)
qed

lemma server_put:
  assumes "telegram_chat c msgs" "server_inv c msgs s" "in_i64 (pi_Size input)"
    and "Store_PutObject env input s = (Inr etag, s')"
  shows "server_inv c msgs s' \<and> abs_state msgs s' = (abs_state msgs s)\<lparr>ab_objects := (ab_objects (abs_state msgs s))
      ((pi_Bucket input, pi_Key input) \<mapsto> take (nat (pi_Size input)) (rd_data (body_of input)))\<rparr> \<and>
    (0 < pi_Size input \<longrightarrow> rd_err (body_of input) = None \<and> int (length (rd_data (body_of input))) = pi_Size input)"
proof -
  have inv: "store_inv msgs s" "served_by c s" "plain_uploads s" using assms(2) by (simp_all add: server_inv_def)
  note eff = wp_Inr [OF put_effect [OF assms(1) inv assms(3)] assms(4)]
  have up: "multipartUploads s' = multipartUploads s" using keepsD [OF uploads_PutObject assms(4) refl] .
  from eff have "store_inv msgs s'" "touches msgs s (pi_Bucket input, pi_Key input) s'"
    "\<forall>m \<in> chunk_msgs s' (pi_Bucket input, pi_Key input). msgs (world s) m = None" by blast+
  note server_touches [OF assms(2) this(1,2) up this(3)]
  moreover have "sized_objects msgs s'"
  proof -
    let ?data = "take (nat (pi_Size input)) (rd_data (body_of input))"
    have "int (length ?data) \<le> max 0 (pi_Size input)" by simp
    then have "in_i64 (int (length ?data))"
      using assms(3) by (auto simp: in_i64_def)
    moreover have "object_bytes msgs s' = (object_bytes msgs s)((pi_Bucket input, pi_Key input) \<mapsto> ?data)" using eff by blast
    ultimately show ?thesis using assms(2) by (simp add: server_inv_def sized_objects_def)
  qed
  ultimately show ?thesis using eff by (simp add: abs_state_def)
qed

lemma server_put_fails:
  assumes "telegram_chat c msgs" "server_inv c msgs s" "in_i64 (pi_Size input)"
    and "Store_PutObject env input s = (Inl e, s')"
  shows "server_inv c msgs s' \<and> abs_state msgs s' = abs_state msgs s"
proof -
  have inv: "store_inv msgs s" "served_by c s" "plain_uploads s" using assms(2) by (simp_all add: server_inv_def)
  show ?thesis
    by (rule server_grows_same [OF assms(2) wp_Inl [OF put_effect [OF assms(1) inv assms(3)] assms(4)]
          keepsD [OF uploads_PutObject assms(4) refl]])
qed

lemma server_delete:
  assumes "telegram_chat c msgs" "server_inv c msgs s" "\<And>n. sq_fault env n \<noteq> Some (Sent MetaErrNotFound)"
    and "Store_DeleteObject env b k s = (Inr x, s')"
  shows "server_inv c msgs s' \<and>
    abs_state msgs s' = (abs_state msgs s)\<lparr>ab_objects := (ab_objects (abs_state msgs s))((b, k) := None)\<rparr>"
proof -
  have inv: "store_inv msgs s" "served_by c s" using assms(2) by (simp_all add: server_inv_def)
  note eff = wp_Inr [OF telegram_chat.Store_DeleteObject_effect [OF assms(1) inv assms(3)] assms(4)]
  have up: "multipartUploads s' = multipartUploads s" using keepsD [OF uploads_DeleteObject assms(4) refl] .
  from eff have "store_inv msgs s'" "touches msgs s (b, k) s'" "\<forall>m \<in> chunk_msgs s' (b, k). msgs (world s) m = None" by auto
  moreover have "sized_objects msgs s'" using eff assms(2) by (simp add: server_inv_def sized_objects_def)
  ultimately show ?thesis
    using server_touches [OF assms(2) \<open>store_inv msgs s'\<close> \<open>touches msgs s (b, k) s'\<close> up] eff by (simp add: abs_state_def)
qed

text \<open>Deleting a bucket removes its rows.\<close>

lemma store_inv_restrict:
  assumes inv: "store_inv msgs s" and b: "bindings_of s' = bindings_of s" "world s' = world s" and wf: "tables_wf (tabs s')"
    and con: "contents (tabs s') = (\<lambda>bk. if P bk then None else contents (tabs s) bk)"
  shows "store_inv msgs s'" "object_bytes msgs s' bk = (if P bk then None else object_bytes msgs s bk)"
    "chunk_msgs s' bk = (if P bk then {} else chunk_msgs s bk)"
proof -
  have chat: "bucketChatID s' = bucketChatID s" using b(1) by (rule bindings_cong(2))
  show ob: "object_bytes msgs s' bk = (if P bk then None else object_bytes msgs s bk)" for bk
    by (simp add: object_bytes_def con b(2) chat split: option.split)
  show cm: "chunk_msgs s' bk = (if P bk then {} else chunk_msgs s bk)" for bk
    by (simp add: chunk_msgs_def con chat split: option.split)
  show "store_inv msgs s'"
    unfolding store_inv_def
  proof (intro conjI allI impI wf, goal_cases)
    case (1 bk o' cs)
    then have "contents (tabs s) bk = Some (o', cs)" "\<not> P bk" by (auto simp: con split: if_splits)
    with inv ob show ?case unfolding store_inv_def by metis
  next
    case (2 bk o' cs)
    then have "contents (tabs s) bk = Some (o', cs)" by (auto simp: con split: if_splits)
    with inv show ?case unfolding store_inv_def by blast
  next
    case (3 bk bk')
    with inv show ?case unfolding store_inv_def cm by (metis inf_bot_left inf_bot_right)
  qed
qed

lemma tables_only_DeleteBucket: "tables_only (DeleteBucket env b)"
  unfolding DeleteBucket_def by (intro tables_only_in_tx tables_only_sbind tables_only_exec)

lemma server_delete_bucket:
  assumes "server_inv c msgs s" "Store_DeleteBucket env b s = (Inr x, s')"
  shows "server_inv c msgs s' \<and> abs_state msgs s' =
    (abs_state msgs s)\<lparr>ab_objects := (\<lambda>bk. if fst bk = b then None else ab_objects (abs_state msgs s) bk)\<rparr>"
proof -
  have inv: "store_inv msgs s" and up_inv: "uploads_inv msgs s" using assms(1) by (simp_all add: server_inv_def)
  obtain s1 where q: "quiet s s1" and d: "DeleteBucket env b s1 = (Inr x, s')"
  proof -
    have g: "quiet_act (GetBucket env b)"
      unfolding GetBucket_def by (intro quiet_intro) (auto split: option.split intro!: quiet_intro)
    obtain r s1 where r: "GetBucket env b s = (r, s1)" by fastforce
    with assms(2) have "DeleteBucket env b s1 = (Inr x, s')"
      by (auto simp: Store_DeleteBucket_def sbind_def stry_def sfail_def split: sum.splits if_splits)
    with that quiet_actD [OF g r] show ?thesis by blast
  qed
  have t1: "tabs s1 = tabs s" and b1: "bindings_of s1 = bindings_of s" and w1: "world s1 = world s"
    using q by (simp_all add: quiet_def same_def)
  have b: "bindings_of s' = bindings_of s" and w: "world s' = world s"
    using tables_onlyD [OF tables_only_DeleteBucket d] b1 w1 by simp_all
  have t: "tabs s' = (del_tables (\<lambda>bk. fst bk = b) (tabs s))\<lparr>tb_buckets := filter (\<lambda>r. bk_Name r \<noteq> b) (tb_buckets (tabs s))\<rparr>"
    using wp_Inr [OF DeleteBucket_ok d] t1 by simp
  have wf: "tables_wf (tabs s')"
    using keepsD [OF wf_DeleteBucket d] inv t1 by (simp add: store_inv_def)
  have con: "contents (tabs s') = (\<lambda>bk. if fst bk = b then None else contents (tabs s) bk)"
  proof
    fix bk
    have "contents (t\<lparr>tb_buckets := bs\<rparr>) bk = contents t bk" for t bs by (simp add: contents_def find_object_def sel_chunks_def)
    then show "contents (tabs s') bk = (if fst bk = b then None else contents (tabs s) bk)" unfolding t by (simp add: contents_del)
  qed
  note eff = store_inv_restrict [OF inv b w wf con]
  have up: "multipartUploads s' = multipartUploads s" using keepsD [OF uploads_buckets(2) assms(2) refl] .
  have apart: "pending_msgs s u \<inter> chunk_msgs s' bk = {}" if "map_of (multipartUploads s) i = Some u" for i u bk
  proof -
    have "pending_msgs s u \<inter> chunk_msgs s bk = {}" using up_inv that unfolding uploads_inv_def by blast
    then show ?thesis by (simp add: eff(3))
  qed
  note frame = uploads_frame [OF up_inv b, unfolded up w]
  have "uploads_inv msgs s'" by (rule frame(1)) (use apart in auto)
  moreover have "upload_abs msgs s' u = upload_abs msgs s u" if "map_of (multipartUploads s) i = Some u" for i u
    by (rule frame(2) [OF _ _ _ that]) (use apart in auto)
  ultimately show ?thesis
    using assms(1) eff(1,2) bindings_served [OF b, of c] bindings_of_eqD [OF b]
    by (auto simp: server_inv_def plain_uploads_def abs_state_def sized_objects_def up fun_eq_iff map_option_case
        split: option.split)
qed

text \<open>A part is added to its upload.\<close>

lemma map_of_set_part: "map_of (mu_parts (set_part n p u)) = (map_of (mu_parts u))(n \<mapsto> p)"
proof -
  have "map_of (filter (\<lambda>q. fst q \<noteq> n) xs) = (map_of xs)(n := None)" for xs :: "(int \<times> multipartPart) list"
    by (induction xs) auto
  then show ?thesis by (simp add: set_part_def)
qed

lemma set_part_keeps [simp]: "mu_bucket (set_part n p u) = mu_bucket u" "mu_key (set_part n p u) = mu_key u"
  by (simp_all add: set_part_def)

lemma uploads_add_part:
  fixes n :: int
  assumes inv: "uploads_inv msgs s" and u: "map_of (multipartUploads s) i = Some u"
    and hold: "part_holds (msgs (world s)) (bucketChatID s (mu_bucket u)) p bs"
    and objs: "\<And>bk. part_msgs (bucketChatID s (mu_bucket u)) p \<inter> chunk_msgs s bk = {}"
    and ups: "\<And>j v. map_of (multipartUploads s) j = Some v \<Longrightarrow> part_msgs (bucketChatID s (mu_bucket u)) p \<inter> pending_msgs s v = {}"
  defines "s' \<equiv> s\<lparr>multipartUploads := set_upload i (set_part n p u) (multipartUploads s)\<rparr>"
  shows "uploads_inv msgs s'"
    "upload_abs msgs s' v = upload_abs msgs s v"
    "upload_abs msgs s (set_part n p u) = ((mu_bucket u, mu_key u), (snd (upload_abs msgs s u))(n \<mapsto> bs))"
proof -
  have b: "bindings_of s' = bindings_of s" and w: "world s' = world s" and t: "tabs s' = tabs s" by (simp_all add: s'_def)
  have chat: "bucketChatID s' = bucketChatID s" using b by (rule bindings_cong(2))
  show "upload_abs msgs s' v = upload_abs msgs s v" for v by (simp add: upload_abs_def chat w)
  show "upload_abs msgs s (set_part n p u) = ((mu_bucket u, mu_key u), (snd (upload_abs msgs s u))(n \<mapsto> bs))"
    using hold by (auto simp: upload_abs_def map_of_set_part part_holds_def fun_eq_iff)
  have pend: "pending_msgs s' v = pending_msgs s v" for v by (simp add: pending_msgs_def chat)
  have cm: "chunk_msgs s' bk = chunk_msgs s bk" for bk by (simp add: chunk_msgs_def t chat split: option.split)
  have ran: "ran (map_of (mu_parts (set_part n p u))) \<subseteq> insert p (ran (map_of (mu_parts u)))"
    by (auto simp: map_of_set_part ran_def split: if_splits)
  then have sub: "pending_msgs s (set_part n p u) \<subseteq> part_msgs (bucketChatID s (mu_bucket u)) p \<union> pending_msgs s u"
    by (auto simp: pending_msgs_def)
  have old: "distinct (map fst (mu_parts v))" "\<And>p. p \<in> ran (map_of (mu_parts v)) \<Longrightarrow>
      \<exists>bs. part_holds (msgs (world s)) (bucketChatID s (mu_bucket v)) p bs" "\<And>bk. pending_msgs s v \<inter> chunk_msgs s bk = {}"
    "\<And>l x. map_of (multipartUploads s) l = Some x \<Longrightarrow> l \<noteq> j \<Longrightarrow> pending_msgs s v \<inter> pending_msgs s x = {}"
    if "map_of (multipartUploads s) j = Some v" for j v
    using inv that unfolding uploads_inv_def by blast+
  have up: "map_of (multipartUploads s') = (map_of (multipartUploads s))(i \<mapsto> set_part n p u)"
    by (simp add: s'_def map_of_set_upload)
  show "uploads_inv msgs s'"
    unfolding uploads_inv_def pend cm w chat up
  proof (intro allI impI, goal_cases)
    case (1 j v)
    show ?case
    proof (cases "j = i")
      case True
      with 1 have v: "v = set_part n p u" by simp
      have "distinct (map fst (mu_parts v))" using old(1) [OF u] by (auto simp: v set_part_def distinct_map_filter)
      moreover have "\<exists>bs. part_holds (msgs (world s)) (bucketChatID s (mu_bucket v)) q bs" if "q \<in> ran (map_of (mu_parts v))" for q
        using that ran old(2) [OF u] hold unfolding v by auto
      moreover have "pending_msgs s v \<inter> chunk_msgs s bk = {}" for bk using sub objs old(3) [OF u] unfolding v by blast
      moreover have "pending_msgs s v \<inter> pending_msgs s x = {}"
        if "((map_of (multipartUploads s))(i \<mapsto> set_part n p u)) l = Some x" "l \<noteq> j" for l x
      proof -
        have "map_of (multipartUploads s) l = Some x" "l \<noteq> i" using that True by (simp_all split: if_splits)
        with sub ups old(4) [OF u] show ?thesis unfolding v by blast
      qed
      ultimately show ?thesis by blast
    next
      case False
      with 1 have v: "map_of (multipartUploads s) j = Some v" by simp
      have "pending_msgs s v \<inter> pending_msgs s x = {}"
        if "((map_of (multipartUploads s))(i \<mapsto> set_part n p u)) l = Some x" "l \<noteq> j" for l x
      proof (cases "l = i")
        case True
        with that have "x = set_part n p u" by simp
        with sub ups [OF v] old(4) [OF v u] False show ?thesis by blast
      next
        case False
        with that old(4) [OF v] show ?thesis by simp
      qed
      with old(1-3) [OF v] show ?thesis by blast
    qed
  qed
qed

lemma server_part:
  assumes tc: "telegram_chat c msgs" and inv: "server_inv c msgs s" and run: "UploadPart env input s = (Inr etag, s')"
    and body: "body = (case pt_Body input of Some r \<Rightarrow> r | None \<Rightarrow> \<lparr>rd_data = [], rd_err = None\<rparr>)"
  shows "server_inv c msgs s' \<and> (\<exists>ps. ab_uploads (abs_state msgs s) (pt_UploadID input) =
        Some ((pt_Bucket input, pt_Key input), ps) \<and>
      abs_state msgs s' = (abs_state msgs s)\<lparr>ab_uploads := (ab_uploads (abs_state msgs s))
        (pt_UploadID input \<mapsto> ((pt_Bucket input, pt_Key input), ps(pt_PartNumber input \<mapsto> rd_data body)))\<rparr>) \<and>
    rd_err body = None \<and> int (length (rd_data body)) = pt_Size input"
proof -
  let ?i = "pt_UploadID input" and ?n = "pt_PartNumber input"
  have sinv: "store_inv msgs s" "served_by c s" "uploads_inv msgs s" using inv by (simp_all add: server_inv_def)
  note eff = wp_Inr [OF telegram_chat.UploadPart_effect [OF tc sinv(2) body] run]
  from wp_Inr [OF UploadPart_uploads run] obtain u q where
    fu: "find_upload ?i (pt_Bucket input) (pt_Key input) s = Some u"
    and up: "multipartUploads s' = set_upload ?i (set_part ?n q u) (multipartUploads s)" by blast
  from fu have u: "map_of (multipartUploads s) ?i = Some u" "mu_bucket u = pt_Bucket input" "mu_key u = pt_Key input"
    by (auto simp: find_upload_def split: option.splits if_splits)
  from eff obtain u' p where p: "find_upload ?i (pt_Bucket input) (pt_Key input) s' = Some u'" "map_of (mu_parts u') ?n = Some p"
    "part_holds (msgs (world s')) (bucketChatID s (pt_Bucket input)) p (rd_data body)"
    "\<forall>m \<in> part_msgs (bucketChatID s (pt_Bucket input)) p. msgs (world s) m = None" by blast
  have "u' = set_part ?n q u" using p(1) by (simp add: find_upload_def up map_of_set_upload u)
  with p(2) have q: "q = p" by (simp add: map_of_set_part)
  define s0 where "s0 = s'\<lparr>multipartUploads := multipartUploads s\<rparr>"
  have g: "grows msgs s s'" using eff by blast
  then have g0: "grows msgs s s0" by (simp add: s0_def grows_def same_def)
  have s0: "server_inv c msgs s0" "abs_state msgs s0 = abs_state msgs s"
    using server_grows_same [OF inv g0] by (simp_all add: s0_def)
  have s': "s' = s0\<lparr>multipartUploads := set_upload ?i (set_part ?n p u) (multipartUploads s0)\<rparr>"
    using up by (simp add: s0_def q)
  have chat: "bucketChatID s0 = bucketChatID s" using g0 same_binding(2) [of s s0] by (simp add: grows_def)
  have pend: "pending_msgs s0 v = pending_msgs s v" for v by (simp add: pending_msgs_def chat)
  have cm: "chunk_msgs s0 bk = chunk_msgs s bk" for bk using same_chunk_msgs [of s s0] g0 by (simp add: grows_def)
  have fresh: "part_msgs (bucketChatID s0 (mu_bucket u)) p \<inter> chunk_msgs s0 bk = {}" for bk
    using p(4) chunk_msgs_live [OF sinv(1)] by (fastforce simp: chat u(2) cm)
  have apart: "part_msgs (bucketChatID s0 (mu_bucket u)) p \<inter> pending_msgs s0 v = {}"
    if "map_of (multipartUploads s0) j = Some v" for j v
  proof -
    have "map_of (multipartUploads s) j = Some v" using that by (simp add: s0_def)
    with p(4) pending_live [OF sinv(3)] show ?thesis by (fastforce simp: chat u(2) pend)
  qed
  have u0: "map_of (multipartUploads s0) ?i = Some u" by (simp add: s0_def u(1))
  have ui0: "uploads_inv msgs s0" using s0(1) by (simp add: server_inv_def)
  have hold: "part_holds (msgs (world s0)) (bucketChatID s0 (mu_bucket u)) p (rd_data body)"
    using p(3) by (simp add: chat u(2)) (simp add: s0_def)
  note add = uploads_add_part [OF ui0 u0 hold fresh apart, where n = "?n", folded s']
  have "server_inv c msgs s'"
    using server_inv_grows [OF inv g add(1)] by simp
  moreover have "ab_objects (abs_state msgs s') = ab_objects (abs_state msgs s)" using server_inv_grows [OF inv g add(1)] by simp
  moreover have "ab_uploads (abs_state msgs s) = (\<lambda>j. map_option (upload_abs msgs s0) (map_of (multipartUploads s) j))"
    using s0(2) by (simp add: abs_state_def s0_def)
  moreover have head: "upload_abs msgs s0 u = ((pt_Bucket input, pt_Key input), snd (upload_abs msgs s0 u))"
    by (simp add: upload_abs_def u)
  moreover have ab: "upload_abs msgs s' v = upload_abs msgs s0 v" for v
    by (rule uploads_add_part(2) [OF ui0 u0 hold fresh, where n = "?n", folded s']) (rule apart)
  moreover have "upload_abs msgs s' (set_part ?n p u) =
      ((pt_Bucket input, pt_Key input), (snd (upload_abs msgs s0 u))(?n \<mapsto> rd_data body))"
    unfolding ab using uploads_add_part(3) [OF ui0 u0 hold fresh apart, where n = "?n"] u(2,3) by simp
  moreover have "rd_err body = None \<and> int (length (rd_data body)) = pt_Size input" using eff by blast
  ultimately show ?thesis
    using u(1)
    by (auto simp: abs_state_def up map_of_set_upload fun_eq_iff q map_option_case split: option.splits
        intro!: exI [of _ "snd (upload_abs msgs s0 u)"])
qed

text \<open>The sizes of the parts of an upload add up within 64 bits.\<close>

definition sized_uploads :: "'w ostate \<Rightarrow> bool" where
  "sized_uploads s \<longleftrightarrow> (\<forall>i u. map_of (multipartUploads s) i = Some u \<longrightarrow>
     in_i64 (sum_list (map (mp_size \<circ> snd) (mu_parts u))))"

lemma selected_sizes:
  assumes d: "distinct (map fst ps)" and pos: "\<forall>p \<in> ran (map_of ps). 0 \<le> mp_size p"
    and sel: "list_all2 (\<lambda>n p. map_of ps n = Some p) ns parts" "distinct ns"
  shows "sum_list (map mp_size parts) \<le> sum_list (map (mp_size \<circ> snd) ps)"
proof -
  let ?f = "\<lambda>n. mp_size (the (map_of ps n))"
  have "map mp_size parts = map ?f ns" using sel(1) by (induction rule: list_all2_induct) simp_all
  then have "sum_list (map mp_size parts) = sum ?f (set ns)" using sel(2) by (simp add: sum_list_distinct_conv_sum_set)
  also have "\<dots> \<le> sum ?f (set (map fst ps))"
  proof (rule sum_mono2)
    have "\<forall>n \<in> set ns. map_of ps n \<noteq> None" using sel(1) by (induction rule: list_all2_induct) auto
    then show "set ns \<subseteq> set (map fst ps)" by (force simp: map_of_eq_None_iff)
    show "0 \<le> ?f n" if "n \<in> set (map fst ps) - set ns" for n
    proof -
      have "map_of ps n \<noteq> None" using that by (simp add: map_of_eq_None_iff)
      then obtain p where "map_of ps n = Some p" by blast
      with pos show ?thesis by (auto intro: ranI)
    qed
  qed simp
  also have "\<dots> = sum_list (map ?f (map fst ps))" using d by (simp only: sum_list_distinct_conv_sum_set)
  also have "map ?f (map fst ps) = map (mp_size \<circ> snd) ps" using d by (auto simp: map_of_is_SomeI)
  finally show ?thesis .
qed

text \<open>The parts that a completion names are parts of the upload: what they hold, and what the completion does.\<close>

lemma complete_wp:
  assumes tc: "telegram_chat c msgs" and inv: "server_inv c msgs s" and sized: "sized_uploads s"
    and fu: "find_upload i b k s = Some u" and parts: "completeParts u requested = Inr parts"
  obtains datas where "in_i64 (int (length (concat datas)))" "sorted_wrt (<) (0 # map cp_PartNumber requested)"
    "\<And>p. p \<in> set parts \<Longrightarrow> part_msgs (bucketChatID s b) p \<subseteq> pending_msgs s u"
    "list_all2 (\<lambda>r d. snd (upload_abs msgs s u) (cp_PartNumber r) = Some d) requested datas"
    "\<And>etag s'. CompleteMultipartUpload env b k i requested s = (Inr etag, s') \<Longrightarrow>
       store_inv msgs s' \<and> served_by c s' \<and> object_bytes msgs s' = (object_bytes msgs s)((b, k) \<mapsto> concat datas) \<and>
       touches msgs s (b, k) s' \<and> chunk_msgs s' (b, k) = (\<Union>p \<in> set parts. part_msgs (bucketChatID s b) p)"
    "\<And>e s'. CompleteMultipartUpload env b k i requested s = (Inl e, s') \<Longrightarrow> quiet s s'"
proof -
  have sinv: "store_inv msgs s" "served_by c s" "uploads_inv msgs s" using inv by (simp_all add: server_inv_def)
  from fu have u: "map_of (multipartUploads s) i = Some u" "mu_bucket u = b" "mu_key u = k"
    by (auto simp: find_upload_def split: option.splits if_splits)
  from parts have sorted: "sorted_wrt (<) (0 # map cp_PartNumber requested)"
    and sel: "list_all2 (\<lambda>r p. map_of (mu_parts u) (cp_PartNumber r) = Some p \<and> etagMatches (mp_etag p) (cp_ETag r)) requested parts"
    unfolding completeParts_def completePartsLoop_Inr by auto
  have old: "distinct (map fst (mu_parts u))" "\<And>p. p \<in> ran (map_of (mu_parts u)) \<Longrightarrow>
      \<exists>bs. part_holds (msgs (world s)) (bucketChatID s b) p bs" "\<And>bk. pending_msgs s u \<inter> chunk_msgs s bk = {}"
    using sinv(3) u unfolding uploads_inv_def by blast+
  have mem: "\<forall>p \<in> set parts. p \<in> ran (map_of (mu_parts u))"
    using sel by (induction rule: list_all2_induct) (auto intro: ranI)
  define pbytes where "pbytes = (\<lambda>p :: multipartPart. the (part_bytes (msgs (world s)) (bucketChatID s b) (mp_chunks p)))"
  have holds: "part_holds (msgs (world s)) (bucketChatID s b) p (pbytes p)" if "p \<in> ran (map_of (mu_parts u))" for p
    using old(2) [OF that] by (auto simp: part_holds_def pbytes_def)
  define datas where "datas = map pbytes parts"
  have hold: "list_all2 (part_holds (msgs (world s)) (bucketChatID s b)) parts datas"
    unfolding datas_def using mem holds by (simp add: list_all2_map2 list_all2_same)
  have sub: "part_msgs (bucketChatID s b) p \<subseteq> pending_msgs s u" if "p \<in> set parts" for p
    using that mem u(2) by (auto simp: pending_msgs_def)
  have len: "in_i64 (int (length (concat datas)))"
  proof -
    have "sum_list (map mp_size parts) \<le> sum_list (map (mp_size \<circ> snd) (mu_parts u))"
    proof (rule selected_sizes [OF old(1)])
      show "\<forall>p \<in> ran (map_of (mu_parts u)). 0 \<le> mp_size p" using holds by (auto simp: part_holds_def)
      show "list_all2 (\<lambda>n p. map_of (mu_parts u) n = Some p) (map cp_PartNumber requested) parts"
        using sel by (auto simp: list_all2_map1 elim: list_all2_mono)
      show "distinct (map cp_PartNumber requested)"
        using sorted by (simp add: strict_sorted_iff)
    qed
    moreover have "in_i64 (sum_list (map (mp_size \<circ> snd) (mu_parts u)))"
      using sized u(1) unfolding sized_uploads_def by blast
    ultimately show ?thesis
      using part_sizes [OF hold] by (auto intro: in_i64_between [OF in_i64_0])
  qed
  have new: "part_msgs (bucketChatID s b) p \<inter> chunk_msgs s bk' = {}" if "p \<in> set parts" for p bk'
    using sub [OF that] old(3) by blast
  note eff = telegram_chat.CompleteMultipartUpload_effect [OF tc sinv(1,2) fu parts hold len new]
  have inr: "store_inv msgs s' \<and> served_by c s' \<and> object_bytes msgs s' = (object_bytes msgs s)((b, k) \<mapsto> concat datas) \<and>
       touches msgs s (b, k) s' \<and> chunk_msgs s' (b, k) = (\<Union>p \<in> set parts. part_msgs (bucketChatID s b) p)"
    if "CompleteMultipartUpload env b k i requested s = (Inr etag, s')" for etag s'
    using wp_Inr [OF eff that] by simp
  have inl: "quiet s s'" if "CompleteMultipartUpload env b k i requested s = (Inl e, s')" for e s'
    using wp_Inl [OF eff that] by simp
  have "list_all2 (\<lambda>r d. snd (upload_abs msgs s u) (cp_PartNumber r) = Some d) requested datas"
    using sel unfolding datas_def list_all2_map2
  proof (rule list_all2_mono)
    fix r p assume "map_of (mu_parts u) (cp_PartNumber r) = Some p \<and> etagMatches (mp_etag p) (cp_ETag r)"
    then show "snd (upload_abs msgs s u) (cp_PartNumber r) = Some (pbytes p)"
      using holds [OF ranI, of "cp_PartNumber r" p] by (simp add: upload_abs_def u(2) part_holds_def)
  qed
  from that [OF len sorted _ this] show thesis using sub inr inl by presburger
qed

lemma server_complete:
  assumes tc: "telegram_chat c msgs" and inv: "server_inv c msgs s" and sized: "sized_uploads s"
    and run: "CompleteMultipartUpload env b k i requested s = (Inr etag, s')"
  shows "server_inv c msgs s' \<and> (\<exists>ps datas. ab_uploads (abs_state msgs s) i = Some ((b, k), ps) \<and>
      sorted_wrt (<) (0 # map cp_PartNumber requested) \<and>
      list_all2 (\<lambda>r d. ps (cp_PartNumber r) = Some d) requested datas \<and>
      abs_state msgs s' = \<lparr>ab_objects = (ab_objects (abs_state msgs s))((b, k) \<mapsto> concat datas),
        ab_uploads = (ab_uploads (abs_state msgs s))(i := None)\<rparr>)"
proof -
  have sinv: "uploads_inv msgs s" using inv by (simp add: server_inv_def)
  from wp_Inr [OF CompleteMultipartUpload_uploads run] obtain u parts where
    fu: "find_upload i b k s = Some u" and parts: "completeParts u requested = Inr parts"
    and up: "multipartUploads s' = drop_upload i (multipartUploads s)" by blast
  from fu have u: "map_of (multipartUploads s) i = Some u" "mu_bucket u = b" "mu_key u = k"
    by (auto simp: find_upload_def split: option.splits if_splits)
  obtain datas where len: "in_i64 (int (length (concat datas)))" and sorted: "sorted_wrt (<) (0 # map cp_PartNumber requested)"
    and sub: "\<And>p. p \<in> set parts \<Longrightarrow> part_msgs (bucketChatID s b) p \<subseteq> pending_msgs s u"
    and sel: "list_all2 (\<lambda>r d. snd (upload_abs msgs s u) (cp_PartNumber r) = Some d) requested datas"
    and eff: "store_inv msgs s' \<and> served_by c s' \<and> object_bytes msgs s' = (object_bytes msgs s)((b, k) \<mapsto> concat datas) \<and>
         touches msgs s (b, k) s' \<and> chunk_msgs s' (b, k) = (\<Union>p \<in> set parts. part_msgs (bucketChatID s b) p)"
    using complete_wp [OF tc inv sized fu parts, of env] run by metis
  have t: "touches msgs s (b, k) s'" using eff by simp
  then have b: "bindings_of s' = bindings_of s" by (simp add: touches_def)
  have mo: "map_of (multipartUploads s') = (map_of (multipartUploads s))(i := None)" by (simp add: up map_of_drop_upload)
  have cm: "chunk_msgs s' bk = (if bk = (b, k) then (\<Union>p \<in> set parts. part_msgs (bucketChatID s b) p) else chunk_msgs s bk)" for bk
  proof (cases "bk = (b, k)")
    case False
    with t show ?thesis unfolding touches_def by metis
  qed (use eff in simp)
  have apart: "pending_msgs s v \<inter> chunk_msgs s' bk = {}"
    if "map_of (multipartUploads s') j = Some v" for j v bk
  proof -
    have v: "map_of (multipartUploads s) j = Some v" "j \<noteq> i" using that by (simp_all add: mo split: if_splits)
    then have "pending_msgs s v \<inter> chunk_msgs s bk = {}" using sinv unfolding uploads_inv_def by blast
    moreover have "pending_msgs s v \<inter> (\<Union>p \<in> set parts. part_msgs (bucketChatID s b) p) = {}"
      using sub sinv u(1) v unfolding uploads_inv_def by blast
    ultimately show ?thesis by (simp add: cm)
  qed
  have view: "msgs (world s') m = msgs (world s) m"
    if "map_of (multipartUploads s) j = Some v" "m \<in> pending_msgs s v" for j v m
  proof -
    have "m \<notin> chunk_msgs s (b, k)" using sinv that unfolding uploads_inv_def by blast
    with t pending_live [OF sinv that] show ?thesis unfolding touches_def by blast
  qed
  note frame = uploads_frame [OF sinv b, unfolded mo]
  have ui: "uploads_inv msgs s'" by (rule uploads_frame(1) [OF sinv b]) (use view apart mo in \<open>auto split: if_splits\<close>)
  have ua: "upload_abs msgs s' v = upload_abs msgs s v" if "map_of (multipartUploads s') j = Some v" for j v
    by (rule uploads_frame(2) [OF sinv b _ _ _ that]) (use view apart mo in \<open>auto split: if_splits\<close>)
  have ua': "upload_abs msgs s' v = upload_abs msgs s v" if "map_of (multipartUploads s) j = Some v" "j \<noteq> i" for j v
    by (rule ua [of j]) (use that in \<open>simp add: mo\<close>)
  have "server_inv c msgs s'"
    using inv eff ui len bindings_served [OF b, of c] bindings_of_eqD [OF b]
    by (simp add: server_inv_def plain_uploads_def sized_objects_def)
  moreover have "abs_state msgs s' = \<lparr>ab_objects = (ab_objects (abs_state msgs s))((b, k) \<mapsto> concat datas),
        ab_uploads = (ab_uploads (abs_state msgs s))(i := None)\<rparr>"
    using eff ua' by (auto simp: abs_state_def mo fun_eq_iff map_option_case split: option.split)
  moreover have "ab_uploads (abs_state msgs s) i = Some ((b, k), snd (upload_abs msgs s u))"
    by (simp add: abs_state_def u) (simp add: upload_abs_def u)
  ultimately show ?thesis using sorted sel by blast
qed

text \<open>A step of the store that changes no object and no upload.\<close>

definition idle :: "'w tg_client \<Rightarrow> ('w \<Rightarrow> chat_view) \<Rightarrow> 'w ostate \<Rightarrow> 'w ostate \<Rightarrow> bool" where
  "idle c msgs s s' \<longleftrightarrow> server_inv c msgs s' \<and> abs_state msgs s' = abs_state msgs s"

lemma idle_grows:
  "server_inv c msgs s \<Longrightarrow> grows msgs s s' \<Longrightarrow> multipartUploads s' = multipartUploads s \<Longrightarrow> idle c msgs s s'"
  unfolding idle_def by (rule server_grows_same)

lemma idle_still: "server_inv c msgs s \<Longrightarrow> still s s' \<Longrightarrow> idle c msgs s s'"
  by (rule idle_grows) (auto simp: still_def intro: quiet_grows)

lemma idle_act:
  "server_inv c msgs s \<Longrightarrow> quiet_act m \<Longrightarrow> keeps (has_uploads (multipartUploads s)) m \<Longrightarrow> m s = (r, s') \<Longrightarrow> idle c msgs s s'"
  by (rule idle_still) (assumption, rule stillD)

lemma server_fails:
  assumes tc: "telegram_chat c msgs" and inv: "server_inv c msgs s" and sized: "sized_uploads s"
  shows "UploadPart env input s = (Inl e, s') \<Longrightarrow> idle c msgs s s'"
    "CreateMultipartUpload env b k ct s = (Inl e, s') \<Longrightarrow> idle c msgs s s'"
    "AbortMultipartUpload b k i s = (Inl e, s') \<Longrightarrow> idle c msgs s s'"
    "CompleteMultipartUpload env b k i requested s = (Inl e, s') \<Longrightarrow> idle c msgs s s'"
    "Store_DeleteBucket env b s = (Inl e, s') \<Longrightarrow> idle c msgs s s'"
proof -
  have srv: "served_by c s" using inv by (simp add: server_inv_def)
  show "idle c msgs s s'" if "UploadPart env input s = (Inl e, s')"
    by (rule idle_grows [OF inv wp_Inl [OF telegram_chat.UploadPart_effect [OF tc srv refl] that] wp_Inl [OF UploadPart_uploads that]])
  show "idle c msgs s s'" if "CreateMultipartUpload env b k ct s = (Inl e, s')"
    by (rule idle_still [OF inv wp_Inl [OF CreateMultipartUpload_uploads that]])
  show "idle c msgs s s'" if "AbortMultipartUpload b k i s = (Inl e, s')"
    by (rule idle_still [OF inv wp_Inl [OF AbortMultipartUpload_uploads that]])
  show "idle c msgs s s'" if run: "CompleteMultipartUpload env b k i requested s = (Inl e, s')"
  proof (cases "find_upload i b k s")
    case None
    then have "s' = s"
      using run by (auto simp: CompleteMultipartUpload_def need_upload_def sfail_def sget_def sbind_def split: if_splits)
    then show ?thesis using inv by (simp add: idle_def)
  next
    case (Some u)
    have up: "multipartUploads s' = multipartUploads s" using wp_Inl [OF CompleteMultipartUpload_uploads run] .
    have "quiet s s'"
    proof (cases "completeParts u requested")
      case (Inl e')
      with run Some have "s' = s"
        by (auto simp: CompleteMultipartUpload_def need_upload_def sfail_def sget_def sret_def slift_def sbind_def split: if_splits)
      then show ?thesis by simp
    next
      case (Inr parts)
      then show ?thesis using complete_wp [OF tc inv sized Some] run by blast
    qed
    then show ?thesis using idle_still [OF inv] up by (simp add: still_def)
  qed
  show "idle c msgs s s'" if run: "Store_DeleteBucket env b s = (Inl e, s')"
  proof -
    have g: "quiet_act (GetBucket env b)"
      unfolding GetBucket_def by (intro quiet_intro) (auto split: option.split intro!: quiet_intro)
    obtain r s1 where r: "GetBucket env b s = (r, s1)" by fastforce
    then have q: "quiet s s1" by (rule quiet_actD [OF g])
    from run r have "s' = s1 \<or> DeleteBucket env b s1 = (Inl e, s')"
      by (auto simp: Store_DeleteBucket_def sbind_def stry_def sfail_def split: sum.splits if_splits)
    then have "quiet s1 s'"
      using failed_unchanged(4) [of env b s1 e s'] tables_onlyD [OF tables_only_DeleteBucket, of env b s1 "Inl e" s']
      by (auto simp: quiet_def same_def)
    with q have "quiet s s'" by (rule quiet_trans)
    moreover have "multipartUploads s' = multipartUploads s" using keepsD [OF uploads_buckets(2) run refl] .
    ultimately show ?thesis using idle_still [OF inv] by (simp add: still_def)
  qed
qed

text \<open>Opening and giving up an upload.\<close>

definition opens_upload :: "string \<Rightarrow> string \<Rightarrow> string \<Rightarrow> s3_abs \<Rightarrow> s3_abs \<Rightarrow> bool" where
  "opens_upload b k i a a' \<longleftrightarrow> ab_objects a' = ab_objects a \<and>
     (let m = (ab_uploads a)(i \<mapsto> ((b, k), Map.empty)) in
      ab_uploads a' = m \<or> (\<exists>old. ab_uploads a' = m(old := None)))"

lemma server_uploads:
  assumes inv: "server_inv c msgs s" and q: "quiet s s'"
    and up: "\<forall>i u. map_of (multipartUploads s') i = Some u \<longrightarrow> map_of (multipartUploads s) i = Some u \<or> mu_parts u = []"
  shows "server_inv c msgs s'" "ab_objects (abs_state msgs s') = ab_objects (abs_state msgs s)"
    "ab_uploads (abs_state msgs s') = (\<lambda>i. map_option (upload_abs msgs s) (map_of (multipartUploads s') i))"
proof -
  have ui: "uploads_inv msgs s" using inv by (simp add: server_inv_def)
  note g = uploads_grows [OF ui quiet_grows [OF q] up [rule_format]]
  show "server_inv c msgs s'" "ab_objects (abs_state msgs s') = ab_objects (abs_state msgs s)"
    using server_inv_grows [OF inv quiet_grows [OF q] g(1)] by simp_all
  show "ab_uploads (abs_state msgs s') = (\<lambda>i. map_option (upload_abs msgs s) (map_of (multipartUploads s') i))"
    using g(2) by (auto simp: abs_state_def fun_eq_iff map_option_case split: option.split)
qed

lemma server_create:
  assumes inv: "server_inv c msgs s" and run: "CreateMultipartUpload env b k ct s = (Inr i, s')"
  shows "server_inv c msgs s' \<and> opens_upload b k i (abs_state msgs s) (abs_state msgs s')"
proof -
  from wp_Inr [OF CreateMultipartUpload_uploads run] obtain now where q: "quiet s s'"
    and up: "multipartUploads s' = set_upload i (new_upload b k ct now) (multipartUploads s) \<or>
      (\<exists>old. multipartUploads s' = drop_upload old (set_upload i (new_upload b k ct now) (multipartUploads s)))"
    unfolding Let_def by blast
  have new: "upload_abs msgs s (new_upload b k ct now) = ((b, k), Map.empty)" "mu_parts (new_upload b k ct now) = []"
    by (simp_all add: upload_abs_def new_upload_def)
  have eq: "(\<lambda>j. map_option (upload_abs msgs s) (((map_of (multipartUploads s))(i \<mapsto> new_upload b k ct now)) j)) =
      (ab_uploads (abs_state msgs s))(i \<mapsto> ((b, k), Map.empty))"
    by (auto simp: abs_state_def new)
  have only: "\<forall>j u. map_of (multipartUploads s') j = Some u \<longrightarrow> map_of (multipartUploads s) j = Some u \<or> mu_parts u = []"
    using up new(2) by (auto simp: map_of_set_upload map_of_drop_upload split: if_splits)
  note srv = server_uploads [OF inv q only]
  from up show ?thesis
  proof (elim disjE exE)
    assume "multipartUploads s' = set_upload i (new_upload b k ct now) (multipartUploads s)"
    then show ?thesis using srv eq by (simp add: opens_upload_def map_of_set_upload)
  next
    fix old assume "multipartUploads s' = drop_upload old (set_upload i (new_upload b k ct now) (multipartUploads s))"
    then have "ab_uploads (abs_state msgs s') = ((ab_uploads (abs_state msgs s))(i \<mapsto> ((b, k), Map.empty)))(old := None)"
      unfolding eq [symmetric] srv(3) by (auto simp: map_of_set_upload map_of_drop_upload)
    then show ?thesis using srv unfolding opens_upload_def Let_def by blast
  qed
qed

lemma server_abort:
  assumes inv: "server_inv c msgs s" and run: "AbortMultipartUpload b k i s = (Inr x, s')"
  shows "server_inv c msgs s' \<and> (\<exists>ps. ab_uploads (abs_state msgs s) i = Some ((b, k), ps)) \<and>
    abs_state msgs s' = (abs_state msgs s)\<lparr>ab_uploads := (ab_uploads (abs_state msgs s))(i := None)\<rparr>"
proof -
  note eff = wp_Inr [OF AbortMultipartUpload_uploads run]
  then obtain u where u: "map_of (multipartUploads s) i = Some u" "mu_bucket u = b" "mu_key u = k"
    by (auto simp: find_upload_def split: option.splits if_splits)
  have "\<forall>j v. map_of (multipartUploads s') j = Some v \<longrightarrow> map_of (multipartUploads s) j = Some v \<or> mu_parts v = []"
    using eff by (auto simp: map_of_drop_upload split: if_splits)
  from server_uploads [OF inv _ this] eff u show ?thesis
    by (auto simp: abs_state_def upload_abs_def map_of_drop_upload)
qed

subsection \<open>What a request does to the abstract server\<close>

definition object_path :: "Request \<Rightarrow> string \<Rightarrow> string \<Rightarrow> bool" where
  "object_path r b k \<longleftrightarrow> splitPath (rq_URL r) = (b, k, True) \<and> k \<noteq> []"

definition request_body :: "Request \<Rightarrow> reader" where
  "request_body r = (case rq_Body r of Some b \<Rightarrow> b | None \<Rightarrow> \<lparr>rd_data = [], rd_err = None\<rparr>)"

definition upload_id :: "Request \<Rightarrow> string" where
  "upload_id r = query_Get (Query (rq_URL r)) ''uploadId''"

text \<open>The request \<open>r\<close>, answered with \<open>resp\<close>, takes the abstract server from \<open>a\<close> to the last argument.
  An error changes nothing; a success is one of the operations.\<close>

inductive s3_spec :: "s3_env \<Rightarrow> Request \<Rightarrow> Response \<Rightarrow> s3_abs \<Rightarrow> s3_abs \<Rightarrow> bool"
  for se :: s3_env and r :: Request and resp :: Response and a :: s3_abs where
  refused: "400 \<le> rp_Status resp \<Longrightarrow> s3_spec se r resp a a"
| reading: "rq_Method r \<notin> {''PUT'', ''POST'', ''DELETE'', ''GET''} \<Longrightarrow> s3_spec se r resp a a"
| get_other: "rq_Method r = ''GET'' \<Longrightarrow> \<nexists>b k. object_path r b k \<Longrightarrow> s3_spec se r resp a a"
| get_page: "rq_Method r = ''GET'' \<Longrightarrow> u_Path (rq_URL r) \<in> {''/'', ''/healthz'', ''/readyz''} \<Longrightarrow> s3_spec se r resp a a"
| get: "rp_Status resp < 400 \<Longrightarrow> rq_Method r = ''GET'' \<Longrightarrow> object_path r b k \<Longrightarrow> ab_objects a (b, k) = Some bs \<Longrightarrow>
    (rp_Cut resp = None \<Longrightarrow> rp_Body resp = byte_slice (range_wanted r bs) bs) \<Longrightarrow> s3_spec se r resp a a"
| make_bucket: "rq_Method r = ''PUT'' \<Longrightarrow> splitPath (rq_URL r) = (b, [], True) \<Longrightarrow> s3_spec se r resp a a"
| delete_bucket: "rp_Status resp < 400 \<Longrightarrow> rq_Method r = ''DELETE'' \<Longrightarrow> splitPath (rq_URL r) = (b, [], True) \<Longrightarrow>
    s3_spec se r resp a (a\<lparr>ab_objects := (\<lambda>bk. if fst bk = b then None else ab_objects a bk)\<rparr>)"
| put: "rp_Status resp < 400 \<Longrightarrow> rq_Method r = ''PUT'' \<Longrightarrow> object_path r b k \<Longrightarrow> upload_id r = [] \<Longrightarrow> get_header r ''X-Amz-Copy-Source'' = [] \<Longrightarrow>
    (0 < rq_ContentLength r \<Longrightarrow> rd_err (request_body r) = None \<and>
       int (length (rd_data (request_body r))) = rq_ContentLength r) \<Longrightarrow>
    s3_spec se r resp a (a\<lparr>ab_objects := (ab_objects a)
      ((b, k) \<mapsto> take (nat (rq_ContentLength r)) (rd_data (request_body r)))\<rparr>)"
| copy: "rp_Status resp < 400 \<Longrightarrow> rq_Method r = ''PUT'' \<Longrightarrow> object_path r b k \<Longrightarrow> upload_id r = [] \<Longrightarrow>
    parseCopySource (get_header r ''X-Amz-Copy-Source'') = Inr (sb, sk) \<Longrightarrow> ab_objects a (sb, sk) = Some bs \<Longrightarrow>
    s3_spec se r resp a (a\<lparr>ab_objects := (ab_objects a)((b, k) \<mapsto> bs)\<rparr>)"
| delete: "rp_Status resp < 400 \<Longrightarrow> rq_Method r = ''DELETE'' \<Longrightarrow> object_path r b k \<Longrightarrow> upload_id r = [] \<Longrightarrow>
    s3_spec se r resp a (a\<lparr>ab_objects := (ab_objects a)((b, k) := None)\<rparr>)"
| create: "rp_Status resp < 400 \<Longrightarrow> rq_Method r = ''POST'' \<Longrightarrow> object_path r b k \<Longrightarrow> opens_upload b k i a a' \<Longrightarrow>
    rp_Body resp = xml_Header @ xml_text (InitiateMultipartUploadResult b k i) \<Longrightarrow> s3_spec se r resp a a'"
| part: "rp_Status resp < 400 \<Longrightarrow> rq_Method r = ''PUT'' \<Longrightarrow> object_path r b k \<Longrightarrow>
    ParseInt (query_Get (Query (rq_URL r)) ''partNumber'') = Some n \<Longrightarrow>
    ab_uploads a (upload_id r) = Some ((b, k), ps) \<Longrightarrow> rd_err (request_body r) = None \<Longrightarrow>
    int (length (rd_data (request_body r))) = rq_ContentLength r \<Longrightarrow>
    s3_spec se r resp a (a\<lparr>ab_uploads := (ab_uploads a)
      (upload_id r \<mapsto> ((b, k), ps(n \<mapsto> rd_data (request_body r))))\<rparr>)"
| complete: "rp_Status resp < 400 \<Longrightarrow> rq_Method r = ''POST'' \<Longrightarrow> object_path r b k \<Longrightarrow> s3_Decode se (request_body r) = Inr requested \<Longrightarrow>
    ab_uploads a (upload_id r) = Some ((b, k), ps) \<Longrightarrow> sorted_wrt (<) (0 # map cp_PartNumber requested) \<Longrightarrow>
    list_all2 (\<lambda>q d. ps (cp_PartNumber q) = Some d) requested datas \<Longrightarrow>
    s3_spec se r resp a \<lparr>ab_objects = (ab_objects a)((b, k) \<mapsto> concat datas),
      ab_uploads = (ab_uploads a)(upload_id r := None)\<rparr>"
| abort: "rp_Status resp < 400 \<Longrightarrow> rq_Method r = ''DELETE'' \<Longrightarrow> object_path r b k \<Longrightarrow> ab_uploads a (upload_id r) = Some ((b, k), ps) \<Longrightarrow>
    s3_spec se r resp a (a\<lparr>ab_uploads := (ab_uploads a)(upload_id r := None)\<rparr>)"

definition serves :: "'w tg_client \<Rightarrow> ('w \<Rightarrow> chat_view) \<Rightarrow> s3_env \<Rightarrow> Request \<Rightarrow> Response \<Rightarrow> 'w ostate \<Rightarrow> 'w ostate \<Rightarrow> bool" where
  "serves c msgs se r resp s s' \<longleftrightarrow> server_inv c msgs s' \<and> s3_spec se r resp (abs_state msgs s) (abs_state msgs s')"

lemma serves_idle: "idle c msgs s s' \<Longrightarrow> s3_spec se r resp (abs_state msgs s) (abs_state msgs s) \<Longrightarrow> serves c msgs se r resp s s'"
  by (simp add: serves_def idle_def)

lemma serves_refused: "idle c msgs s s' \<Longrightarrow> 400 \<le> rp_Status resp \<Longrightarrow> serves c msgs se r resp s s'"
  by (simp add: serves_idle refused)

lemma idle_refl: "server_inv c msgs s \<Longrightarrow> idle c msgs s s"
  by (simp add: idle_def)

lemma serves_on_store:
  assumes run: "on_store m (fail_mapped r h) good s = (resp, s')"
    and bad: "\<And>e. m s = (Inl e, s') \<Longrightarrow> idle c msgs s s'"
    and good: "\<And>x. m s = (Inr x, s') \<Longrightarrow> resp = good x \<Longrightarrow> serves c msgs se r resp s s'"
  shows "serves c msgs se r resp s s'"
proof (cases "fst (m s)")
  case (Inl e)
  with run have m: "m s = (Inl e, s')" and "resp = fail_mapped r h e" by (auto simp: on_store_def split: prod.splits)
  moreover have "400 \<le> rp_Status (fail_mapped r h e)" using fail_mapped_status [of r h e] unfolding not_less .
  ultimately have "400 \<le> rp_Status resp" by simp
  with bad [OF m] show ?thesis by (rule serves_refused)
next
  case (Inr x)
  with run good show ?thesis by (auto simp: on_store_def split: prod.splits)
qed

subsection \<open>The handlers\<close>

lemma serves_create:
  assumes tc: "telegram_chat c msgs" and inv: "server_inv c msgs s" "sized_uploads s"
    and r: "rq_Method r = ''POST''" "object_path r b k" and run: "h_createMultipartUpload env r b k h s = (resp, s')"
  shows "serves c msgs se r resp s s'"
  using run unfolding h_createMultipartUpload_def
proof (rule serves_on_store)
  fix i assume m: "CreateMultipartUpload env b k (get_header r ''Content-Type'') s = (Inr i, s')"
    and resp: "resp = writeXML h 200 (InitiateMultipartUploadResult b k i)"
  from resp have "rp_Body resp = xml_Header @ xml_text (InitiateMultipartUploadResult b k i)" "rp_Status resp < 400"
    by (simp_all add: writeXML_def respond_def)
  with server_create [OF inv(1) m] r show "serves c msgs se r resp s s'"
    unfolding serves_def by (blast intro: create)
qed (rule server_fails(2) [OF tc inv])

lemma serves_part:
  assumes tc: "telegram_chat c msgs" and inv: "server_inv c msgs s" "sized_uploads s"
    and r: "rq_Method r = ''PUT''" "object_path r b k" and run: "h_uploadPart env r b k h s = (resp, s')"
  shows "serves c msgs se r resp s s'"
proof -
  let ?pn = "ParseInt (query_Get (Query (rq_URL r)) ''partNumber'')"
  have bad: "400 \<le> rp_Status (fail_with r h S3InvalidArgument)" "400 \<le> rp_Status (fail_with r h S3MissingContentLength)"
    by (simp_all add: fail_with_status S3_statuses)
  consider "s' = s" "400 \<le> rp_Status resp"
    | n where "?pn = Some n" "on_store (UploadPart env \<lparr>pt_Bucket = b, pt_Key = k, pt_UploadID = upload_id r, pt_PartNumber = n,
        pt_Size = rq_ContentLength r, pt_Body = rq_Body r\<rparr>) (fail_mapped r h)
        (\<lambda>etag. respond 200 (header_Set ''ETag'' (quoted etag) h) []) s = (resp, s')"
    using run bad by (auto simp: h_uploadPart_def Let_def upload_id_def split: option.splits if_splits)
  then show ?thesis
  proof cases
    case 1
    then show ?thesis using serves_refused [OF idle_refl [OF inv(1)]] by simp
  next
    case 2
    show ?thesis
    proof (rule serves_on_store [OF 2(2) server_fails(1) [OF tc inv]])
      fix etag assume m: "UploadPart env \<lparr>pt_Bucket = b, pt_Key = k, pt_UploadID = upload_id r, pt_PartNumber = n,
        pt_Size = rq_ContentLength r, pt_Body = rq_Body r\<rparr> s = (Inr etag, s')"
        and "resp = respond 200 (header_Set ''ETag'' (quoted etag) h) []"
      then have st: "rp_Status resp < 400" by (simp add: respond_def)
      have "request_body r = (case rq_Body r of Some r \<Rightarrow> r | None \<Rightarrow> \<lparr>rd_data = [], rd_err = None\<rparr>)"
        by (simp add: request_body_def)
      from server_part [OF tc inv(1) m, simplified, OF this] 2(1) r st show "serves c msgs se r resp s s'"
        unfolding serves_def by (auto intro: part)
    qed
  qed
qed

lemma serves_complete:
  assumes tc: "telegram_chat c msgs" and inv: "server_inv c msgs s" "sized_uploads s"
    and r: "rq_Method r = ''POST''" "object_path r b k" and run: "h_completeMultipartUpload se env r b k h s = (resp, s')"
  shows "serves c msgs se r resp s s'"
proof -
  have bad: "400 \<le> rp_Status (fail_with r h S3InvalidArgument)" by (simp add: fail_with_status S3_statuses)
  consider "s' = s" "400 \<le> rp_Status resp"
    | parts where "s3_Decode se (request_body r) = Inr parts"
      "on_store (CompleteMultipartUpload env b k (upload_id r) parts) (fail_mapped r h)
        (\<lambda>etag. writeXML h 200 (CompleteMultipartUploadResult b k (quoted etag))) s = (resp, s')"
    using run bad
    by (auto simp: h_completeMultipartUpload_def Let_def upload_id_def request_body_def split: option.splits if_splits sum.splits)
  then show ?thesis
  proof cases
    case 1
    then show ?thesis using serves_refused [OF idle_refl [OF inv(1)]] by simp
  next
    case 2
    show ?thesis
    proof (rule serves_on_store [OF 2(2) server_fails(4) [OF tc inv]])
      fix etag assume m: "CompleteMultipartUpload env b k (upload_id r) parts s = (Inr etag, s')"
        and "resp = writeXML h 200 (CompleteMultipartUploadResult b k (quoted etag))"
      then have st: "rp_Status resp < 400" by (simp add: writeXML_def respond_def)
      from server_complete [OF tc inv m] 2(1) r st show "serves c msgs se r resp s s'"
        unfolding serves_def by (metis complete)
    qed
  qed
qed

lemma serves_abort:
  assumes tc: "telegram_chat c msgs" and inv: "server_inv c msgs s" "sized_uploads s"
    and r: "rq_Method r = ''DELETE''" "object_path r b k" and run: "h_abortMultipartUpload r b k h s = (resp, s')"
  shows "serves c msgs se r resp s s'"
proof -
  have bad: "400 \<le> rp_Status (fail_with r h S3InvalidArgument)" by (simp add: fail_with_status S3_statuses)
  consider "s' = s" "400 \<le> rp_Status resp"
    | "on_store (AbortMultipartUpload b k (upload_id r)) (fail_mapped r h) (\<lambda>_. respond 204 h []) s = (resp, s')"
    using run bad by (auto simp: h_abortMultipartUpload_def Let_def upload_id_def split: if_splits)
  then show ?thesis
  proof cases
    case 1
    then show ?thesis using serves_refused [OF idle_refl [OF inv(1)]] by simp
  next
    case 2
    show ?thesis
    proof (rule serves_on_store [OF 2 server_fails(3) [OF tc inv]])
      fix x assume m: "AbortMultipartUpload b k (upload_id r) s = (Inr x, s')" and "resp = respond 204 h []"
      then have st: "rp_Status resp < 400" by (simp add: respond_def)
      from server_abort [OF inv(1) m] r st show "serves c msgs se r resp s s'"
        unfolding serves_def by (metis abort)
    qed
  qed
qed

lemma serves_put:
  assumes tc: "telegram_chat c msgs" and inv: "server_inv c msgs s" and cl: "in_i64 (rq_ContentLength r)"
    and r: "rq_Method r = ''PUT''" "object_path r b k" "upload_id r = []" "get_header r ''X-Amz-Copy-Source'' = []"
    and run: "h_putObject env r b k h s = (resp, s')"
  shows "serves c msgs se r resp s s'"
proof (cases "rq_ContentLength r < 0")
  case True
  then show ?thesis
    using run serves_refused [OF idle_refl [OF inv]] by (auto simp: h_putObject_def fail_with_status S3_statuses)
next
  case False
  with run have "on_store (Store_PutObject env (put_input r b k)) (fail_mapped r h)
      (\<lambda>etag. respond 200 (header_Set ''ETag'' (quoted etag) h) []) s = (resp, s')"
    by (simp add: h_putObject_def put_input_def)
  then show ?thesis
  proof (rule serves_on_store)
    have sz: "in_i64 (pi_Size (put_input r b k))" using cl by (simp add: put_input_def)
    have body: "body_of (put_input r b k) = request_body r" by (simp add: body_of_def put_input_def request_body_def)
    show "idle c msgs s s'" if "Store_PutObject env (put_input r b k) s = (Inl e, s')" for e
      unfolding idle_def by (rule server_put_fails [OF tc inv sz that])
    fix etag assume m: "Store_PutObject env (put_input r b k) s = (Inr etag, s')"
      and "resp = respond 200 (header_Set ''ETag'' (quoted etag) h) []"
    then have st: "rp_Status resp < 400" by (simp add: respond_def)
    from server_put [OF tc inv sz m, unfolded body] put [where se = se, OF st r] show "serves c msgs se r resp s s'"
      unfolding serves_def by (simp add: put_input_def)
  qed
qed


lemma requested_range_in:
  assumes "store_inv msgs s" "sized_objects msgs s" "requested_range env r b k s = (Inr rng, s1)"
  shows "quiet s s1" "object_bytes msgs s (b, k) = Some bs \<Longrightarrow> range_ok rng bs \<and> in_i64 (int (length bs)) \<and> rng = range_wanted r bs"
proof -
  show q: "quiet s s1"
    using assms(3) by (rule quiet_actD [rotated]) (auto simp: requested_range_def intro!: quiet_intro)
  assume bytes: "object_bytes msgs s (b, k) = Some bs"
  have sz: "in_i64 (int (length bs))" using assms(2) bytes by (simp add: sized_objects_def)
  show "range_ok rng bs \<and> in_i64 (int (length bs)) \<and> rng = range_wanted r bs"
  proof (cases "get_header r ''Range'' = []")
    case True
    with assms(3) sz show ?thesis by (auto simp: requested_range_def range_wanted_def sret_def range_ok_def)
  next
    case False
    with assms(3) obtain info s2 br where hd: "Store_HeadObject env b k s = (Inr info, s2)"
      and pr: "ParseRange (get_header r ''Range'') (oi_Size info) = Inr br" and br: "rng = Some br"
      by (auto simp: requested_range_def sbind_def sret_def slift_def split: prod.splits sum.splits)
    from HeadObject_size [OF assms(1) hd bytes] have "oi_Size info = int (length bs)" by simp
    with pr br False ParseRange_within [OF pr] sz show ?thesis
      by (auto simp: range_wanted_def range_ok_def)
  qed
qed

lemma serves_get:
  assumes tc: "telegram_chat c msgs" and inv: "server_inv c msgs s"
    and r: "rq_Method r = ''GET''" "object_path r b k" and run: "h_getObject env r b k h s = (resp, s')"
  shows "serves c msgs se r resp s s'"
  using run unfolding h_getObject_def
proof (rule serves_on_store)
  let ?m = "sbind (requested_range env r b k) (\<lambda>rng. sbind (Store_GetObject env b k rng) (\<lambda>out. sret (rng, out)))"
  have sinv: "store_inv msgs s" "sized_objects msgs s" "served_by c s" using inv by (simp_all add: server_inv_def)
  have keep: "keeps (has_uploads mu) ?m" for mu
    unfolding requested_range_def by (auto intro!: uploads_intro)
  have rr: "quiet_act (requested_range env r b k)" by (auto simp: requested_range_def intro!: quiet_intro)
  have got: "wp (Store_GetObject env b k rng)
      (\<lambda>((data, err), info) s'. same s1 s' \<and> msgs (world s') = msgs (world s1) \<and>
        (\<exists>bs. object_bytes msgs s (b, k) = Some bs \<and> oi_Size info = int (length bs) \<and>
          (err = None \<longrightarrow> data = byte_slice (range_wanted r bs) bs)))
      (\<lambda>e s'. quiet s1 s') s1"
    if q: "requested_range env r b k s = (Inr rng, s1)" for rng s1
  proof -
    note in1 = requested_range_in [OF sinv(1,2) q]
    have s1: "store_inv msgs s1" "served_by c s1" "object_bytes msgs s1 = object_bytes msgs s"
      using sinv in1(1) quiet_keeps [of s s1] by auto
    show ?thesis
      by (rule wp_mono [OF telegram_chat.Store_GetObject_effect [OF tc s1(1,2)]]) (use in1(2) s1(3) in auto)
  qed
  show "idle c msgs s s'" if m: "?m s = (Inl e, s')" for e
  proof -
    have "quiet s s'"
    proof (cases "fst (requested_range env r b k s)")
      case (Inl e')
      with m quiet_actD [OF rr] show ?thesis by (auto simp: sbind_def split: prod.splits)
    next
      case (Inr rng)
      then obtain s1 where q: "requested_range env r b k s = (Inr rng, s1)" by (metis prod.collapse)
      with m have "Store_GetObject env b k rng s1 = (Inl e, s')" by (auto simp: sbind_def sret_def split: prod.splits sum.splits)
      from wp_Inl [OF got [OF q] this] quiet_actD [OF rr q] show ?thesis by (blast intro: quiet_trans)
    qed
    with keepsD [OF keep m refl] show ?thesis by (intro idle_still [OF inv]) (simp add: still_def)
  qed
  fix x assume m: "?m s = (Inr x, s')" and resp: "resp = (case x of (rng, out) \<Rightarrow> get_response h rng out)"
  obtain rng data err info s1 where q: "requested_range env r b k s = (Inr rng, s1)" and x: "x = (rng, (data, err), info)"
    and g: "Store_GetObject env b k rng s1 = (Inr ((data, err), info), s')"
    using m by (auto simp: sbind_def sret_def split: prod.splits sum.splits)
  from wp_Inr [OF got [OF q] g] obtain bs where eff: "same s1 s'" "msgs (world s') = msgs (world s1)"
    "object_bytes msgs s (b, k) = Some bs" "err = None \<Longrightarrow> data = byte_slice (range_wanted r bs) bs" by auto
  have "grows msgs s1 s'" using eff(1,2) by (simp add: grows_def)
  then have "idle c msgs s s'"
    using quiet_grows_trans [OF quiet_actD [OF rr q]] keepsD [OF keep m refl] by (intro idle_grows [OF inv])
  moreover have "s3_spec se r resp (abs_state msgs s) (abs_state msgs s)"
  proof (rule get [where bs = bs, OF _ r])
    show "rp_Status resp < 400" by (simp add: resp x get_response_def Let_def split: option.split)
    show "ab_objects (abs_state msgs s) (b, k) = Some bs" using eff(3) by (simp add: abs_state_def)
    show "rp_Cut resp = None \<Longrightarrow> rp_Body resp = byte_slice (range_wanted r bs) bs"
      using eff(4) by (auto simp: resp x get_response_def Let_def)
  qed
  ultimately show "serves c msgs se r resp s s'" by (rule serves_idle)
qed

text \<open>A copy between buckets that differ in chat or token sends the bytes anew.\<close>

definition same_place :: "'w ostate \<Rightarrow> string \<Rightarrow> string \<Rightarrow> bool" where
  "same_place s sb b \<longleftrightarrow> (\<exists>x y. bucketBinding s sb = Inr x \<and> bucketBinding s b = Inr y \<and>
     bb_TokenKey x = bb_TokenKey y \<and> bb_ChatID x = bb_ChatID y)"

lemma copy_reuploads:
  assumes run: "Store_CopyObject env sb sk b k s = (r, s')" and apart: "\<not> same_place s sb b"
  shows "(\<exists>e. r = Inl e) \<and> still s s' \<or> (\<exists>s1. still s s1 \<and> copyObjectReupload env sb sk b k s1 = (r, s'))"
proof -
  have head: "still s0 s1" if "HeadBucket n s0 = (r0, s1)" for n r0 and s0 s1 :: "'a ostate"
    by (rule stillD [OF quiet_HeadBucket _ that]) (intro uploads_intro)
  obtain r1 s1 where h1: "HeadBucket sb s = (r1, s1)" by fastforce
  obtain r2 s2 where h2: "HeadBucket b s1 = (r2, s2)" by fastforce
  have st: "still s s1" "still s s2" using head [OF h1] head [OF h2] by (auto intro: still_trans)
  then have "bindings_of s2 = bindings_of s" by (simp add: still_def quiet_def same_def)
  then have bind: "bucketBinding s2 = bucketBinding s" by (rule bindings_cong(1))
  from run h1 h2 st bind apart show ?thesis
    by (auto simp: Store_CopyObject_def sbind_def bucketBindingM_def same_place_def split: sum.splits if_splits)
qed

lemma uploads_Reupload: "keeps (has_uploads mu) (copyObjectReupload env sb sk b k)"
  unfolding copyObjectReupload_def by (auto intro!: uploads_intro split: prod.split)

lemma reupload_effect:
  assumes tc: "telegram_chat c msgs" and inv: "server_inv c msgs s" and run: "copyObjectReupload env sb sk b k s = (r, s')"
  shows "case r of Inl e \<Rightarrow> idle c msgs s s'
    | Inr x \<Rightarrow> server_inv c msgs s' \<and> (\<exists>bs. ab_objects (abs_state msgs s) (sb, sk) = Some bs \<and>
        abs_state msgs s' = (abs_state msgs s)\<lparr>ab_objects := (ab_objects (abs_state msgs s))((b, k) \<mapsto> bs)\<rparr>)"
proof -
  have sinv: "store_inv msgs s" "served_by c s" "sized_objects msgs s" using inv by (simp_all add: server_inv_def)
  have get: "wp (Store_GetObject env sb sk None)
      (\<lambda>((data, err), info) s'. same s s' \<and> msgs (world s') = msgs (world s) \<and>
        (\<exists>bs. object_bytes msgs s (sb, sk) = Some bs \<and> oi_Size info = int (length bs) \<and>
          (err = None \<longrightarrow> data = byte_slice None bs))) (\<lambda>e s'. quiet s s') s"
    using sinv(3) by (intro telegram_chat.Store_GetObject_effect [OF tc sinv(1,2)]) (auto simp: range_ok_def sized_objects_def)
  note up = keepsD [OF uploads_GetObject _ refl]
  show ?thesis
  proof (cases "fst (Store_GetObject env sb sk None s)")
    case (Inl e)
    then obtain s1 where g: "Store_GetObject env sb sk None s = (Inl e, s1)" by (metis prod.collapse)
    with run have "r = Inl e" "s' = s1" by (auto simp: copyObjectReupload_def sbind_def)
    with idle_still [OF inv] wp_Inl [OF get g] up [OF g] show ?thesis by (simp add: still_def)
  next
    case (Inr out)
    obtain data err info where out: "out = ((data, err), info)" by (metis prod.collapse)
    with Inr obtain s1 where g: "Store_GetObject env sb sk None s = (Inr ((data, err), info), s1)" by (metis prod.collapse)
    let ?input = "\<lparr>pi_Bucket = b, pi_Key = k, pi_ContentType = oi_ContentType info, pi_Size = oi_Size info,
      pi_Body = Some \<lparr>rd_data = data, rd_err = err\<rparr>\<rparr>"
    from wp_Inr [OF get g] obtain bs where eff: "grows msgs s s1" "object_bytes msgs s (sb, sk) = Some bs"
      "oi_Size info = int (length bs)" "err = None \<longrightarrow> data = bs"
      by (auto simp: grows_def byte_slice_def)
    have idle: "idle c msgs s s1" by (rule idle_grows [OF inv eff(1) up [OF g]])
    then have inv1: "server_inv c msgs s1" and abs1: "abs_state msgs s1 = abs_state msgs s" by (simp_all add: idle_def)
    have sz: "in_i64 (pi_Size ?input)" using sinv(3) eff(2,3) by (simp add: sized_objects_def)
    show ?thesis
    proof (cases "fst (Store_PutObject env ?input s1)")
      case (Inl e)
      then obtain s2 where p: "Store_PutObject env ?input s1 = (Inl e, s2)" by (metis prod.collapse)
      with run g have "r = Inl e" "s' = s2" by (auto simp: copyObjectReupload_def sbind_def)
      with server_put_fails [OF tc inv1 sz p] abs1 show ?thesis by (simp add: idle_def)
    next
      case (Inr etag)
      then obtain s2 where p: "Store_PutObject env ?input s1 = (Inr etag, s2)" by (metis prod.collapse)
      from run g p obtain now where s': "clock_now env s2 = (Inr now, s')" and r: "r = Inr (etag, now)"
        by (auto simp: copyObjectReupload_def sbind_def sret_def clock_now_def time_Now_def)
      have put: "server_inv c msgs s2" "abs_state msgs s2 = (abs_state msgs s)
          \<lparr>ab_objects := (ab_objects (abs_state msgs s))((b, k) \<mapsto> bs)\<rparr>"
        using server_put [OF tc inv1 sz p] eff(3,4) abs1 by (cases "bs = []"; simp add: body_of_def)+
      have "idle c msgs s2 s'"
        by (rule idle_act [OF put(1) quiet_clock _ s']) (intro uploads_intro)
      with put r eff(2) show ?thesis by (simp add: idle_def abs_state_def)
    qed
  qed
qed

lemma serves_copy:
  assumes tc: "telegram_chat c msgs" and inv: "server_inv c msgs s"
    and r: "rq_Method r = ''PUT''" "object_path r b k" "upload_id r = []"
    and apart: "\<And>sb sk. parseCopySource (get_header r ''X-Amz-Copy-Source'') = Inr (sb, sk) \<Longrightarrow> \<not> same_place s sb b"
    and run: "h_copyObject env r b k h s = (resp, s')"
  shows "serves c msgs se r resp s s'"
proof (cases "parseCopySource (get_header r ''X-Amz-Copy-Source'')")
  case (Inl e)
  with run show ?thesis
    using serves_refused [OF idle_refl [OF inv]] by (auto simp: h_copyObject_def fail_with_status S3_statuses)
next
  case (Inr src)
  obtain sb sk where src: "src = (sb, sk)" by (cases src)
  note parsed = Inr [unfolded src]
  have cases: "(\<exists>e. x = Inl e) \<and> idle c msgs s s' \<or> (\<exists>y s1. x = Inr y \<and> idle c msgs s s1 \<and> copyObjectReupload env sb sk b k s1 = (x, s'))"
    if "Store_CopyObject env sb sk b k s = (x, s')" for x
  proof -
    from copy_reuploads [OF that apart [OF parsed]] show ?thesis
    proof
      assume "(\<exists>e. x = Inl e) \<and> still s s'"
      then show ?thesis using idle_still [OF inv] by blast
    next
      assume "\<exists>s1. still s s1 \<and> copyObjectReupload env sb sk b k s1 = (x, s')"
      then obtain s1 where s1: "still s s1" "copyObjectReupload env sb sk b k s1 = (x, s')" by blast
      have i1: "idle c msgs s s1" by (rule idle_still [OF inv s1(1)])
      then have "server_inv c msgs s1" by (simp add: idle_def)
      from reupload_effect [OF tc this s1(2)] i1 s1(2) show ?thesis by (cases x) (auto simp: idle_def)
    qed
  qed
  from run have "on_store (Store_CopyObject env sb sk b k) (fail_mapped r h)
      (\<lambda>(etag, lastModified). writeXML h 200 (CopyObjectResult (quoted etag) (format_RFC3339 lastModified))) s = (resp, s')"
    by (simp add: h_copyObject_def parsed)
  then show ?thesis
  proof (rule serves_on_store)
    show "idle c msgs s s'" if "Store_CopyObject env sb sk b k s = (Inl e, s')" for e using cases [OF that] by blast
    fix x assume m: "Store_CopyObject env sb sk b k s = (Inr x, s')"
      and "resp = (case x of (etag, lastModified) \<Rightarrow> writeXML h 200 (CopyObjectResult (quoted etag) (format_RFC3339 lastModified)))"
    then have st: "rp_Status resp < 400" by (simp add: writeXML_def respond_def split: prod.split)
    from cases [OF m] obtain s1 where s1: "idle c msgs s s1" "copyObjectReupload env sb sk b k s1 = (Inr x, s')" by blast
    then have "server_inv c msgs s1" by (simp add: idle_def)
    from reupload_effect [OF tc this s1(2)] s1(1) copy [OF st r parsed] show "serves c msgs se r resp s s'"
      by (auto simp: serves_def idle_def)
  qed
qed

text \<open>What is asked of a request that is answered with \<open>resp\<close> in state \<open>s1\<close>: its length is a 64-bit integer; it is no copy
  between buckets of one chat and token; and a deletion that fails has deleted no message.\<close>

definition plain_request :: "('w \<Rightarrow> chat_view) \<Rightarrow> Request \<Rightarrow> 'w ostate \<Rightarrow> Response \<Rightarrow> 'w ostate \<Rightarrow> bool" where
  "plain_request msgs r s resp s1 \<longleftrightarrow> in_i64 (rq_ContentLength r) \<and>
     (\<forall>b k sb sk. rq_Method r = ''PUT'' \<longrightarrow> object_path r b k \<longrightarrow>
        parseCopySource (get_header r ''X-Amz-Copy-Source'') = Inr (sb, sk) \<longrightarrow> \<not> same_place s sb b) \<and>
     (rq_Method r = ''DELETE'' \<longrightarrow> 400 \<le> rp_Status resp \<longrightarrow> msgs (world s1) = msgs (world s))"

text \<open>No query of the metadata fails with the store's own \<^verbatim>\<open>metadata.ErrNotFound\<close>.\<close>

definition no_fake_misses :: "oenv \<Rightarrow> bool" where
  "no_fake_misses env \<longleftrightarrow> (\<forall>n. sq_fault env n \<noteq> Some (Sent MetaErrNotFound))"

lemma serves_delete:
  assumes tc: "telegram_chat c msgs" and inv: "server_inv c msgs s" and env: "no_fake_misses env"
    and r: "rq_Method r = ''DELETE''" "object_path r b k" "upload_id r = []"
    and kept: "400 \<le> rp_Status resp \<Longrightarrow> msgs (world s') = msgs (world s)"
    and run: "on_store (Store_DeleteObject env b k) (fail_mapped r h) (\<lambda>_. respond 204 h []) s = (resp, s')"
  shows "serves c msgs se r resp s s'"
proof (rule serves_on_store [OF run])
  have fault: "sq_fault env n \<noteq> Some (Sent MetaErrNotFound)" for n using env by (simp add: no_fake_misses_def)
  show "serves c msgs se r resp s s'" if "Store_DeleteObject env b k s = (Inr x, s')" "resp = respond 204 h []" for x
    using server_delete [OF tc inv fault that(1)] delete [OF _ r, of resp] that(2) by (simp add: serves_def respond_def)
  fix e assume m: "Store_DeleteObject env b k s = (Inl e, s')"
  then have "resp = fail_mapped r h e" using run by (simp add: on_store_def)
  then have "msgs (world s') = msgs (world s)" using kept fail_mapped_status [of r h e] unfolding not_less by simp
  moreover have "store_inv msgs s" "served_by c s" using inv by (simp_all add: server_inv_def)
  note wp_Inl [OF telegram_chat.Store_DeleteObject_effect [OF tc this fault] m]
  ultimately have "grows msgs s s'" by (simp add: grows_def)
  then show "idle c msgs s s'" by (rule idle_grows [OF inv _ keepsD [OF uploads_DeleteObject m refl]])
qed

lemma serves_object:
  assumes tc: "telegram_chat c msgs" and inv: "server_inv c msgs s" "sized_uploads s" and env: "no_fake_misses env"
    and r: "plain_request msgs r s resp s'" "object_path r b k"
    and run: "handleObject se env r b k h s = (resp, s')"
  shows "serves c msgs se r resp s s'"
proof -
  have other: "serves c msgs se r resp s s'" if "(http_NotFound h, s) = (resp, s')"
    using that serves_refused [OF idle_refl [OF inv(1)]] by (auto simp: http_NotFound_def http_Error_def respond_def)
  consider "rq_Method r = ''POST''" | "rq_Method r = ''PUT''" | "rq_Method r = ''GET''" | "rq_Method r = ''HEAD''"
    | "rq_Method r = ''DELETE''" | "rq_Method r \<notin> {''POST'', ''PUT'', ''GET'', ''HEAD'', ''DELETE''}" by blast
  then show ?thesis
  proof cases
    case 1
    with run other serves_create [OF tc inv 1 r(2)] serves_complete [OF tc inv 1 r(2)] show ?thesis
      by (auto simp: handleObject_def Let_def split: if_splits)
  next
    case 2
    have "in_i64 (rq_ContentLength r)"
      "\<And>sb sk. parseCopySource (get_header r ''X-Amz-Copy-Source'') = Inr (sb, sk) \<Longrightarrow> \<not> same_place s sb b"
      using r 2 unfolding plain_request_def by blast+
    with run 2 serves_part [OF tc inv 2 r(2)] serves_put [OF tc inv(1) _ 2 r(2)] serves_copy [OF tc inv(1) 2 r(2)] show ?thesis
      by (auto simp: handleObject_def Let_def upload_id_def split: if_splits)
  next
    case 3
    with run serves_get [OF tc inv(1) 3 r(2)] show ?thesis by (auto simp: handleObject_def Let_def)
  next
    case 4
    with run have m: "on_store (Store_HeadObject env b k) (fail_mapped r h)
        (\<lambda>info. respond 200 (header_Set ''Content-Length'' (Itoa (oi_Size info)) (writeObjectHeaders info h)) []) s = (resp, s')"
      by (simp add: handleObject_def Let_def h_headObject_def)
    note idle = idle_act [OF inv(1) quiet_Store_HeadObject uploads_HeadObject]
    show ?thesis by (rule serves_on_store [OF m idle]) (auto intro!: serves_idle [OF idle] reading simp: 4)
  next
    case 5
    then have "400 \<le> rp_Status resp \<Longrightarrow> msgs (world s') = msgs (world s)" using r(1) by (simp add: plain_request_def)
    with run 5 serves_abort [OF tc inv 5 r(2)] serves_delete [OF tc inv(1) env 5 r(2)] show ?thesis
      by (auto simp: handleObject_def Let_def upload_id_def split: if_splits)
  next
    case 6
    with run other show ?thesis by (simp add: handleObject_def Let_def)
  qed
qed


lemma serves_read_only:
  assumes inv: "server_inv c msgs s" and m: "quiet_act m" "\<And>mu. keeps (has_uploads mu) m"
    and spec: "s3_spec se r resp (abs_state msgs s) (abs_state msgs s)"
    and run: "on_store m (fail_mapped r h) good s = (resp, s')"
  shows "serves c msgs se r resp s s'"
proof -
  note idle = idle_act [OF inv m(1) m(2)]
  show ?thesis by (rule serves_on_store [OF run idle]) (assumption, rule serves_idle [OF idle spec])
qed

lemma quiet_Store_ListBuckets: "quiet_act (Store_ListBuckets env)"
  unfolding Store_ListBuckets_def ListBuckets_def by (intro quiet_intro)

lemma serves_bucket:
  assumes tc: "telegram_chat c msgs" and inv: "server_inv c msgs s" "sized_uploads s"
    and path: "splitPath (rq_URL r) = (b, [], True)" and run: "handleBucket env r b h s = (resp, s')"
  shows "serves c msgs se r resp s s'"
proof -
  have noobj: "\<nexists>b k. object_path r b k" using path by (simp add: object_path_def)
  have bad: "serves c msgs se r resp s s'" if "s' = s" "400 \<le> rp_Status resp"
    using that serves_refused [OF idle_refl [OF inv(1)]] by simp
  consider "rq_Method r = ''PUT'' \<or> rq_Method r = ''HEAD''" | "rq_Method r = ''GET''" | "rq_Method r = ''DELETE''"
    | "rq_Method r \<notin> {''PUT'', ''HEAD'', ''GET'', ''DELETE''}" by blast
  then show ?thesis
  proof cases
    case 1
    with path have "s3_spec se r resp (abs_state msgs s) (abs_state msgs s)" by (auto intro: make_bucket reading)
    from 1 run show ?thesis
      by (auto simp: handleBucket_def intro!: uploads_intro serves_read_only [OF inv(1) quiet_HeadBucket _ \<open>s3_spec _ _ _ _ _\<close>])
  next
    case 2
    from 2 noobj have spec: "s3_spec se r resp (abs_state msgs s) (abs_state msgs s)" by (rule get_other)
    have l: "h_listObjectsV2 env r b h s = (resp, s')" using run 2 by (simp add: handleBucket_def)
    have arg: "400 \<le> rp_Status (fail_with r h S3InvalidArgument)" by (simp add: fail_with_status S3_statuses)
    show ?thesis
    proof (rule ccontr)
      assume no: "\<not> serves c msgs se r resp s s'"
      then have "\<not> on_store (Store_ListObjects env input) (fail_mapped r h) good s = (resp, s')" for input good
        using serves_read_only [OF inv(1) quiet_Store_ListObjects uploads_ListObjects spec] by blast
      with l have "s' = s \<and> resp = fail_with r h S3InvalidArgument"
        unfolding h_listObjectsV2_def Let_def by (auto split: if_splits option.splits sum.splits)
      with bad arg no show False by simp
    qed
  next
    case 3
    with run have m: "on_store (Store_DeleteBucket env b) (fail_mapped r h) (\<lambda>_. respond 204 h []) s = (resp, s')"
      by (simp add: handleBucket_def)
    show ?thesis
    proof (rule serves_on_store [OF m server_fails(5) [OF tc inv]])
      fix x assume m: "Store_DeleteBucket env b s = (Inr x, s')" and "resp = respond 204 h []"
      then have "rp_Status resp < 400" by (simp add: respond_def)
      from server_delete_bucket [OF inv(1) m] delete_bucket [OF this 3 path] show "serves c msgs se r resp s s'"
        by (simp add: serves_def)
    qed
  next
    case 4
    with run bad show ?thesis by (auto simp: handleBucket_def http_NotFound_def http_Error_def respond_def)
  qed
qed

text \<open>One request: past its authorization, and as it comes in.\<close>

lemma http_errors: "400 \<le> rp_Status (http_NotFound h)" "400 \<le> rp_Status (http_Error h t 501)"
  by (simp_all add: http_NotFound_def http_Error_def respond_def)

lemma serves_routed:
  assumes tc: "telegram_chat c msgs" and inv: "server_inv c msgs s" "sized_uploads s" and env: "no_fake_misses env"
    and r: "plain_request msgs r s resp s'" "splitPath (rq_URL r) = (b, k, hb)"
    and run: "(if \<not> hb then (if rq_Method r \<noteq> ''GET'' then (http_NotFound h, s) else h_listBuckets env r h s)
      else if k = [] then handleBucket env r b h s else handleObject se env r b k h s) = (resp, s')"
  shows "serves c msgs se r resp s s'"
proof -
  consider "hb" "k \<noteq> []" | "hb" "k = []" | "\<not> hb" "rq_Method r = ''GET''" | "\<not> hb" "rq_Method r \<noteq> ''GET''" by blast
  then show ?thesis
  proof cases
    case 1
    with run r(2) serves_object [OF tc inv env r(1)] show ?thesis by (simp add: object_path_def)
  next
    case 2
    with run r(2) serves_bucket [OF tc inv] show ?thesis by simp
  next
    case 3
    then have "s3_spec se r resp (abs_state msgs s) (abs_state msgs s)"
      by (intro get_other) (simp_all add: r(2) object_path_def)
    moreover have "h_listBuckets env r h s = (resp, s')" using run 3 by simp
    ultimately show ?thesis
      unfolding h_listBuckets_def by (intro serves_read_only [OF inv(1) quiet_Store_ListBuckets uploads_buckets(1)])
  next
    case 4
    with run http_errors serves_refused [OF idle_refl [OF inv(1)]] show ?thesis by auto
  qed
qed

lemma serves_request:
  assumes tc: "telegram_chat c msgs" and inv: "server_inv c msgs s" "sized_uploads s" and env: "no_fake_misses env"
    and r: "plain_request msgs r s resp s'" and run: "ServeHTTP se env srv r s = (resp, s')"
  shows "serves c msgs se r resp s s'"
proof -
  let ?path = "u_Path (rq_URL r)"
  have bad: "serves c msgs se r resp s s'" if "s' = s" "400 \<le> rp_Status resp"
    using that serves_refused [OF idle_refl [OF inv(1)]] by simp
  have still: "serves c msgs se r resp s s'" if "s' = s" "s3_spec se r resp (abs_state msgs s) (abs_state msgs s)"
    using that serves_idle [OF idle_refl [OF inv(1)]] by simp
  obtain h cors where h: "handleCORS srv r [] = (h, cors)" by fastforce
  obtain b k hb where p: "splitPath (rq_URL r) = (b, k, hb)" by (metis prod.collapse)
  consider (page) "?path \<in> {''/healthz'', ''/readyz''}" "rq_Method r = ''GET''"
    | (no_page) "?path \<in> {''/healthz'', ''/readyz''}" "rq_Method r \<noteq> ''GET''"
    | (cors) "?path \<notin> {''/healthz'', ''/readyz''}" "cors \<noteq> None"
    | (html) "?path \<notin> {''/healthz'', ''/readyz''}" "cors = None" "shouldServeHTMLRoot r"
    | (denied) e where "?path \<notin> {''/healthz'', ''/readyz''}" "cors = None" "\<not> shouldServeHTMLRoot r" "authorize se srv r = Some e"
    | (go) "?path \<notin> {''/healthz'', ''/readyz''}" "cors = None" "\<not> shouldServeHTMLRoot r" "authorize se srv r = None"
    by blast
  then show ?thesis
  proof cases
    case page
    then have "s3_spec se r resp (abs_state msgs s) (abs_state msgs s)" by (intro get_page) auto
    with page run show ?thesis by (intro still) (auto simp: ServeHTTP_def split: if_splits)
  next
    case no_page
    with run http_errors show ?thesis by (intro bad) (auto simp: ServeHTTP_def split: if_splits)
  next
    case cors
    then have "rq_Method r = ''OPTIONS''" using h by (auto simp: handleCORS_def Let_def split: prod.splits if_splits)
    then have "s3_spec se r resp (abs_state msgs s) (abs_state msgs s)" by (intro reading) simp
    with cors h run show ?thesis by (intro still) (auto simp: ServeHTTP_def)
  next
    case html
    with h run http_errors show ?thesis by (intro bad) (auto simp: ServeHTTP_def)
  next
    case denied
    then have "400 \<le> se_Status e" using S3_statuses by (auto simp: authorize_def split: if_splits sum.splits)
    with denied h run show ?thesis by (intro bad) (auto simp: ServeHTTP_def fail_with_status)
  next
    case go
    with h p run show ?thesis by (intro serves_routed [OF tc inv env r p, of h]) (simp add: ServeHTTP_def)
  qed
qed

subsection \<open>Sessions\<close>

type_synonym arrival = "s3_env \<times> oenv \<times> Request"

fun serve_all :: "Server \<Rightarrow> arrival list \<Rightarrow> 'w ostate \<Rightarrow> Response list \<times> 'w ostate" where
  "serve_all srv [] s = ([], s)"
| "serve_all srv ((se, env, r) # rs) s =
     (case ServeHTTP se env srv r s of
        (resp, s1) \<Rightarrow> (case serve_all srv rs s1 of (resps, s2) \<Rightarrow> (resp # resps, s2)))"

fun plain_session :: "('w \<Rightarrow> chat_view) \<Rightarrow> Server \<Rightarrow> arrival list \<Rightarrow> 'w ostate \<Rightarrow> bool" where
  "plain_session msgs srv [] s \<longleftrightarrow> True"
| "plain_session msgs srv ((se, env, r) # rs) s \<longleftrightarrow> no_fake_misses env \<and>
     (case ServeHTTP se env srv r s of (resp, s1) \<Rightarrow> plain_request msgs r s resp s1 \<and> plain_session msgs srv rs s1)"

text \<open>The bytes that wait in an upload, and those that a session can add to it.\<close>

definition waiting :: "(int \<rightharpoonup> bytes) \<Rightarrow> int" where
  "waiting ps = (\<Sum>n \<in> dom ps. int (length (the (ps n))))"

fun session_length :: "arrival list \<Rightarrow> int" where
  "session_length [] = 0"
| "session_length ((se, env, r) # rs) = max 0 (rq_ContentLength r) + session_length rs"

definition session_fits :: "arrival list \<Rightarrow> s3_abs \<Rightarrow> bool" where
  "session_fits rs a \<longleftrightarrow> in_i64 (session_length rs) \<and>
     (\<forall>i bk ps. ab_uploads a i = Some (bk, ps) \<longrightarrow> in_i64 (waiting ps + session_length rs))"

lemma session_length_nonneg: "0 \<le> session_length rs"
  by (induction rs rule: session_length.induct) auto

lemma waiting_nonneg: "0 \<le> waiting ps"
  by (simp add: waiting_def sum_nonneg)

lemma waiting_upd:
  assumes "finite (dom ps)"
  shows "waiting (ps(n \<mapsto> bs)) \<le> waiting ps + int (length bs)"
proof -
  have "waiting (ps(n \<mapsto> bs)) = int (length bs) + (\<Sum>m \<in> dom ps - {n}. int (length (the (ps m))))"
    unfolding waiting_def using assms by (simp add: sum.insert_remove)
  also have "\<dots> \<le> int (length bs) + waiting ps"
    unfolding waiting_def using assms by (intro add_left_mono sum_mono2) auto
  finally show ?thesis by simp
qed

lemma waiting_upload:
  assumes inv: "uploads_inv msgs s" and u: "map_of (multipartUploads s) i = Some u"
  shows "sum_list (map (mp_size \<circ> snd) (mu_parts u)) = waiting (snd (upload_abs msgs s u))"
    and "finite (dom (snd (upload_abs msgs s u)))"
proof -
  let ?ps = "snd (upload_abs msgs s u)"
  have d: "distinct (map fst (mu_parts u))" using inv u unfolding uploads_inv_def by blast
  have p: "?ps n = Some (the (?ps n)) \<and> int (length (the (?ps n))) = mp_size q" if "map_of (mu_parts u) n = Some q" for n q
  proof -
    have "q \<in> ran (map_of (mu_parts u))" using that by (rule ranI)
    with inv u obtain bs where "part_holds (msgs (world s)) (bucketChatID s (mu_bucket u)) q bs"
      unfolding uploads_inv_def by blast
    with that show ?thesis by (simp add: upload_abs_def part_holds_def)
  qed
  have dom: "dom ?ps = set (map fst (mu_parts u))"
  proof
    show "dom ?ps \<subseteq> set (map fst (mu_parts u))"
      by (force simp: upload_abs_def bind_eq_Some_conv dest!: map_of_SomeD)
    show "set (map fst (mu_parts u)) \<subseteq> dom ?ps"
    proof
      fix n assume "n \<in> set (map fst (mu_parts u))"
      then obtain q where "map_of (mu_parts u) n = Some q" by (metis map_of_eq_None_iff option.exhaust set_map)
      from p [OF this] show "n \<in> dom ?ps" by (auto simp: dom_def)
    qed
  qed
  then show "finite (dom ?ps)" by simp
  have "waiting ?ps = sum_list (map (\<lambda>n. int (length (the (?ps n)))) (map fst (mu_parts u)))"
    unfolding waiting_def dom using d by (simp only: sum_list_distinct_conv_sum_set)
  also have "map (\<lambda>n. int (length (the (?ps n)))) (map fst (mu_parts u)) = map (mp_size \<circ> snd) (mu_parts u)"
  proof -
    have "int (length (the (?ps n))) = mp_size q" if "(n, q) \<in> set (mu_parts u)" for n q
      using p [of n q] map_of_is_SomeI [OF d that] by blast
    then show ?thesis by auto
  qed
  finally show "sum_list (map (mp_size \<circ> snd) (mu_parts u)) = waiting ?ps" by simp
qed

lemma session_fits_sized:
  assumes "server_inv c msgs s" "session_fits rs (abs_state msgs s)"
  shows "sized_uploads s"
  unfolding sized_uploads_def
proof (intro allI impI)
  fix i u assume u: "map_of (multipartUploads s) i = Some u"
  have "uploads_inv msgs s" using assms(1) by (simp add: server_inv_def)
  note w = waiting_upload(1) [OF this u]
  have "ab_uploads (abs_state msgs s) i = Some (fst (upload_abs msgs s u), snd (upload_abs msgs s u))"
    by (simp add: abs_state_def u)
  with assms(2) have fit: "in_i64 (waiting (snd (upload_abs msgs s u)) + session_length rs)" unfolding session_fits_def by blast
  show "in_i64 (sum_list (map (mp_size \<circ> snd) (mu_parts u)))"
    unfolding w using waiting_nonneg [of "snd (upload_abs msgs s u)"] session_length_nonneg [of rs]
    by (intro in_i64_between [OF in_i64_0 fit]) simp_all
qed

lemma abs_finite:
  assumes "server_inv c msgs s" "ab_uploads (abs_state msgs s) i = Some (bk, ps)"
  shows "finite (dom ps)"
proof -
  from assms(2) obtain u where u: "map_of (multipartUploads s) i = Some u" "upload_abs msgs s u = (bk, ps)"
    by (auto simp: abs_state_def)
  have "uploads_inv msgs s" using assms(1) by (simp add: server_inv_def)
  from waiting_upload(2) [OF this u(1)] u(2) show ?thesis by simp
qed

text \<open>A request adds no more than its length to what waits.\<close>

lemma spec_uploads:
  assumes "s3_spec se r resp a a'" "ab_uploads a' i = Some (bk, ps)" "\<And>bk ps. ab_uploads a i = Some (bk, ps) \<Longrightarrow> finite (dom ps)"
  shows "ps = Map.empty \<or> (\<exists>bk0 ps0. ab_uploads a i = Some (bk0, ps0) \<and> waiting ps \<le> waiting ps0 + max 0 (rq_ContentLength r))"
proof -
  have keep: ?thesis if "ab_uploads a i = Some (bk, ps)"
    using that by (intro disjI2 exI [of _ bk] exI [of _ ps]) simp
  show ?thesis using assms(1)
  proof (cases rule: s3_spec.cases)
    case (part b k n ps0)
    show ?thesis
    proof (cases "i = upload_id r")
      case True
      with part assms(2) have "ps = ps0(n \<mapsto> rd_data (request_body r))" "ab_uploads a i = Some ((b, k), ps0)" by auto
      with waiting_upd [OF assms(3), of "(b, k)" ps0 n "rd_data (request_body r)"] part show ?thesis by auto
    next
      case False
      then show ?thesis using part assms(2) by (intro keep) simp
    qed
  next
    case (create b k j)
    then have "ab_uploads a' i = None \<or> ab_uploads a' i = ((ab_uploads a)(j \<mapsto> ((b, k), Map.empty))) i"
      unfolding opens_upload_def Let_def by (metis fun_upd_other fun_upd_same)
    then have "ab_uploads a' i = ((ab_uploads a)(j \<mapsto> ((b, k), Map.empty))) i" using assms(2) by auto
    then show ?thesis
    proof (cases "i = j")
      case True
      with \<open>ab_uploads a' i = ((ab_uploads a)(j \<mapsto> ((b, k), Map.empty))) i\<close> assms(2) show ?thesis by simp
    next
      case False
      with \<open>ab_uploads a' i = ((ab_uploads a)(j \<mapsto> ((b, k), Map.empty))) i\<close> assms(2) show ?thesis by (intro keep) simp
    qed
  next
    case (complete b k requested ps0 datas)
    then show ?thesis using assms(2) by (intro keep) (simp split: if_splits)
  next
    case (abort b k ps0)
    then show ?thesis using assms(2) by (intro keep) (simp split: if_splits)
  qed (use assms(2) in \<open>intro keep, simp\<close>)+
qed

lemma session_fits_step:
  assumes "s3_spec se r resp (abs_state msgs s) a'" "server_inv c msgs s" "session_fits ((se, env, r) # rs) (abs_state msgs s)"
  shows "session_fits rs a'"
proof -
  note n = session_length_nonneg [of rs]
  have tot: "in_i64 (max 0 (rq_ContentLength r) + session_length rs)"
    and old: "\<And>i bk ps. ab_uploads (abs_state msgs s) i = Some (bk, ps) \<Longrightarrow>
      in_i64 (waiting ps + (max 0 (rq_ContentLength r) + session_length rs))"
    using assms(3) by (auto simp: session_fits_def)
  have len: "in_i64 (session_length rs)"
    by (rule in_i64_between [OF in_i64_0 tot]) (use n in simp_all)
  moreover have "in_i64 (waiting ps + session_length rs)" if "ab_uploads a' i = Some (bk, ps)" for i bk ps
  proof -
    have "ps = Map.empty \<or> (\<exists>bk0 ps0. ab_uploads (abs_state msgs s) i = Some (bk0, ps0) \<and>
        waiting ps \<le> waiting ps0 + max 0 (rq_ContentLength r))"
      by (rule spec_uploads [OF assms(1) that]) (rule abs_finite [OF assms(2)])
    then show ?thesis
    proof (elim disjE exE conjE)
      fix bk0 ps0 assume a: "ab_uploads (abs_state msgs s) i = Some (bk0, ps0)"
        and le: "waiting ps \<le> waiting ps0 + max 0 (rq_ContentLength r)"
      show ?thesis by (rule in_i64_between [OF in_i64_0 old [OF a]]) (use le waiting_nonneg [of ps] n in simp_all)
    qed (use len in \<open>simp add: waiting_def\<close>)
  qed
  ultimately show ?thesis by (simp add: session_fits_def)
qed

inductive spec_session :: "arrival list \<Rightarrow> Response list \<Rightarrow> s3_abs \<Rightarrow> s3_abs \<Rightarrow> bool" where
  over: "spec_session [] [] a a"
| next_request: "s3_spec se r resp a a1 \<Longrightarrow> spec_session rs resps a1 a2 \<Longrightarrow>
    spec_session ((se, env, r) # rs) (resp # resps) a a2"

text \<open>C1: The S3 server is the abstract server, over Telegram clients that keep the contract of a chat. Take a session from a state that fulfils the invariant (every
  object's rows lead to live messages that hold its bytes, no two objects and no two open uploads share a
  message, every part of an open upload holds its bytes), in which no request asks for a copy between two buckets of
  the same chat and token (such a copy shares the messages of its source), no deletion fails after it has
  deleted messages, no query of the metadata fails with the store's own ErrNotFound, and the bytes that wait in
  an open upload and the lengths of all requests add up within 64 bits. Then the session ends in a state
  that fulfils the invariant, refused and failing requests included, and requests and answers are a run of
  a map from keys to bytes and a map of open uploads, in which an error changes nothing, a GET answers the
  bytes of the object or the range asked for, a PUT stores its body, a copy stores the bytes of its source, a DELETE
  removes the object, a part is added to its upload, and completing an upload stores its parts one after the
  other.\<close>
theorem S3_session_refines:
  assumes "telegram_chat c msgs" "server_inv c msgs s" "plain_session msgs srv rs s" "session_fits rs (abs_state msgs s)"
    and "serve_all srv rs s = (resps, s')"
  shows "server_inv c msgs s' \<and> spec_session rs resps (abs_state msgs s) (abs_state msgs s')"
  using assms(2-5)
proof (induction srv rs s arbitrary: resps rule: serve_all.induct)
  case (1 srv s)
  then show ?case by (simp add: over)
next
  case (2 srv se env r rs s)
  obtain resp s1 where run: "ServeHTTP se env srv r s = (resp, s1)" by fastforce
  obtain resps' s2 where rest: "serve_all srv rs s1 = (resps', s2)" by fastforce
  from "2.prems"(2) run have plain: "no_fake_misses env" "plain_request msgs r s resp s1" "plain_session msgs srv rs s1"
    by simp_all
  have sized: "sized_uploads s" by (rule session_fits_sized [OF "2.prems"(1,3)])
  from serves_request [OF assms(1) "2.prems"(1) sized plain(1,2) run] have step: "server_inv c msgs s1"
    "s3_spec se r resp (abs_state msgs s) (abs_state msgs s1)" by (simp_all add: serves_def)
  have fits: "session_fits rs (abs_state msgs s1)" by (rule session_fits_step [OF step(2) "2.prems"(1,3)])
  from "2.prems"(4) run rest have "s' = s2" "resps = resp # resps'" by simp_all
  with "2.IH" [OF run [symmetric] step(1) plain(3) fits] rest next_request [OF step(2)] show ?case by simp
qed

theorem S3_session_refines_witness:
  "\<exists>resps s'. serve_all demo_server [(demo_se, demo_oenv, demo_PUT), (demo_se, demo_oenv, demo_GET)] demo_store = (resps, s') \<and>
     server_inv fake_client fake_msgs s' \<and>
     spec_session [(demo_se, demo_oenv, demo_PUT), (demo_se, demo_oenv, demo_GET)] resps
       (abs_state fake_msgs demo_store) (abs_state fake_msgs s')"
proof -
  let ?rs = "[(demo_se, demo_oenv, demo_PUT), (demo_se, demo_oenv, demo_GET)]"
  have none: "multipartUploads demo_store = []" by (simp add: demo_store_def sqlite.defs)
  then have none': "multipartUploads demo_after_put = []"
    unfolding demo_after_put_def by (rule keepsD [OF uploads_PutObject prod.collapse [symmetric]])
  have "object_bytes fake_msgs demo_store bk = None" for bk
    by (simp add: object_bytes_def contents_def find_object_def demo_store_def empty_tables_def sqlite.defs)
  then have inv: "server_inv fake_client fake_msgs demo_store"
    by (simp add: server_inv_def demo_store_facts demo_plain uploads_inv_def sized_objects_def none)
  have env: "no_fake_misses demo_oenv" by (simp add: no_fake_misses_def demo_oenv_def demo_env_def sqlite_env.defs)
  have src: "parseCopySource (get_header demo_PUT ''X-Amz-Copy-Source'') = Inl (Msg (''invalid x-amz-copy-source '' @ Quote []))"
    by code_simp
  have "rq_ContentLength demo_GET = 0" by (simp add: demo_GET_def)
  then have "plain_session fake_msgs demo_server ?rs demo_store"
    using env src by (simp add: demo_http_put plain_request_def demo_requests in_i64_def split: prod.split)
  moreover have "session_fits ?rs (abs_state fake_msgs demo_store)"
    using \<open>rq_ContentLength demo_GET = 0\<close> by (simp add: session_fits_def abs_state_def none demo_requests in_i64_def)
  moreover obtain resps s' where run: "serve_all demo_server ?rs demo_store = (resps, s')" by fastforce
  ultimately show ?thesis using S3_session_refines [OF fake.telegram_chat_axioms inv] by blast
qed

end
