(* ===== verification/ListTokenProps.thy ===== *)
theory ListTokenProps
  imports ListToken
begin

text \<open>The continuation token comes back as it was given, up to bytes that are not UTF-8.\<close>

subsection \<open>base64\<close>

lemma b64_value_char: "n < 64 \<Longrightarrow> b64_value (b64_char n) = Some n"
  by (auto simp: b64_char_def b64_value_def Let_def)

lemma b64_char_no_break: "b64_char n \<noteq> CHR 0x0A" "b64_char n \<noteq> CHR 0x0D"
proof -
  have "of_char (b64_char n) \<noteq> (10 :: nat)" "of_char (b64_char n) \<noteq> (13 :: nat)"
    by (auto simp: b64_char_def)
  then show "b64_char n \<noteq> CHR 0x0A" "b64_char n \<noteq> CHR 0x0D" by auto
qed

definition sextets_of :: "string \<Rightarrow> nat list option" where
  "sextets_of s = those (map b64_value (filter (\<lambda>c. c \<noteq> CHR 0x0A \<and> c \<noteq> CHR 0x0D) s))"

lemma sextets_of_Nil [simp]: "sextets_of [] = Some []"
  by (simp add: sextets_of_def)

lemma sextets_of_Cons [simp]: "n < 64 \<Longrightarrow> sextets_of (b64_char n # s) = map_option ((#) n) (sextets_of s)"
  by (simp add: sextets_of_def b64_char_no_break b64_value_char)

lemma sextet_ranges:
  assumes "x < (256 :: nat)" "y < (256 :: nat)"
  shows "x div 4 < 64" "x mod 4 * 16 + y div 16 < 64" "x mod 4 * 16 < 64" "y mod 16 * 4 + x div 64 < 64"
    "y mod 16 * 4 < 64" "x mod 64 < 64"
  using assms by (auto simp: less_mult_imp_div_less)

lemma sextets_join:
  assumes "y < (256 :: nat)"
  shows "y div 16 div 16 = 0" "y div 64 div 4 = 0" "y div 16 mod 16 = y div 16" "y div 64 mod 4 = y div 64"
  using assms by (simp_all add: div_mult2_eq [symmetric] less_mult_imp_div_less)

lemma b64_roundtrip: "Option.bind (sextets_of (b64_EncodeToString s)) b64_groups = Some s"
proof (induction s rule: b64_EncodeToString.induct)
  case (4 a b c s)
  note r = sextet_ranges [OF nat_of_char_less_256 nat_of_char_less_256]
  note j = sextets_join [OF nat_of_char_less_256]
  have "Option.bind (sextets_of (b64_EncodeToString s)) b64_groups = Some s" by (rule 4) simp_all
  then obtain ns where "sextets_of (b64_EncodeToString s) = Some ns" "b64_groups ns = Some s"
    unfolding bind_eq_Some_conv by blast
  then show ?case by (simp add: Let_def r j char_of_char)
qed (use sextet_ranges [OF nat_of_char_less_256 nat_of_char_less_256]
       sextets_join [OF nat_of_char_less_256]
     in \<open>simp_all add: Let_def char_of_char\<close>)

lemma b64_Decode_Encode: "b64_DecodeString (b64_EncodeToString s) = Some s"
  using b64_roundtrip by (simp add: b64_DecodeString_def sextets_of_def)

subsection \<open>Strings in JSON texts\<close>

lemma hex_nibble_digit: "hex_nibble (hex_digit n) = Some (n mod 16)" "hex_nibble (lower (hex_digit n)) = Some (n mod 16)"
proof -
  have "list_all (\<lambda>m. hex_nibble (''0123456789ABCDEF'' ! m) = Some m \<and> hex_nibble (lower (''0123456789ABCDEF'' ! m)) = Some m) [0..<16]"
    by code_simp
  then show "hex_nibble (hex_digit n) = Some (n mod 16)" "hex_nibble (lower (hex_digit n)) = Some (n mod 16)"
    by (simp_all add: list_all_iff hex_digit_def)
qed

lemma getu4_zeros: "getu4 (CHR ''0'' # CHR ''0'' # hex_digit m # lower (hex_digit n) # t) = Some (m mod 16 * 16 + n mod 16)"
  by (simp add: getu4_def hex_nibble_digit) (simp add: hex_nibble_def)

declare parse_chars.simps [simp del] json_escape.simps [simp del] ToValidUTF8.simps [simp del] rune_width.simps [simp del]

lemma append_one: "(@) [x] = (#) x"
  by (rule ext) simp

lemma parse_u_escape:
  assumes "n < 128"
  shows "parse_chars (u_escape n @ t) = map_option (apfst ((#) (char_of n))) (parse_chars t)"
proof -
  have "n div 16 mod 16 * 16 + n mod 16 = n" using assms by simp
  then show ?thesis using assms
    by (simp add: u_escape_def parse_chars.simps(2) getu4_zeros rune_bytes_def append_one)
qed

lemma escape_ascii_simple:
  assumes "c \<in> {CHR 0x22, CHR 0x5C, CHR 0x08, CHR 0x0C, CHR 0x0A, CHR 0x0D, CHR 0x09}"
  obtains d where "escape_ascii c = [CHR 0x5C, d]" "simple_escape d = Some c" "d \<noteq> CHR ''u''"
  using assms by (auto simp: escape_ascii_def simple_escape_def)

lemma parse_escape_ascii:
  assumes "of_char c < (128 :: nat)"
  shows "parse_chars (escape_ascii c @ t) = map_option (apfst ((#) c)) (parse_chars t)"
proof (cases "c \<in> {CHR 0x22, CHR 0x5C, CHR 0x08, CHR 0x0C, CHR 0x0A, CHR 0x0D, CHR 0x09}")
  case True
  then obtain d where "escape_ascii c = [CHR 0x5C, d]" "simple_escape d = Some c" "d \<noteq> CHR ''u''"
    by (rule escape_ascii_simple)
  then show ?thesis by (simp add: parse_chars.simps(2))
next
  case False
  show ?thesis
  proof (cases "of_char c < (32 :: nat) \<or> c \<in> {CHR ''<'', CHR ''>'', CHR ''&''}")
    case True
    with False have "escape_ascii c = u_escape (of_char c)" by (simp add: escape_ascii_def)
    then show ?thesis using parse_u_escape [OF assms] by (simp add: char_of_char)
  next
    case F: False
    with False have "escape_ascii c = [c]" by (simp add: escape_ascii_def)
    then show ?thesis using assms False F
      by (simp only: append.simps parse_chars.simps(2) [of c t]) simp
  qed
qed

text \<open>A rune of several bytes decodes to itself whatever follows.\<close>

lemma follow_append:
  assumes "s \<noteq> []"
  shows "follow2 p s = Suc (length s) \<Longrightarrow> follow2 p (s @ t) = Suc (length s)"
    "follow3 p s = Suc (length s) \<Longrightarrow> follow3 p (s @ t) = Suc (length s)"
    "follow4 p s = Suc (length s) \<Longrightarrow> follow4 p (s @ t) = Suc (length s)"
  using assms by (auto simp: follow2_def follow3_def follow4_def nth_append split: if_splits)

lemma rune_width_append:
  assumes "rune_width (c # s) = Suc (length s)" "s \<noteq> []"
  shows "rune_width (c # s @ t) = Suc (length s)"
  using assms(1) follow_append [OF assms(2)] assms(2) by (simp add: rune_width.simps split: if_splits)

lemma parse_rune:
  assumes "w = rune_width (c # s)" "2 \<le> w" "\<not> of_char c < (128 :: nat)"
  shows "parse_chars (take w (c # s) @ t) = map_option (apfst ((@) (take w (c # s)))) (parse_chars t)"
proof -
  obtain w' where w: "w = Suc w'" "w' \<noteq> 0" using assms(2) by (cases w) auto
  have len: "length (take w' s) = w'" using assms(1) w rune_width_le [of "c # s"] by simp
  have "rune_width (c # take w' s) = w" using rune_width_prefix [of "c # s" w] assms(1) w(1)
    by (metis order_refl take_Suc_Cons)
  then have r: "rune_width (c # take w' s @ t) = w"
    using rune_width_append [of c "take w' s" t] len w by fastforce
  have "c \<noteq> CHR 0x22" "c \<noteq> CHR 0x5C" using assms(3) by auto
  then show ?thesis using assms(3) r w(2) len
    by (simp only: w(1) take_Suc_Cons append.simps parse_chars.simps(2) [of c "take w' s @ t"]) simp
qed

lemma parse_u:
  assumes "getu4 r = Some n" "n < 55296 \<or> 57344 \<le> n"
  shows "parse_chars (CHR 0x5C # CHR ''u'' # r) = map_option (apfst ((@) (rune_bytes n))) (parse_chars (drop 4 r))"
  using assms by (simp only: parse_chars.simps(2) [of "CHR 0x5C" "CHR ''u'' # r"]) auto

lemma parse_ufffd:
  "parse_chars (CHR 0x5C # CHR ''u'' # CHR ''f'' # CHR ''f'' # CHR ''f'' # CHR ''d'' # t) =
     map_option (apfst ((@) replacement_rune)) (parse_chars t)"
  "parse_chars (CHR 0x5C # CHR ''u'' # CHR ''2'' # CHR ''0'' # CHR ''2'' # CHR ''8'' # t) =
     map_option (apfst ((@) [CHR 0xE2, CHR 0x80, CHR 0xA8])) (parse_chars t)"
  "parse_chars (CHR 0x5C # CHR ''u'' # CHR ''2'' # CHR ''0'' # CHR ''2'' # CHR ''9'' # t) =
     map_option (apfst ((@) [CHR 0xE2, CHR 0x80, CHR 0xA9])) (parse_chars t)"
proof -
  have hex: "hex_nibble CHR ''f'' = Some 15" "hex_nibble CHR ''d'' = Some 13" "hex_nibble CHR ''2'' = Some 2"
    "hex_nibble CHR ''0'' = Some 0" "hex_nibble CHR ''8'' = Some 8" "hex_nibble CHR ''9'' = Some 9"
    by code_simp+
  have g: "getu4 (CHR ''f'' # CHR ''f'' # CHR ''f'' # CHR ''d'' # t) = Some 65533"
    "getu4 (CHR ''2'' # CHR ''0'' # CHR ''2'' # CHR ''8'' # t) = Some 8232"
    "getu4 (CHR ''2'' # CHR ''0'' # CHR ''2'' # CHR ''9'' # t) = Some 8233"
    using hex by (simp_all add: getu4_def)
  have r: "rune_bytes 65533 = replacement_rune" "rune_bytes 8232 = [CHR 0xE2, CHR 0x80, CHR 0xA8]"
    "rune_bytes 8233 = [CHR 0xE2, CHR 0x80, CHR 0xA9]"
    by (simp_all add: rune_bytes_def replacement_rune_def) code_simp+
  show "parse_chars (CHR 0x5C # CHR ''u'' # CHR ''f'' # CHR ''f'' # CHR ''f'' # CHR ''d'' # t) =
      map_option (apfst ((@) replacement_rune)) (parse_chars t)"
    using parse_u [OF g(1)] by (simp add: r)
  show "parse_chars (CHR 0x5C # CHR ''u'' # CHR ''2'' # CHR ''0'' # CHR ''2'' # CHR ''8'' # t) =
      map_option (apfst ((@) [CHR 0xE2, CHR 0x80, CHR 0xA8])) (parse_chars t)"
    using parse_u [OF g(2)] by (simp add: r)
  show "parse_chars (CHR 0x5C # CHR ''u'' # CHR ''2'' # CHR ''0'' # CHR ''2'' # CHR ''9'' # t) =
      map_option (apfst ((@) [CHR 0xE2, CHR 0x80, CHR 0xA9])) (parse_chars t)"
    using parse_u [OF g(3)] by (simp add: r)
qed

lemma json_escape_roundtrip: "parse_chars (json_escape k @ CHR 0x22 # t) = Some (ToValidUTF8 k, t)"
proof (induction k rule: json_escape.induct)
  case 1 then show ?case by (simp add: json_escape.simps ToValidUTF8.simps parse_chars.simps(2))
next
  case (2 c s)
  note IH = 2
  show ?case
  proof (cases "of_char c < (128 :: nat)")
    case True
    then show ?thesis using 2(1) by (simp add: json_escape.simps(2) ToValidUTF8.simps(2) parse_escape_ascii)
  next
    case False
    define w where "w = rune_width (c # s)"
    have "0 < w" using rune_width_pos [of "c # s"] by (simp add: w_def)
    then consider "w = 1" | "2 \<le> w" by linarith
    then show ?thesis
    proof cases
      case 1
      then show ?thesis using 2(2) [OF False w_def] False
        by (simp add: json_escape.simps(2) ToValidUTF8.simps(2) w_def [symmetric] parse_ufffd)
    next
      case 2
      let ?q = "take w (c # s)" and ?r = "drop w (c # s)"
      have "w \<noteq> 1" using 2 by simp
      then have ih: "parse_chars (json_escape ?r @ CHR 0x22 # t) = Some (ToValidUTF8 ?r, t)"
        using IH(3-5) [OF False w_def] by blast
      have esc: "json_escape (c # s) @ u = (if ?q = [CHR 0xE2, CHR 0x80, CHR 0xA8] then CHR 0x5C # ''u2028'' @ json_escape ?r @ u
          else if ?q = [CHR 0xE2, CHR 0x80, CHR 0xA9] then CHR 0x5C # ''u2029'' @ json_escape ?r @ u
          else ?q @ json_escape ?r @ u)" for u
        using False \<open>w \<noteq> 1\<close> by (simp add: json_escape.simps(2) w_def [symmetric])
      have valid: "ToValidUTF8 (c # s) = ?q @ ToValidUTF8 ?r"
        using False \<open>w \<noteq> 1\<close> by (simp add: ToValidUTF8.simps(2) w_def [symmetric])
      show ?thesis unfolding esc valid
        using parse_rune [OF w_def 2 False] by (simp add: ih parse_ufffd)
    qed
  qed
qed

lemma ToValidUTF8_ascii: "list_all (\<lambda>c. of_char c < (128 :: nat)) s \<Longrightarrow> ToValidUTF8 s = s"
  by (induction s) (simp_all add: ToValidUTF8.simps)

subsection \<open>The token\<close>

lemma skip_ws_plain: "c \<notin> {CHR '' '', CHR 0x09, CHR 0x0A, CHR 0x0D} \<Longrightarrow> skip_ws (c # s) = c # s"
  by (simp add: skip_ws_def)

lemma json_parse_payload: "json_parse (payload_text k) = Some (JObj [(''last_key'', JStr (ToValidUTF8 k))])"
proof -
  have n: "json_string ''last_key'' = CHR 0x22 # ''last_key'' @ [CHR 0x22]" by code_simp
  have name: "parse_chars (''last_key'' @ CHR 0x22 # t) = Some (''last_key'', t)" for t
  proof -
    have "json_escape ''last_key'' = ''last_key''" by code_simp
    then show ?thesis using json_escape_roundtrip [of "''last_key''" t] by (simp add: ToValidUTF8_ascii)
  qed
  let ?body = "CHR 0x22 # ''last_key'' @ [CHR 0x22] @ '':'' @ CHR 0x22 # json_escape k @ [CHR 0x22, CHR 0x7D]"
  have p: "payload_text k = CHR 0x7B # ?body"
    unfolding payload_text_def n by (simp add: json_string_def)
  then obtain f where f: "Suc (length (payload_text k)) = Suc (Suc (Suc f))" by simp
  have v: "parse_value (Suc f) (CHR 0x22 # json_escape k @ [CHR 0x22, CHR 0x7D]) = Some (JStr (ToValidUTF8 k), [CHR 0x7D])" for f
    using json_escape_roundtrip [of k "[CHR 0x7D]"] by (simp add: skip_ws_plain)
  have "parse_membs (Suc (Suc f)) ?body = Some ([(''last_key'', JStr (ToValidUTF8 k))], [])"
    using name v by (simp add: skip_ws_plain del: parse_value.simps)
  then have "parse_value (Suc (Suc (Suc f))) (CHR 0x7B # ?body) = Some (JObj [(''last_key'', JStr (ToValidUTF8 k))], [])"
    by (simp add: skip_ws_plain del: parse_membs.simps)
  then show ?thesis unfolding json_parse_def f unfolding p by (simp add: skip_ws_def del: parse_value.simps)
qed

text \<open>C18: The continuation token of a page comes back as the key it was made from, with each byte that is
  not part of a UTF-8 sequence replaced by U+FFFD, whatever the key holds.\<close>
theorem ContinuationToken_roundtrip: "DecodeContinuationToken (EncodeContinuationToken k) = Inr (ToValidUTF8 k)"
  by (simp add: DecodeContinuationToken_def EncodeContinuationToken_def b64_Decode_Encode Unmarshal_def
      json_parse_payload decode_payload_def field_def EqualFold_def)

end
