(* ===== verification/CorsProps.thy ===== *)
theory CorsProps
  imports S3Props
begin

text \<open>When an answer opens itself to the scripts of another origin.\<close>

definition acao :: "header \<Rightarrow> string" where
  "acao h = header_Get h ''Access-Control-Allow-Origin''"

text \<open>A preflight request, and what it may ask for.\<close>

definition is_preflight :: "Request \<Rightarrow> bool" where
  "is_preflight r \<longleftrightarrow> rq_Method r = ''OPTIONS'' \<and> get_header r ''Access-Control-Request-Method'' \<noteq> []"

definition preflight_ok :: "Request \<Rightarrow> bool" where
  "preflight_ok r \<longleftrightarrow> ToUpper (TrimSpace (get_header r ''Access-Control-Request-Method'')) \<in> set corsMethods \<and>
     requestedHeadersAllowed (get_header r ''Access-Control-Request-Headers'')"

lemma acao_Set [simp]: "n \<noteq> ''Access-Control-Allow-Origin'' \<Longrightarrow> acao (header_Set n v h) = acao h"
  and acao_Set_self [simp]: "acao (header_Set ''Access-Control-Allow-Origin'' v h) = v"
  and acao_Nil [simp]: "acao [] = []"
  by (auto simp: acao_def) (simp add: header_Get_def header_Values_def)

lemma acao_Add [simp]: "n \<noteq> ''Access-Control-Allow-Origin'' \<Longrightarrow> acao (header_Add n v h) = acao h"
  by (auto simp: acao_def header_Get_def header_Values_def header_Add_def update_conv)

lemma acao_Del [simp]: "n \<noteq> ''Access-Control-Allow-Origin'' \<Longrightarrow> acao (header_Del n h) = acao h"
  by (auto simp: acao_def header_Get_def header_Values_def header_Del_def delete_conv)

lemma acao_addVary [simp]: "acao (addVary h ns) = acao h"
proof -
  have "acao (addVary_loop seen h ns) = acao h" for seen h
    by (induction ns arbitrary: seen h) (simp_all add: Let_def)
  then show ?thesis by (simp add: addVary_def)
qed

subsection \<open>The handlers leave the header alone\<close>

definition keeps_cors :: "header \<Rightarrow> Response \<Rightarrow> bool" where
  "keeps_cors h resp \<longleftrightarrow> acao (rp_Header resp) = acao h"

named_theorems cors_intro \<open>answers that keep the header\<close>

lemma keeps_fail [cors_intro]: "keeps_cors h (fail_mapped r h e)" "keeps_cors h (fail_with r h e')"
  by (simp_all add: keeps_cors_def fail_mapped_def fail_with_def WriteErrorResponse_def writeError_def Let_def respond_def)

lemma keeps_respond [cors_intro]:
  "keeps_cors h (respond n h b)" "keeps_cors h (http_NotFound h)" "keeps_cors h (http_Error h m n)"
  "keeps_cors h (writeXML h n x)" "keeps_cors h (respond n (header_Set ''ETag'' v h) b)"
  by (simp_all add: keeps_cors_def respond_def http_NotFound_def http_Error_def writeXML_def Let_def)

lemma keeps_on_store [cors_intro]:
  "(\<And>e. keeps_cors h (bad e)) \<Longrightarrow> (\<And>x. keeps_cors h (good x)) \<Longrightarrow> keeps_cors h (fst (on_store m bad good s))"
  by (simp add: on_store_def split: prod.split sum.split)

lemma keeps_object [cors_intro]:
  "keeps_cors h (respond n (header_Set ''Content-Length'' v (writeObjectHeaders info h)) b)"
  "keeps_cors h (get_response h rng out)"
  by (auto simp: keeps_cors_def respond_def writeObjectHeaders_def get_response_def Let_def split: prod.split option.split)

lemma keeps_fst: "keeps_cors h resp \<Longrightarrow> keeps_cors h (fst (resp, s))"
  by simp

lemma keeps_if:
  "keeps_cors h (fst (m s)) \<Longrightarrow> keeps_cors h (fst (m' s)) \<Longrightarrow> keeps_cors h (fst ((if c then m else m') s))"
  "keeps_cors h (fst p) \<Longrightarrow> keeps_cors h (fst q) \<Longrightarrow> keeps_cors h (fst (if c then p else q))"
  by simp_all

lemma keeps_handlers [cors_intro]:
  "keeps_cors h (fst (h_listBuckets env r h s))"
  "keeps_cors h (fst (h_listObjectsV2 env r b h s))"
  "keeps_cors h (fst (h_createMultipartUpload env r b k h s))"
  "keeps_cors h (fst (h_completeMultipartUpload se env r b k h s))"
  "keeps_cors h (fst (h_uploadPart env r b k h s))"
  "keeps_cors h (fst (h_copyObject env r b k h s))"
  "keeps_cors h (fst (h_putObject env r b k h s))"
  "keeps_cors h (fst (h_getObject env r b k h s))"
  "keeps_cors h (fst (h_headObject env r b k h s))"
  "keeps_cors h (fst (h_abortMultipartUpload r b k h s))"
  unfolding h_listBuckets_def h_listObjectsV2_def h_createMultipartUpload_def h_completeMultipartUpload_def h_uploadPart_def
    h_copyObject_def h_putObject_def h_getObject_def h_headObject_def h_abortMultipartUpload_def Let_def
  by (auto split: option.split sum.split intro!: cors_intro keeps_if keeps_fst)

lemma keeps_handleBucket [cors_intro]: "keeps_cors h (fst (handleBucket env r b h s))"
  unfolding handleBucket_def by (intro cors_intro keeps_if keeps_fst)

lemma keeps_handleObject [cors_intro]: "keeps_cors h (fst (handleObject se env r b k h s))"
  unfolding handleObject_def Let_def by (intro cors_intro keeps_if keeps_fst)

subsection \<open>The answer\<close>

definition origin_matcher :: "Server \<Rightarrow> Request \<Rightarrow> OriginMatcher" where
  "origin_matcher srv r = (case splitPath (rq_URL r) of (bucket, _, hasBucket) \<Rightarrow> matcherForBucket (srv_cors srv) bucket hasBucket)"

lemma allow_Nil [simp]: "\<not> allow [] origin"
  by (simp add: allow_def)

lemma handleCORS_cases:
  assumes "handleCORS srv r [] = (h, answer)"
  shows "(answer = None \<and> (get_header r ''Origin'' = [] \<or> origin_matcher srv r = [] \<or> \<not> is_preflight r) \<and>
       acao h = (if allow (origin_matcher srv r) (get_header r ''Origin'') then get_header r ''Origin'' else [])) \<or>
    (answer \<noteq> None \<and> get_header r ''Origin'' \<noteq> [] \<and> is_preflight r \<and>
       acao (rp_Header (the answer)) = (if allow (origin_matcher srv r) (get_header r ''Origin'') \<and> preflight_ok r
         then get_header r ''Origin'' else []) \<and>
       rp_Status (the answer) = (if allow (origin_matcher srv r) (get_header r ''Origin'') \<and> preflight_ok r then 204 else 403))"
proof -
  obtain b k hb where p: "splitPath (rq_URL r) = (b, k, hb)" by (metis prod.collapse)
  show ?thesis
    using assms
    by (auto simp: handleCORS_def p origin_matcher_def Let_def is_preflight_def preflight_ok_def originAllowed_def
        corsPreflight_def respond_def split: if_splits)
qed

text \<open>C21: Which answers are open to another origin: \<^verbatim>\<open>Access-Control-Allow-Origin\<close> names the origin of the request
  if a rule of the bucket (or a global rule) matches it and, for a preflight request, the method and
  the headers it asks for are on the list; every other answer, error answers included, leaves the
  header out. A preflight request to which rules apply is answered 204 or 403 accordingly.\<close>
theorem CORS_opens_to_matching_origins:
  assumes "ServeHTTP se env srv r s = (resp, s')" "u_Path (rq_URL r) \<notin> {''/healthz'', ''/readyz''}"
  shows "acao (rp_Header resp) =
      (if allow (origin_matcher srv r) (get_header r ''Origin'') \<and> (is_preflight r \<longrightarrow> preflight_ok r)
       then get_header r ''Origin'' else []) \<and>
    (is_preflight r \<and> get_header r ''Origin'' \<noteq> [] \<and> origin_matcher srv r \<noteq> [] \<longrightarrow>
       s' = s \<and> rp_Status resp =
         (if allow (origin_matcher srv r) (get_header r ''Origin'') \<and> preflight_ok r then 204 else 403))"
proof -
  obtain h answer where h: "handleCORS srv r [] = (h, answer)" by fastforce
  show ?thesis
  proof (cases answer)
    case None
    have "keeps_cors h (fst (ServeHTTP se env srv r s))"
      using assms(2) by (auto simp: ServeHTTP_def h None intro!: cors_intro keeps_if keeps_fst split: option.split prod.split)
    then have "acao (rp_Header resp) = acao h" using assms(1) by (simp add: keeps_cors_def)
    with handleCORS_cases [OF h] None show ?thesis by auto
  next
    case (Some a)
    then have "resp = a" "s' = s" using assms by (simp_all add: ServeHTTP_def h)
    with handleCORS_cases [OF h] Some show ?thesis by auto
  qed
qed

definition demo_cors_server :: Server where
  "demo_cors_server = \<lparr>srv_ready = True,
     srv_verify = \<lparr>sv_region = [], sv_keys = Map.empty, sv_clock = 0, sv_maxSkew = 0\<rparr>,
     srv_publicReadBuckets = Map.empty, srv_cors = Some \<lparr>cp_global = [], cp_buckets = [(''b'', [\<lambda>x. x = ''http://a''])]\<rparr>\<rparr>"

definition demo_preflight :: Request where
  "demo_preflight =
     \<lparr>rq_Method = ''OPTIONS'', rq_URL = \<lparr>u_Scheme = [], u_Host = [], u_Path = ''/b/k'', u_RawPath = [], u_RawQuery = []\<rparr>,
      rq_Host = ''h'', rq_Header = [(''Origin'', [''http://a'']), (''Access-Control-Request-Method'', [''put''])],
      rq_ContentLength = 0, rq_Body = None, rq_RemoteAddr = []\<rparr>"

theorem CORS_opens_to_matching_origins_witness:
  "\<forall>se env (s :: unit ostate). \<exists>resp. ServeHTTP se env demo_cors_server demo_preflight s = (resp, s) \<and> rp_Status resp = 204 \<and>
     acao (rp_Header resp) = ''http://a''"
proof (intro allI)
  fix se env and s :: "unit ostate"
  obtain resp s' where run: "ServeHTTP se env demo_cors_server demo_preflight s = (resp, s')" by fastforce
  have facts: "u_Path (rq_URL demo_preflight) \<notin> {''/healthz'', ''/readyz''}"
      "allow (origin_matcher demo_cors_server demo_preflight) ''http://a''" "preflight_ok demo_preflight" "is_preflight demo_preflight"
      "get_header demo_preflight ''Origin'' = ''http://a''"
    by code_simp+
  then have "origin_matcher demo_cors_server demo_preflight \<noteq> []" by auto
  with CORS_opens_to_matching_origins [OF run facts(1)] run facts
  show "\<exists>resp. ServeHTTP se env demo_cors_server demo_preflight s = (resp, s) \<and> rp_Status resp = 204 \<and>
     acao (rp_Header resp) = ''http://a''" by auto
qed

end
