(* ===== verification/DavFS.thy ===== *)
theory DavFS
  imports StoreGet Http
begin

unbundle bit_operations_syntax

text \<open>
  \<^verbatim>\<open>internal/dav/fs.go\<close>: the file system that \<^verbatim>\<open>golang.org/x/net/webdav\<close> works on. It reads and changes the
  rows of the metadata store directly and goes through the object store for the bytes of a file. A
  method is a step over the state of the object store, which extends that of the metadata store.
\<close>

definition maxRecursiveObjects :: int where "maxRecursiveObjects = 100000"

subsection \<open>Paths\<close>

text \<open>Bucket, key and whether the path is the root.\<close>

definition parsePath :: "string \<Rightarrow> gerror + string \<times> string \<times> bool" where
  "parsePath p =
     (case PathUnescape p of
        None \<Rightarrow> Inl (Sent DavErrBadRequest)
      | Some decoded \<Rightarrow>
          let cleaned = Clean (''/'' @ decoded) in
          if cleaned = ''/'' then Inr ([], [], True)
          else (case SplitN2 (TrimPrefix cleaned ''/'') ''/'' of
              [] \<Rightarrow> Inr ([], [], True)
            | bucket # segments \<Rightarrow>
                if bucket = [] then Inr ([], [], True)
                else (case segments of
                    [] \<Rightarrow> Inr (bucket, [], False)
                  | key # _ \<Rightarrow>
                      Inr (bucket,
                        (if HasSuffix decoded ''/'' \<and> key \<noteq> [] \<and> \<not> HasSuffix key ''/'' then key @ ''/'' else key), False))))"

definition canonicalCollectionKey :: "string \<Rightarrow> string" where
  "canonicalCollectionKey key = (if key = [] \<or> HasSuffix key ''/'' then key else key @ ''/'')"

definition parentPrefix :: "string \<Rightarrow> string" where
  "parentPrefix key =
     (let trimmed = TrimSuffix key ''/'' in
      case LastIndex trimmed ''/'' of None \<Rightarrow> [] | Some idx \<Rightarrow> take (Suc idx) trimmed)"

definition is_missing :: "gerror \<Rightarrow> bool" where
  "is_missing err \<longleftrightarrow> errors_Is err DavErrNotFound \<or> errors_Is err MetaErrNotFound"

definition davPathError :: "string \<Rightarrow> string \<Rightarrow> gerror \<Rightarrow> gerror" where
  "davPathError op name err = PathError op name (if is_missing err then Sent OsErrNotExist else err)"

subsection \<open>File information\<close>

record davFileInfo =
  fi_name :: string
  fi_size :: int
  fi_modTime :: int
  fi_isDir :: bool
  fi_contentType :: string
  fi_etag :: string

definition dir_info :: "string \<Rightarrow> int \<Rightarrow> davFileInfo" where
  "dir_info name modTime = \<lparr>fi_name = name, fi_size = 0, fi_modTime = modTime, fi_isDir = True,
     fi_contentType = [], fi_etag = []\<rparr>"

definition object_info :: "string \<Rightarrow> Object \<Rightarrow> davFileInfo" where
  "object_info name ob = \<lparr>fi_name = name, fi_size = ob_Size ob, fi_modTime = ob_LastModified ob, fi_isDir = False,
     fi_contentType = ob_ContentType ob, fi_etag = ob_ETag ob\<rparr>"

definition rootInfo :: davFileInfo where
  "rootInfo = dir_info ''/'' zero_time"

text \<open>\<^verbatim>\<open>Mode\<close>: the directory bit and the permissions 0755 or 0644.\<close>

definition Mode :: "davFileInfo \<Rightarrow> bool \<times> int" where
  "Mode info = (if fi_isDir info then (True, 493) else (False, 420))"

definition ContentType :: "davFileInfo \<Rightarrow> string" where
  "ContentType info =
     (if fi_contentType info \<noteq> [] then fi_contentType info
      else if fi_isDir info then ''httpd/unix-directory'' else ''application/octet-stream'')"

definition ETag :: "davFileInfo \<Rightarrow> string" where
  "ETag info = (if fi_etag info = [] then [] else Quote (fi_etag info))"

subsection \<open>Collections\<close>

definition requireEnabledBucket :: "oenv \<Rightarrow> string \<Rightarrow> ('w, unit) act" where
  "requireEnabledBucket env bucket =
     sbind (stry (GetBucket env bucket)) (\<lambda>r.
       case r of
         Inl err \<Rightarrow> if errors_Is err MetaErrNotFound then sfail (Sent DavErrNotFound) else sfail err
       | Inr rec \<Rightarrow> if \<not> bk_Enabled rec then sfail (Sent WebdavErrForbidden) else sret ())"

definition statCollection :: "oenv \<Rightarrow> string \<Rightarrow> string \<Rightarrow> ('w, davFileInfo) act" where
  "statCollection env bucket prfx =
     (if prfx = [] then
        sbind (stry (GetBucket env bucket)) (\<lambda>r.
          case r of
            Inl err \<Rightarrow> if errors_Is err MetaErrNotFound then sfail (Sent DavErrNotFound) else sfail err
          | Inr rec \<Rightarrow>
              if \<not> bk_Enabled rec then sfail (Sent WebdavErrForbidden)
              else sret (dir_info bucket (bk_CreatedAt rec)))
      else
        sbind (stry (HeadObject env bucket prfx)) (\<lambda>r.
          case r of
            Inr ob \<Rightarrow> sret ((dir_info (Base (TrimSuffix prfx ''/'')) (ob_LastModified ob))
                        \<lparr>fi_contentType := ob_ContentType ob, fi_etag := ob_ETag ob\<rparr>)
          | Inl err \<Rightarrow>
              if \<not> errors_Is err MetaErrNotFound then sfail err
              else
                sbind (ListObjects env \<lparr>lq_Bucket = bucket, lq_Prefix = prfx, lq_AfterKey = [], lq_Limit = 1\<rparr>) (\<lambda>objects.
                  case objects of
                    [] \<Rightarrow> sfail (Sent DavErrNotFound)
                  | ob # _ \<Rightarrow> sret (dir_info (Base (TrimSuffix prfx ''/'')) (ob_LastModified ob)))))"

definition checkCollectionExists :: "oenv \<Rightarrow> string \<Rightarrow> string \<Rightarrow> ('w, bool) act" where
  "checkCollectionExists env bucket prfx =
     (if prfx = [] then sret True
      else
        sbind (stry (statCollection env bucket prfx)) (\<lambda>r.
          case r of
            Inr _ \<Rightarrow> sret True
          | Inl err \<Rightarrow> if is_missing err then sret False else sfail err))"

text \<open>\<^verbatim>\<open>collectionExists\<close> drops the error: a failed lookup is no collection.\<close>

definition collectionExists :: "oenv \<Rightarrow> string \<Rightarrow> string \<Rightarrow> ('w, bool) act" where
  "collectionExists env bucket prfx =
     sbind (stry (checkCollectionExists env bucket prfx)) (\<lambda>r.
       case r of Inr found \<Rightarrow> sret found | Inl _ \<Rightarrow> sret False)"

fun children_loop :: "string \<Rightarrow> string set \<Rightarrow> Object list \<Rightarrow> davFileInfo list" where
  "children_loop prfx seen [] = []"
| "children_loop prfx seen (ob # obs) =
     (let remainder = TrimPrefix (ob_Key ob) prfx in
      if remainder = [] then children_loop prfx seen obs
      else case Index remainder ''/'' of
          Some idx \<Rightarrow>
            let name = take (Suc idx) remainder in
            if name \<in> seen then children_loop prfx seen obs
            else dir_info name (ob_LastModified ob) # children_loop prfx (insert name seen) obs
        | None \<Rightarrow> object_info remainder ob # children_loop prfx seen obs)"

definition collectionChildren :: "oenv \<Rightarrow> string \<Rightarrow> string \<Rightarrow> ('w, davFileInfo list) act" where
  "collectionChildren env bucket prfx =
     sbind (ListAllObjects env bucket prfx) (\<lambda>objects. sret (sort_key fi_name (children_loop prfx {} objects)))"

subsection \<open>Files\<close>

text \<open>An open file. The buffer of a file that is read is its bytes and the position in them, that of a
  file that is written the bytes so far. (The field \<^verbatim>\<open>reader\<close> of the source is never set.)\<close>

record davFile =
  df_bucket :: string
  df_key :: string
  df_object :: "Object option"
  df_isDir :: bool
  df_children :: "davFileInfo list"
  df_readPos :: nat
  df_readBuf :: "(bytes \<times> int) option"
  df_write :: "bytes option"
  df_closed :: bool

definition new_file :: "string \<Rightarrow> string \<Rightarrow> davFile" where
  "new_file bucket key = \<lparr>df_bucket = bucket, df_key = key, df_object = None, df_isDir = False, df_children = [],
     df_readPos = 0, df_readBuf = None, df_write = None, df_closed = False\<rparr>"

definition openRootCollection :: "oenv \<Rightarrow> ('w, davFile) act" where
  "openRootCollection env =
     sbind (ListBuckets env) (\<lambda>buckets.
       sret ((new_file [] [])\<lparr>df_isDir := True,
               df_children := map (\<lambda>b. dir_info (bk_Name b) (bk_CreatedAt b)) buckets\<rparr>))"

definition openCollection :: "oenv \<Rightarrow> string \<Rightarrow> string \<Rightarrow> ('w, davFile) act" where
  "openCollection env bucket prfx =
     sbind (statCollection env bucket prfx) (\<lambda>_.
     sbind (collectionChildren env bucket prfx) (\<lambda>children.
       sret ((new_file bucket prfx)\<lparr>df_isDir := True, df_children := children\<rparr>)))"

text \<open>The bits of \<^verbatim>\<open>O_WRONLY\<close>, \<^verbatim>\<open>O_RDWR\<close>, \<^verbatim>\<open>O_CREATE\<close>, \<^verbatim>\<open>O_TRUNC\<close> and \<^verbatim>\<open>O_APPEND\<close>.\<close>

definition write_flags :: int where
  "write_flags = 0x1 OR 0x2 OR 0x40 OR 0x200 OR 0x400"

definition OpenFile :: "oenv \<Rightarrow> string \<Rightarrow> int \<Rightarrow> ('w, davFile) act" where
  "OpenFile env name flag =
     sbind (slift (parsePath name)) (\<lambda>(bucket, key, isRoot).
     let writeMode = flag AND write_flags \<noteq> 0 in
     if writeMode \<and> (isRoot \<or> HasSuffix name ''/'') then sfail (Sent WebdavErrForbidden)
     else if isRoot then openRootCollection env
     else
       sbind (requireEnabledBucket env bucket) (\<lambda>_.
       if key = [] \<or> HasSuffix key ''/'' then openCollection env bucket (canonicalCollectionKey key)
       else if writeMode then
         sbind (checkCollectionExists env bucket (canonicalCollectionKey key)) (\<lambda>exists.
           if exists then sfail (Sent DavErrConflict)
           else sret ((new_file bucket key)\<lparr>df_write := Some []\<rparr>))
       else
         sbind (stry (HeadObject env bucket key)) (\<lambda>r.
           case r of
             Inr ob \<Rightarrow> sret ((new_file bucket key)\<lparr>df_object := Some ob\<rparr>)
           | Inl err \<Rightarrow>
               if \<not> errors_Is err MetaErrNotFound then sfail err
               else
                 sbind (collectionExists env bucket (canonicalCollectionKey key)) (\<lambda>exists.
                   if exists then openCollection env bucket (canonicalCollectionKey key)
                   else sfail (Sent DavErrNotFound)))))"

text \<open>A method of a file may change the file and the store.\<close>

type_synonym ('w, 'a) file_op = "davFile \<Rightarrow> 'w ostate \<Rightarrow> (gerror + 'a) \<times> davFile \<times> 'w ostate"

definition ensureReadBuffer :: "oenv \<Rightarrow> ('w, bytes \<times> int) file_op" where
  "ensureReadBuffer env f s =
     (case df_readBuf f of
        Some buf \<Rightarrow> (Inr buf, f, s)
      | None \<Rightarrow>
          (case Store_GetObject env (df_bucket f) (df_key f) None s of
             (Inl err, s') \<Rightarrow> (Inl err, f, s')
           | (Inr ((data, Some err), _), s') \<Rightarrow> (Inl err, f, s')
           | (Inr ((data, None), _), s') \<Rightarrow> (Inr (data, 0), f\<lparr>df_readBuf := Some (data, 0)\<rparr>, s')))"

text \<open>\<^verbatim>\<open>Read(p)\<close> with \<open>n = len(p)\<close>: the bytes read; a call at the end of the file is \<^verbatim>\<open>io.EOF\<close>.\<close>

definition file_Read :: "oenv \<Rightarrow> nat \<Rightarrow> ('w, bytes) file_op" where
  "file_Read env n f s =
     (if df_isDir f \<or> df_object f = None then (Inl (Msg ''is a directory''), f, s)
      else case ensureReadBuffer env f s of
          (Inl err, f', s') \<Rightarrow> (Inl err, f', s')
        | (Inr (data, pos), f', s') \<Rightarrow>
            if pos \<ge> int (length data) then (Inl (Sent IoEOF), f', s')
            else
              let p = take n (drop (nat pos) data) in
              (Inr p, f'\<lparr>df_readBuf := Some (data, pos + int (length p))\<rparr>, s'))"

definition file_Seek :: "oenv \<Rightarrow> int \<Rightarrow> int \<Rightarrow> ('w, int) file_op" where
  "file_Seek env offset whence f s =
     (if df_isDir f \<or> df_object f = None then (Inl (Msg ''is a directory''), f, s)
      else case ensureReadBuffer env f s of
          (Inl err, f', s') \<Rightarrow> (Inl err, f', s')
        | (Inr (data, pos), f', s') \<Rightarrow>
            if whence \<notin> {0, 1, 2} then (Inl (Msg ''bytes.Reader.Seek: invalid whence''), f', s')
            else
              let target = i64 (offset + (if whence = 0 then 0 else if whence = 1 then pos else int (length data))) in
              if target < 0 then (Inl (Msg ''bytes.Reader.Seek: negative position''), f', s')
              else (Inr target, f'\<lparr>df_readBuf := Some (data, target)\<rparr>, s'))"

definition file_Write :: "bytes \<Rightarrow> ('w, int) file_op" where
  "file_Write p f s =
     (case df_write f of
        None \<Rightarrow> (Inl (Sent WebdavErrForbidden), f, s)
      | Some buf \<Rightarrow> (Inr (int (length p)), f\<lparr>df_write := Some (buf @ p)\<rparr>, s))"

definition file_Close :: "oenv \<Rightarrow> ('w, unit) file_op" where
  "file_Close env f s =
     (if df_closed f then (Inr (), f, s)
      else
        let f' = f\<lparr>df_closed := True\<rparr> in
        case df_write f of
          None \<Rightarrow> (Inr (), f', s)
        | Some buf \<Rightarrow>
            (case Store_PutObject env \<lparr>pi_Bucket = df_bucket f, pi_Key = df_key f, pi_ContentType = [],
                    pi_Size = int (length buf), pi_Body = Some \<lparr>rd_data = buf, rd_err = None\<rparr>\<rparr> s of
               (Inl err, s') \<Rightarrow> (Inl err, f', s')
             | (Inr _, s') \<Rightarrow> (Inr (), f', s')))"

definition file_Readdir :: "int \<Rightarrow> davFile \<Rightarrow> (gerror + davFileInfo list) \<times> davFile" where
  "file_Readdir count f =
     (if \<not> df_isDir f then (Inl (Msg ''not a directory''), f)
      else
        let start = df_readPos f; total = length (df_children f) in
        if start \<ge> total then ((if count > 0 then Inl (Sent IoEOF) else Inr []), f)
        else
          let stop = (if count > 0 \<and> int start + count < int total then start + nat count else total) in
          (Inr (take (stop - start) (drop start (df_children f))), f\<lparr>df_readPos := stop\<rparr>))"

definition file_Stat :: "oenv \<Rightarrow> davFile \<Rightarrow> ('w, davFileInfo) act" where
  "file_Stat env f =
     (if df_isDir f then
        (let name = (if df_key f \<noteq> [] then Base (TrimSuffix (df_key f) ''/'') else df_bucket f)
         in sret (dir_info (if name = [] then ''/'' else name) zero_time))
      else case df_write f of
          Some buf \<Rightarrow>
            sbind (clock_now env) (\<lambda>now.
              sret \<lparr>fi_name = Base (df_key f), fi_size = int (length buf), fi_modTime = now, fi_isDir = False,
                    fi_contentType = [], fi_etag = []\<rparr>)
        | None \<Rightarrow>
            (case df_object f of
               Some ob \<Rightarrow> sret (object_info (Base (df_key f)) ob)
             | None \<Rightarrow> sfail (davPathError ''stat'' (df_key f) (Sent DavErrNotFound))))"

subsection \<open>The file system\<close>

definition Mkdir :: "oenv \<Rightarrow> string \<Rightarrow> ('w, unit) act" where
  "Mkdir env name =
     sbind (slift (parsePath name)) (\<lambda>(bucket, key0, isRoot).
     if isRoot then sfail (Sent WebdavErrForbidden)
     else
       sbind (requireEnabledBucket env bucket) (\<lambda>_.
       if key0 = [] then sfail (Sent WebdavErrForbidden)
       else
         let key = canonicalCollectionKey key0; sibling = TrimSuffix key ''/''; parent = parentPrefix key in
         sbind (checkCollectionExists env bucket key) (\<lambda>exists.
         if exists then sfail (Sent DavErrConflict)
         else
           sbind (if sibling = [] then sret ()
                  else sbind (stry (HeadObject env bucket sibling)) (\<lambda>r.
                    case r of
                      Inr _ \<Rightarrow> sfail (Sent DavErrConflict)
                    | Inl err \<Rightarrow> if \<not> errors_Is err MetaErrNotFound then sfail err else sret ())) (\<lambda>_.
           sbind (if parent = [] then sret ()
                  else sbind (stry (statCollection env bucket parent)) (\<lambda>r.
                    case r of
                      Inr _ \<Rightarrow> sret ()
                    | Inl err \<Rightarrow> if is_missing err then sfail (Sent DavErrConflict) else sfail err)) (\<lambda>_.
           sbind (clock_now env) (\<lambda>now.
             PutObject env
               \<lparr>ob_Bucket = bucket, ob_Key = key, ob_Size = 0, ob_ContentType = ''httpd/unix-directory'', ob_ETag = [],
                ob_SHA256 = [], ob_LastModified = now, ob_ChunkCount = 0, ob_TelegramType = [],
                ob_UploadStrategy = []\<rparr> []))))))"

text \<open>The removal of a collection, which \<^verbatim>\<open>RemoveAll\<close> writes out twice.\<close>

definition remove_collection :: "oenv \<Rightarrow> string \<Rightarrow> string \<Rightarrow> ('w, unit) act" where
  "remove_collection env bucket prfx =
     sbind (CountObjects env bucket prfx) (\<lambda>count.
       if count = 0 then sfail (Sent DavErrNotFound)
       else if count > maxRecursiveObjects
       then sfail (Msg (''recursive delete exceeds '' @ Itoa maxRecursiveObjects @ '' object limit''))
       else DeletePrefix env bucket prfx)"

definition RemoveAll :: "oenv \<Rightarrow> string \<Rightarrow> ('w, unit) act" where
  "RemoveAll env name =
     sbind (slift (parsePath name)) (\<lambda>(bucket, key, isRoot).
     if isRoot then sfail (Sent WebdavErrForbidden)
     else
       sbind (stry (GetBucket env bucket)) (\<lambda>r.
         case r of
           Inl err \<Rightarrow> if errors_Is err MetaErrNotFound then sfail (Sent DavErrNotFound) else sfail err
         | Inr bucketRecord \<Rightarrow>
             if key = [] then
               (if bk_Enabled bucketRecord then sfail (Sent WebdavErrForbidden) else DeleteBucket env bucket)
             else if \<not> bk_Enabled bucketRecord then sfail (Sent WebdavErrForbidden)
             else if HasSuffix key ''/'' then remove_collection env bucket (canonicalCollectionKey key)
             else
               sbind (stry (HeadObject env bucket key)) (\<lambda>h.
                 case h of
                   Inr _ \<Rightarrow> DeleteObject env bucket key
                 | Inl err \<Rightarrow>
                     if \<not> errors_Is err MetaErrNotFound then sfail err
                     else
                       sbind (collectionExists env bucket (canonicalCollectionKey key)) (\<lambda>exists.
                         if exists then remove_collection env bucket (canonicalCollectionKey key)
                         else sfail (Sent DavErrNotFound)))))"

definition Rename :: "string \<Rightarrow> string \<Rightarrow> ('w, unit) act" where
  "Rename oldName newName = sfail (Sent WebdavErrForbidden)"

definition Stat :: "oenv \<Rightarrow> string \<Rightarrow> ('w, davFileInfo) act" where
  "Stat env name =
     sbind (slift (parsePath name)) (\<lambda>(bucket, key, isRoot).
     if isRoot then sret rootInfo
     else
       sbind (requireEnabledBucket env bucket) (\<lambda>_.
       if key = [] \<or> HasSuffix key ''/'' then
         sbind (stry (statCollection env bucket (canonicalCollectionKey key))) (\<lambda>r.
           case r of
             Inr info \<Rightarrow> sret info
           | Inl err \<Rightarrow> if key \<noteq> [] then sfail (davPathError ''stat'' name err) else sfail err)
       else
         sbind (stry (HeadObject env bucket key)) (\<lambda>r.
           case r of
             Inr ob \<Rightarrow> sret (object_info (Base key) ob)
           | Inl err \<Rightarrow>
               if \<not> errors_Is err MetaErrNotFound then sfail (davPathError ''stat'' name err)
               else
                 sbind (collectionExists env bucket (canonicalCollectionKey key)) (\<lambda>exists.
                   if exists then
                     sbind (stry (statCollection env bucket (canonicalCollectionKey key))) (\<lambda>q.
                       case q of Inr info \<Rightarrow> sret info | Inl err2 \<Rightarrow> sfail (davPathError ''stat'' name err2))
                   else sfail (davPathError ''stat'' name (Sent DavErrNotFound))))))"

end
