(* ===== verification/DavHandler.thy ===== *)
theory DavHandler
  imports DavFS Responses ListToken
begin

text \<open>
  \<^verbatim>\<open>internal/dav/handler.go\<close> and \<^verbatim>\<open>lock.go\<close>: the WebDAV handler in front of the one of
  \<^verbatim>\<open>golang.org/x/net/webdav\<close>. That handler is a parameter (\<open>de_webdav\<close>), as is \<^verbatim>\<open>url.Parse\<close> of the
  destination; log lines are left out.
\<close>

record 'w dav_env =
  de_webdav :: "Request \<Rightarrow> 'w ostate \<Rightarrow> Response \<times> 'w ostate"
  de_Parse :: "string \<Rightarrow> gerror + url"

record Handler =
  dh_prefix :: string
  dh_creds :: "string \<rightharpoonup> string"

definition NewHandler :: "string \<Rightarrow> (string \<rightharpoonup> string) \<Rightarrow> Handler" where
  "NewHandler prfx creds =
     (let p1 = (if prfx = [] then ''/dav/'' else prfx);
          p2 = (if \<not> HasPrefix p1 ''/'' then ''/'' @ p1 else p1);
          p3 = (if \<not> HasSuffix p2 ''/'' then p2 @ ''/'' else p2) in
      \<lparr>dh_prefix = p3, dh_creds = creds\<rparr>)"

subsection \<open>Basic authentication\<close>

text \<open>\<^verbatim>\<open>base64.StdEncoding.DecodeString\<close>: the other two characters for 62 and 63, and padding to groups of four.\<close>

definition std_value :: "char \<Rightarrow> nat option" where
  "std_value c =
     (if c = CHR ''+'' then Some 62 else if c = CHR ''/'' then Some 63
      else if c = CHR ''-'' \<or> c = CHR ''_'' then None else b64_value c)"

definition std_DecodeString :: "string \<Rightarrow> bytes option" where
  "std_DecodeString s =
     (let cs = filter (\<lambda>c. c \<noteq> CHR 0x0A \<and> c \<noteq> CHR 0x0D) s;
          stripped = (if HasSuffix cs ''=='' then take (length cs - 2) cs
                      else if HasSuffix cs ''='' then take (length cs - 1) cs else cs) in
      if length cs mod 4 \<noteq> 0 then None else Option.bind (those (map std_value stripped)) b64_groups)"

text \<open>\<^verbatim>\<open>r.BasicAuth()\<close>: user and password.\<close>

definition BasicAuth :: "Request \<Rightarrow> (string \<times> string) option" where
  "BasicAuth r =
     (let auth = get_header r ''Authorization'' in
      if \<not> EqualFold (take 6 auth) ''Basic '' then None
      else case std_DecodeString (drop 6 auth) of
          None \<Rightarrow> None
        | Some cs \<Rightarrow> (case Cut cs '':'' of (user, password, ok) \<Rightarrow> if ok then Some (user, password) else None))"

definition basic_auth_ok :: "Handler \<Rightarrow> Request \<Rightarrow> bool" where
  "basic_auth_ok h r \<longleftrightarrow>
     (case BasicAuth r of
        None \<Rightarrow> False
      | Some (user, pass) \<Rightarrow> dh_creds h user = Some pass)"

definition unauthorized :: Response where
  "unauthorized = http_Error (header_Set ''Www-Authenticate'' (''Basic realm='' @ [CHR 0x22] @ ''tgnas'' @ [CHR 0x22]) [])
     ''Unauthorized'' 401"

subsection \<open>Helpers\<close>

definition requestPath :: "Handler \<Rightarrow> Request \<Rightarrow> gerror + string" where
  "requestPath h r =
     (if \<not> HasPrefix (u_Path (rq_URL r)) (dh_prefix h) then Inl (Sent DavErrNotFound)
      else Inr (''/'' @ TrimPrefix (u_Path (rq_URL r)) (dh_prefix h)))"

definition hasObject :: "oenv \<Rightarrow> string \<Rightarrow> string \<Rightarrow> ('w, bool) act" where
  "hasObject env bucket key =
     sbind (stry (HeadObject env bucket key)) (\<lambda>r.
       case r of
         Inr _ \<Rightarrow> sret True
       | Inl err \<Rightarrow> if errors_Is err MetaErrNotFound then sret False else sfail err)"

definition hasCollection :: "oenv \<Rightarrow> string \<Rightarrow> string \<Rightarrow> ('w, bool) act" where
  "hasCollection env bucket key = checkCollectionExists env bucket (canonicalCollectionKey key)"

definition destinationKindConflict :: "oenv \<Rightarrow> string \<Rightarrow> string \<Rightarrow> bool \<Rightarrow> ('w, bool) act" where
  "destinationKindConflict env bucket dstKey srcIsCollection =
     (if srcIsCollection then hasObject env bucket dstKey else hasCollection env bucket dstKey)"

definition parseOverwrite :: "string \<Rightarrow> gerror + bool" where
  "parseOverwrite v =
     (if v = [] \<or> v = ''T'' then Inr True else if v = ''F'' then Inr False
      else Inl (Msg (''invalid Overwrite header: '' @ v)))"

definition isSubpath :: "string \<Rightarrow> string \<Rightarrow> bool" where
  "isSubpath parent child \<longleftrightarrow> child \<noteq> parent \<and> HasPrefix child parent"

definition resolveDestination :: "(string \<Rightarrow> gerror + url) \<Rightarrow> Handler \<Rightarrow> string \<Rightarrow> Request \<Rightarrow> gerror + string" where
  "resolveDestination parse h destination r =
     (if TrimSpace destination = [] then Inl (Msg ''missing Destination'')
      else case parse destination of
          Inl err \<Rightarrow> Inl err
        | Inr u \<Rightarrow>
            if u_Host u \<noteq> [] \<and> u_Host u \<noteq> rq_Host r then Inl (Sent WebdavErrForbidden)
            else if u_Scheme u \<noteq> [] \<and> u_Host u = [] then Inl (Msg ''malformed Destination'')
            else if \<not> HasPrefix (u_Path u) (dh_prefix h) then Inl (Msg (''destination must start with '' @ dh_prefix h))
            else Inr (''/'' @ TrimPrefix (u_Path u) (dh_prefix h)))"

definition writeCopyMoveError :: "gerror \<Rightarrow> Response" where
  "writeCopyMoveError err =
     (if Contains (Error err) ''already exists'' then http_Error [] (Error err) 412
      else if errors_Is err MetaErrNotFound then http_Error [] (Error err) 404
      else http_Error [] (Error err) 500)"

definition writeCreatedStatus :: "bool \<Rightarrow> Response" where
  "writeCreatedStatus created = respond (if created then 201 else 204) [] []"

definition internal_error :: Response where
  "internal_error = http_Error [] ''Internal Server Error'' 500"

definition forbidden :: Response where
  "forbidden = http_Error [] ''Forbidden'' 403"

text \<open>A call with the answer to its error and the way on from its result.\<close>

definition on_result ::
    "('w, 'a) act \<Rightarrow> (gerror \<Rightarrow> Response) \<Rightarrow> ('a \<Rightarrow> 'w ostate \<Rightarrow> Response \<times> 'w ostate) \<Rightarrow> 'w ostate \<Rightarrow> Response \<times> 'w ostate" where
  "on_result m bad k s = (case m s of (Inl e, s') \<Rightarrow> (bad e, s') | (Inr x, s') \<Rightarrow> k x s')"

definition plain_error :: "int \<Rightarrow> gerror \<Rightarrow> Response" where
  "plain_error status err = http_Error [] (Error err) status"

subsection \<open>COPY and MOVE\<close>

text \<open>Whether the source is a collection.\<close>

definition source_is_collection :: "oenv \<Rightarrow> string \<Rightarrow> string \<Rightarrow> ('w, gerror + bool) act" where
  "source_is_collection env bucket key =
     (if HasSuffix key ''/'' then sret (Inr True)
      else
        sbind (stry (HeadObject env bucket key)) (\<lambda>r.
          case r of
            Inr _ \<Rightarrow> sret (Inr False)
          | Inl err \<Rightarrow>
              if errors_Is err MetaErrNotFound then sbind (hasCollection env bucket key) (\<lambda>found. sret (Inr found))
              else sret (Inl err)))"

definition copy_move_collection :: "oenv \<Rightarrow> string \<Rightarrow> string \<Rightarrow> string \<Rightarrow> bool \<Rightarrow> bool \<Rightarrow> 'w ostate \<Rightarrow> Response \<times> 'w ostate" where
  "copy_move_collection env bucket srcKey dstKey move overwrite =
     on_result (destinationKindConflict env bucket dstKey True) (plain_error 500) (\<lambda>conflict.
       let srcPrefix = canonicalCollectionKey srcKey; dstPrefix = canonicalCollectionKey dstKey in
       if conflict then Pair (http_Error [] ''destination already exists'' 412)
       else if move \<and> srcPrefix = dstPrefix then Pair (http_Error [] ''source and destination are the same'' 403)
       else if isSubpath srcPrefix dstPrefix then Pair (http_Error [] ''cannot copy or move into own subtree'' 403)
       else on_result (CountObjects env bucket srcPrefix) (plain_error 500) (\<lambda>count.
         if count = 0 then Pair (http_Error [] (Error (Sent MetaErrNotFound)) 404)
         else if count > maxRecursiveObjects then Pair (http_Error [] ''too many objects'' 500)
         else on_result (if move then MovePrefix env bucket srcPrefix dstPrefix overwrite
                         else CopyPrefix env bucket srcPrefix dstPrefix overwrite)
                writeCopyMoveError (\<lambda>created. Pair (writeCreatedStatus created))))"

definition copy_move_object :: "oenv \<Rightarrow> string \<Rightarrow> string \<Rightarrow> string \<Rightarrow> bool \<Rightarrow> bool \<Rightarrow> 'w ostate \<Rightarrow> Response \<times> 'w ostate" where
  "copy_move_object env bucket srcKey dstKey move overwrite =
     on_result (destinationKindConflict env bucket dstKey False) (plain_error 500) (\<lambda>conflict.
       if conflict then Pair (http_Error [] ''destination already exists'' 412)
       else if move \<and> srcKey = dstKey then Pair (http_Error [] ''source and destination are the same'' 403)
       else on_result (if move then MoveObject env bucket srcKey dstKey overwrite
                       else CopyObject env bucket srcKey dstKey overwrite)
              writeCopyMoveError (\<lambda>created. Pair (writeCreatedStatus created)))"

definition handleCopyMove ::
    "'w dav_env \<Rightarrow> oenv \<Rightarrow> Handler \<Rightarrow> Request \<Rightarrow> string \<Rightarrow> bool \<Rightarrow> 'w ostate \<Rightarrow> Response \<times> 'w ostate" where
  "handleCopyMove de env h r srcPath move =
     (case resolveDestination (de_Parse de) h (get_header r ''Destination'') r of
        Inl err \<Rightarrow> Pair (plain_error (if errors_Is err WebdavErrForbidden then 403 else 400) err)
      | Inr dstPath \<Rightarrow>
          (case parseOverwrite (get_header r ''Overwrite'') of
             Inl err \<Rightarrow> Pair (plain_error 400 err)
           | Inr overwrite \<Rightarrow>
               (case (parsePath srcPath, parsePath dstPath) of
                  (Inl err, _) \<Rightarrow> Pair (plain_error 400 err)
                | (Inr _, Inl err) \<Rightarrow> Pair (plain_error 400 err)
                | (Inr (srcBucket, srcKey, srcIsRoot), Inr (dstBucket, dstKey, dstIsRoot)) \<Rightarrow>
                    if srcIsRoot \<or> dstIsRoot \<or> srcKey = [] \<or> dstKey = [] then Pair forbidden
                    else if srcBucket \<noteq> dstBucket then Pair (http_Error [] ''cross-bucket copy/move forbidden'' 403)
                    else
                      on_result (source_is_collection env srcBucket srcKey) (\<lambda>_. internal_error) (\<lambda>q.
                        case q of
                          Inl err \<Rightarrow> Pair (plain_error 500 err)
                        | Inr True \<Rightarrow> copy_move_collection env srcBucket srcKey dstKey move overwrite
                        | Inr False \<Rightarrow> copy_move_object env srcBucket srcKey dstKey move overwrite))))"

definition handleCopy :: "'w dav_env \<Rightarrow> oenv \<Rightarrow> Handler \<Rightarrow> Request \<Rightarrow> string \<Rightarrow> 'w ostate \<Rightarrow> Response \<times> 'w ostate" where
  "handleCopy de env h r srcPath = handleCopyMove de env h r srcPath False"

definition handleMove :: "'w dav_env \<Rightarrow> oenv \<Rightarrow> Handler \<Rightarrow> Request \<Rightarrow> string \<Rightarrow> 'w ostate \<Rightarrow> Response \<times> 'w ostate" where
  "handleMove de env h r srcPath = handleCopyMove de env h r srcPath True"

subsection \<open>ServeHTTP\<close>

definition handleOptions :: "oenv \<Rightarrow> Handler \<Rightarrow> Request \<Rightarrow> 'w ostate \<Rightarrow> Response \<times> 'w ostate" where
  "handleOptions env h r s =
     (case requestPath h r of
        Inl _ \<Rightarrow> (http_NotFound [], s)
      | Inr davPath \<Rightarrow>
          (case stry (Stat env davPath) s of
             (q, s') \<Rightarrow>
               let allowed = (case q of
                     Inr (Inr info) \<Rightarrow>
                       (if fi_isDir info
                        then ''OPTIONS, PUT, MKCOL, DELETE, PROPPATCH, COPY, MOVE, LOCK, UNLOCK, PROPFIND''
                        else ''OPTIONS, GET, HEAD, POST, DELETE, PROPPATCH, COPY, MOVE, LOCK, UNLOCK, PROPFIND, PUT'')
                   | _ \<Rightarrow> ''OPTIONS, PUT, MKCOL, LOCK, UNLOCK, PROPFIND'') in
               (respond 200 (header_Set ''Ms-Author-Via'' ''DAV'' (header_Set ''Dav'' ''1, 2''
                  (header_Set ''Allow'' allowed []))) [], s')))"

definition handleOrphanDelete :: "oenv \<Rightarrow> string \<Rightarrow> 'w ostate \<Rightarrow> Response \<times> 'w ostate" where
  "handleOrphanDelete env bucket =
     on_result (DeleteBucket env bucket) (\<lambda>_. internal_error) (\<lambda>_. Pair (respond 204 [] []))"

text \<open>What follows once the bucket is known to be enabled.\<close>

definition serve_enabled ::
    "'w dav_env \<Rightarrow> oenv \<Rightarrow> Handler \<Rightarrow> Request \<Rightarrow> string \<Rightarrow> string \<Rightarrow> string \<Rightarrow> bool \<Rightarrow> 'w ostate \<Rightarrow> Response \<times> 'w ostate" where
  "serve_enabled de env h r davPath bucket key isRoot =
     (let continue =
            (if rq_Method r = ''COPY'' then handleCopy de env h r davPath
             else if rq_Method r = ''MOVE'' then handleMove de env h r davPath
             else de_webdav de r) in
      if \<not> isRoot \<and> rq_Method r = ''PUT'' \<and> \<not> HasSuffix key ''/'' then
        on_result (hasCollection env bucket key) (\<lambda>_. internal_error) (\<lambda>exists.
          if exists then Pair (http_Error [] ''collection already exists'' 409) else continue)
      else if \<not> isRoot \<and> rq_Method r = ''MKCOL'' \<and> key \<noteq> [] \<and> TrimSuffix key ''/'' \<noteq> [] then
        on_result (hasObject env bucket (TrimSuffix key ''/'')) (\<lambda>_. internal_error) (\<lambda>exists.
          if exists then Pair (http_Error [] ''object already exists'' 409) else continue)
      else continue)"

definition dav_ServeHTTP :: "'w dav_env \<Rightarrow> oenv \<Rightarrow> Handler \<Rightarrow> Request \<Rightarrow> 'w ostate \<Rightarrow> Response \<times> 'w ostate" where
  "dav_ServeHTTP de env h r0 =
     (if \<not> HasPrefix (u_Path (rq_URL r0)) (dh_prefix h) then Pair (http_NotFound [])
      else if \<not> basic_auth_ok h r0 then Pair unauthorized
      else if rq_Method r0 = ''OPTIONS'' then handleOptions env h r0
      else if rq_Method r0 = ''PROPFIND'' \<and> EqualFold (get_header r0 ''Depth'') ''infinity''
      then Pair (http_Error [] ''Depth infinity is forbidden'' 403)
      else
        let r = (if rq_Method r0 = ''PROPFIND'' \<and> get_header r0 ''Depth'' = []
                 then r0\<lparr>rq_Header := header_Set ''Depth'' ''1'' (rq_Header r0)\<rparr> else r0) in
        (case requestPath h r of
           Inl err \<Rightarrow> Pair (plain_error 400 err)
         | Inr davPath \<Rightarrow>
             (case parsePath davPath of
                Inl err \<Rightarrow> Pair (plain_error 400 err)
              | Inr (bucket, key, isRoot) \<Rightarrow>
                  if \<not> isRoot \<and> rq_Method r = ''MKCOL'' \<and> key = [] then Pair forbidden
                  else if isRoot then serve_enabled de env h r davPath bucket key isRoot
                  else
                    on_result (GetBucket env bucket)
                      (\<lambda>err. if errors_Is err MetaErrNotFound then http_NotFound [] else internal_error)
                      (\<lambda>bucketRecord.
                        if \<not> bk_Enabled bucketRecord then
                          (if rq_Method r = ''DELETE'' \<and> key = [] then handleOrphanDelete env bucket
                           else Pair forbidden)
                        else serve_enabled de env h r davPath bucket key isRoot))))"

subsection \<open>Locks\<close>

text \<open>\<^verbatim>\<open>lock.go\<close>: a lock system that grants every lock. Its state is the number of tokens given out.\<close>

definition lock_Confirm :: "nat \<Rightarrow> gerror option \<times> nat" where
  "lock_Confirm next = (None, next)"

definition lock_Create :: "nat \<Rightarrow> string \<times> nat" where
  "lock_Create next = (''opaquelocktoken:tgnas-'' @ Itoa (int (Suc next)), Suc next)"

definition lock_Refresh :: "string \<Rightarrow> nat \<Rightarrow> gerror option \<times> nat" where
  "lock_Refresh token next = (Some (Msg ''webdav: no such lock''), next)"

definition lock_Unlock :: "string \<Rightarrow> nat \<Rightarrow> gerror option \<times> nat" where
  "lock_Unlock token next = (None, next)"

definition rejectLock :: "Request \<Rightarrow> Response option" where
  "rejectLock r =
     (if rq_Method r \<noteq> ''LOCK'' \<and> rq_Method r \<noteq> ''UNLOCK'' then None
      else Some (http_Error [] ''Not Implemented'' 501))"

end
