(* ===== verification/PrefixCopy.thy ===== *)
theory PrefixCopy
  imports MetaProps
begin

text \<open>
  The prefix operations of \<^verbatim>\<open>metadata/sqlite.go\<close> on the whole map from keys to objects: what CopyPrefix and
  MovePrefix leave under every key, and when they report that the target is new.
\<close>

subsection \<open>The flag and the overwrite check of the loop\<close>

definition free_keys :: "string \<Rightarrow> string \<Rightarrow> string \<Rightarrow> Object list \<Rightarrow> tables \<Rightarrow> bool" where
  "free_keys b p d rs t \<longleftrightarrow> (\<forall>r \<in> set rs. \<not> has_object t b (dst_key p d r))"

lemma free_keys_copy_row:
  assumes "tables_wf t" "dst_key p d r \<notin> dst_key p d ` set rs"
  shows "free_keys b p d rs (copy_row b p d now r t) = free_keys b p d rs t"
  using assms(2) unfolding free_keys_def has_object_def copy_row_facts(1) [OF assms(1)] by (auto simp: image_iff)

lemma ok_copyPrefixLoop_created:
  assumes "tables_wf (tabs s)" "distinct (map (dst_key p d) rs)"
  shows "(\<And>s'. tabs s' = copy_tables b p d now rs (tabs s) \<Longrightarrow> free_keys b p d rs (tabs s) \<or> ow \<Longrightarrow>
      Q (created \<and> free_keys b p d rs (tabs s)) s') \<Longrightarrow>
    ok (copyPrefixLoop env b p d ow now created rs) Q s"
  using assms
proof (induction rs arbitrary: created s)
  case (Cons r rs)
  have "ok (copyPrefixLoop env b p d ow now (if has_object (tabs s) b (dst_key p d r) then False else created) rs) Q s1"
    if t: "tabs s1 = copy_row b p d now r (tabs s)" and ow: "has_object (tabs s) b (dst_key p d r) \<longrightarrow> ow" for s1
  proof (rule Cons.IH)
    have fk: "free_keys b p d rs (copy_row b p d now r (tabs s)) = free_keys b p d rs (tabs s)"
      using Cons.prems(2,3) by (intro free_keys_copy_row) simp_all
    have cons: "free_keys b p d (r # rs) (tabs s) \<longleftrightarrow> \<not> has_object (tabs s) b (dst_key p d r) \<and> free_keys b p d rs (tabs s)"
      by (simp add: free_keys_def)
    show "tables_wf (tabs s1)" unfolding t using Cons.prems(2) by (rule wf_copy_row)
    show "Q ((if has_object (tabs s) b (dst_key p d r) then False else created) \<and> free_keys b p d rs (tabs s1)) s'"
      if "tabs s' = copy_tables b p d now rs (tabs s1)" "free_keys b p d rs (tabs s1) \<or> ow" for s'
      using Cons.prems(1) [of s'] that ow unfolding t fk cons by (auto split: if_splits)
  qed (use Cons.prems in simp)
  then show ?case
    by (auto simp: Let_def wp_simps listChunksInTx_def copy_row_def dst_key_def [symmetric] intro!: ok_intros)
qed (simp add: wp_simps free_keys_def)

text \<open>Some object of the tree under \<open>p\<close> has a counterpart under \<open>d\<close> already.\<close>

definition target_taken :: "string \<Rightarrow> string \<Rightarrow> string \<Rightarrow> tables \<Rightarrow> bool" where
  "target_taken b p d t \<longleftrightarrow> (\<exists>x. contents t (b, p @ x) \<noteq> None \<and> contents t (b, d @ x) \<noteq> None)"

lemma free_keys_prefix_rows:
  assumes "tables_wf t" "like_exact env b p t"
  shows "free_keys b p d (prefix_rows env b p t) t \<longleftrightarrow> \<not> target_taken b p d t"
proof -
  have "(\<exists>r \<in> set (prefix_rows env b p t). has_object t b (dst_key p d r)) \<longleftrightarrow> target_taken b p d t"
  proof
    assume "\<exists>r \<in> set (prefix_rows env b p t). has_object t b (dst_key p d r)"
    then obtain r where r: "HasPrefix (ob_Key r) p" "contents t (b, ob_Key r) \<noteq> None" "has_object t b (dst_key p d r)"
      unfolding prefix_rows_iff [OF assms] bex_simps by (metis option.discI prefix_rows_iff [OF assms])
    then show "target_taken b p d t"
      unfolding target_taken_def has_object_def using dst_key_prefix [OF r(1), of d] HasPrefix_split [OF r(1)] by metis
  next
    assume "target_taken b p d t"
    then obtain x r cs where x: "contents t (b, p @ x) = Some (r, cs)" "contents t (b, d @ x) \<noteq> None"
      by (auto simp: target_taken_def)
    then have "ob_Key r = p @ x" "cs = sel_chunks b (p @ x) t"
      by (auto simp: contents_def find_object_wf [OF assms(1)] ob_id_def)
    with x have "r \<in> set (prefix_rows env b p t)" "has_object t b (dst_key p d r)"
      by (simp_all add: prefix_rows_iff [OF assms] has_object_def dst_key_def TrimPrefix_def HasPrefix_iff)
    then show "\<exists>r \<in> set (prefix_rows env b p t). has_object t b (dst_key p d r)" by blast
  qed
  then show ?thesis by (auto simp: free_keys_def)
qed

lemma ok_copyPrefixInTx_created:
  assumes "tables_wf (tabs s)" "like_exact env b p (tabs s)"
    and "\<And>now s'. tabs s' = copy_tables b p d now (prefix_rows env b p (tabs s)) (tabs s) \<Longrightarrow>
      \<not> target_taken b p d (tabs s) \<or> ow \<Longrightarrow> Q (\<not> target_taken b p d (tabs s)) s'"
  shows "ok (copyPrefixInTx env b p d ow) Q s"
  unfolding copyPrefixInTx_def
proof (intro ok_sbind ok_query ok_time_Now, rule ok_copyPrefixLoop_created)
  fix now s'
  let ?s = "tick_up (tick_up s)" and ?rs = "map scanObject (sel_objects (like_pred env b p) (tabs s))"
  have rs: "?rs = prefix_rows env b p (tabs s)" by (simp add: prefix_rows_def)
  note fk = free_keys_prefix_rows [OF assms(1,2), of d]
  show "tables_wf (tabs ?s)" using assms(1) by simp
  show "distinct (map (dst_key p d) ?rs)" unfolding rs by (rule distinct_prefix_rows [OF assms(1,2)])
  show "Q (True \<and> free_keys b p d ?rs (tabs ?s)) s'"
    if "tabs s' = copy_tables b p d now ?rs (tabs ?s)" "free_keys b p d ?rs (tabs ?s) \<or> ow"
    using assms(3) [of s' now] that unfolding rs by (simp add: fk)
qed

lemma prefix_operation_created:
  fixes s s' :: "'z sqlite_scheme"
  assumes "tables_wf (tabs s)" "like_exact env b p (tabs s)"
    and "(if move then MovePrefix env b p d ow s else CopyPrefix env b p d ow s) = (Inr created, s')"
  shows "created = (\<not> target_taken b p d (tabs s)) \<and> (target_taken b p d (tabs s) \<longrightarrow> ow)"
proof -
  let ?Q = "\<lambda>c (s' :: 'z sqlite_scheme). c = (\<not> target_taken b p d (tabs s)) \<and> (target_taken b p d (tabs s) \<longrightarrow> ow)"
  have "ok (CopyPrefix env b p d ow) ?Q s"
    unfolding CopyPrefix_def using assms(1,2) by (intro ok_in_tx ok_copyPrefixInTx_created) simp_all
  moreover have "ok (MovePrefix env b p d ow) ?Q s"
    unfolding MovePrefix_def using assms(1,2)
    by (auto simp: wp_simps intro!: ok_in_tx ok_sbind ok_copyPrefixInTx_created ok_deletePrefixInTx)
  ultimately show ?thesis using assms(3) by (auto dest: wp_Inr split: if_splits)
qed

subsection \<open>The map after a prefix operation\<close>

text \<open>Every object below \<open>p\<close> is found under \<open>d\<close> with its size, type, times and chunks as \<open>copied\<close> makes them; it is
  gone from its old key exactly if the tree was moved; whatever else was there is as before.\<close>

definition tree_copied :: "string \<Rightarrow> string \<Rightarrow> string \<Rightarrow> bool \<Rightarrow> tables \<Rightarrow> tables \<Rightarrow> bool" where
  "tree_copied b p d move t t' \<longleftrightarrow> (\<exists>now. \<forall>b' k. contents t' (b', k) =
     (if b' \<noteq> b then contents t (b', k)
      else if move \<and> HasPrefix k p then None
      else if HasPrefix k d \<and> contents t (b, p @ drop (length d) k) \<noteq> None
      then map_option (copied b k now) (contents t (b, p @ drop (length d) k))
      else contents t (b, k)))"

lemma contents_CopyPrefix:
  assumes wf: "tables_wf (tabs s)" and exact: "like_exact env b p (tabs s)" and apart: "key_apart p d"
    and run: "CopyPrefix env b p d ow s = (Inr created, s')"
  shows "tree_copied b p d False (tabs s) (tabs s')"
proof -
  let ?t = "tabs s" and ?rs = "prefix_rows env b p (tabs s)"
  from wp_Inr [OF CopyPrefix_ok run] obtain now where t': "tabs s' = copy_tables b p d now ?rs ?t" by blast
  have hp: "HasPrefix (ob_Key r) p" if "r \<in> set ?rs" for r
    using that unfolding prefix_rows_iff [OF wf exact] by simp
  have "dst_key p d r \<noteq> ob_Key r'" if "r \<in> set ?rs" "r' \<in> set ?rs" for r r'
    using key_apart_append [OF apart] ci_prefix_refl [OF hp [OF that(2)]] dst_key_prefix [OF hp [OF that(1)]]
    by metis
  then have "dst_key p d ` set ?rs \<inter> ob_Key ` set ?rs = {}" by (auto simp: disjoint_iff)
  note cp = contents_copy_tables [OF wf distinct_prefix_rows [OF wf exact] this, of b now]
  have other: "map_of (copies b p d now ?rs ?t) (b', k) = None" if "b' \<noteq> b" for b' k
    using that by (auto simp: map_of_eq_None_iff copies_def)
  show ?thesis
    unfolding tree_copied_def t' cp map_add_def
    by (intro exI [of _ now]) (auto simp: other map_of_copies [OF wf exact] split: option.splits)
qed

lemma prefix_operation_tree:
  assumes "tables_wf (tabs s)" "like_operator (sq_like env)" "like_exact env b p (tabs s)" "key_apart p d"
    and "(if move then MovePrefix env b p d ow s else CopyPrefix env b p d ow s) = (Inr created, s')"
  shows "tree_copied b p d move (tabs s) (tabs s')"
proof (cases move)
  case True
  with assms(5) have "MovePrefix env b p d ow s = (Inr created, s')" by simp
  from contents_MovePrefix [OF assms(1-4) this] True show ?thesis by (simp only: tree_copied_def simp_thms)
next
  case False
  with assms(5) contents_CopyPrefix [OF assms(1,3,4)] show ?thesis by simp
qed

subsection \<open>A target that holds the source\<close>

text \<open>Between nested prefixes the loop reads what it has already written: copying \<^verbatim>\<open>a/b/\<close> to \<^verbatim>\<open>a/\<close> with leave to
  overwrite first puts \<^verbatim>\<open>a/b/b/x\<close> under \<^verbatim>\<open>a/b/x\<close>, and \<^verbatim>\<open>a/x\<close> then gets the row of the old \<^verbatim>\<open>a/b/x\<close> with the chunks of
  \<^verbatim>\<open>a/b/b/x\<close>; moving it loses the latter altogether.\<close>

definition demo_nested :: sqlite where
  "demo_nested =
     snd (PutObject demo_env (demo_object ''b'' ''a/b/b/x'') [(demo_chunk ''b'' ''a/b/b/x'' 1)\<lparr>ck_TelegramFileID := ''inner''\<rparr>]
       (snd (PutObject demo_env (demo_object ''b'' ''a/b/x'') [(demo_chunk ''b'' ''a/b/x'' 1)\<lparr>ck_TelegramFileID := ''outer''\<rparr>] demo_state)))"

definition chunk_files :: "string \<Rightarrow> tables \<Rightarrow> string list option" where
  "chunk_files k t = map_option (\<lambda>rc. map ck_TelegramFileID (snd rc)) (contents t (''b'', k))"

lemma nested_copy_mixes_chunks:
  "chunk_files ''a/b/x'' (tabs demo_nested) = Some [''outer''] \<and>
   fst (CopyPrefix demo_env ''b'' ''a/b/'' ''a/'' True demo_nested) = Inr False \<and>
   chunk_files ''a/x'' (tabs (snd (CopyPrefix demo_env ''b'' ''a/b/'' ''a/'' True demo_nested))) = Some [''inner'']"
  by code_simp

lemma nested_move_loses_object:
  "fst (MovePrefix demo_env ''b'' ''a/b/'' ''a/'' True demo_nested) = Inr False \<and>
   chunk_files ''a/x'' (tabs (snd (MovePrefix demo_env ''b'' ''a/b/'' ''a/'' True demo_nested))) = Some [''inner''] \<and>
   chunk_files ''a/b/x'' (tabs (snd (MovePrefix demo_env ''b'' ''a/b/'' ''a/'' True demo_nested))) = None"
  by code_simp

end
