(* ===== verification/DavProps.thy ===== *)
theory DavProps
  imports DavHandler StoreProps PrefixCopy
begin

text \<open>
  WebDAV: what is written to a file is what is read back, and a COPY or MOVE is carried out as a whole
  or not at all.
\<close>

lemma quiet_GetBucket [quiet_intro]: "quiet_act (GetBucket env b)"
  unfolding GetBucket_def by (intro quiet_intro) (auto split: option.split intro!: quiet_intro)

lemma quiet_ListObjects [quiet_intro]: "quiet_act (ListObjects env q)"
  unfolding ListObjects_def by (auto intro!: quiet_intro)

lemma quiet_requireEnabled [quiet_intro]: "quiet_act (requireEnabledBucket env b)"
  unfolding requireEnabledBucket_def by (intro quiet_intro) (auto split: sum.split intro!: quiet_intro)

lemma quiet_statCollection [quiet_intro]: "quiet_act (statCollection env b p)"
  unfolding statCollection_def
  by (intro quiet_intro) (auto split: sum.split list.split intro!: quiet_intro)

lemma quiet_collectionExists [quiet_intro]:
  "quiet_act (checkCollectionExists env b p)" "quiet_act (collectionExists env b p)"
  unfolding collectionExists_def checkCollectionExists_def
  by (auto split: sum.split intro!: quiet_intro)

lemma quiet_listAllLoop: "quiet s (snd (listAllLoop env b p a all s))"
proof (induction env b p a all s rule: listAllLoop.induct)
  case (1 env b p a all s)
  obtain r s1 where l: "ListObjects env \<lparr>lq_Bucket = b, lq_Prefix = p, lq_AfterKey = a, lq_Limit = 1000\<rparr> s = (r, s1)"
    by fastforce
  with quiet_actD [OF quiet_ListObjects] have q: "quiet s s1" .
  show ?case
  proof (cases "\<exists>os. r = Inr os \<and> os \<noteq> []")
    case True
    then obtain os where r: "r = Inr os" "os \<noteq> []" by blast
    from "1.IH" [OF l [symmetric] r] quiet_trans [OF q]
    show ?thesis by (simp add: listAllLoop.simps [of env b p a all s] l r)
  next
    case False
    with q show ?thesis by (auto simp: listAllLoop.simps [of env b p a all s] l split: sum.split)
  qed
qed

lemma quiet_ListAllObjects [quiet_intro]: "quiet_act (ListAllObjects env b p)"
  unfolding quiet_act_def ListAllObjects_def using quiet_listAllLoop by blast

lemma quiet_case [quiet_intro]:
  "(\<And>e. quiet_act (f e)) \<Longrightarrow> (\<And>x. quiet_act (g x)) \<Longrightarrow> quiet_act (case r of Inl e \<Rightarrow> f e | Inr x \<Rightarrow> g x)"
  "(\<And>a b c. quiet_act (h a b c)) \<Longrightarrow> quiet_act (case p of (a, b, c) \<Rightarrow> h a b c)"
  by (simp_all split: sum.split prod.split)

lemma quiet_open [quiet_intro]:
  "quiet_act (openRootCollection env)" "quiet_act (openCollection env b p)"
  unfolding openRootCollection_def openCollection_def collectionChildren_def ListBuckets_def by (intro quiet_intro)+

lemma quiet_OpenFile [quiet_intro]: "quiet_act (OpenFile env name flag)"
  unfolding OpenFile_def Let_def by (intro quiet_intro)

text \<open>What a step returns when it succeeds, whatever the state.\<close>

definition yields :: "('w, 'a) act \<Rightarrow> ('a \<Rightarrow> bool) \<Rightarrow> bool" where
  "yields m P \<longleftrightarrow> (\<forall>s x s'. m s = (Inr x, s') \<longrightarrow> P x)"

named_theorems yields_intro \<open>results of steps\<close>

lemma yields_sret [yields_intro]: "P x \<Longrightarrow> yields (sret x) P"
  and yields_sfail [yields_intro]: "yields (sfail e) P"
  by (simp_all add: yields_def sret_def sfail_def)

lemma yields_sbind [yields_intro]: "(\<And>x. yields (k x) P) \<Longrightarrow> yields (sbind m k) P"
  by (auto simp: yields_def sbind_Inr)

lemma yields_if [yields_intro]: "yields m P \<Longrightarrow> yields m' P \<Longrightarrow> yields (if c then m else m') P"
  by simp

lemma yields_case [yields_intro]:
  "(\<And>e. yields (f e) P) \<Longrightarrow> (\<And>y. yields (g y) P) \<Longrightarrow> yields (case r of Inl e \<Rightarrow> f e | Inr y \<Rightarrow> g y) P"
  by (simp split: sum.split)

definition opens :: "string \<Rightarrow> string \<Rightarrow> davFile \<Rightarrow> bool" where
  "opens b k f \<longleftrightarrow> df_write f = None \<and> df_object f = None \<or> f = (new_file b k)\<lparr>df_write := Some []\<rparr> \<or>
     (\<exists>ob. f = (new_file b k)\<lparr>df_object := Some ob\<rparr>)"

lemma sbind_slift_Inr: "sbind (slift (Inr x)) k = k x"
  by (simp add: sbind_def slift_def fun_eq_iff)

lemma OpenFile_object:
  assumes "OpenFile env name flag s = (Inr f, s')" "df_write f \<noteq> None \<or> df_object f \<noteq> None"
  shows "\<exists>b k r. parsePath name = Inr (b, k, r) \<and> quiet s s' \<and>
    (f = (new_file b k)\<lparr>df_write := Some []\<rparr> \<or> (\<exists>ob. f = (new_file b k)\<lparr>df_object := Some ob\<rparr>))"
proof -
  from assms(1) obtain b k r where p: "parsePath name = Inr (b, k, r)"
    by (cases "parsePath name") (auto simp: OpenFile_def sbind_Inr)
  have root: "yields (openRootCollection env) (opens b k)" unfolding openRootCollection_def
    by (rule yields_intro)+ (simp add: opens_def new_file_def)
  have coll: "yields (openCollection env b p) (opens b k)" for p unfolding openCollection_def
    by (rule yields_intro)+ (simp add: opens_def new_file_def)
  have obj: "opens b k ((new_file b k)\<lparr>df_write := Some []\<rparr>)" "opens b k ((new_file b k)\<lparr>df_object := Some ob\<rparr>)" for ob
    by (auto simp: opens_def)
  have "yields (OpenFile env name flag) (opens b k)"
    unfolding OpenFile_def Let_def p sbind_slift_Inr prod.case by (intro yields_intro root coll obj)
  with assms(1) have "opens b k f" unfolding yields_def by blast
  with assms(2) p quiet_actD [OF quiet_OpenFile assms(1)] show ?thesis by (auto simp: opens_def)
qed

subsection \<open>A file, written and read\<close>

text \<open>A client that writes some pieces; one that reads pieces of given lengths up to the end of the file.\<close>

fun file_writes :: "bytes list \<Rightarrow> davFile \<Rightarrow> 'w ostate \<Rightarrow> davFile \<times> 'w ostate" where
  "file_writes [] f s = (f, s)"
| "file_writes (p # ps) f s = (case file_Write p f s of (_, f', s') \<Rightarrow> file_writes ps f' s')"

fun file_reads :: "oenv \<Rightarrow> nat list \<Rightarrow> davFile \<Rightarrow> 'w ostate \<Rightarrow> gerror + bytes" where
  "file_reads env [] f s = Inr []"
| "file_reads env (n # ns) f s =
     (case file_Read env n f s of
        (Inl e, f', s') \<Rightarrow> if e = Sent IoEOF \<and> df_readBuf f' \<noteq> None then Inr [] else Inl e
      | (Inr p, f', s') \<Rightarrow> (case file_reads env ns f' s' of Inl e \<Rightarrow> Inl e | Inr q \<Rightarrow> Inr (p @ q)))"

lemma file_writes_eq: "df_write f = Some buf \<Longrightarrow> file_writes ps f s = (f\<lparr>df_write := Some (buf @ concat ps)\<rparr>, s)"
  by (induction ps arbitrary: f buf) (simp_all add: file_Write_def)

lemma file_reads_buffered:
  "df_readBuf f = Some (data, int pos) \<Longrightarrow> \<not> df_isDir f \<Longrightarrow> df_object f \<noteq> None \<Longrightarrow>
     file_reads env ns f s = Inr (take (sum_list ns) (drop pos data))"
proof (induction ns arbitrary: f s pos)
  case (Cons n ns)
  show ?case
  proof (cases "length data \<le> pos")
    case True
    then show ?thesis using Cons.prems by (simp add: file_Read_def ensureReadBuffer_def)
  next
    case False
    let ?p = "take n (drop pos data)"
    let ?f = "f\<lparr>df_readBuf := Some (data, int (pos + length ?p))\<rparr>"
    have "file_Read env n f s = (Inr ?p, ?f, s)"
      using Cons.prems False by (simp add: file_Read_def ensureReadBuffer_def Let_def)
    moreover have "file_reads env ns ?f s = Inr (take (sum_list ns) (drop (pos + length ?p) data))"
      using Cons.prems by (intro Cons.IH) simp_all
    moreover have "take (sum_list (n # ns)) (drop pos data) = ?p @ take (sum_list ns) (drop (pos + length ?p) data)"
      by (cases "n \<le> length (drop pos data)") (simp_all add: take_add add.commute)
    ultimately show ?thesis by (simp del: length_take sum_list.Cons)
  qed
qed simp

lemma file_reads_all:
  assumes "df_readBuf f = None" "\<not> df_isDir f" "df_object f \<noteq> None" "file_reads env ns f s = Inr out"
    and get: "\<And>data info s'. Store_GetObject env (df_bucket f) (df_key f) None s = (Inr ((data, None), info), s') \<Longrightarrow> data = bs"
  shows "out = take (sum_list ns) bs"
proof (cases ns)
  case Nil
  then show ?thesis using assms(4) by simp
next
  case (Cons n ms)
  obtain r s' where run: "Store_GetObject env (df_bucket f) (df_key f) None s = (r, s')" by fastforce
  show ?thesis
  proof (cases "\<exists>data info. r = Inr ((data, None), info)")
    case True
    then obtain data info where r: "r = Inr ((data, None), info)" by blast
    with run get have d: "data = bs" by blast
    let ?f = "f\<lparr>df_readBuf := Some (bs, 0)\<rparr>"
    have "file_Read env n f s = file_Read env n ?f s'"
      using assms(1-3) run r d by (auto simp: file_Read_def ensureReadBuffer_def)
    then have "file_reads env ns f s = file_reads env ns ?f s'" by (simp add: Cons)
    moreover have "file_reads env ns ?f s' = Inr (take (sum_list ns) bs)"
      using assms(2,3) file_reads_buffered [of ?f bs 0 env ns s'] by simp
    ultimately show ?thesis using assms(4) by simp
  next
    case False
    then obtain e where "r = Inl e \<or> (\<exists>data info. r = Inr ((data, Some e), info))"
      by (metis old.prod.exhaust option.exhaust sumE)
    then have "file_Read env n f s = (Inl e, f, s')"
      using assms(1-3) run by (auto simp: file_Read_def ensureReadBuffer_def)
    then show ?thesis using assms(1,4) by (simp add: Cons)
  qed
qed

text \<open>C19: Over WebDAV: a file that is opened for writing, written in any pieces and closed without an error, and then
  opened for reading under a name for the same key, reads back as the bytes that were written, in
  whatever pieces it is read.\<close>
theorem Dav_write_then_read:
  assumes "telegram_chat c msgs" "store_inv msgs s" "served_by c s" "plain_uploads s"
    and "OpenFile env name flag s = (Inr f, s1)" "df_write f \<noteq> None"
    and "file_writes ps f s1 = (f1, s2)" "in_i64 (int (length (concat ps)))"
    and "file_Close env f1 s2 = (Inr (), f2, s3)"
    and "OpenFile env' name' flag' s3 = (Inr g, s4)" "df_object g \<noteq> None" "parsePath name' = parsePath name"
    and "file_reads env' ns g s4 = Inr out"
  shows "out = take (sum_list ns) (concat ps)"
proof -
  have "df_write f \<noteq> None \<or> df_object f \<noteq> None" using assms(6) by simp
  from OpenFile_object [OF assms(5) this] obtain b k r where f: "parsePath name = Inr (b, k, r)" "quiet s s1"
    "f = (new_file b k)\<lparr>df_write := Some []\<rparr>"
    using assms(6) by (auto simp: new_file_def)
  then have f1: "f1 = f\<lparr>df_write := Some (concat ps)\<rparr>" "s2 = s1"
    using file_writes_eq [of f "[]" ps s1] assms(7) by (simp_all add: new_file_def)
  let ?input = "\<lparr>pi_Bucket = b, pi_Key = k, pi_ContentType = [], pi_Size = int (length (concat ps)),
      pi_Body = Some \<lparr>rd_data = concat ps, rd_err = None\<rparr>\<rparr>"
  obtain etag where put: "Store_PutObject env ?input s1 = (Inr etag, s3)"
    using assms(9) by (auto simp: file_Close_def f1 f(3) new_file_def Let_def split: prod.splits sum.splits)
  have s1: "store_inv msgs s1" "served_by c s1" "plain_uploads s1"
    using assms(2-4) quiet_keeps [OF f(2)] f(2)
    by (auto simp: plain_uploads_def quiet_def same_def dest: bindings_of_eqD)
  have sz: "in_i64 (pi_Size ?input)" using assms(8) by simp
  from wp_Inr [OF put_effect [OF assms(1) s1 sz] put]
  have s3: "store_inv msgs s3" "served_by c s3" "object_bytes msgs s3 (b, k) = Some (concat ps)"
    by (auto simp: body_of_def)
  have "df_write g \<noteq> None \<or> df_object g \<noteq> None" using assms(11) by simp
  from OpenFile_object [OF assms(10) this] obtain ob where g: "quiet s3 s4" "g = (new_file b k)\<lparr>df_object := Some ob\<rparr>"
    using assms(11,12) f(1) by (auto simp: new_file_def)
  have s4: "store_inv msgs s4" "served_by c s4" "object_bytes msgs s4 (b, k) = Some (concat ps)"
    using s3 quiet_keeps [OF g(1)] by simp_all
  have get: "data = concat ps" if "Store_GetObject env' b k None s4 = (Inr ((data, None), info), s')" for data info s'
    using wp_Inr [OF telegram_chat.Store_GetObject_effect [OF assms(1) s4(1,2), of b k None env'] that] s4(3) assms(8)
    by (auto simp: range_ok_def byte_slice_def)
  show ?thesis
    by (rule file_reads_all [OF _ _ _ assms(13)]) (use get in \<open>auto simp: g(2) new_file_def\<close>)
qed

subsection \<open>COPY and MOVE\<close>

lemma quiet_CountObjects [quiet_intro]: "quiet_act (CountObjects env b p)"
  unfolding CountObjects_def by (intro quiet_intro)

lemma quiet_dav_lookups [quiet_intro]:
  "quiet_act (hasObject env b k)" "quiet_act (hasCollection env b k)"
  unfolding hasObject_def hasCollection_def by (intro quiet_intro)+

lemma quiet_copy_checks [quiet_intro]:
  "quiet_act (destinationKindConflict env b k c)" "quiet_act (source_is_collection env b k)"
  unfolding destinationKindConflict_def source_is_collection_def by (intro quiet_intro)+

lemma quiet_tabs: "quiet_act m \<Longrightarrow> m s = (r, s') \<Longrightarrow> tabs s' = tabs s"
  by (drule (1) quiet_actD) (simp add: quiet_def same_def)

lemma on_result_cases:
  assumes "on_result m bad k s = (resp, s')"
  obtains e where "m s = (Inl e, s')" "resp = bad e" | x s1 where "m s = (Inr x, s1)" "k x s1 = (resp, s')"
  using assms by (auto simp: on_result_def split: prod.splits sum.splits)

lemma dav_error_status:
  "rp_Status (plain_error n err) = n" "rp_Status (http_Error h t n) = n" "rp_Status (writeCopyMoveError err) \<ge> 400"
  "rp_Status forbidden = 403" "rp_Status internal_error = 500"
  by (simp_all add: plain_error_def http_Error_def writeCopyMoveError_def forbidden_def internal_error_def respond_def Let_def)

definition refused :: "Response \<Rightarrow> bool" where
  "refused resp \<longleftrightarrow> rp_Status resp \<ge> 400"

lemma refused_intro:
  "400 \<le> n \<Longrightarrow> refused (plain_error n err)" "400 \<le> n \<Longrightarrow> refused (http_Error h t n)" "refused (writeCopyMoveError err)"
  "refused forbidden" "refused internal_error"
  by (simp_all add: refused_def dav_error_status)

text \<open>An object: the row and its chunks are under the new key, and under the old one unless it moved.\<close>

definition object_done :: "string \<Rightarrow> string \<Rightarrow> string \<Rightarrow> bool \<Rightarrow> bool \<Rightarrow> 'w ostate \<Rightarrow> 'w ostate \<Rightarrow> Response \<Rightarrow> bool" where
  "object_done b k k' move overwrite s s' resp \<longleftrightarrow>
     (\<exists>rc now. contents (tabs s) (b, k) = Some rc \<and>
       rp_Status resp = (if contents (tabs s) (b, k') = None then 201 else 204) \<and>
       (contents (tabs s) (b, k') = None \<or> overwrite) \<and>
       contents (tabs s') = (if move then (contents (tabs s))((b, k') \<mapsto> copied b k' now rc, (b, k) := None)
         else (contents (tabs s))((b, k') \<mapsto> copied b k' now rc)))"

text \<open>A collection: one prefix operation of the metadata store, between prefixes of which the target is not
  inside the source. When no key of the bucket differs from one below the source in case alone, and
  neither prefix lies inside the other (case aside), it has copied or moved the tree: there is a source,
  the answer is 204 exactly if some object of the tree had a counterpart at the target, which needs leave to
  overwrite, and the rows and chunks are those of \<open>tree_copied\<close>.\<close>

definition collection_done ::
    "oenv \<Rightarrow> string \<Rightarrow> string \<Rightarrow> string \<Rightarrow> bool \<Rightarrow> bool \<Rightarrow> 'w ostate \<Rightarrow> 'w ostate \<Rightarrow> Response \<Rightarrow> bool" where
  "collection_done env b k k' move overwrite s s' resp \<longleftrightarrow>
     (let p = canonicalCollectionKey k; d = canonicalCollectionKey k'; t = tabs s in
       \<not> isSubpath p d \<and>
       (\<exists>s1 created. tabs s1 = t \<and> rp_Status resp = (if created then 201 else 204) \<and>
         (if move then MovePrefix env b p d overwrite s1 else CopyPrefix env b p d overwrite s1) = (Inr created, s')) \<and>
       (like_exact env b p t \<and> key_apart p d \<longrightarrow>
         (\<exists>x. contents t (b, p @ x) \<noteq> None) \<and>
         rp_Status resp = (if target_taken b p d t then 204 else 201) \<and> (target_taken b p d t \<longrightarrow> overwrite) \<and>
         tree_copied b p d move t (tabs s')))"

lemma CountObjects_source:
  assumes "CountObjects env b p s = (Inr n, s')" "n \<noteq> 0" "tables_wf (tabs s)" "like_exact env b p (tabs s)"
  shows "\<exists>x. contents (tabs s) (b, p @ x) \<noteq> None"
proof -
  have "ok (CountObjects env b p) (\<lambda>n _. n = int (length (filter (\<lambda>r. like_pred env b p (ob_id r)) (tb_objects (tabs s))))) s"
    unfolding CountObjects_def by (rule ok_query) simp
  from wp_Inr [OF this assms(1)] assms(2)
  have "filter (\<lambda>r. like_pred env b p (ob_id r)) (tb_objects (tabs s)) \<noteq> []" by auto
  then obtain r where r: "r \<in> set (tb_objects (tabs s))" "like_pred env b p (ob_id r)"
    by (auto simp: filter_empty_conv)
  then have b: "ob_Bucket r = b" by (simp add: ob_id_def like_pred_def)
  with r assms(4) have "HasPrefix (ob_Key r) p" by (auto simp: like_exact_def ob_id_def)
  then have "ob_Key r = p @ drop (length p) (ob_Key r)" by (rule HasPrefix_split)
  moreover have "contents (tabs s) (b, ob_Key r) \<noteq> None"
    using r(1) b by (auto simp: contents_def find_object_wf [OF assms(3)] ob_id_def)
  ultimately show ?thesis by metis
qed

lemma created_status: "rp_Status (writeCreatedStatus c) = (if c then 201 else 204)"
  by (simp add: writeCreatedStatus_def respond_def)

lemma copy_move_object_effect:
  assumes "copy_move_object env b k k' move overwrite s = (resp, s')" "tables_wf (tabs s)"
  shows "refused resp \<and> tabs s' = tabs s \<or> object_done b k k' move overwrite s s' resp"
  using assms(1) unfolding copy_move_object_def
proof (cases rule: on_result_cases)
  case (1 e)
  then show ?thesis using quiet_tabs [OF quiet_copy_checks(1) 1(1)] 1(2) by (simp add: refused_intro)
next
  case (2 conflict s1)
  note t = quiet_tabs [OF quiet_copy_checks(1) 2(1)]
  show ?thesis
  proof (cases "conflict \<or> move \<and> k = k'")
    case True
    then show ?thesis using 2(2) t by (auto intro: refused_intro split: if_splits)
  next
    case False
    then have "on_result (if move then MoveObject env b k k' overwrite else CopyObject env b k k' overwrite)
        writeCopyMoveError (\<lambda>created. Pair (writeCreatedStatus created)) s1 = (resp, s')"
      using 2(2) by (simp split: if_splits)
    then show ?thesis
    proof (cases rule: on_result_cases)
      case (1 e)
      then have "tabs s' = tabs s1"
        using failed_unchanged(5) [of env b k k' overwrite s1 e s'] failed_unchanged(6) [of env b k k' overwrite s1 e s']
        by (cases move) simp_all
      then show ?thesis using 1 t by (simp add: refused_intro)
    next
      case (2 created s2)
      then have r: "resp = writeCreatedStatus created" "s2 = s'" by simp_all
      show ?thesis
      proof (cases move)
        case True
        with contents_MoveObject [of s1 env b k k' overwrite created s'] 2(1) r assms(2) t
        show ?thesis by (auto simp: object_done_def created_status)
      next
        case False
        with contents_CopyObject [of s1 env b k k' overwrite created s'] 2(1) r assms(2) t
        show ?thesis by (auto simp: object_done_def created_status)
      qed
    qed
  qed
qed

lemma copy_move_collection_effect:
  assumes "copy_move_collection env b k k' move overwrite s = (resp, s')"
    and wf: "tables_wf (tabs s)" and law: "like_operator (sq_like env)"
  shows "refused resp \<and> tabs s' = tabs s \<or> collection_done env b k k' move overwrite s s' resp"
  using assms(1) unfolding copy_move_collection_def
proof (cases rule: on_result_cases)
  case (1 e)
  then show ?thesis using quiet_tabs [OF quiet_copy_checks(1) 1(1)] 1(2) by (simp add: refused_intro)
next
  case (2 conflict s1)
  note t = quiet_tabs [OF quiet_copy_checks(1) 2(1)]
  let ?p = "canonicalCollectionKey k" and ?p' = "canonicalCollectionKey k'"
  show ?thesis
  proof (cases "conflict \<or> move \<and> ?p = ?p' \<or> isSubpath ?p ?p'")
    case True
    then show ?thesis using 2(2) t by (auto simp: Let_def intro: refused_intro split: if_splits)
  next
    case False
    then obtain rest where "on_result (CountObjects env b ?p) (plain_error 500) rest s1 = (resp, s')"
      and rest: "rest = (\<lambda>count. if count = 0 then Pair (http_Error [] (Error (Sent MetaErrNotFound)) 404)
         else if count > maxRecursiveObjects then Pair (http_Error [] ''too many objects'' 500)
         else on_result (if move then MovePrefix env b ?p ?p' overwrite else CopyPrefix env b ?p ?p' overwrite)
                writeCopyMoveError (\<lambda>created. Pair (writeCreatedStatus created)))"
      using 2(2) by (auto simp: Let_def split: if_splits)
    then show ?thesis
    proof (cases rule: on_result_cases)
      case (1 e)
      then show ?thesis using quiet_tabs [OF quiet_CountObjects 1(1)] 1(2) t by (simp add: refused_intro)
    next
      case (2 count s2)
      note count = 2(1)
      have t2: "tabs s2 = tabs s" using quiet_tabs [OF quiet_CountObjects 2(1)] t by simp
      show ?thesis
      proof (cases "count = 0 \<or> count > maxRecursiveObjects")
        case True
        then show ?thesis using 2(2) t2 by (auto simp: rest intro: refused_intro split: if_splits)
      next
        case False
        with \<open>\<not> (conflict \<or> move \<and> ?p = ?p' \<or> isSubpath ?p ?p')\<close> have sub: "\<not> isSubpath ?p ?p'" "count \<noteq> 0" by simp_all
        from False have "on_result (if move then MovePrefix env b ?p ?p' overwrite else CopyPrefix env b ?p ?p' overwrite)
            writeCopyMoveError (\<lambda>created. Pair (writeCreatedStatus created)) s2 = (resp, s')"
          using 2(2) by (simp add: rest split: if_splits)
        then show ?thesis
        proof (cases rule: on_result_cases)
          case (1 e)
          then have "tabs s' = tabs s2"
            using failed_unchanged(7) [of env b ?p ?p' overwrite s2 e s'] failed_unchanged(8) [of env b ?p ?p' overwrite s2 e s']
            by (cases move) simp_all
          then show ?thesis using 1 t2 by (simp add: refused_intro)
        next
          case (2 created s3)
          then have r: "resp = writeCreatedStatus created" "s3 = s'" by simp_all
          have "(if move then MovePrefix env b ?p ?p' overwrite s2 else CopyPrefix env b ?p ?p' overwrite s2) = (Inr created, s')"
            using 2(1) r by (cases move) simp_all
          note run = this
          have "\<exists>x. contents (tabs s) (b, ?p @ x) \<noteq> None" if "like_exact env b ?p (tabs s)"
            using CountObjects_source [OF count] sub(2) wf that t by simp
          moreover have "tree_copied b ?p ?p' move (tabs s) (tabs s')" if "like_exact env b ?p (tabs s)" "key_apart ?p ?p'"
            using prefix_operation_tree [of s2 env b ?p ?p' move overwrite created s'] run wf law that t2 by simp
          moreover have "created = (\<not> target_taken b ?p ?p' (tabs s)) \<and> (target_taken b ?p ?p' (tabs s) \<longrightarrow> overwrite)" if "like_exact env b ?p (tabs s)"
            using prefix_operation_created [of s2 env b ?p move ?p' overwrite created s'] run wf that t2 by simp
          ultimately have "collection_done env b k k' move overwrite s s' resp"
            unfolding collection_done_def Let_def using sub(1) run t2 r(1)
            by (intro conjI exI [of _ s2] exI [of _ created]) (simp_all add: created_status)
          then show ?thesis by blast
        qed
      qed
    qed
  qed
qed


subsection \<open>A run\<close>

definition demo_dav_open :: davFile where
  "demo_dav_open = (new_file ''b'' ''k'')\<lparr>df_write := Some []\<rparr>"

definition demo_dav_store :: "FakeTelegram ostate" where
  "demo_dav_store = demo_store\<lparr>tabs := (tabs demo_store)
     \<lparr>tb_buckets := [\<lparr>bk_Name = ''b'', bk_ChatID = ''-100'', bk_CreatedAt = 0, bk_Enabled = True\<rparr>]\<rparr>\<rparr>"

definition demo_dav_opened :: "FakeTelegram ostate" where
  "demo_dav_opened = snd (OpenFile demo_oenv ''/b/k'' 0x242 demo_dav_store)"

lemma demo_dav_open_run: "fst (OpenFile demo_oenv ''/b/k'' 0x242 demo_dav_store) = Inr demo_dav_open"
  by code_simp

definition demo_dav_closed :: "FakeTelegram ostate" where
  "demo_dav_closed = snd (snd (file_Close demo_oenv (fst (file_writes [''abc'', ''defgh''] demo_dav_open demo_dav_opened)) demo_dav_opened))"

lemma demo_dav_close_run:
  "fst (file_Close demo_oenv (fst (file_writes [''abc'', ''defgh''] demo_dav_open demo_dav_opened)) demo_dav_opened) = Inr ()"
  by code_simp

definition demo_dav_read :: "(gerror + davFile) \<times> FakeTelegram ostate" where
  "demo_dav_read = OpenFile demo_oenv ''/b/k'' 0 demo_dav_closed"

lemma demo_dav_read_run:
  "case demo_dav_read of (Inr g, s) \<Rightarrow> df_object g \<noteq> None \<and> (case file_reads demo_oenv [5, 5] g s of Inr out \<Rightarrow> True | Inl _ \<Rightarrow> False)
   | (Inl _, s) \<Rightarrow> False"
  by code_simp

lemma demo_dav_facts: "store_inv fake_msgs demo_dav_store" "served_by fake_client demo_dav_store" "plain_uploads demo_dav_store"
  using demo_store_facts demo_plain(1)
  by (auto simp: demo_dav_store_def store_inv_def served_by_def plain_uploads_def tables_wf_def contents_def find_object_def
      object_bytes_def chunk_msgs_def bucketChatID_def bucketBinding_def Let_def demo_store_def empty_tables_def sqlite.defs)

theorem Dav_write_then_read_witness:
  "\<exists>g s out. demo_dav_read = (Inr g, s) \<and> file_reads demo_oenv [5, 5] g s = Inr out \<and> out = ''abcdefgh''"
proof -
  have op: "OpenFile demo_oenv ''/b/k'' 0x242 demo_dav_store = (Inr demo_dav_open, demo_dav_opened)"
    using demo_dav_open_run by (simp add: demo_dav_opened_def prod_eq_iff)
  have w: "df_write demo_dav_open \<noteq> None" by (simp add: demo_dav_open_def)
  obtain f1 where f1: "file_writes [''abc'', ''defgh''] demo_dav_open demo_dav_opened = (f1, demo_dav_opened)"
    using file_writes_eq [of demo_dav_open "[]" "[''abc'', ''defgh'']" demo_dav_opened]
    by (simp add: demo_dav_open_def del: file_writes.simps)
  then obtain f2 where cl: "file_Close demo_oenv f1 demo_dav_opened = (Inr (), f2, demo_dav_closed)"
    using demo_dav_close_run by (auto simp: demo_dav_closed_def) (metis prod.collapse)
  obtain g s out where r: "demo_dav_read = (Inr g, s)" "df_object g \<noteq> None" "file_reads demo_oenv [5, 5] g s = Inr out"
    using demo_dav_read_run by (auto split: prod.splits sum.splits)
  have sz: "in_i64 (int (length (concat [''abc'', ''defgh''])))" by (simp add: in_i64_def)
  from Dav_write_then_read [OF fake.telegram_chat_axioms demo_dav_facts op w f1 sz cl _ r(2) refl r(3)] r
  show ?thesis by (simp add: demo_dav_read_def)
qed

definition demo_dav_env :: "FakeTelegram dav_env" where
  "demo_dav_env = \<lparr>de_webdav = (\<lambda>_ s. (respond 501 [] [], s)),
     de_Parse = (\<lambda>v. Inr \<lparr>u_Scheme = [], u_Host = [], u_Path = v, u_RawPath = [], u_RawQuery = []\<rparr>)\<rparr>"

text \<open>The object is first copied to \<^verbatim>\<open>p/x\<close>; then the collection \<^verbatim>\<open>/b/p\<close> is moved to \<^verbatim>\<open>/b/q\<close>.\<close>

definition demo_dav_coll :: "FakeTelegram ostate" where
  "demo_dav_coll = snd (CopyObject demo_oenv ''b'' ''k'' ''p/x'' False demo_dav_closed)"

definition demo_dav_move :: Request where
  "demo_dav_move =
     \<lparr>rq_Method = ''MOVE'', rq_URL = \<lparr>u_Scheme = [], u_Host = [], u_Path = ''/dav/b/p'', u_RawPath = [], u_RawQuery = []\<rparr>,
      rq_Host = ''h'', rq_Header = [(''Destination'', [''/dav/b/q''])], rq_ContentLength = 0, rq_Body = None, rq_RemoteAddr = []\<rparr>"

definition demo_dav_moved :: "Response \<times> FakeTelegram ostate" where
  "demo_dav_moved = handleCopyMove demo_dav_env demo_oenv (NewHandler [] Map.empty) demo_dav_move ''/b/p'' True demo_dav_coll"

lemma demo_dav_move_run:
  "rp_Status (fst demo_dav_moved) = 201" "tables_wf (tabs demo_dav_coll)"
  "parsePath ''/b/p'' = Inr (''b'', ''p'', False)" "parsePath ''/b/q'' = Inr (''b'', ''q'', False)"
  "resolveDestination (de_Parse demo_dav_env) (NewHandler [] Map.empty) (get_header demo_dav_move ''Destination'') demo_dav_move = Inr ''/b/q''"
  "contents (tabs demo_dav_coll) (''b'', ''p'') = None" "contents (tabs demo_dav_coll) (''b'', ''p/x'') \<noteq> None"
  by code_simp+

lemma demo_dav_coll_exact: "like_exact demo_oenv ''b'' ''p/'' (tabs demo_dav_coll)"
  unfolding like_exact_def by code_simp

lemma demo_dav_collections: "canonicalCollectionKey ''p'' = ''p/''" "canonicalCollectionKey ''q'' = ''q/''" "key_apart ''p/'' ''q/''"
  by code_simp+


end
