(* ===== verification/DavTree.thy ===== *)
theory DavTree
  imports DavProps
begin

text \<open>
  The tree that WebDAV shows: creating and removing collections, and listing one. A collection is a key that
  ends in a slash or a common beginning of keys that does; it is there as long as one key starts with it.
\<close>

subsection \<open>What the lookups say of the tables\<close>

text \<open>Errors of the database driver are no \<^verbatim>\<open>ErrNotFound\<close> of the packages.\<close>

definition plain_faults :: "oenv \<Rightarrow> bool" where
  "plain_faults env \<longleftrightarrow> (\<forall>n e. sq_fault env n = Some e \<longrightarrow> \<not> is_missing e)"

text \<open>A collection is there while a key is below it: below by the comparison that is given, \<open>starts_with\<close> as it should
  be, \<open>ci_prefix\<close> as it is, since \<^verbatim>\<open>LIKE\<close> compares letters without their case.\<close>

definition starts_with :: "string \<Rightarrow> string \<Rightarrow> bool" where
  "starts_with p k \<longleftrightarrow> HasPrefix k p"

definition is_collection :: "(string \<Rightarrow> string \<Rightarrow> bool) \<Rightarrow> tables \<Rightarrow> string \<Rightarrow> string \<Rightarrow> bool" where
  "is_collection below t b p \<longleftrightarrow> p = [] \<or> (\<exists>k. below p k \<and> contents t (b, k) \<noteq> None)"

definition bucket_enabled :: "tables \<Rightarrow> string \<Rightarrow> bool" where
  "bucket_enabled t b \<longleftrightarrow> (\<exists>r. find_bucket b t = Some r \<and> bk_Enabled r)"

lemma wp_read:
  assumes "wp m (\<lambda>x s'. tabs s' = tabs s \<and> P x) (\<lambda>e s'. tabs s' = tabs s) s"
    and "\<And>x s'. tabs s' = tabs s \<Longrightarrow> P x \<Longrightarrow> wp (k x) Q E s'" and "\<And>e s'. tabs s' = tabs s \<Longrightarrow> E e s'"
  shows "wp (sbind m k) Q E s"
  unfolding wp_sbind by (rule wp_mono [OF assms(1)]) (use assms(2,3) in auto)

lemma missing [simp]: "is_missing (Sent MetaErrNotFound)" "is_missing (Sent DavErrNotFound)"
  by (simp_all add: is_missing_def)

lemma wp_query_read:
  assumes "plain_faults env"
  shows "wp (query env f) (\<lambda>x s'. tabs s' = tabs s \<and> x = f (tabs s)) (\<lambda>e s'. tabs s' = tabs s \<and> \<not> is_missing e) s"
  using assms by (auto simp: wp_def query_def exec_def plain_faults_def split: option.split)

lemma HeadObject_reads:
  assumes "plain_faults env"
  shows "wp (HeadObject env b k) (\<lambda>r s'. tabs s' = tabs s \<and> (\<exists>cs. contents (tabs s) (b, k) = Some (r, cs)))
    (\<lambda>e s'. tabs s' = tabs s \<and> (is_missing e \<longrightarrow> errors_Is e MetaErrNotFound \<and> contents (tabs s) (b, k) = None)) s"
  unfolding HeadObject_def selectObject_def wp_sbind
  by (rule wp_mono [OF wp_query_read [OF assms]])
    (auto simp: wp_sret wp_sfail contents_def split: option.split)

lemma GetBucket_reads:
  assumes "plain_faults env"
  shows "wp (GetBucket env b) (\<lambda>r s'. tabs s' = tabs s \<and> (bk_Enabled r \<longleftrightarrow> bucket_enabled (tabs s) b))
    (\<lambda>e s'. tabs s' = tabs s) s"
  unfolding GetBucket_def wp_sbind
  by (rule wp_mono [OF wp_query_read [OF assms]])
    (auto simp: wp_sret wp_sfail bucket_enabled_def scanBucket_def split: option.split)

lemma collection_rows:
  assumes "like_operator (sq_like env)" "p \<noteq> []"
  shows "list_page env \<lparr>lq_Bucket = b, lq_Prefix = p, lq_AfterKey = [], lq_Limit = 1\<rparr> t = [] \<longleftrightarrow> \<not> is_collection ci_prefix t b p"
proof -
  have "[] < k" if "ci_prefix p k" for k using that assms(2) by (cases p; cases k) simp_all
  moreover have "sort_key f xs = [] \<longleftrightarrow> xs = []" for f :: "Object \<Rightarrow> string" and xs
    by (metis length_0_conv length_sort)
  ultimately show ?thesis
    using assms(2) like_pred_law [OF assms(1)]
    by (auto simp: list_page_def is_collection_def sel_objects_def contents_None ob_id_def filter_empty_conv image_iff)
qed

lemma statCollection_reads:
  assumes "plain_faults env" "like_operator (sq_like env)" "p \<noteq> []"
  shows "wp (statCollection env b p) (\<lambda>_ s'. tabs s' = tabs s \<and> is_collection ci_prefix (tabs s) b p)
    (\<lambda>e s'. tabs s' = tabs s \<and> (is_missing e \<longrightarrow> \<not> is_collection ci_prefix (tabs s) b p)) s"
  unfolding statCollection_def wp_sbind wp_stry if_not_P [OF assms(3)]
proof (rule wp_mono [OF HeadObject_reads [OF assms(1)]], goal_cases)
  case (1 r s')
  then have "is_collection ci_prefix (tabs s) b p" using ci_prefix_refl [of p p] by (auto simp: is_collection_def HasPrefix_def)
  with 1 show ?case by (simp add: wp_sret)
next
  case (2 e s')
  show ?case
  proof (cases "errors_Is e MetaErrNotFound")
    case True
    have l: "wp (ListObjects env \<lparr>lq_Bucket = b, lq_Prefix = p, lq_AfterKey = [], lq_Limit = 1\<rparr>)
        (\<lambda>x s2. tabs s2 = tabs s \<and> (x = [] \<longleftrightarrow> \<not> is_collection ci_prefix (tabs s) b p)) (\<lambda>e s2. tabs s2 = tabs s \<and> \<not> is_missing e) s'"
      unfolding ListObjects_def wp_sbind wp_sret using 2
      by (intro wp_mono [OF wp_query_read [OF assms(1)]]) (simp_all add: collection_rows [OF assms(2,3)])
    from True show ?thesis
      by (simp add: wp_sbind) (rule wp_mono [OF l], auto simp: wp_sret wp_sfail split: list.split)
  next
    case False
    then show ?thesis using 2 by (auto simp: wp_sfail)
  qed
qed

lemma collectionExists_reads:
  assumes "plain_faults env" "like_operator (sq_like env)"
  shows "wp (checkCollectionExists env b p) (\<lambda>x s'. tabs s' = tabs s \<and> x = is_collection ci_prefix (tabs s) b p)
      (\<lambda>e s'. tabs s' = tabs s) s"
    "wp (collectionExists env b p) (\<lambda>x s'. tabs s' = tabs s \<and> (x \<longrightarrow> is_collection ci_prefix (tabs s) b p)) (\<lambda>e s'. tabs s' = tabs s) s"
proof -
  show c: "wp (checkCollectionExists env b p) (\<lambda>x s'. tabs s' = tabs s \<and> x = is_collection ci_prefix (tabs s) b p)
      (\<lambda>e s'. tabs s' = tabs s) s"
  proof (cases "p = []")
    case False
    then show ?thesis
      unfolding checkCollectionExists_def wp_sbind wp_stry if_not_P [OF False]
      by (intro wp_mono [OF statCollection_reads [OF assms]]) (auto simp: wp_sret wp_sfail)
  qed (simp add: checkCollectionExists_def is_collection_def wp_sret)
  show "wp (collectionExists env b p) (\<lambda>x s'. tabs s' = tabs s \<and> (x \<longrightarrow> is_collection ci_prefix (tabs s) b p)) (\<lambda>e s'. tabs s' = tabs s) s"
    unfolding collectionExists_def wp_sbind wp_stry by (rule wp_mono [OF c]) (simp_all add: wp_sret)
qed

lemma requireEnabled_reads:
  assumes "plain_faults env"
  shows "wp (requireEnabledBucket env b) (\<lambda>_ s'. tabs s' = tabs s \<and> bucket_enabled (tabs s) b) (\<lambda>e s'. tabs s' = tabs s) s"
  unfolding requireEnabledBucket_def wp_sbind wp_stry
  by (rule wp_mono [OF GetBucket_reads [OF assms]]) (auto simp: wp_simps)

subsection \<open>Creating a collection\<close>

text \<open>The row that stands for a collection, and what a \<^verbatim>\<open>Mkdir\<close> that succeeds has done.\<close>

definition marker :: "string \<Rightarrow> string \<Rightarrow> int \<Rightarrow> Object" where
  "marker b k now = \<lparr>ob_Bucket = b, ob_Key = k, ob_Size = 0, ob_ContentType = ''httpd/unix-directory'', ob_ETag = [],
     ob_SHA256 = [], ob_LastModified = now, ob_ChunkCount = 0, ob_TelegramType = [], ob_UploadStrategy = []\<rparr>"

definition dir_created :: "(string \<Rightarrow> string \<Rightarrow> bool) \<Rightarrow> string \<Rightarrow> tables \<Rightarrow> tables \<Rightarrow> bool" where
  "dir_created below name t t' \<longleftrightarrow> (\<exists>b k now. parsePath name = Inr (b, k, False) \<and> k \<noteq> [] \<and> bucket_enabled t b \<and>
     (let dir = canonicalCollectionKey k; parent = parentPrefix dir in
      \<not> is_collection below t b dir \<and> (TrimSuffix dir ''/'' = [] \<or> contents t (b, TrimSuffix dir ''/'') = None) \<and> is_collection below t b parent \<and>
      contents t' = (contents t)((b, dir) \<mapsto> (scanObject (object_row (marker b dir now)), []))))"

lemma Mkdir_effect:
  assumes "plain_faults env" "like_operator (sq_like env)"
  shows "wp (Mkdir env name) (\<lambda>_ s'. dir_created ci_prefix name (tabs s) (tabs s')) (\<lambda>_ s'. tabs s' = tabs s) s"
proof (cases "parsePath name")
  case (Inl e)
  then show ?thesis by (simp add: Mkdir_def wp_simps)
next
  case (Inr p)
  obtain b k isRoot where p: "p = (b, k, isRoot)" by (cases p)
  let ?dir = "canonicalCollectionKey k"
  note path = Inr [unfolded p]
  note reads = requireEnabled_reads [OF assms(1)] collectionExists_reads(1) [OF assms]
  have sibling: "wp (if sib = [] then sret () else sbind (stry (HeadObject env b sib)) (\<lambda>r.
        case r of Inr _ \<Rightarrow> sfail (Sent DavErrConflict)
        | Inl err \<Rightarrow> if \<not> errors_Is err MetaErrNotFound then sfail err else sret ()))
      (\<lambda>_ s'. tabs s' = tabs s1 \<and> (sib = [] \<or> contents (tabs s1) (b, sib) = None)) (\<lambda>e s'. tabs s' = tabs s1) s1" for sib s1
    by (auto simp: wp_sret wp_sfail wp_sbind wp_stry is_missing_def intro!: wp_mono [OF HeadObject_reads [OF assms(1)]])
  have parent: "wp (if p = [] then sret () else sbind (stry (statCollection env b p)) (\<lambda>r.
        case r of Inr _ \<Rightarrow> sret ()
        | Inl err \<Rightarrow> if is_missing err then sfail (Sent DavErrConflict) else sfail err))
      (\<lambda>_ s'. tabs s' = tabs s1 \<and> is_collection ci_prefix (tabs s1) b p) (\<lambda>e s'. tabs s' = tabs s1) s1" for p s1
    by (auto simp: wp_sret wp_sfail wp_sbind wp_stry is_collection_def intro!: wp_mono [OF statCollection_reads [OF assms]])
  have put: "wp (PutObject env (marker b ?dir now) [])
      (\<lambda>_ s'. contents (tabs s') = (contents (tabs s1))((b, ?dir) \<mapsto> (scanObject (object_row (marker b ?dir now)), [])))
      (\<lambda>_ s'. tabs s' = tabs s1) s1" for now s1
  proof (rule wpI)
    show "contents (tabs s') = (contents (tabs s1))((b, ?dir) \<mapsto> (scanObject (object_row (marker b ?dir now)), []))"
      if "PutObject env (marker b ?dir now) [] s1 = (Inr x, s')" for x s'
      using wp_Inr [OF PutObject_ok that] contents_put [of "marker b ?dir now" "[]" "tabs s1"]
      by (simp add: chunks_for_def ob_id_def marker_def)
  qed (rule failed_unchanged(1))
  have clock: "wp (clock_now env) (\<lambda>now s'. tabs s' = tabs s1 \<and> True) (\<lambda>e s'. tabs s' = tabs s1) s1" for s1
    by (simp add: clock_now_def time_Now_def wp_def)
  show ?thesis
  proof (cases "isRoot \<or> k = []")
    case True
    then show ?thesis
      by (auto simp: Mkdir_def path wp_simps intro!: wp_mono [OF reads(1)])
  next
    case False
    then have k: "\<not> isRoot" "k \<noteq> []" by simp_all
    show ?thesis
      unfolding Mkdir_def wp_sbind [of "slift r" for r] wp_slift path sum.case prod.case Let_def if_not_P [OF k(1)] if_not_P [OF k(2)]
    proof (rule wp_read [OF reads(1)], goal_cases)
      case (1 x s1)
      note enabled = this
      show ?case
      proof (rule wp_read [OF reads(2)], goal_cases)
        case (1 exists s2)
        show ?case
        proof (cases exists)
          case False
          have final: "wp (sbind (clock_now env) (\<lambda>now. PutObject env (marker b ?dir now) []))
            (\<lambda>_ s'. dir_created ci_prefix name (tabs s) (tabs s')) (\<lambda>_ s'. tabs s' = tabs s) s4"
            if "tabs s4 = tabs s" "\<not> is_collection ci_prefix (tabs s) b ?dir" 
              "TrimSuffix ?dir ''/'' = [] \<or> contents (tabs s) (b, TrimSuffix ?dir ''/'') = None" "is_collection ci_prefix (tabs s) b (parentPrefix ?dir)"
              "bucket_enabled (tabs s) b" for s4
            using that k path
            by (intro wp_read [OF clock] wp_mono [OF put]) (auto simp: dir_created_def Let_def)
          show ?thesis
            unfolding if_not_P [OF False] marker_def [symmetric]
            by (rule wp_read [OF sibling], rule wp_read [OF parent], rule final) (use enabled 1 False in auto)
        qed (use enabled 1 in \<open>simp add: wp_sfail\<close>)
      qed (use enabled in simp)
    qed
  qed
qed

subsection \<open>Removing\<close>

text \<open>What a \<^verbatim>\<open>RemoveAll\<close> that succeeds has done.\<close>

definition without :: "(string \<times> string \<Rightarrow> bool) \<Rightarrow> (string \<times> string \<rightharpoonup> 'a) \<Rightarrow> (string \<times> string \<rightharpoonup> 'a)" where
  "without P m = (\<lambda>bk. if P bk then None else m bk)"

definition in_tree :: "(string \<Rightarrow> string \<Rightarrow> bool) \<Rightarrow> string \<Rightarrow> string \<Rightarrow> string \<times> string \<Rightarrow> bool" where
  "in_tree below b p bk \<longleftrightarrow> fst bk = b \<and> below p (snd bk)"

definition dir_removed :: "(string \<Rightarrow> string \<Rightarrow> bool) \<Rightarrow> string \<Rightarrow> tables \<Rightarrow> tables \<Rightarrow> bool" where
  "dir_removed below name t t' \<longleftrightarrow> (\<exists>b k. parsePath name = Inr (b, k, False) \<and>
     (if k = [] then \<not> bucket_enabled t b \<and> contents t' = without (\<lambda>bk. fst bk = b) (contents t)
      else bucket_enabled t b \<and>
        (if \<not> HasSuffix k ''/'' \<and> contents t (b, k) \<noteq> None then contents t' = (contents t)((b, k) := None)
         else is_collection below t b (canonicalCollectionKey k) \<and>
           contents t' = without (in_tree below b (canonicalCollectionKey k)) (contents t))))"

text \<open>No key of the bucket differs from the collection that is named, or from its parent, in the case of letters
  alone. Then what happens is what was asked for.\<close>

definition case_told_apart :: "oenv \<Rightarrow> string \<Rightarrow> tables \<Rightarrow> bool" where
  "case_told_apart env name t \<longleftrightarrow> (\<forall>b k isRoot. parsePath name = Inr (b, k, isRoot) \<longrightarrow>
     like_exact env b (canonicalCollectionKey k) t \<and> like_exact env b (parentPrefix (canonicalCollectionKey k)) t)"

lemma like_exact_below:
  assumes "like_operator (sq_like env)" "like_exact env b p t" "contents t (b, k) \<noteq> None"
  shows "ci_prefix p k = starts_with p k"
proof -
  obtain r where "r \<in> set (tb_objects t)" "ob_id r = (b, k)" using assms(3) unfolding contents_None by force
  with assms(2) like_pred_law [OF assms(1)] show ?thesis by (auto simp: like_exact_def ob_id_def starts_with_def)
qed

lemma like_exact_collection:
  "like_operator (sq_like env) \<Longrightarrow> like_exact env b p t \<Longrightarrow> is_collection ci_prefix t b p = is_collection starts_with t b p"
  using like_exact_below unfolding is_collection_def by metis

lemma like_exact_without:
  assumes "like_operator (sq_like env)" "like_exact env b p t"
  shows "without (in_tree ci_prefix b p) (contents t) = without (in_tree starts_with b p) (contents t)"
proof
  fix bk
  show "without (in_tree ci_prefix b p) (contents t) bk = without (in_tree starts_with b p) (contents t) bk"
    using like_exact_below [OF assms, of "snd bk"]
    by (cases bk; cases "contents t (b, snd bk) = None") (auto simp: without_def in_tree_def)
qed

lemma told_apart:
  assumes "like_operator (sq_like env)" "case_told_apart env name t"
  shows "dir_created ci_prefix name t t' \<Longrightarrow> dir_created starts_with name t t'"
    "dir_removed ci_prefix name t t' \<Longrightarrow> dir_removed starts_with name t t'"
proof -
  have exact: "like_exact env b (canonicalCollectionKey k) t" "like_exact env b (parentPrefix (canonicalCollectionKey k)) t"
    if "parsePath name = Inr (b, k, False)" for b k
    using assms(2) that by (auto simp: case_told_apart_def)
  show "dir_created ci_prefix name t t' \<Longrightarrow> dir_created starts_with name t t'"
    unfolding dir_created_def Let_def using exact like_exact_collection [OF assms(1)] by metis
  show "dir_removed ci_prefix name t t' \<Longrightarrow> dir_removed starts_with name t t'"
    unfolding dir_removed_def using exact(1) like_exact_collection [OF assms(1)] like_exact_without [OF assms(1)] by metis
qed

lemma contents_buckets [simp]: "contents (t\<lparr>tb_buckets := bs\<rparr>) = contents t"
  by (simp add: contents_def find_object_def sel_chunks_def fun_eq_iff)

lemma contents_without: "contents (del_tables P t) = without P (contents t)"
  by (simp add: fun_eq_iff contents_del without_def)

lemma count_is_collection:
  assumes "like_operator (sq_like env)" "p \<noteq> []"
  shows "filter (\<lambda>r. like_pred env b p (ob_id r)) (tb_objects t) = [] \<longleftrightarrow> \<not> is_collection ci_prefix t b p"
  using assms(2) like_pred_law [OF assms(1)]
  by (auto simp: is_collection_def contents_None ob_id_def filter_empty_conv image_iff)

lemma remove_collection_effect:
  assumes "plain_faults env" "like_operator (sq_like env)" "p \<noteq> []"
  shows "wp (remove_collection env b p)
    (\<lambda>_ s'. is_collection ci_prefix (tabs s) b p \<and> contents (tabs s') = without (in_tree ci_prefix b p) (contents (tabs s)))
    (\<lambda>_ s'. tabs s' = tabs s) s"
proof -
  have "in_tree ci_prefix b p = like_pred env b p"
    using like_pred_law [OF assms(2)] by (auto simp: in_tree_def fun_eq_iff)
  then have del: "wp (DeletePrefix env b p) (\<lambda>_ s'. contents (tabs s') = without (in_tree ci_prefix b p) (contents (tabs s1)))
      (\<lambda>_ s'. tabs s' = tabs s1) s1" for s1
    by (intro wpI) (auto simp: contents_without dest: wp_Inr [OF DeletePrefix_ok] failed_unchanged(3))
  have count: "wp (CountObjects env b p) (\<lambda>n s'. tabs s' = tabs s \<and> (n = 0 \<longleftrightarrow> \<not> is_collection ci_prefix (tabs s) b p))
      (\<lambda>_ s'. tabs s' = tabs s) s"
    unfolding CountObjects_def
    by (rule wp_mono [OF wp_query_read [OF assms(1)]]) (simp_all add: count_is_collection [OF assms(2,3)])
  show ?thesis
    unfolding remove_collection_def
    by (rule wp_read [OF count]) (auto simp: wp_sfail intro!: wp_mono [OF del])
qed

lemma RemoveAll_effect:
  assumes "plain_faults env" "like_operator (sq_like env)"
  shows "wp (RemoveAll env name) (\<lambda>_ s'. dir_removed ci_prefix name (tabs s) (tabs s')) (\<lambda>_ s'. tabs s' = tabs s) s"
proof (cases "parsePath name")
  case (Inl e)
  then show ?thesis by (simp add: RemoveAll_def wp_simps)
next
  case (Inr p)
  obtain b k isRoot where p: "p = (b, k, isRoot)" by (cases p)
  note path = Inr [unfolded p]
  let ?dir = "canonicalCollectionKey k"
  have tree: "wp (remove_collection env b ?dir) (\<lambda>_ s'. dir_removed ci_prefix name (tabs s) (tabs s')) (\<lambda>_ s'. tabs s' = tabs s) s1"
    if "tabs s1 = tabs s" "k \<noteq> []" "\<not> isRoot" "bucket_enabled (tabs s) b" "HasSuffix k ''/'' \<or> contents (tabs s) (b, k) = None" for s1
  proof -
    have "?dir \<noteq> []" using that(2) by (simp add: canonicalCollectionKey_def)
    from remove_collection_effect [OF assms this] show ?thesis
      by (rule wp_mono) (use that path in \<open>auto simp: dir_removed_def\<close>)
  qed
  have bucket: "wp (DeleteBucket env b) (\<lambda>_ s'. dir_removed ci_prefix name (tabs s) (tabs s')) (\<lambda>_ s'. tabs s' = tabs s) s1"
    if "tabs s1 = tabs s" "k = []" "\<not> isRoot" "\<not> bucket_enabled (tabs s) b" for s1
    using that path
    by (intro wpI) (auto simp: dir_removed_def contents_without dest!: wp_Inr [OF DeleteBucket_ok] failed_unchanged(4))
  have single: "wp (DeleteObject env b k) (\<lambda>_ s'. dir_removed ci_prefix name (tabs s) (tabs s')) (\<lambda>_ s'. tabs s' = tabs s) s1"
    if "tabs s1 = tabs s" "k \<noteq> []" "\<not> isRoot" "bucket_enabled (tabs s) b" "\<not> HasSuffix k ''/''" "contents (tabs s) (b, k) \<noteq> None" for s1
    using that path
    by (intro wpI) (auto simp: dir_removed_def contents_del fun_eq_iff dest!: wp_Inr [OF DeleteObject_ok] failed_unchanged(2))
  show ?thesis
    unfolding RemoveAll_def wp_sbind [of "slift r" for r] wp_slift path sum.case prod.case
    by (auto simp: wp_sbind wp_stry wp_sfail wp_sret is_missing_def
        intro!: wp_mono [OF GetBucket_reads [OF assms(1)]] wp_mono [OF HeadObject_reads [OF assms(1)]]
          wp_mono [OF collectionExists_reads(2) [OF assms]] tree bucket single)
qed

subsection \<open>Listing a collection\<close>

text \<open>The child of the collection \<open>p\<close> that a key below it lies in: the rest of the key, up to its first slash.\<close>

definition dav_child :: "string \<Rightarrow> string \<Rightarrow> string option" where
  "dav_child p k =
     (if \<not> HasPrefix k p \<or> k = p then None
      else Some (case Index (TrimPrefix k p) ''/'' of None \<Rightarrow> TrimPrefix k p | Some i \<Rightarrow> take (Suc i) (TrimPrefix k p)))"

text \<open>What is listed for a child: the object of that key, or a collection.\<close>

definition shows_object :: "string \<Rightarrow> Object \<Rightarrow> davFileInfo \<Rightarrow> bool" where
  "shows_object p ob info \<longleftrightarrow> ob_Key ob = p @ fi_name info \<and> info = object_info (fi_name info) ob"

lemma Index_slash: "Index r ''/'' = Some i \<Longrightarrow> CHR ''/'' \<in> set (take (Suc i) r)"
  by (induction r arbitrary: i) (auto split: if_splits)

definition shown :: "string \<Rightarrow> Object set \<Rightarrow> davFileInfo \<Rightarrow> bool" where
  "shown p obs info \<longleftrightarrow> (if CHR ''/'' \<in> set (fi_name info) then fi_isDir info else \<exists>ob \<in> obs. shows_object p ob info)"

definition lists_children :: "string \<Rightarrow> string set \<Rightarrow> Object set \<Rightarrow> davFileInfo list \<Rightarrow> bool" where
  "lists_children p seen obs infos \<longleftrightarrow> distinct (map fi_name infos) \<and>
     fi_name ` set infos = {n. \<exists>ob \<in> obs. dav_child p (ob_Key ob) = Some n} - seen \<and> (\<forall>info \<in> set infos. shown p obs info)"

lemma shown_more: "shown p A info \<Longrightarrow> A \<subseteq> B \<Longrightarrow> shown p B info"
  by (auto simp: shown_def split: if_splits)

lemma shown_insert: "shown p obs info \<Longrightarrow> shown p (insert ob obs) info"
  by (erule shown_more) blast

lemma lists_children_step:
  "lists_children p seen obs L \<Longrightarrow> dav_child p (ob_Key ob) = None \<or> dav_child p (ob_Key ob) = Some n \<and> n \<in> seen \<Longrightarrow>
   lists_children p seen (insert ob obs) L"
  "lists_children p (insert n seen) obs L \<Longrightarrow> dav_child p (ob_Key ob) = Some n \<Longrightarrow> n \<notin> seen \<Longrightarrow> CHR ''/'' \<in> set n \<Longrightarrow>
   lists_children p seen (insert ob obs) (dir_info n t # L)"
  "lists_children p seen obs L \<Longrightarrow> dav_child p (ob_Key ob) = Some n \<Longrightarrow> ob_Key ob = p @ n \<Longrightarrow> CHR ''/'' \<notin> set n \<Longrightarrow>
   n \<notin> seen \<Longrightarrow> \<forall>x \<in> obs. dav_child p (ob_Key x) \<noteq> Some n \<Longrightarrow> lists_children p seen (insert ob obs) (object_info n ob # L)"
proof -
  have new: "CHR ''/'' \<in> set n \<Longrightarrow> shown p obs (dir_info n t)" "fi_name (dir_info n t) = n" "fi_name (object_info n ob) = n"
    "ob_Key ob = p @ n \<Longrightarrow> CHR ''/'' \<notin> set n \<Longrightarrow> shown p (insert ob obs) (object_info n ob)" for n t and ob obs
    by (auto simp: shown_def shows_object_def dir_info_def object_info_def)
  show "lists_children p seen obs L \<Longrightarrow> dav_child p (ob_Key ob) = None \<or> dav_child p (ob_Key ob) = Some n \<and> n \<in> seen \<Longrightarrow>
     lists_children p seen (insert ob obs) L"
    "lists_children p (insert n seen) obs L \<Longrightarrow> dav_child p (ob_Key ob) = Some n \<Longrightarrow> n \<notin> seen \<Longrightarrow> CHR ''/'' \<in> set n \<Longrightarrow>
     lists_children p seen (insert ob obs) (dir_info n t # L)"
    "lists_children p seen obs L \<Longrightarrow> dav_child p (ob_Key ob) = Some n \<Longrightarrow> ob_Key ob = p @ n \<Longrightarrow> CHR ''/'' \<notin> set n \<Longrightarrow>
     n \<notin> seen \<Longrightarrow> \<forall>x \<in> obs. dav_child p (ob_Key x) \<noteq> Some n \<Longrightarrow> lists_children p seen (insert ob obs) (object_info n ob # L)"
    unfolding lists_children_def by (auto simp: new intro: shown_insert)
qed

lemma lists_children_more:
  assumes "lists_children p seen A infos" "A \<subseteq> B"
    and "{n. \<exists>ob \<in> A. dav_child p (ob_Key ob) = Some n} = {n. \<exists>ob \<in> B. dav_child p (ob_Key ob) = Some n}"
  shows "lists_children p seen B infos"
  using assms shown_more [OF _ assms(2)] unfolding lists_children_def by simp

lemma children_loop_lists:
  assumes "distinct (map ob_Key obs)" "\<forall>ob \<in> set obs. HasPrefix (ob_Key ob) p" "\<forall>n \<in> seen. CHR ''/'' \<in> set n"
  shows "lists_children p seen (set obs) (children_loop p seen obs)"
  using assms
proof (induction obs arbitrary: seen)
  case Nil
  then show ?case by (simp add: lists_children_def)
next
  case (Cons ob obs)
  obtain r where key: "ob_Key ob = p @ r" using Cons.prems(2) by (auto simp: HasPrefix_iff)
  have IH: "lists_children p seen' (set obs) (children_loop p seen' obs)" if "\<forall>n \<in> seen'. CHR ''/'' \<in> set n" for seen'
    using Cons.IH Cons.prems(1,2) that by simp
  consider (marker) "r = []" | (dir) i where "r \<noteq> []" "Index r ''/'' = Some i" | (plain) "r \<noteq> []" "Index r ''/'' = None" by blast
  then show ?case
  proof cases
    case marker
    then show ?thesis using lists_children_step(1) [OF IH [OF Cons.prems(3)], of ob] 
      using TrimPrefix_append [of p "[]"] by (simp add: key dav_child_def)
  next
    case dir
    let ?n = "take (Suc i) r"
    have child: "dav_child p (ob_Key ob) = Some ?n" using dir by (simp add: dav_child_def key)
    note slash = Index_slash [OF dir(2)]
    show ?thesis
      using dir lists_children_step(1) [OF IH [OF Cons.prems(3)], of ob] lists_children_step(2) [OF IH child _ slash] Cons.prems(3) slash child
      by (simp add: key Let_def)
  next
    case plain
    have slash: "CHR ''/'' \<notin> set r" using plain(2) by (simp add: Index_single_None)
    have child: "dav_child p (ob_Key ob) = Some r" using plain by (simp add: dav_child_def key)
    have "dav_child p (ob_Key x) \<noteq> Some r" if x: "x \<in> set obs" for x
    proof -
      have "HasPrefix (ob_Key x) p" using x Cons.prems(2) by simp
      then obtain q where q: "ob_Key x = p @ q" by (auto simp: HasPrefix_iff)
      have "ob_Key ob \<noteq> ob_Key x" using x Cons.prems(1) by (metis distinct.simps(2) imageI list.set_map list.simps(9))
      then have "q \<noteq> r" using q key by auto
      with q slash show ?thesis by (auto simp: dav_child_def dest: Index_slash split: option.splits)
    qed
    moreover have "r \<notin> seen" using slash Cons.prems(3) by blast
    moreover have "children_loop p seen (ob # obs) = object_info r ob # children_loop p seen obs" using plain by (simp add: key)
    ultimately show ?thesis using lists_children_step(3) [OF IH [OF Cons.prems(3)] child key slash] by simp
  qed
qed

definition listed :: "oenv \<Rightarrow> string \<Rightarrow> string \<Rightarrow> tables \<Rightarrow> davFileInfo list" where
  "listed env b p t = sort_key fi_name (children_loop p {} (filter (\<lambda>r. [] < ob_Key r) (prefix_listing env b p t)))"

lemma wp_after:
  assumes "quiet_act m" "\<And>x s'. tabs s' = tabs s \<Longrightarrow> wp (k x) Q (\<lambda>_ _. True) s'"
  shows "wp (sbind m k) Q (\<lambda>_ _. True) s"
  unfolding wp_sbind by (rule wpI) (use assms(2) quiet_tabs [OF assms(1)] in blast)+

lemma wp_try_after:
  assumes "quiet_act m" "\<And>x s'. tabs s' = tabs s \<Longrightarrow> wp (k x) Q (\<lambda>_ _. True) s'"
  shows "wp (sbind (stry m) k) Q (\<lambda>_ _. True) s"
  unfolding wp_sbind wp_stry by (rule wpI) (use assms(2) quiet_tabs [OF assms(1)] in blast)+

lemma openCollection_lists:
  assumes "tables_wf (tabs s)"
  shows "wp (openCollection env b p) (\<lambda>f _. df_readPos f = 0 \<and> df_children f = listed env b p (tabs s)) (\<lambda>_ _. True) s"
  unfolding openCollection_def collectionChildren_def
proof (rule wp_after [OF quiet_statCollection], goal_cases)
  case (1 _ s1)
  have "wp (ListAllObjects env b p) (\<lambda>obs _. obs = filter (\<lambda>r. [] < ob_Key r) (prefix_listing env b p (tabs s))) (\<lambda>_ _. True) s1"
    using 1 assms ListAllObjects_complete [of s1 env b p] by (intro wpI) auto
  then show ?case
    unfolding wp_sbind by (rule wp_mono) (simp_all add: wp_sret listed_def new_file_def)
qed

lemma OpenFile_lists:
  assumes "tables_wf (tabs s)" "parsePath name = Inr (b, k, False)"
  shows "wp (OpenFile env name 0)
    (\<lambda>f _. df_isDir f \<longrightarrow> df_readPos f = 0 \<and> df_children f = listed env b (canonicalCollectionKey k) (tabs s)) (\<lambda>_ _. True) s"
  using assms(1)
  unfolding OpenFile_def wp_sbind [of "slift r" for r] wp_slift assms(2) sum.case prod.case Let_def
  by (auto simp: wp_sret wp_sfail new_file_def split: sum.split
      intro!: wp_after [OF quiet_requireEnabled] wp_after [OF quiet_collectionExists(2)] wp_try_after quiet_intro
        wp_mono [OF openCollection_lists])

lemma listed_children:
  assumes "tables_wf t" "like_exact env b p t"
  shows "lists_children p {} {r. \<exists>cs. contents t (b, ob_Key r) = Some (r, cs)} (listed env b p t) \<and>
    sorted_wrt (<) (map fi_name (listed env b p t))"
proof -
  let ?rows = "filter (\<lambda>r. [] < ob_Key r) (prefix_listing env b p t)"
  have rows: "r \<in> set (prefix_listing env b p t) \<longleftrightarrow> HasPrefix (ob_Key r) p \<and> (\<exists>cs. contents t (b, ob_Key r) = Some (r, cs))" for r
    using prefix_rows_iff [OF assms] by (auto simp: prefix_listing_def prefix_rows_def contents_def)
  have child: "HasPrefix k p \<and> [] < k" if "dav_child p k = Some n" for k n
    using that by (cases k) (auto simp: dav_child_def HasPrefix_def split: if_splits)
  let ?obs = "{r. \<exists>cs. contents t (b, ob_Key r) = Some (r, cs)}"
  have "distinct (map ob_Key (prefix_listing env b p t))"
    using sorted_sel_objects [OF assms(1), of "like_pred env b p" b]
    by (simp add: prefix_listing_def like_pred_def comp_def strict_sorted_iff)
  then have "lists_children p {} (set ?rows) (children_loop p {} ?rows)"
    using rows by (intro children_loop_lists) (auto simp: distinct_map_filter)
  moreover have "set ?rows \<subseteq> ?obs" using rows by auto
  moreover have "{n. \<exists>ob \<in> set ?rows. dav_child p (ob_Key ob) = Some n} = {n. \<exists>ob \<in> ?obs. dav_child p (ob_Key ob) = Some n}"
    using rows child by auto
  ultimately have l: "lists_children p {} ?obs (children_loop p {} ?rows)" by (rule lists_children_more)
  have "distinct (map fi_name (listed env b p t))" using l by (simp add: listed_def lists_children_def distinct_map)
  with l show ?thesis by (simp add: listed_def lists_children_def strict_sorted_iff)
qed

subsection \<open>The properties\<close>

text \<open>C22: \<^verbatim>\<open>Mkdir\<close> and \<^verbatim>\<open>RemoveAll\<close>, as long as the driver does not fail with an error that says something is
  missing: an error has changed no row of the metadata. A \<^verbatim>\<open>Mkdir\<close> that succeeds had
  an enabled bucket, the parent collection in place and neither a collection nor an object of the name, and
  it has added the empty object that marks the collection. A \<^verbatim>\<open>RemoveAll\<close> that succeeds removed a disabled
  bucket, the object of the name, or a collection with everything below it where there was something, and nothing else.
  What is below a collection is compared without the case of letters, so that removing \<^verbatim>\<open>photos/\<close> also removes what is
  below \<^verbatim>\<open>Photos/\<close>; when no key of the bucket differs from the collection or its parent in case alone, it is
  compared exactly.\<close>
theorem Dav_tree_changes:
  assumes "plain_faults env" "like_operator (sq_like env)"
  shows "(case Mkdir env name s of
      (Inl e, s') \<Rightarrow> tabs s' = tabs s
    | (Inr _, s') \<Rightarrow> dir_created ci_prefix name (tabs s) (tabs s') \<and>
        (case_told_apart env name (tabs s) \<longrightarrow> dir_created starts_with name (tabs s) (tabs s'))) \<and>
    (case RemoveAll env name s of
      (Inl e, s') \<Rightarrow> tabs s' = tabs s
    | (Inr _, s') \<Rightarrow> dir_removed ci_prefix name (tabs s) (tabs s') \<and>
        (case_told_apart env name (tabs s) \<longrightarrow> dir_removed starts_with name (tabs s) (tabs s')))"
  using Mkdir_effect [OF assms, of name s] RemoveAll_effect [OF assms, of name s] told_apart [OF assms(2), of name "tabs s"]
  by (auto simp: wp_def split: prod.splits sum.splits)

definition demo_tree :: "FakeTelegram ostate" where
  "demo_tree = snd (Mkdir demo_oenv ''/b/d/'' demo_dav_closed)"

lemma demo_tree_run: "fst (Mkdir demo_oenv ''/b/d/'' demo_dav_closed) = Inr ()"
  by code_simp

definition demo_untree :: "FakeTelegram ostate" where
  "demo_untree = snd (RemoveAll demo_oenv ''/b/d'' demo_tree)"

lemma demo_untree_run: "fst (RemoveAll demo_oenv ''/b/d'' demo_tree) = Inr () \<and> parsePath ''/b/d'' = Inr (''b'', ''d'', False) \<and>
    canonicalCollectionKey ''d'' = ''d/'' \<and> parentPrefix ''d/'' = []"
  by code_simp

lemma demo_tree_exact: "like_exact demo_oenv ''b'' ''d/'' (tabs demo_tree)" "like_exact demo_oenv ''b'' [] (tabs demo_tree)"
  by code_simp+

theorem Dav_tree_changes_witness:
  "dir_created ci_prefix ''/b/d/'' (tabs demo_dav_closed) (tabs demo_tree) \<and>
   dir_removed starts_with ''/b/d'' (tabs demo_tree) (tabs demo_untree)"
proof -
  have env: "plain_faults demo_oenv" "like_operator (sq_like demo_oenv)"
    using demo_like by (simp_all add: plain_faults_def demo_oenv_def demo_env_def sqlite_env.defs)
  have "case_told_apart demo_oenv ''/b/d'' (tabs demo_tree)"
    using demo_untree_run demo_tree_exact by (simp add: case_told_apart_def)
  then show ?thesis
    using Dav_tree_changes [OF env, where name = "''/b/d/''" and s = demo_dav_closed] demo_tree_run
      Dav_tree_changes [OF env, where name = "''/b/d''" and s = demo_tree] demo_untree_run
    by (auto simp: demo_tree_def demo_untree_def split: prod.splits sum.splits)
qed

text \<open>C23: A collection that is opened lists its children in order and each once: the objects directly below it
  and, with a closing slash, the collections directly below it; a child is a collection exactly if it has the
  slash, and the others show the row of the object of that name. This needs that no key of the bucket differs from
  the collection in the case of letters alone: the rows are found by SQLite's case-insensitive \<^verbatim>\<open>LIKE\<close>, and with keys
  \<^verbatim>\<open>photos/1\<close> and \<^verbatim>\<open>Photos/2\<close> the collection \<^verbatim>\<open>photos/\<close> also lists a collection \<^verbatim>\<open>Photos/\<close>.\<close>
theorem Dav_Readdir_lists_children:
  fixes s :: "'w ostate"
  assumes "tables_wf (tabs s)" "parsePath name = Inr (b, k, False)"
    and p: "p = canonicalCollectionKey k" and "like_exact env b p (tabs s)"
    and "OpenFile env name 0 s = (Inr f, s')" "df_isDir f"
  shows "\<exists>infos. fst (file_Readdir 0 f) = Inr infos \<and> sorted_wrt (<) (map fi_name infos) \<and>
    fi_name ` set infos = {n. \<exists>key. contents (tabs s) (b, key) \<noteq> None \<and> dav_child p key = Some n} \<and>
    (\<forall>info \<in> set infos. if CHR ''/'' \<in> set (fi_name info) then fi_isDir info
       else \<exists>ob cs. contents (tabs s) (b, p @ fi_name info) = Some (ob, cs) \<and> info = object_info (fi_name info) ob)"
proof -
  have f: "df_readPos f = 0" "df_children f = listed env b p (tabs s)"
    using wp_Inr [OF OpenFile_lists [OF assms(1,2)] assms(5)] assms(6) p by simp_all
  let ?infos = "listed env b p (tabs s)" and ?obs = "{r. \<exists>cs. contents (tabs s) (b, ob_Key r) = Some (r, cs)}"
  have l: "lists_children p {} ?obs ?infos" "sorted_wrt (<) (map fi_name ?infos)" using listed_children [OF assms(1,4)] by simp_all
  have key: "ob_Key r = key" if "contents (tabs s) (b, key) = Some (r, cs)" for r cs key
    using that by (auto simp: contents_def find_object_def find_Some_iff ob_id_def split: option.splits)
  have all: "fi_name ` set ?infos = {n. \<exists>key. contents (tabs s) (b, key) \<noteq> None \<and> dav_child p key = Some n}"
  proof -
    have "(\<exists>ob \<in> ?obs. dav_child p (ob_Key ob) = Some n) \<longleftrightarrow> (\<exists>key. contents (tabs s) (b, key) \<noteq> None \<and> dav_child p key = Some n)" for n
      using key by (auto, metis)
    then show ?thesis using l(1) by (simp add: lists_children_def)
  qed
  have each: "if CHR ''/'' \<in> set (fi_name info) then fi_isDir info
      else \<exists>ob cs. contents (tabs s) (b, p @ fi_name info) = Some (ob, cs) \<and> info = object_info (fi_name info) ob"
    if "info \<in> set ?infos" for info
  proof -
    have "shown p ?obs info" using l(1) that by (simp add: lists_children_def)
    then show ?thesis by (cases "CHR ''/'' \<in> set (fi_name info)") (simp_all add: shown_def shows_object_def, metis)
  qed
  have "fst (file_Readdir 0 f) = Inr ?infos" using assms(6) f by (simp add: file_Readdir_def Let_def)
  with l(2) all each show ?thesis by blast
qed


text \<open>The listing of \<^verbatim>\<open>photos/\<close> when there is a key below \<^verbatim>\<open>Photos/\<close> too.\<close>

definition demo_cases :: "FakeTelegram ostate" where
  "demo_cases = snd (PutObject demo_oenv (marker ''b'' ''Photos/2'' 0) []
     (snd (PutObject demo_oenv (marker ''b'' ''photos/1'' 0) [] demo_dav_store)))"

lemma listing_mixes_case:
  "(case fst (collectionChildren demo_oenv ''b'' ''photos/'' demo_cases) of Inr infos \<Rightarrow> map fi_name infos | Inl _ \<Rightarrow> []) =
     [''1'', ''Photos/'']"
  by code_simp

definition demo_dir :: davFile where
  "demo_dir = (case fst (OpenFile demo_oenv ''/b/'' 0 demo_tree) of Inr f \<Rightarrow> f | Inl _ \<Rightarrow> new_file [] [])"

lemma demo_dir_run:
  "(case fst (OpenFile demo_oenv ''/b/'' 0 demo_tree) of Inr f \<Rightarrow> df_isDir f | Inl _ \<Rightarrow> False) \<and>
   map fi_name (df_children demo_dir) = [''d/'', ''k''] \<and> df_readPos demo_dir = 0 \<and> parsePath ''/b/'' = Inr (''b'', [], False)"
  by code_simp

lemma demo_tree_wf: "tables_wf (tabs demo_tree)"
  by code_simp

theorem Dav_Readdir_lists_children_witness:
  "sorted_wrt (<) (map fi_name (df_children demo_dir)) \<and> map fi_name (df_children demo_dir) = [''d/'', ''k'']"
proof -
  obtain f s' where f: "OpenFile demo_oenv ''/b/'' 0 demo_tree = (Inr f, s')" "df_isDir f" "demo_dir = f"
    using demo_dir_run by (cases "OpenFile demo_oenv ''/b/'' 0 demo_tree") (auto simp: demo_dir_def split: sum.splits)
  have path: "parsePath ''/b/'' = Inr (''b'', [], False)" and nil: "[] = canonicalCollectionKey []"
    using demo_dir_run by (simp_all add: canonicalCollectionKey_def)
  have start: "df_readPos f = 0" using demo_dir_run f(3) by simp
  from Dav_Readdir_lists_children [OF demo_tree_wf path nil demo_tree_exact(2) f(1,2)] start f(2,3) demo_dir_run
  show ?thesis by (auto simp: file_Readdir_def Let_def)
qed

end
