(* ===== verification/Config.thy ===== *)
theory Config
  imports Runtime UploadStrategies
begin

text \<open>
  \<^verbatim>\<open>config/config.go\<close>: the configuration file. Parameters: the environment (\<open>getenv\<close>), the content of the
  file, the YAML decoder (which decodes over the defaults) and \<^verbatim>\<open>netip.ParsePrefix\<close>. The map of buckets is
  an association list in the order in which it is ranged over.
\<close>

record ServerConfig =
  sc_Listen :: string
  sc_ListenEnv :: string
  sc_PublicBaseURL :: string
  sc_TrustedProxies :: "string list"
  sc_TrustedProxyHosts :: "string list"
  sc_AllowedOrigins :: "string list"

record CredentialConfig =
  cc_AccessKey :: string
  cc_SecretKeyEnv :: string

record AuthConfig =
  ac_Region :: string
  ac_Credentials :: "CredentialConfig list"

record TelegramConfig =
  tc_BotToken :: string
  tc_BotTokenEnv :: string
  tc_APIBaseURL :: string
  tc_CaptionTemplate :: string
  tc_Timeout :: int
  tc_RawTimeout :: int

record MetadataConfig =
  mc_Driver :: string
  mc_SQLitePath :: string
  mc_SQLitePathEnv :: string

record StorageConfig =
  sg_UploadTypeStrategy :: string
  sg_EnableChunking :: "bool option"
  sg_MaxFileSize :: int
  sg_ChunkSize :: int
  sg_TypeSizeLimits :: "string \<rightharpoonup> int"
  sg_MaxConcurrentUploads :: int
  sg_MaxConcurrentDownloads :: int
  sg_MaxConcurrentTelegramRequests :: int
  sg_PutBufferSize :: int

record BucketConfig =
  bc_ChatID :: string
  bc_BotToken :: string
  bc_PublicRead :: bool
  bc_AllowedOrigins :: "string list"

record Config =
  cf_Server :: ServerConfig
  cf_Auth :: AuthConfig
  cf_Telegram :: TelegramConfig
  cf_Metadata :: MetadataConfig
  cf_Storage :: StorageConfig
  cf_Buckets :: "(string \<times> BucketConfig) list"
  cf_WebDAV_Prefix :: string

record config_env =
  ce_getenv :: "string \<Rightarrow> string"
  ce_decode :: "bytes \<Rightarrow> Config \<Rightarrow> gerror + Config"
  ce_ParsePrefix :: "string \<Rightarrow> bool"

subsection \<open>Values from the environment\<close>

fun Count :: "string \<Rightarrow> string \<Rightarrow> nat" where
  "Count [] sep = 0"
| "Count (c # s) sep =
     (if HasPrefix (c # s) sep then Suc (Count (drop (length sep - 1) s) sep) else Count s sep)"

definition env_start :: string where "env_start = ''$'' @ [CHR 0x7B]"
definition env_end :: string where "env_end = [CHR 0x7D]"

definition resolveConfigValue :: "(string \<Rightarrow> string) \<Rightarrow> string \<Rightarrow> gerror + string" where
  "resolveConfigValue getenv v =
     (let hasEnvReference = Contains v env_start \<or> Contains v env_end;
          isFullEnvReference = HasPrefix v env_start \<and> HasSuffix v env_end \<and> Count v env_start = 1 \<and> Count v env_end = 1 in
      if hasEnvReference \<and> \<not> isFullEnvReference
      then Inl (Msg (''environment reference must use full '' @ env_start @ ''ENV_NAME'' @ env_end @ '' form''))
      else if isFullEnvReference then Inr (getenv (take (length v - 3) (drop 2 v)))
      else Inr v)"

definition resolveBucketChatID :: "(string \<Rightarrow> string) \<Rightarrow> string \<Rightarrow> gerror + string" where
  "resolveBucketChatID getenv v = resolveConfigValue getenv v"

definition ResolveListen :: "(string \<Rightarrow> string) \<Rightarrow> Config \<Rightarrow> string" where
  "ResolveListen getenv c =
     (let e = sc_ListenEnv (cf_Server c) in
      if e \<noteq> [] \<and> getenv e \<noteq> [] then getenv e else sc_Listen (cf_Server c))"

definition ResolveSecret :: "(string \<Rightarrow> string) \<Rightarrow> string \<Rightarrow> string" where
  "ResolveSecret getenv envName = (if envName = [] then [] else getenv envName)"

text \<open>A token and where it comes from.\<close>

definition ResolveBotToken :: "(string \<Rightarrow> string) \<Rightarrow> Config \<Rightarrow> gerror + string \<times> string" where
  "ResolveBotToken getenv c =
     (let t = cf_Telegram c;
          from_env = (if TrimSpace (tc_BotTokenEnv t) \<noteq> []
                      then Inr (ResolveSecret getenv (tc_BotTokenEnv t), ''global_env'') else Inr ([], [])) in
      if TrimSpace (tc_BotToken t) = [] then from_env
      else case resolveConfigValue getenv (tc_BotToken t) of
          Inl err \<Rightarrow> Inl err
        | Inr v \<Rightarrow> if TrimSpace v \<noteq> [] then Inr (v, ''global'') else from_env)"

definition ResolveBucketToken :: "(string \<Rightarrow> string) \<Rightarrow> Config \<Rightarrow> string \<Rightarrow> gerror + string \<times> string" where
  "ResolveBucketToken getenv c name =
     (case map_of (cf_Buckets c) name of
        None \<Rightarrow> Inl (Msg (''bucket '' @ Quote name @ '' not configured''))
      | Some bucket \<Rightarrow>
          if TrimSpace (bc_BotToken bucket) = [] then ResolveBotToken getenv c
          else case resolveConfigValue getenv (bc_BotToken bucket) of
              Inl err \<Rightarrow> Inl (Wrapf (''resolve bucket '' @ Quote name @ '' bot_token'') err)
            | Inr v \<Rightarrow> if TrimSpace v \<noteq> [] then Inr (v, ''bucket'') else ResolveBotToken getenv c)"

definition ResolveSQLitePath :: "(string \<Rightarrow> string) \<Rightarrow> Config \<Rightarrow> gerror + string" where
  "ResolveSQLitePath getenv c =
     (let m = cf_Metadata c in
      if mc_SQLitePathEnv m \<noteq> [] \<and> getenv (mc_SQLitePathEnv m) \<noteq> [] then Inr (getenv (mc_SQLitePathEnv m))
      else if mc_SQLitePath m \<noteq> [] then Inr (mc_SQLitePath m)
      else Inl (Msg ''metadata sqlite path is required''))"

subsection \<open>Defaults\<close>

definition DefaultStorageConfig :: StorageConfig where
  "DefaultStorageConfig =
     \<lparr>sg_UploadTypeStrategy = ''document'', sg_EnableChunking = Some True, sg_MaxFileSize = 50 * 1024 * 1024,
      sg_ChunkSize = 20 * 1024 * 1024,
      sg_TypeSizeLimits = [''photo'' \<mapsto> 10 * 1024 * 1024, ''video'' \<mapsto> 20 * 1024 * 1024, ''audio'' \<mapsto> 20 * 1024 * 1024,
        ''animation'' \<mapsto> 20 * 1024 * 1024, ''document'' \<mapsto> 20 * 1024 * 1024],
      sg_MaxConcurrentUploads = 4, sg_MaxConcurrentDownloads = 16, sg_MaxConcurrentTelegramRequests = 8,
      sg_PutBufferSize = 1024 * 1024\<rparr>"

definition or_default :: "int \<Rightarrow> int \<Rightarrow> int" where
  "or_default d v = (if v = 0 then d else v)"

definition applyStorageDefaults :: "StorageConfig \<Rightarrow> StorageConfig" where
  "applyStorageDefaults st =
     (let d = DefaultStorageConfig in
      st\<lparr>sg_UploadTypeStrategy := (if sg_UploadTypeStrategy st = [] then sg_UploadTypeStrategy d else sg_UploadTypeStrategy st),
         sg_EnableChunking := (if sg_EnableChunking st = None then sg_EnableChunking d else sg_EnableChunking st),
         sg_MaxFileSize := or_default (sg_MaxFileSize d) (sg_MaxFileSize st),
         sg_ChunkSize := or_default (sg_ChunkSize d) (sg_ChunkSize st),
         sg_TypeSizeLimits := (\<lambda>name.
           case sg_TypeSizeLimits d name of
             Some limit \<Rightarrow>
               (if sg_TypeSizeLimits st name = None \<or> sg_TypeSizeLimits st name = Some 0 then Some limit
                else sg_TypeSizeLimits st name)
           | None \<Rightarrow> sg_TypeSizeLimits st name),
         sg_MaxConcurrentUploads := or_default (sg_MaxConcurrentUploads d) (sg_MaxConcurrentUploads st),
         sg_MaxConcurrentDownloads := or_default (sg_MaxConcurrentDownloads d) (sg_MaxConcurrentDownloads st),
         sg_MaxConcurrentTelegramRequests :=
           or_default (sg_MaxConcurrentTelegramRequests d) (sg_MaxConcurrentTelegramRequests st),
         sg_PutBufferSize := or_default (sg_PutBufferSize d) (sg_PutBufferSize st)\<rparr>)"

definition applyWebDAVDefaults :: "Config \<Rightarrow> Config" where
  "applyWebDAVDefaults c =
     (let p1 = (if cf_WebDAV_Prefix c = [] then ''/dav/'' else cf_WebDAV_Prefix c);
          p2 = (if \<not> HasSuffix p1 ''/'' then p1 @ ''/'' else p1) in
      c\<lparr>cf_WebDAV_Prefix := p2\<rparr>)"

definition default_config :: Config where
  "default_config =
     \<lparr>cf_Server = \<lparr>sc_Listen = '':9000'', sc_ListenEnv = ''TGNAS_LISTEN'', sc_PublicBaseURL = [],
        sc_TrustedProxies = [], sc_TrustedProxyHosts = [], sc_AllowedOrigins = []\<rparr>,
      cf_Auth = \<lparr>ac_Region = ''us-east-1'', ac_Credentials = []\<rparr>,
      cf_Telegram = \<lparr>tc_BotToken = [], tc_BotTokenEnv = [], tc_APIBaseURL = ''https://api.telegram.org'',
        tc_CaptionTemplate = [], tc_Timeout = 30 * 1000000000, tc_RawTimeout = 0\<rparr>,
      cf_Metadata = \<lparr>mc_Driver = ''sqlite'', mc_SQLitePath = ''data/metadata.sqlite'', mc_SQLitePathEnv = []\<rparr>,
      cf_Storage = DefaultStorageConfig, cf_Buckets = [], cf_WebDAV_Prefix = []\<rparr>"

subsection \<open>Validation\<close>

definition check :: "bool \<Rightarrow> string \<Rightarrow> gerror option" where
  "check bad text = (if bad then Some (Msg text) else None)"

fun first_error :: "gerror option list \<Rightarrow> gerror option" where
  "first_error [] = None"
| "first_error (Some e # es) = Some e"
| "first_error (None # es) = first_error es"

definition first_segment :: "string \<Rightarrow> string" where
  "first_segment prefix =
     (let s = TrimPrefix prefix ''/'' in case Index s ''/'' of Some idx \<Rightarrow> take idx s | None \<Rightarrow> s)"

definition validateWebDAV :: "Config \<Rightarrow> gerror option" where
  "validateWebDAV c =
     (let prefix = cf_WebDAV_Prefix c in
      if prefix = ''/'' then Some (Msg ''webdav prefix cannot be /'')
      else if \<not> HasPrefix prefix ''/'' then Some (Msg ''webdav prefix must start with /'')
      else if first_segment prefix \<in> fst ` set (cf_Buckets c)
      then Some (Msg (''webdav prefix first segment '' @ Quote (first_segment prefix) @ '' conflicts with bucket name''))
      else None)"

definition Validate :: "config_env \<Rightarrow> Config \<Rightarrow> gerror option" where
  "Validate ce c =
     (let getenv = ce_getenv ce; sv = cf_Server c; st = cf_Storage c in
      first_error
        ([check (TrimSpace (ResolveListen getenv c) = []) ''server listen is required''] @
         map (\<lambda>(i, v). check (\<not> ce_ParsePrefix ce (TrimSpace v))
             (''server trusted proxy '' @ Itoa (int i) @ '' must be a CIDR prefix''))
           (enumerate 0 (sc_TrustedProxies sv)) @
         map (\<lambda>(i, v). check (TrimSpace v = []) (''server trusted proxy host '' @ Itoa (int i) @ '' is required''))
           (enumerate 0 (sc_TrustedProxyHosts sv)) @
         [check (TrimSpace (ac_Region (cf_Auth c)) = []) ''auth region is required'',
          check (ac_Credentials (cf_Auth c) = []) ''at least one auth credential is required''] @
         concat (map (\<lambda>(i, cred).
             [check (TrimSpace (cc_AccessKey cred) = []) (''auth credential '' @ Itoa (int i) @ '' access key is required''),
              check (TrimSpace (cc_SecretKeyEnv cred) = [])
                (''auth credential '' @ Itoa (int i) @ '' secret key env is required'')])
           (enumerate 0 (ac_Credentials (cf_Auth c)))) @
         [check (TrimSpace (tc_APIBaseURL (cf_Telegram c)) = []) ''telegram api base url is required'',
          check (TrimSpace (mc_Driver (cf_Metadata c)) \<noteq> ''sqlite'') ''metadata driver must be sqlite'',
          (case ResolveSQLitePath getenv c of
             Inl err \<Rightarrow> Some err
           | Inr path \<Rightarrow> check (TrimSpace path = []) ''metadata sqlite path is required''),
          check (sg_UploadTypeStrategy st \<noteq> ''document'' \<and> sg_UploadTypeStrategy st \<noteq> ''auto'')
            ''storage upload type strategy must be document or auto'',
          check (sg_MaxFileSize st \<le> 0) ''storage max file size must be positive'',
          check (sg_ChunkSize st \<le> 0) ''storage chunk size must be positive'',
          check ((case sg_TypeSizeLimits st ''document'' of Some n \<Rightarrow> n | None \<Rightarrow> 0) \<le> 0)
            ''storage document type size limit must be positive'',
          check (cf_Buckets c = []) ''at least one bucket is required''] @
         concat (map (\<lambda>(name, bucket).
             [check (TrimSpace name = []) ''bucket name is required'',
              check (TrimSpace (bc_ChatID bucket) = []) (''bucket '' @ Quote name @ '' chat id is required'')])
           (cf_Buckets c)) @
         [validateWebDAV c]))"

subsection \<open>Loading\<close>

fun resolve_buckets ::
    "(string \<Rightarrow> string) \<Rightarrow> (string \<times> BucketConfig) list \<Rightarrow> gerror + (string \<times> BucketConfig) list" where
  "resolve_buckets getenv [] = Inr []"
| "resolve_buckets getenv ((name, bucket) # rest) =
     (case resolveBucketChatID getenv (bc_ChatID bucket) of
        Inl err \<Rightarrow> Inl (Wrapf (''resolve bucket '' @ Quote name @ '' chat_id'') err)
      | Inr chatID \<Rightarrow>
          (case (if TrimSpace (bc_BotToken bucket) \<noteq> [] then resolveConfigValue getenv (bc_BotToken bucket)
                 else Inr (bc_BotToken bucket)) of
             Inl err \<Rightarrow> Inl (Wrapf (''resolve bucket '' @ Quote name @ '' bot_token'') err)
           | Inr token \<Rightarrow>
               (case resolve_buckets getenv rest of
                  Inl e \<Rightarrow> Inl e
                | Inr bs \<Rightarrow> Inr ((name, bucket\<lparr>bc_ChatID := chatID, bc_BotToken := token\<rparr>) # bs))))"

definition LoadFile :: "config_env \<Rightarrow> gerror + bytes \<Rightarrow> gerror + Config" where
  "LoadFile ce content =
     (case content of
        Inl err \<Rightarrow> Inl err
      | Inr data \<Rightarrow>
          (case ce_decode ce data default_config of
             Inl err \<Rightarrow> Inl err
           | Inr c0 \<Rightarrow>
               let c1 = (if tc_RawTimeout (cf_Telegram c0) \<noteq> 0
                         then c0\<lparr>cf_Telegram := (cf_Telegram c0)\<lparr>tc_Timeout := tc_RawTimeout (cf_Telegram c0)\<rparr>\<rparr> else c0);
                   c2 = applyWebDAVDefaults (c1\<lparr>cf_Storage := applyStorageDefaults (cf_Storage c1)\<rparr>) in
               (case resolve_buckets (ce_getenv ce) (cf_Buckets c2) of
                  Inl err \<Rightarrow> Inl err
                | Inr bs \<Rightarrow>
                    let c3 = c2\<lparr>cf_Buckets := bs\<rparr> in
                    (case Validate ce c3 of Some err \<Rightarrow> Inl err | None \<Rightarrow> Inr c3))))"

lemmas config_defs = env_start_def env_end_def resolveConfigValue_def resolveBucketChatID_def ResolveListen_def
  ResolveSecret_def ResolveSQLitePath_def check_def first_segment_def validateWebDAV_def

end
