(* ===== verification/Cli.thy ===== *)
theory Cli
  imports Config Metadata
begin

text \<open>
  The command line of \<^verbatim>\<open>cmd/tgnas/main.go\<close>: flags, \<^verbatim>\<open>ls\<close>, \<^verbatim>\<open>lsd\<close> and \<^verbatim>\<open>bucket rename\<close>. A command works on
  the state of the metadata store and returns the lines it prints and its error. What a command does
  with the configuration file and the database file is split off: \<open>open_db\<close> stands for opening them.
  Parsing of an integer flag (\<^verbatim>\<open>strconv.ParseInt\<close> with base 0) is a parameter.
\<close>

subsection \<open>Flags\<close>

text \<open>Package \<^verbatim>\<open>flag\<close>: the flags that were set, in order, and the arguments that follow. A flag is known
  by its name and by whether it is a boolean one.\<close>

datatype flag_error = ErrHelp | FlagError string

definition bool_value :: "string \<Rightarrow> bool option" where
  "bool_value v =
     (if v \<in> set [''1'', ''t'', ''T'', ''TRUE'', ''true'', ''True''] then Some True
      else if v \<in> set [''0'', ''f'', ''F'', ''FALSE'', ''false'', ''False''] then Some False else None)"

fun parse_flags ::
    "(string \<rightharpoonup> bool) \<Rightarrow> (string \<Rightarrow> string \<Rightarrow> bool) \<Rightarrow> (string \<times> string) list \<Rightarrow> string list \<Rightarrow>
     flag_error + (string \<times> string) list \<times> string list" where
  "parse_flags known valid acc [] = Inr (acc, [])"
| "parse_flags known valid acc (a # args) =
     (if length a < 2 \<or> hd a \<noteq> CHR ''-'' then Inr (acc, a # args)
      else if a = ''--'' then Inr (acc, args)
      else
        let body = (if HasPrefix a ''--'' then drop 2 a else drop 1 a);
            (name, v, hasValue) = Cut (tl body) ''='';
            flag = hd body # name in
        if hd body = CHR ''-'' \<or> hd body = CHR ''='' then Inl (FlagError (''bad flag syntax: '' @ a))
        else case known flag of
            None \<Rightarrow>
              Inl (if flag = ''help'' \<or> flag = ''h'' then ErrHelp
                   else FlagError (''flag provided but not defined: -'' @ flag))
          | Some True \<Rightarrow>
              let text = (if hasValue then v else ''true'') in
              if bool_value text = None then Inl (FlagError (''invalid boolean value '' @ Quote text @ '' for -'' @ flag))
              else parse_flags known valid (acc @ [(flag, text)]) args
          | Some False \<Rightarrow>
              if hasValue then
                (if valid flag v then parse_flags known valid (acc @ [(flag, v)]) args
                 else Inl (FlagError (''invalid value '' @ Quote v @ '' for flag -'' @ flag)))
              else (case args of
                  [] \<Rightarrow> Inl (FlagError (''flag needs an argument: -'' @ flag))
                | v' # args' \<Rightarrow>
                    if valid flag v' then parse_flags known valid (acc @ [(flag, v')]) args'
                    else Inl (FlagError (''invalid value '' @ Quote v' @ '' for flag -'' @ flag))))"

definition flag_value :: "(string \<times> string) list \<Rightarrow> string \<Rightarrow> string \<Rightarrow> string" where
  "flag_value acc name dflt = (case map_of (rev acc) name of Some v \<Rightarrow> v | None \<Rightarrow> dflt)"

definition flag_set :: "(string \<times> string) list \<Rightarrow> string \<Rightarrow> bool" where
  "flag_set acc name \<longleftrightarrow> name \<in> fst ` set acc"

definition defaultConfigPath :: string where
  "defaultConfigPath = ''data/config.yaml''"

definition parseGlobalFlags :: "string list \<Rightarrow> flag_error + string \<times> bool \<times> string list" where
  "parseGlobalFlags args =
     (case parse_flags [''config'' \<mapsto> False, ''c'' \<mapsto> False, ''debug'' \<mapsto> True] (\<lambda>_ _. True) [] args of
        Inl err \<Rightarrow> Inl err
      | Inr (acc, rest) \<Rightarrow>
          let debug = (bool_value (flag_value acc ''debug'' ''false'') = Some True) in
          if flag_set acc ''config'' \<and> flag_set acc ''c'' then Inl (FlagError ''-config and -c cannot both be set'')
          else if flag_set acc ''c'' then Inr (flag_value acc ''c'' defaultConfigPath, debug, rest)
          else Inr (flag_value acc ''config'' defaultConfigPath, debug, rest))"

definition parseLSFlags :: "(string \<Rightarrow> int option) \<Rightarrow> string list \<Rightarrow> flag_error + int \<times> string" where
  "parseLSFlags parse_int args =
     (case parse_flags [''limit'' \<mapsto> False, ''n'' \<mapsto> False] (\<lambda>_ v. parse_int v \<noteq> None) [] args of
        Inl err \<Rightarrow> Inl err
      | Inr (acc, rest) \<Rightarrow>
          let num = (\<lambda>name. if flag_set acc name then the (parse_int (flag_value acc name [])) else 1000);
              selectedLimit = (if flag_set acc ''n'' then num ''n'' else num ''limit'') in
          if flag_set acc ''limit'' \<and> flag_set acc ''n'' then Inl (FlagError ''-limit and -n cannot both be set'')
          else if selectedLimit < 0 then Inl (FlagError ''limit must be non-negative'')
          else (case rest of
              [path] \<Rightarrow> Inr (selectedLimit, path)
            | _ \<Rightarrow> Inl (FlagError ''ls requires exactly one bucket/prefix path'')))"

definition parseRenameBucketFlags :: "string list \<Rightarrow> flag_error + bool \<times> string \<times> string" where
  "parseRenameBucketFlags args =
     (case parse_flags [''dry-run'' \<mapsto> True] (\<lambda>_ _. True) [] args of
        Inl err \<Rightarrow> Inl err
      | Inr (acc, rest) \<Rightarrow>
          (case rest of
             [old, new] \<Rightarrow> Inr (bool_value (flag_value acc ''dry-run'' ''false'') = Some True, old, new)
           | _ \<Rightarrow> Inl (FlagError ''usage: bucket rename [--dry-run] old-bucket new-bucket'')))"

definition parseBucketPrefix :: "string \<Rightarrow> gerror + string \<times> string" where
  "parseBucketPrefix v =
     (if v = [] then Inl (Msg ''path is required'')
      else case Cut v ''/'' of
          (bucket, prfx, found) \<Rightarrow>
            if bucket = [] then Inl (Msg ''bucket is required'')
            else if \<not> found then Inr (bucket, [])
            else Inr (bucket, prfx))"

definition validateBotToken :: "string \<Rightarrow> gerror option" where
  "validateBotToken token =
     (case SplitN2 (TrimSpace token) '':'' of
        [a, b] \<Rightarrow>
          if a = [] \<or> b = [] then Some (Msg ''invalid Telegram bot token format'')
          else if ParseInt a = None then Some (Msg ''invalid Telegram bot token prefix'')
          else None
      | _ \<Rightarrow> Some (Msg ''invalid Telegram bot token format''))"

subsection \<open>Listing\<close>

definition cliListPageSize :: int where "cliListPageSize = 1000"

text \<open>A command that prints: its lines, its error, and the state it leaves.\<close>

type_synonym 'z printing = "'z sqlite_scheme \<Rightarrow> (string list \<times> gerror option) \<times> 'z sqlite_scheme"

definition cli_requireEnabledBucket :: "'e sqlite_env_scheme \<Rightarrow> string \<Rightarrow> ('z sqlite_scheme, unit) st" where
  "cli_requireEnabledBucket env bucket =
     sbind (stry (GetBucket env bucket)) (\<lambda>r.
       case r of
         Inl err \<Rightarrow> if err = Sent MetaErrNotFound then sfail (Msg (''bucket not found: '' @ bucket)) else sfail err
       | Inr found \<Rightarrow> if \<not> bk_Enabled found then sfail (Msg (''bucket not found: '' @ bucket)) else sret ())"

definition cli_query :: "string \<Rightarrow> string \<Rightarrow> string \<Rightarrow> int \<Rightarrow> ListQuery" where
  "cli_query bucket prfx afterKey n = \<lparr>lq_Bucket = bucket, lq_Prefix = prfx, lq_AfterKey = afterKey, lq_Limit = n\<rparr>"

lemma cli_page_last:
  assumes "ListObjects env (cli_query b p a n) s = (Inr objects, s')" "objects \<noteq> []" "0 < n"
  shows "length (rows_after env b p (ob_Key (last objects)) (tabs s')) < length (rows_after env b p a (tabs s))"
proof -
  note page = ListObjects_page [OF assms(1)]
  let ?rows = "take (nat n) (rows_after env b p a (tabs s))"
  from page(2) assms(3) have obs: "objects = map scanObject ?rows" by (simp add: cli_query_def)
  with assms(2) have ne: "?rows \<noteq> []" and l: "ob_Key (last objects) = ob_Key (last ?rows)" by (auto simp: last_map)
  have "last ?rows \<in> set (rows_after env b p a (tabs s))" using last_in_set [OF ne] in_set_takeD by metis
  then show ?thesis using rows_after_shrinks page(1) l by fastforce
qed

text \<open>The rows of one page: the lines, the count, and whether the limit was reached.\<close>

fun print_keys :: "int \<Rightarrow> int \<Rightarrow> Object list \<Rightarrow> string list \<times> int \<times> bool" where
  "print_keys limit written [] = ([], written, False)"
| "print_keys limit written (ob # obs) =
     (if limit > 0 \<and> written + 1 \<ge> limit then ([ob_Key ob], written + 1, True)
      else case print_keys limit (written + 1) obs of (ls, w, stop) \<Rightarrow> (ob_Key ob # ls, w, stop))"

definition page_limit :: "int \<Rightarrow> int \<Rightarrow> int" where
  "page_limit limit written =
     (if limit > 0 \<and> limit - written < cliListPageSize then limit - written else cliListPageSize)"

function objectKeysLoop ::
    "'e sqlite_env_scheme \<Rightarrow> string \<Rightarrow> string \<Rightarrow> int \<Rightarrow> string \<Rightarrow> int \<Rightarrow> 'z printing" where
  "objectKeysLoop env bucket prfx limit afterKey written s =
     (if limit > 0 \<and> limit - written \<le> 0 then (([], None), s)
      else
        case ListObjects env (cli_query bucket prfx afterKey (page_limit limit written)) s of
          (Inl err, s') \<Rightarrow> (([], Some err), s')
        | (Inr objects, s') \<Rightarrow>
            if objects = [] then (([], None), s')
            else (case print_keys limit written objects of
                (ls, written', True) \<Rightarrow> ((ls, None), s')
              | (ls, written', False) \<Rightarrow>
                  if int (length objects) < page_limit limit written then ((ls, None), s')
                  else (case objectKeysLoop env bucket prfx limit (ob_Key (last objects)) written' s' of
                      ((rest, err), s'') \<Rightarrow> ((ls @ rest, err), s''))))"
  by pat_completeness auto
termination
proof (relation "measure (\<lambda>(env, b, p, l, a, w, s). length (rows_after env b p a (tabs s)))", goal_cases)
  case (2 env bucket prfx limit afterKey written s r s' objects ls q written' stop)
  then have l: "ListObjects env (cli_query bucket prfx afterKey (page_limit limit written)) s = (Inr objects, s')"
    and ne: "objects \<noteq> []" and pos: "0 < page_limit limit written"
    by (auto simp: page_limit_def cliListPageSize_def)
  then show ?case using cli_page_last [OF l ne pos] by simp
qed simp

declare objectKeysLoop.simps [simp del]

definition writeObjectKeys :: "'e sqlite_env_scheme \<Rightarrow> string \<Rightarrow> string \<Rightarrow> int \<Rightarrow> 'z printing" where
  "writeObjectKeys env bucket prfx limit = objectKeysLoop env bucket prfx limit [] 0"

definition writeBucketNames :: "'e sqlite_env_scheme \<Rightarrow> 'z printing" where
  "writeBucketNames env s =
     (case ListBuckets env s of
        (Inl err, s') \<Rightarrow> (([], Some err), s')
      | (Inr buckets, s') \<Rightarrow> ((map bk_Name buckets, None), s'))"

fun print_prefixes :: "string \<Rightarrow> string set \<Rightarrow> Object list \<Rightarrow> string list \<times> string set" where
  "print_prefixes prfx seen [] = ([], seen)"
| "print_prefixes prfx seen (ob # obs) =
     (case Cut (TrimPrefix (ob_Key ob) prfx) ''/'' of
        (segment, _, found) \<Rightarrow>
          let commonPrefix = prfx @ segment @ ''/'' in
          if \<not> found \<or> segment = [] \<or> commonPrefix \<in> seen then print_prefixes prfx seen obs
          else case print_prefixes prfx (insert commonPrefix seen) obs of (ls, seen') \<Rightarrow> (commonPrefix # ls, seen'))"

function commonPrefixLoop ::
    "'e sqlite_env_scheme \<Rightarrow> string \<Rightarrow> string \<Rightarrow> string \<Rightarrow> string set \<Rightarrow> 'z printing" where
  "commonPrefixLoop env bucket prfx afterKey seen s =
     (case ListObjects env (cli_query bucket prfx afterKey cliListPageSize) s of
        (Inl err, s') \<Rightarrow> (([], Some err), s')
      | (Inr objects, s') \<Rightarrow>
          if objects = [] then (([], None), s')
          else (case print_prefixes prfx seen objects of
              (ls, seen') \<Rightarrow>
                if int (length objects) < cliListPageSize then ((ls, None), s')
                else (case commonPrefixLoop env bucket prfx (ob_Key (last objects)) seen' s' of
                    ((rest, err), s'') \<Rightarrow> ((ls @ rest, err), s''))))"
  by pat_completeness auto
termination
proof (relation "measure (\<lambda>(env, b, p, a, seen, s). length (rows_after env b p a (tabs s)))", goal_cases)
  case (2 env bucket prfx afterKey seen s r s' objects ls seen')
  then have l: "ListObjects env (cli_query bucket prfx afterKey cliListPageSize) s = (Inr objects, s')"
    and ne: "objects \<noteq> []" by simp_all
  then show ?case using cli_page_last [OF l ne] by (simp add: cliListPageSize_def)
qed simp

declare commonPrefixLoop.simps [simp del]

definition writeCommonPrefixes :: "'e sqlite_env_scheme \<Rightarrow> string \<Rightarrow> string \<Rightarrow> 'z printing" where
  "writeCommonPrefixes env bucket prfx = commonPrefixLoop env bucket prfx [] {}"

subsection \<open>Commands\<close>

text \<open>A step before a command that prints.\<close>

definition print_after :: "('z sqlite_scheme, unit) st \<Rightarrow> 'z printing \<Rightarrow> 'z printing" where
  "print_after m k s = (case m s of (Inl err, s') \<Rightarrow> (([], Some err), s') | (Inr _, s') \<Rightarrow> k s')"

definition print_error :: "string \<Rightarrow> 'z printing" where
  "print_error text s = (([], Some (Msg text)), s)"

text \<open>The path of the database for the commands that only read it.\<close>

definition zero_config :: Config where
  "zero_config =
     \<lparr>cf_Server = \<lparr>sc_Listen = [], sc_ListenEnv = [], sc_PublicBaseURL = [], sc_TrustedProxies = [],
        sc_TrustedProxyHosts = [], sc_AllowedOrigins = []\<rparr>,
      cf_Auth = \<lparr>ac_Region = [], ac_Credentials = []\<rparr>,
      cf_Telegram = \<lparr>tc_BotToken = [], tc_BotTokenEnv = [], tc_APIBaseURL = [], tc_CaptionTemplate = [],
        tc_Timeout = 0, tc_RawTimeout = 0\<rparr>,
      cf_Metadata = \<lparr>mc_Driver = [], mc_SQLitePath = [], mc_SQLitePathEnv = []\<rparr>,
      cf_Storage = \<lparr>sg_UploadTypeStrategy = [], sg_EnableChunking = None, sg_MaxFileSize = 0, sg_ChunkSize = 0,
        sg_TypeSizeLimits = Map.empty, sg_MaxConcurrentUploads = 0, sg_MaxConcurrentDownloads = 0,
        sg_MaxConcurrentTelegramRequests = 0, sg_PutBufferSize = 0\<rparr>,
      cf_Buckets = [], cf_WebDAV_Prefix = []\<rparr>"

definition loadSQLitePathForLocalCLI :: "config_env \<Rightarrow> gerror + bytes \<Rightarrow> gerror + string" where
  "loadSQLitePathForLocalCLI ce content =
     (case content of
        Inl err \<Rightarrow> Inl (Wrapf ''load config'' err)
      | Inr data \<Rightarrow>
          (case ce_decode ce data zero_config of
             Inl err \<Rightarrow> Inl (Wrapf ''parse config'' err)
           | Inr cfg \<Rightarrow>
               let m0 = cf_Metadata cfg;
                   m1 = (if mc_Driver m0 = [] then m0\<lparr>mc_Driver := ''sqlite''\<rparr> else m0);
                   m2 = (if mc_SQLitePath m1 = [] then m1\<lparr>mc_SQLitePath := ''data/metadata.sqlite''\<rparr> else m1) in
               if TrimSpace (mc_Driver m2) \<noteq> ''sqlite'' then Inl (Msg ''metadata driver must be sqlite'')
               else case ResolveSQLitePath (ce_getenv ce) (cfg\<lparr>cf_Metadata := m2\<rparr>) of
                   Inl err \<Rightarrow> Inl (Wrapf ''resolve sqlite path'' err)
                 | Inr path \<Rightarrow>
                     if TrimSpace path = [] then Inl (Msg ''metadata sqlite path is required'') else Inr path))"

text \<open>\<open>open_db\<close> is \<^verbatim>\<open>openMetadataFromConfig\<close>: an error, or the database is there.\<close>

definition runLS ::
    "'e sqlite_env_scheme \<Rightarrow> (string \<Rightarrow> int option) \<Rightarrow> gerror option \<Rightarrow> string list \<Rightarrow> 'z printing" where
  "runLS env parse_int open_db args =
     (case parseLSFlags parse_int args of
        Inl ErrHelp \<Rightarrow> Pair ([], None)
      | Inl (FlagError t) \<Rightarrow> print_error t
      | Inr (limit, path) \<Rightarrow>
          (case parseBucketPrefix path of
             Inl err \<Rightarrow> Pair ([], Some err)
           | Inr (bucket, prfx) \<Rightarrow>
               (case open_db of
                  Some err \<Rightarrow> Pair ([], Some err)
                | None \<Rightarrow> print_after (cli_requireEnabledBucket env bucket) (writeObjectKeys env bucket prfx limit))))"

definition runLSD :: "'e sqlite_env_scheme \<Rightarrow> gerror option \<Rightarrow> string list \<Rightarrow> 'z printing" where
  "runLSD env open_db args =
     (if args = [''-h''] \<or> args = [''-help''] then Pair ([], None)
      else if args \<noteq> [] \<and> HasPrefix (hd args) ''-'' then print_error ''lsd does not support flags''
      else if length args > 1 then print_error ''lsd accepts at most one bucket/prefix path''
      else case (if args = [] then Inr ([], []) else parseBucketPrefix (hd args)) of
          Inl err \<Rightarrow> Pair ([], Some err)
        | Inr (bucket, prfx) \<Rightarrow>
            (case open_db of
               Some err \<Rightarrow> Pair ([], Some err)
             | None \<Rightarrow>
                 if args = [] then writeBucketNames env
                 else print_after (cli_requireEnabledBucket env bucket) (writeCommonPrefixes env bucket prfx)))"

definition rename_counts :: "string \<Rightarrow> string \<Rightarrow> string \<Rightarrow> BucketRename \<Rightarrow> string" where
  "rename_counts verb old new counts =
     verb @ old @ '' to '' @ new @ '': buckets='' @ Itoa (rn_Buckets counts) @ '' objects='' @
     Itoa (rn_Objects counts) @ '' chunks='' @ Itoa (rn_Chunks counts)"

text \<open>\<^verbatim>\<open>runRenameBucket\<close>; \<open>cfg\<close> is the result of \<^verbatim>\<open>config.LoadFile\<close>. The warning about a source that is still
  configured goes to standard error and is left out.\<close>

definition runRenameBucket ::
    "'e sqlite_env_scheme \<Rightarrow> (string \<Rightarrow> string) \<Rightarrow> gerror + Config \<Rightarrow> gerror option \<Rightarrow> string list \<Rightarrow> 'z printing" where
  "runRenameBucket env getenv cfg open_db args =
     (case parseRenameBucketFlags args of
        Inl ErrHelp \<Rightarrow> print_error ''flag: help requested''
      | Inl (FlagError t) \<Rightarrow> print_error t
      | Inr (dryRun, oldName, newName) \<Rightarrow>
          (case cfg of
             Inl err \<Rightarrow> Pair ([], Some (Wrapf ''load config'' err))
           | Inr c \<Rightarrow>
               (case map_of (cf_Buckets c) newName of
                  None \<Rightarrow> print_error (''target bucket is not configured: '' @ newName)
                | Some targetBucket \<Rightarrow>
                    (case ResolveSQLitePath getenv c of
                       Inl err \<Rightarrow> Pair ([], Some (Wrapf ''resolve sqlite path'' err))
                     | Inr _ \<Rightarrow>
                         (case open_db of
                            Some err \<Rightarrow> Pair ([], Some (Wrapf ''open sqlite metadata'' err))
                          | None \<Rightarrow> (\<lambda>s.
                              case GetBucket env oldName s of
                                (Inl err, s1) \<Rightarrow>
                                  (([], Some (if err = Sent MetaErrNotFound then Msg (''source bucket not found: '' @ oldName)
                                              else err)), s1)
                              | (Inr sourceBucket, s1) \<Rightarrow>
                                  if bc_ChatID targetBucket \<noteq> bk_ChatID sourceBucket
                                  then print_error (''target bucket chat_id differs from source bucket metadata: '' @ newName) s1
                                  else if dryRun then
                                    (case CountBucketRenameRows env oldName s1 of
                                       (Inl err, s2) \<Rightarrow> (([], Some err), s2)
                                     | (Inr counts, s2) \<Rightarrow>
                                         (([rename_counts ''would rename bucket '' oldName newName counts], None), s2))
                                  else
                                    (case RenameBucket env oldName newName s1 of
                                       (Inl err, s2) \<Rightarrow> (([], Some err), s2)
                                     | (Inr counts, s2) \<Rightarrow>
                                         (([rename_counts ''renamed bucket '' oldName newName counts], None), s2))))))))"

definition runBucketCommand ::
    "'e sqlite_env_scheme \<Rightarrow> (string \<Rightarrow> string) \<Rightarrow> gerror + Config \<Rightarrow> gerror option \<Rightarrow> string list \<Rightarrow> 'z printing" where
  "runBucketCommand env getenv cfg open_db args =
     (case args of
        [] \<Rightarrow> print_error ''bucket subcommand is required''
      | sub # rest \<Rightarrow>
          if sub = ''rename'' then runRenameBucket env getenv cfg open_db rest
          else print_error (''unknown bucket subcommand: '' @ sub))"

end
