(* ===== verification/CliProps.thy ===== *)
theory CliProps
  imports Cli MetaProps
begin

text \<open>
  What \<^verbatim>\<open>ls\<close> and \<^verbatim>\<open>lsd\<close> print. The loops over pages return for every database (their recursion was shown to
  end when they were defined); the lines come in key order, none twice and none left out.
\<close>

definition keys_wanted :: "int \<Rightarrow> int \<Rightarrow> string list \<Rightarrow> string list" where
  "keys_wanted limit written keys = (if limit > 0 then take (nat (limit - written)) keys else keys)"

lemma keys_wanted_append:
  assumes "0 < limit \<longrightarrow> int (length xs) \<le> limit - w"
  shows "keys_wanted limit w (xs @ ys) = xs @ keys_wanted limit (w + int (length xs)) ys"
proof -
  have "nat (limit - w) - length xs = nat (limit - (w + int (length xs)))" by linarith
  moreover have "length xs \<le> nat (limit - w)" if "0 < limit" using assms that by linarith
  ultimately show ?thesis by (simp add: keys_wanted_def)
qed

lemma print_keys_eq:
  assumes "0 < limit \<longrightarrow> written < limit" "print_keys limit written obs = (ls, w, stop)"
  shows "ls = keys_wanted limit written (map ob_Key obs) \<and> w = written + int (length ls) \<and>
    stop = (0 < limit \<and> obs \<noteq> [] \<and> limit \<le> w) \<and> (0 < limit \<longrightarrow> w \<le> limit)"
  using assms
proof (induction obs arbitrary: written ls w stop)
  case Nil
  then show ?case by (auto simp: keys_wanted_def)
next
  case (Cons ob obs)
  show ?case
  proof (cases "limit > 0 \<and> written + 1 \<ge> limit")
    case True
    then have "nat (limit - written) = 1" using Cons.prems(1) by linarith
    with True Cons.prems show ?thesis by (auto simp: keys_wanted_def)
  next
    case False
    obtain ls' w' stop' where p: "print_keys limit (written + 1) obs = (ls', w', stop')" by (metis prod.collapse)
    have "0 < limit \<longrightarrow> written + 1 < limit" using False by linarith
    note IH = Cons.IH [OF this p]
    have "nat (limit - written) = Suc (nat (limit - (written + 1)))" if "0 < limit" using that Cons.prems(1) by linarith
    then have k: "keys_wanted limit written (ob_Key ob # map ob_Key obs) =
        ob_Key ob # keys_wanted limit (written + 1) (map ob_Key obs)" by (simp add: keys_wanted_def)
    have "stop' \<longleftrightarrow> 0 < limit \<and> limit \<le> w'"
      using IH False by (cases "obs = []") (auto simp: keys_wanted_def)
    moreover have "ls = ob_Key ob # ls'" "w = w'" "stop = stop'"
      using Cons.prems(2) False p by auto
    ultimately show ?thesis using IH k by auto
  qed
qed

lemma page_limit_pos: "0 < limit \<longrightarrow> written < limit \<Longrightarrow> 0 < page_limit limit written"
  by (auto simp: page_limit_def cliListPageSize_def)

lemma page_sqlite: "0 < n \<Longrightarrow> cli_query b p a n = \<lparr>lq_Bucket = b, lq_Prefix = p, lq_AfterKey = a, lq_Limit = int (nat n)\<rparr>"
  by (simp add: cli_query_def)

lemma objectKeysLoop_prints:
  fixes s :: "'z sqlite_scheme"
  assumes "tables_wf (tabs s)" "objectKeysLoop env b p limit a w s = ((ls, err), s')" "0 < limit \<longrightarrow> w \<le> limit"
  defines "keys \<equiv> map ob_Key (filter (\<lambda>r. a < ob_Key r) (prefix_listing env b p (tabs s)))"
  shows "(\<exists>rest. keys_wanted limit w keys = ls @ rest \<and> (err = None \<longrightarrow> rest = [])) \<and> tabs s' = tabs s"
  using assms(1-3) unfolding keys_def
proof (induction env b p limit a w s arbitrary: ls err rule: objectKeysLoop.induct)
  case (1 env b p limit a w s)
  let ?rows = "filter (\<lambda>r. a < ob_Key r) (prefix_listing env b p (tabs s))"
  let ?n = "page_limit limit w"
  show ?case
  proof (cases "limit > 0 \<and> limit - w \<le> 0")
    case True
    then show ?thesis using "1.prems" by (auto simp: objectKeysLoop.simps [of env b p limit a w s] keys_wanted_def)
  next
    case False
    then have lt: "0 < limit \<longrightarrow> w < limit" by linarith
    have n: "0 < ?n" using page_limit_pos [OF lt] .
    obtain r s1 where page: "ListObjects env (cli_query b p a ?n) s = (r, s1)" by fastforce
    have t1: "tabs s1 = tabs s" using reads_onlyD [OF reads_only_ListObjects page] by simp
    note unf = objectKeysLoop.simps [of env b p limit a w s] page
    show ?thesis
    proof (cases r)
      case (Inl e)
      then show ?thesis using "1.prems" False t1 by (auto simp: unf)
    next
      case (Inr obs)
      note page' = page [unfolded page_sqlite [OF n] Inr]
      have np: "0 < nat ?n" using n by simp
      have obs: "obs = take (nat ?n) ?rows" using sqlite_pages.page_ok [OF np page'] .
      show ?thesis
      proof (cases "obs = []")
        case True
        then have "?rows = []" using obs n by simp
        then show ?thesis using "1.prems" False Inr True t1 by (auto simp: unf keys_wanted_def)
      next
        case ne: False
        obtain ls1 w1 stop where pk: "print_keys limit w obs = (ls1, w1, stop)" by (metis prod.collapse)
        note ls1 = print_keys_eq [OF lt pk]
        define later where "later = drop (nat ?n) ?rows"
        have all: "?rows = obs @ later" using obs by (simp add: later_def)
        have few: "0 < limit \<longrightarrow> int (length obs) \<le> limit - w" using obs lt by (auto simp: page_limit_def)
        then have "ls1 = map ob_Key obs" using ls1 keys_wanted_append [of limit "map ob_Key obs" w "[]"]
          by (simp add: keys_wanted_def)
        then have wanted: "keys_wanted limit w (map ob_Key ?rows) = ls1 @ keys_wanted limit w1 (map ob_Key later)"
          using keys_wanted_append [of limit "map ob_Key obs" w "map ob_Key later"] few ls1 unfolding all by simp
        show ?thesis
        proof (cases "stop \<or> int (length obs) < ?n")
          case True
          have "keys_wanted limit w1 (map ob_Key later) = []"
          proof (cases stop)
            case True
            then have "0 < limit \<and> limit - w1 \<le> 0" using ls1 by linarith
            then show ?thesis by (simp add: keys_wanted_def)
          next
            case False
            then have "int (length obs) < ?n" using True by simp
            then have "length ?rows \<le> nat ?n" using obs by (auto simp: min_def split: if_splits)
            then show ?thesis by (simp add: keys_wanted_def later_def)
          qed
          then show ?thesis using "1.prems" False Inr ne pk True t1 wanted by (auto simp: unf split: bool.splits)
        next
          case go: False
          obtain rest where l: "objectKeysLoop env b p limit (ob_Key (last obs)) w1 s1 = ((rest, err), s')"
            and ls: "ls = ls1 @ rest"
            using "1.prems"(2) False Inr ne pk go by (auto simp: unf split: prod.splits bool.splits)
          have "tables_wf (tabs s1)" "0 < limit \<longrightarrow> w1 \<le> limit" using "1.prems"(1) t1 ls1 by (simp, blast)
          with "1.IH" [OF False page [symmetric] Inr ne pk [symmetric] refl, of rest err] l go
          have IH: "(\<exists>q. keys_wanted limit w1 (map ob_Key (filter (\<lambda>r. ob_Key (last obs) < ob_Key r)
              (prefix_listing env b p (tabs s1)))) = rest @ q \<and> (err = None \<longrightarrow> q = [])) \<and> tabs s' = tabs s1" by auto
          have "filter (\<lambda>r. ob_Key (last obs) < ob_Key r) (prefix_listing env b p (tabs s1)) = later"
            unfolding later_def by (rule sqlite_pages.resume [OF "1.prems"(1) np page' ne])
          with IH wanted ls t1 show ?thesis by auto
        qed
      qed
    qed
  qed
qed

text \<open>C27: \<^verbatim>\<open>ls\<close> returns for every database and limit, and prints the keys below the prefix in ascending order,
  each once, up to the limit (0: all of them); when a query fails, what was printed is the beginning
  of that list. It changes nothing.\<close>
theorem writeObjectKeys_prints:
  fixes s :: "'z sqlite_scheme"
  assumes "tables_wf (tabs s)" "0 \<le> limit"
  shows "case writeObjectKeys env b p limit s of ((ls, err), s') \<Rightarrow>
    (\<exists>rest. (if limit = 0 then id else take (nat limit))
        (map ob_Key (filter (\<lambda>r. [] < ob_Key r) (prefix_listing env b p (tabs s)))) = ls @ rest \<and>
      (err = None \<longrightarrow> rest = [])) \<and> sorted_wrt (<) ls \<and> tabs s' = tabs s"
proof -
  obtain ls err s' where run: "objectKeysLoop env b p limit [] 0 s = ((ls, err), s')" by (metis prod.collapse)
  let ?keys = "map ob_Key (filter (\<lambda>r. [] < ob_Key r) (prefix_listing env b p (tabs s)))"
  have "keys_wanted limit 0 ?keys = (if limit = 0 then id else take (nat limit)) ?keys"
    using assms(2) by (simp add: keys_wanted_def)
  moreover obtain rest where rest: "keys_wanted limit 0 ?keys = ls @ rest" "err = None \<longrightarrow> rest = []" "tabs s' = tabs s"
    using objectKeysLoop_prints [OF assms(1) run] by auto
  moreover have "sorted_wrt (<) ls"
  proof -
    obtain m where "filter (\<lambda>r. [] < ob_Key r) (prefix_listing env b p (tabs s)) = drop m (prefix_listing env b p (tabs s))"
      using sqlite_pages.filter_drop [OF sqlite_pages.rows_sorted [OF assms(1)]] by blast
    then have "sorted_wrt (<) ?keys"
      using sqlite_pages.rows_sorted [OF assms(1), of env b p] by (simp add: drop_map [symmetric] sorted_wrt_drop)
    then have "sorted_wrt (<) (ls @ rest)" unfolding rest(1) [symmetric] by (simp add: keys_wanted_def sorted_wrt_take)
    then show ?thesis by (simp add: sorted_wrt_append)
  qed
  ultimately show ?thesis unfolding writeObjectKeys_def run by (auto intro: exI [of _ rest])
qed

theorem writeObjectKeys_prints_witness:
  "\<exists>ls err s'. writeObjectKeys demo_env ''b'' [] 5 (demo_put ''b'' ''photos/1'' demo_state) = ((ls, err), s') \<and>
     sorted_wrt (<) ls \<and> tabs s' = tabs (demo_put ''b'' ''photos/1'' demo_state)"
  using writeObjectKeys_prints [OF demo_wf(3), of 5 demo_env "''b''" "[]"] by (auto split: prod.splits)

subsection \<open>lsd\<close>

text \<open>The collection a key lies in, seen from a prefix.\<close>

definition child_prefix :: "string \<Rightarrow> string \<Rightarrow> string option" where
  "child_prefix p key = (case Cut (TrimPrefix key p) ''/'' of
     (segment, _, found) \<Rightarrow> if found \<and> segment \<noteq> [] then Some (p @ segment @ ''/'') else None)"

definition children :: "string \<Rightarrow> Object list \<Rightarrow> string set" where
  "children p obs = {c. \<exists>ob \<in> set obs. child_prefix p (ob_Key ob) = Some c}"

lemma children_simps [simp]:
  "children p [] = {}"
  "children p (ob # obs) = set_option (child_prefix p (ob_Key ob)) \<union> children p obs"
  "children p (obs @ obs') = children p obs \<union> children p obs'"
  by (auto simp: children_def)

lemma print_prefixes_eq:
  "print_prefixes p seen obs = (ls, seen') \<Longrightarrow>
     distinct ls \<and> set ls = children p obs - seen \<and> seen' = seen \<union> set ls"
proof (induction obs arbitrary: seen ls seen')
  case (Cons ob obs)
  obtain seg q found where c: "Cut (TrimPrefix (ob_Key ob) p) ''/'' = (seg, q, found)" by (metis prod.collapse)
  let ?c = "p @ seg @ ''/''"
  show ?case
  proof (cases "\<not> found \<or> seg = [] \<or> ?c \<in> seen")
    case True
    then have "child_prefix p (ob_Key ob) = None \<or> child_prefix p (ob_Key ob) = Some ?c \<and> ?c \<in> seen"
      by (auto simp: child_prefix_def c)
    moreover have "print_prefixes p seen obs = (ls, seen')" using Cons.prems True by (simp add: c)
    ultimately show ?thesis using Cons.IH by auto
  next
    case False
    obtain ls' where "print_prefixes p (insert ?c seen) obs = (ls', seen')" "ls = ?c # ls'"
      using Cons.prems False by (auto simp: c Let_def split: prod.splits)
    with False Cons.IH [of "insert ?c seen" ls' seen'] show ?thesis by (auto simp: child_prefix_def c)
  qed
qed simp

lemma commonPrefixLoop_prints:
  fixes s :: "'z sqlite_scheme"
  assumes "tables_wf (tabs s)" "commonPrefixLoop env b p a seen s = ((ls, None), s')"
  shows "distinct ls \<and> set ls = children p (filter (\<lambda>r. a < ob_Key r) (prefix_listing env b p (tabs s))) - seen \<and>
    tabs s' = tabs s"
  using assms
proof (induction env b p a seen s arbitrary: ls rule: commonPrefixLoop.induct)
  case (1 env b p a seen s)
  let ?rows = "filter (\<lambda>r. a < ob_Key r) (prefix_listing env b p (tabs s))"
  obtain obs s1 where page: "ListObjects env (cli_query b p a cliListPageSize) s = (Inr obs, s1)"
    using "1.prems"(2) by (auto simp: commonPrefixLoop.simps [of env b p a seen s] split: prod.splits sum.splits)
  have t1: "tabs s1 = tabs s" using reads_onlyD [OF reads_only_ListObjects page] by simp
  note unf = commonPrefixLoop.simps [of env b p a seen s] page
  have n: "0 < cliListPageSize" "nat cliListPageSize = 1000" by (simp_all add: cliListPageSize_def)
  note page' = page [unfolded page_sqlite [OF n(1)] n(2)]
  have obs: "obs = take 1000 ?rows" using sqlite_pages.page_ok [OF _ page'] by simp
  show ?case
  proof (cases "obs = []")
    case True
    then have "?rows = []" using obs by simp
    then show ?thesis using "1.prems" True t1 by (simp add: unf)
  next
    case ne: False
    obtain ls1 seen1 where pp: "print_prefixes p seen obs = (ls1, seen1)" by fastforce
    note ls1 = print_prefixes_eq [OF pp]
    show ?thesis
    proof (cases "int (length obs) < cliListPageSize")
      case True
      then have "?rows = obs" using obs by (auto simp: cliListPageSize_def min_def split: if_splits)
      then show ?thesis using "1.prems" ne pp True t1 ls1 by (simp add: unf)
    next
      case False
      define later where "later = drop 1000 ?rows"
      have all: "?rows = obs @ later" using obs by (simp add: later_def)
      obtain rest where l: "commonPrefixLoop env b p (ob_Key (last obs)) seen1 s1 = ((rest, None), s')" "ls = ls1 @ rest"
        using "1.prems"(2) ne pp False by (auto simp: unf split: prod.splits)
      have "filter (\<lambda>r. ob_Key (last obs) < ob_Key r) (prefix_listing env b p (tabs s1)) = later"
        unfolding later_def by (rule sqlite_pages.resume [OF "1.prems"(1) _ page' ne]) simp
      with "1.IH" [OF page [symmetric] refl ne pp [symmetric] False _ l(1)] "1.prems"(1) t1
      have "distinct rest \<and> set rest = children p later - seen1 \<and> tabs s' = tabs s1" by simp
      then show ?thesis using ls1 l(2) t1 unfolding all by auto
    qed
  qed
qed

text \<open>\<^verbatim>\<open>lsd\<close> prints the collections directly below the prefix, each once: \<^verbatim>\<open>prefix/segment/\<close> for every key
  with a non-empty first segment below the prefix, over all pages of the listing.\<close>
lemma writeCommonPrefixes_prints:
  fixes s :: "'z sqlite_scheme"
  assumes "tables_wf (tabs s)" "writeCommonPrefixes env b p s = ((ls, None), s')"
  shows "distinct ls \<and>
    set ls = {c. \<exists>ob \<in> set (prefix_listing env b p (tabs s)). [] < ob_Key ob \<and> child_prefix p (ob_Key ob) = Some c}"
  using commonPrefixLoop_prints [OF assms(1), of env b p "[]" "{}" ls s'] assms(2)
  by (auto simp: writeCommonPrefixes_def children_def)

end
