(* ===== verification/Service.thy ===== *)
theory Service
  imports Cli DavHandler S3Server Captions
begin

text \<open>
  The server of \<^verbatim>\<open>cmd/tgnas/main.go\<close>: building the object store and the handlers from the configuration, the
  trusted proxy middleware, and the choice between the S3 and the WebDAV handler. Parameters: the
  functions of \<^verbatim>\<open>net/netip\<close>, SHA-256, the compiler of regular expressions, and the clients of the bot
  tokens (\<open>se_client\<close>, which \<^verbatim>\<open>telegram.NewHTTPClient\<close> makes; theory TelegramClient).
\<close>

subsection \<open>Trusted proxies\<close>

record 'a netip =
  np_ParsePrefix :: "string \<Rightarrow> ('a \<Rightarrow> bool) option"
  np_ParseAddr :: "string \<Rightarrow> 'a option"

record 'a trustedProxyTrust =
  tp_proxies :: "('a \<Rightarrow> bool) list"
  tp_hosts :: "string set"

definition firstForwardedValue :: "string \<Rightarrow> string" where
  "firstForwardedValue v = Trim (TrimSpace (fst (Cut v '',''))) [CHR 0x22]"

fun forwarded_param :: "string \<Rightarrow> string list \<Rightarrow> string" where
  "forwarded_param name [] = []"
| "forwarded_param name (part # parts) =
     (case Cut (TrimSpace part) ''='' of
        (key, v, found) \<Rightarrow>
          if \<not> found \<or> \<not> EqualFold (TrimSpace key) name then forwarded_param name parts
          else Trim (TrimSpace v) [CHR 0x22])"

definition forwardedHeaderParam :: "string \<Rightarrow> string \<Rightarrow> string" where
  "forwardedHeaderParam hdr name = forwarded_param name (Split (fst (Cut hdr '','')) CHR '';'')"

definition forwardedHost :: "Request \<Rightarrow> string" where
  "forwardedHost r =
     (let v = firstForwardedValue (get_header r ''X-Forwarded-Host'') in
      if v \<noteq> [] then v else forwardedHeaderParam (get_header r ''Forwarded'') ''host'')"

definition forwardedProto :: "Request \<Rightarrow> string" where
  "forwardedProto r =
     (let v = firstForwardedValue (get_header r ''X-Forwarded-Proto'') in
      if v \<noteq> [] then v else forwardedHeaderParam (get_header r ''Forwarded'') ''proto'')"

definition normalizeForwardedHost :: "string \<Rightarrow> string" where
  "normalizeForwardedHost host = ToLower (Trim (TrimSpace host) [CHR 0x22])"

fun parse_proxies :: "(string \<Rightarrow> ('a \<Rightarrow> bool) option) \<Rightarrow> nat \<Rightarrow> string list \<Rightarrow> gerror + ('a \<Rightarrow> bool) list" where
  "parse_proxies parse i [] = Inr []"
| "parse_proxies parse i (v # vs) =
     (case parse (TrimSpace v) of
        None \<Rightarrow> Inl (Msg (''parse trusted proxy '' @ Itoa (int i)))
      | Some p \<Rightarrow>
          (case parse_proxies parse (Suc i) vs of Inl e \<Rightarrow> Inl e | Inr ps \<Rightarrow> Inr (p # ps)))"

definition newTrustedProxyTrust :: "'a netip \<Rightarrow> ServerConfig \<Rightarrow> gerror + 'a trustedProxyTrust" where
  "newTrustedProxyTrust np server =
     (case parse_proxies (np_ParsePrefix np) 0 (sc_TrustedProxies server) of
        Inl err \<Rightarrow> Inl err
      | Inr proxies \<Rightarrow>
          Inr \<lparr>tp_proxies = proxies,
               tp_hosts = set (filter (\<lambda>x. x \<noteq> []) (map normalizeForwardedHost (sc_TrustedProxyHosts server)))\<rparr>)"

text \<open>\<^verbatim>\<open>net.SplitHostPort\<close>: the host, or \<open>None\<close> for an error.\<close>

definition SplitHost :: "string \<Rightarrow> string option" where
  "SplitHost hostport =
     (case LastIndex hostport '':'' of
        None \<Rightarrow> None
      | Some i \<Rightarrow>
          if HasPrefix hostport ''['' then
            (case Index hostport '']'' of
               None \<Rightarrow> None
             | Some e \<Rightarrow>
                 if Suc e \<noteq> i \<or> Contains (drop 1 hostport) ''['' \<or> Contains (drop (Suc e) hostport) '']'' then None
                 else Some (take (e - 1) (drop 1 hostport)))
          else if Contains (take i hostport) '':'' \<or> Contains hostport ''['' \<or> Contains hostport '']'' then None
          else Some (take i hostport))"

definition trustsRemoteAddr :: "'a netip \<Rightarrow> 'a trustedProxyTrust \<Rightarrow> string \<Rightarrow> bool" where
  "trustsRemoteAddr np t remoteAddr \<longleftrightarrow>
     (let host = (case SplitHost remoteAddr of Some h \<Rightarrow> h | None \<Rightarrow> remoteAddr) in
      case np_ParseAddr np (TrimSpace host) of
        None \<Rightarrow> False
      | Some addr \<Rightarrow> list_ex (\<lambda>prfx. prfx addr) (tp_proxies t))"

definition trusts :: "'a netip \<Rightarrow> 'a trustedProxyTrust \<Rightarrow> Request \<Rightarrow> string \<Rightarrow> bool" where
  "trusts np t r forwarded \<longleftrightarrow>
     trustsRemoteAddr np t (rq_RemoteAddr r) \<or>
     (forwarded \<noteq> [] \<and> normalizeForwardedHost forwarded \<in> tp_hosts t)"

text \<open>The request that the middleware hands on.\<close>

definition proxied_request :: "'a netip \<Rightarrow> 'a trustedProxyTrust \<Rightarrow> Request \<Rightarrow> Request" where
  "proxied_request np t r =
     (let host = forwardedHost r; proto = forwardedProto r in
      if (host = [] \<and> proto = []) \<or> \<not> trusts np t r host then r
      else
        let r1 = (if host \<noteq> []
                  then r\<lparr>rq_Host := normalizeForwardedHost host,
                         rq_URL := (rq_URL r)\<lparr>u_Host := normalizeForwardedHost host\<rparr>\<rparr> else r) in
        if proto \<noteq> [] then r1\<lparr>rq_URL := (rq_URL r1)\<lparr>u_Scheme := ToLower proto\<rparr>\<rparr> else r1)"

text \<open>Without proxies and hosts there is no middleware.\<close>

definition through_proxy :: "'a netip \<Rightarrow> 'a trustedProxyTrust \<Rightarrow> Request \<Rightarrow> Request" where
  "through_proxy np t r = (if tp_proxies t = [] \<and> tp_hosts t = {} then r else proxied_request np t r)"

subsection \<open>The combined handler\<close>

text \<open>\<^verbatim>\<open>http.Redirect\<close> to a path: it is cleaned and keeps a slash at its end.\<close>

definition html_escape :: "string \<Rightarrow> string" where
  "html_escape s = concat (map (\<lambda>c. if c = CHR ''&'' then ''&amp;'' else if c = CHR ''<'' then ''&lt;''
     else if c = CHR ''>'' then ''&gt;'' else if c = CHR 0x22 then ''&#34;'' else if c = CHR 0x27 then ''&#39;'' else [c]) s)"

definition http_Redirect :: "Request \<Rightarrow> string \<Rightarrow> Response" where
  "http_Redirect r path =
     (let cleaned = Clean path;
          target = (if HasSuffix path ''/'' \<and> \<not> HasSuffix cleaned ''/'' then cleaned @ ''/'' else cleaned);
          h = header_Set ''Location'' target [] in
      if rq_Method r = ''GET'' then
        respond 308 (header_Set ''Content-Type'' ''text/html; charset=utf-8'' h)
          (''<a href='' @ [CHR 0x22] @ html_escape target @ [CHR 0x22] @ ''>Permanent Redirect</a>.'' @ [CHR 0x0A, CHR 0x0A])
      else if rq_Method r = ''HEAD'' then respond 308 (header_Set ''Content-Type'' ''text/html; charset=utf-8'' h) []
      else respond 308 h [])"

record combinedHandler =
  ch_prefix :: string
  ch_davOnly :: bool

type_synonym 'w serve = "Request \<Rightarrow> 'w ostate \<Rightarrow> Response \<times> 'w ostate"

definition combined_ServeHTTP :: "combinedHandler \<Rightarrow> 'w serve \<Rightarrow> 'w serve \<Rightarrow> 'w serve" where
  "combined_ServeHTTP h s3 dav r =
     (let path = u_Path (rq_URL r) in
      if path = ''/healthz'' \<or> path = ''/readyz'' then s3 r
      else if path = TrimSuffix (ch_prefix h) ''/'' then Pair (http_Redirect r (ch_prefix h))
      else if HasPrefix path (ch_prefix h) then dav r
      else if ch_davOnly h then Pair (http_NotFound [])
      else s3 r)"

subsection \<open>Building the service\<close>

datatype serverMode = ModeAll | ModeS3 | ModeDAV

record 'w service_env =
  se_config :: config_env
  se_compile :: "string \<Rightarrow> regexp option"
  se_sha256 :: "bytes \<Rightarrow> bytes"
  se_client :: "string \<Rightarrow> string \<Rightarrow> int \<Rightarrow> 'w tg_client"
  se_open :: "string \<Rightarrow> gerror + sqlite"

definition tokenKey :: "'w service_env \<Rightarrow> string \<Rightarrow> string" where
  "tokenKey se token = EncodeToString (se_sha256 se token)"

definition publicReadBucketsFromConfig :: "Config \<Rightarrow> string \<rightharpoonup> bool" where
  "publicReadBucketsFromConfig cfg =
     map_of (map (\<lambda>(name, _). (name, True)) (filter (\<lambda>(_, b). bc_PublicRead b) (cf_Buckets cfg)))"

definition compileCORSPolicyFromConfig :: "(string \<Rightarrow> regexp option) \<Rightarrow> Config \<Rightarrow> gerror + CORSPolicy" where
  "compileCORSPolicyFromConfig compile cfg =
     CompileCORSPolicy compile (sc_AllowedOrigins (cf_Server cfg))
       (map (\<lambda>(name, b). (name, bc_AllowedOrigins b)) (cf_Buckets cfg))"

definition s3OptionsFromConfig :: "Config \<Rightarrow> (string \<rightharpoonup> string) \<Rightarrow> bool \<Rightarrow> CORSPolicy \<Rightarrow> S3Options" where
  "s3OptionsFromConfig cfg credentials ready policy =
     \<lparr>so_Region = ac_Region (cf_Auth cfg), so_Credentials = credentials,
      so_PublicReadBuckets = publicReadBucketsFromConfig cfg, so_Ready = Some ready, so_SigV4MaxSkew = 0,
      so_CORS = Some policy\<rparr>"

fun resolve_secrets :: "(string \<Rightarrow> string) \<Rightarrow> CredentialConfig list \<Rightarrow> (string \<rightharpoonup> string) \<Rightarrow> gerror + (string \<rightharpoonup> string)" where
  "resolve_secrets getenv [] secrets = Inr secrets"
| "resolve_secrets getenv (cred # creds) secrets =
     (let secret = ResolveSecret getenv (cc_SecretKeyEnv cred) in
      if TrimSpace secret = []
      then Inl (Msg (''resolve secret for access key '' @ cc_AccessKey cred @ '': environment variable '' @
                 cc_SecretKeyEnv cred @ '' is empty''))
      else resolve_secrets getenv creds (secrets(cc_AccessKey cred \<mapsto> secret)))"

text \<open>The loop over the buckets: the binding of each, and its row in the metadata store.\<close>

fun bind_buckets ::
    "'w service_env \<Rightarrow> oenv \<Rightarrow> Config \<Rightarrow> (string \<times> BucketConfig) list \<Rightarrow> (sqlite, (string \<times> 'w BucketBinding) list) st" where
  "bind_buckets se env cfg [] = sret []"
| "bind_buckets se env cfg ((name, bucket) # rest) =
     (case ResolveBucketToken (ce_getenv (se_config se)) cfg name of
        Inl err \<Rightarrow> sfail (Wrapf (''resolve bucket '' @ name @ '' bot token'') err)
      | Inr (token, source) \<Rightarrow>
          if TrimSpace token = [] then sfail (Msg (''resolve bucket '' @ name @ '' bot token: empty final token''))
          else
            let binding = \<lparr>bb_Name = name, bb_ChatID = bc_ChatID bucket, bb_TokenSource = source,
                   bb_TokenKey = tokenKey se token,
                   bb_Telegram = Some (se_client se token (tc_APIBaseURL (cf_Telegram cfg)) (tc_Timeout (cf_Telegram cfg)))\<rparr> in
            sbind (time_Now env) (\<lambda>now.
            sbind (stry (UpsertBucket env \<lparr>bk_Name = name, bk_ChatID = bc_ChatID bucket, bk_CreatedAt = now, bk_Enabled = True\<rparr>))
              (\<lambda>r. case r of
                 Inl err \<Rightarrow> sfail (Wrapf (''upsert bucket '' @ name) err)
               | Inr _ \<Rightarrow> sbind (bind_buckets se env cfg rest) (\<lambda>bs. sret ((name, binding) # bs)))))"

definition upload_config :: "StorageConfig \<Rightarrow> UploadConfig" where
  "upload_config st =
     \<lparr>uc_Strategy = sg_UploadTypeStrategy st, uc_EnableChunking = the (sg_EnableChunking st),
      uc_MaxFileSize = sg_MaxFileSize st, uc_ChunkSize = sg_ChunkSize st,
      uc_TypeLimits = Some (sg_TypeSizeLimits st), uc_PutBufferSize = sg_PutBufferSize st\<rparr>"

definition store_options :: "Config \<Rightarrow> string \<Rightarrow> (string \<times> 'w BucketBinding) list \<Rightarrow> 'w Options" where
  "store_options cfg caption bindings =
     (let st = cf_Storage cfg in
      \<lparr>opt_Upload = upload_config st, opt_Caption = Some caption, opt_Buckets = bindings,
       opt_MaxUploads = sg_MaxConcurrentUploads st, opt_MaxDownloads = sg_MaxConcurrentDownloads st,
       opt_MaxTelegramCalls = sg_MaxConcurrentTelegramRequests st\<rparr>)"

text \<open>The running service; the WebDAV handler is there unless the mode is \<^verbatim>\<open>s3\<close>.\<close>

record 'a service =
  sv_s3 :: Server
  sv_dav :: "(Handler \<times> combinedHandler) option"
  sv_trust :: "'a trustedProxyTrust"
  sv_listen :: string

definition runService ::
    "'w service_env \<Rightarrow> 'a netip \<Rightarrow> oenv \<Rightarrow> gerror + bytes \<Rightarrow> serverMode \<Rightarrow> 'w \<Rightarrow> gerror + 'a service \<times> 'w ostate" where
  "runService se np env content mode w =
     (let getenv = ce_getenv (se_config se) in
      case LoadFile (se_config se) content of
        Inl err \<Rightarrow> Inl (Wrapf ''load config'' err)
      | Inr cfg \<Rightarrow>
      (case compileCORSPolicyFromConfig (se_compile se) cfg of
        Inl err \<Rightarrow> Inl (Wrapf ''configure S3 CORS'' err)
      | Inr policy \<Rightarrow>
      (case ParseCaptionTemplate (tc_CaptionTemplate (cf_Telegram cfg)) of
        Inl err \<Rightarrow> Inl (Wrapf ''parse caption template'' err)
      | Inr caption \<Rightarrow>
      (case resolve_secrets getenv (ac_Credentials (cf_Auth cfg)) Map.empty of
        Inl err \<Rightarrow> Inl err
      | Inr secrets \<Rightarrow>
      (case ResolveSQLitePath getenv cfg of
        Inl err \<Rightarrow> Inl (Wrapf ''resolve sqlite path'' err)
      | Inr path \<Rightarrow>
      (case se_open se path of
        Inl err \<Rightarrow> Inl (Wrapf ''open sqlite metadata'' err)
      | Inr db \<Rightarrow>
      (case bind_buckets se env cfg (cf_Buckets cfg) db of
        (Inl err, _) \<Rightarrow> Inl err
      | (Inr bindings, db1) \<Rightarrow>
      (case DisableBucketsExcept env (map fst (cf_Buckets cfg)) db1 of
        (Inl err, _) \<Rightarrow> Inl (Wrapf ''disable removed buckets'' err)
      | (Inr _, db2) \<Rightarrow>
      (case NewObjectStore env None (store_options cfg caption bindings) w db2 of
        Inl err \<Rightarrow> Inl (Wrapf ''create object store'' err)
      | Inr s \<Rightarrow>
      (case newTrustedProxyTrust np (cf_Server cfg) of
        Inl err \<Rightarrow> Inl (Wrapf ''configure trusted proxy middleware'' err)
      | Inr trust \<Rightarrow>
          Inr (\<lparr>sv_s3 = NewServer (s3OptionsFromConfig cfg secrets True policy),
                sv_dav = (if mode = ModeS3 then None
                   else Some (NewHandler (cf_WebDAV_Prefix cfg) secrets,
                     \<lparr>ch_prefix = cf_WebDAV_Prefix cfg, ch_davOnly = (mode = ModeDAV)\<rparr>)),
                sv_trust = trust, sv_listen = ResolveListen getenv cfg\<rparr>, s)))))))))))"

text \<open>One request to the running service.\<close>

definition service_ServeHTTP ::
    "'a netip \<Rightarrow> s3_env \<Rightarrow> 'w dav_env \<Rightarrow> oenv \<Rightarrow> 'a service \<Rightarrow> 'w serve" where
  "service_ServeHTTP np s3e de env srv r0 =
     (let r = through_proxy np (sv_trust srv) r0; s3 = ServeHTTP s3e env (sv_s3 srv) in
      case sv_dav srv of
        None \<Rightarrow> s3 r
      | Some (h, ch) \<Rightarrow> combined_ServeHTTP ch s3 (dav_ServeHTTP de env h) r)"

text \<open>\<^verbatim>\<open>runMain\<close>: the command that the arguments choose.\<close>

datatype command =
    Serve string serverMode | Ls string "string list" | Lsd string "string list" | BucketCommand string "string list"

definition runMain :: "string list \<Rightarrow> gerror + command option" where
  "runMain args =
     (case parseGlobalFlags args of
        Inl ErrHelp \<Rightarrow> Inr None
      | Inl (FlagError t) \<Rightarrow> Inl (Msg t)
      | Inr (configPath, debug, rest) \<Rightarrow>
          (case rest of
             [] \<Rightarrow> Inr (Some (Serve configPath ModeAll))
           | cmd # more_args \<Rightarrow>
               if cmd = ''s3'' then Inr (Some (Serve configPath ModeS3))
               else if cmd = ''dav'' then Inr (Some (Serve configPath ModeDAV))
               else if cmd = ''ls'' then Inr (Some (Ls configPath more_args))
               else if cmd = ''lsd'' then Inr (Some (Lsd configPath more_args))
               else if cmd = ''bucket'' then Inr (Some (BucketCommand configPath more_args))
               else Inl (Msg (''unknown subcommand: '' @ cmd))))"

end
