(* ===== verification/ServiceProps.thy ===== *)
theory ServiceProps
  imports Service S3Props DavProps
begin

text \<open>
  The service as a whole: what a configuration that was accepted promises, how the parts are wired, where
  a request goes, and that none gets in without credentials.
\<close>

subsection \<open>The configuration\<close>

lemma first_error_None: "first_error es = None \<longleftrightarrow> (\<forall>e \<in> set es. e = None)"
  by (induction es rule: first_error.induct) auto

lemma check_None [simp]: "check bad text = None \<longleftrightarrow> \<not> bad"
  by (simp add: check_def)

lemma LoadFile_steps:
  assumes "LoadFile ce content = Inr c"
  obtains c0 where "resolve_buckets (ce_getenv ce) (cf_Buckets c0) = Inr (cf_Buckets c)" "Validate ce c = None"
    "cf_Storage c = applyStorageDefaults (cf_Storage c0)" "cf_WebDAV_Prefix c = cf_WebDAV_Prefix (applyWebDAVDefaults c0)"
proof -
  from assms obtain data c0 where d: "content = Inr data" "ce_decode ce data default_config = Inr c0"
    by (auto simp: LoadFile_def split: sum.splits)
  with assms that [of c0] show ?thesis
    by (auto simp: LoadFile_def Let_def applyWebDAVDefaults_def split: sum.splits option.splits if_splits)
qed

definition config_ok :: "Config \<Rightarrow> bool" where
  "config_ok c \<longleftrightarrow>
     0 < sg_MaxFileSize (cf_Storage c) \<and> 0 < sg_ChunkSize (cf_Storage c) \<and>
     (\<exists>n. sg_TypeSizeLimits (cf_Storage c) ''document'' = Some n \<and> 0 < n) \<and>
     sg_UploadTypeStrategy (cf_Storage c) \<in> {''document'', ''auto''} \<and> sg_EnableChunking (cf_Storage c) \<noteq> None \<and>
     cf_Buckets c \<noteq> [] \<and> ac_Credentials (cf_Auth c) \<noteq> [] \<and>
     (\<forall>(name, bucket) \<in> set (cf_Buckets c). TrimSpace name \<noteq> [] \<and> TrimSpace (bc_ChatID bucket) \<noteq> []) \<and>
     HasPrefix (cf_WebDAV_Prefix c) ''/'' \<and> HasSuffix (cf_WebDAV_Prefix c) ''/'' \<and> cf_WebDAV_Prefix c \<noteq> ''/'' \<and>
     first_segment (cf_WebDAV_Prefix c) \<notin> fst ` set (cf_Buckets c)"

lemma LoadFile_config_ok:
  assumes "LoadFile ce content = Inr c"
  shows "config_ok c"
proof -
  obtain c0 where c0: "Validate ce c = None" "cf_Storage c = applyStorageDefaults (cf_Storage c0)"
      "cf_WebDAV_Prefix c = cf_WebDAV_Prefix (applyWebDAVDefaults c0)"
    using LoadFile_steps [OF assms] by blast
  note v = c0(1) [unfolded Validate_def Let_def first_error_None set_append]
  have storage: "sg_UploadTypeStrategy (cf_Storage c) \<in> {''document'', ''auto''}" "0 < sg_MaxFileSize (cf_Storage c)"
      "0 < sg_ChunkSize (cf_Storage c)" "cf_Buckets c \<noteq> []" "ac_Credentials (cf_Auth c) \<noteq> []"
      "(case sg_TypeSizeLimits (cf_Storage c) ''document'' of Some n \<Rightarrow> n | None \<Rightarrow> 0) > 0"
      "validateWebDAV c = None"
    using v by (simp_all add: not_le)
  have "\<forall>e \<in> set (concat (map (\<lambda>(name, bucket).
      [check (TrimSpace name = []) ''bucket name is required'',
       check (TrimSpace (bc_ChatID bucket) = []) (''bucket '' @ Quote name @ '' chat id is required'')]) (cf_Buckets c))). e = None"
    using v unfolding ball_Un by (elim conjE)
  then have names: "\<forall>(name, bucket) \<in> set (cf_Buckets c). TrimSpace name \<noteq> [] \<and> TrimSpace (bc_ChatID bucket) \<noteq> []"
    by (auto simp: split_beta)
  have "sg_EnableChunking (cf_Storage c) \<noteq> None"
    by (cases "sg_EnableChunking (cf_Storage c0)") (auto simp: c0(2) applyStorageDefaults_def DefaultStorageConfig_def Let_def)
  moreover have "\<exists>n. sg_TypeSizeLimits (cf_Storage c) ''document'' = Some n \<and> 0 < n"
    using storage(6) by (auto split: option.splits)
  moreover have "HasSuffix (cf_WebDAV_Prefix c) ''/''"
    unfolding c0(3) applyWebDAVDefaults_def Let_def by (auto simp: HasSuffix_iff)
  moreover have "HasPrefix (cf_WebDAV_Prefix c) ''/''" "cf_WebDAV_Prefix c \<noteq> ''/''"
      "first_segment (cf_WebDAV_Prefix c) \<notin> fst ` set (cf_Buckets c)"
    using storage(7) by (auto simp: validateWebDAV_def Let_def split: if_splits)
  ultimately show ?thesis using storage names by (simp add: config_ok_def)
qed

text \<open>C26: A configuration that \<^verbatim>\<open>LoadFile\<close> accepts is usable: sizes and the limit of documents are positive, the
  strategy is one of the two, chunking is decided, there are buckets and credentials, no bucket is
  without name or chat id, and the WebDAV prefix begins and ends with a slash, is not the root, and
  its first segment is not the name of a bucket.\<close>
theorem LoadFile_accepts:
  assumes "LoadFile ce content = Inr c"
  shows "0 < sg_MaxFileSize (cf_Storage c) \<and> 0 < sg_ChunkSize (cf_Storage c) \<and>
    (\<exists>n. sg_TypeSizeLimits (cf_Storage c) ''document'' = Some n \<and> 0 < n) \<and>
    sg_UploadTypeStrategy (cf_Storage c) \<in> {''document'', ''auto''} \<and> sg_EnableChunking (cf_Storage c) \<noteq> None \<and>
    cf_Buckets c \<noteq> [] \<and> ac_Credentials (cf_Auth c) \<noteq> [] \<and>
    (\<forall>(name, bucket) \<in> set (cf_Buckets c). TrimSpace name \<noteq> [] \<and> TrimSpace (bc_ChatID bucket) \<noteq> []) \<and>
    HasPrefix (cf_WebDAV_Prefix c) ''/'' \<and> HasSuffix (cf_WebDAV_Prefix c) ''/'' \<and> cf_WebDAV_Prefix c \<noteq> ''/'' \<and>
    first_segment (cf_WebDAV_Prefix c) \<notin> fst ` set (cf_Buckets c)"
  using LoadFile_config_ok [OF assms] by (simp add: config_ok_def)

subsection \<open>Wiring\<close>

definition bound :: "'w service_env \<Rightarrow> Config \<Rightarrow> string \<times> BucketConfig \<Rightarrow> string \<times> 'w BucketBinding \<Rightarrow> bool" where
  "bound se cfg bucket binding \<longleftrightarrow> fst binding = fst bucket \<and> bb_ChatID (snd binding) = bc_ChatID (snd bucket) \<and>
     (\<exists>token source. ResolveBucketToken (ce_getenv (se_config se)) cfg (fst bucket) = Inr (token, source) \<and>
       TrimSpace token \<noteq> [] \<and> bb_TokenKey (snd binding) = tokenKey se token \<and>
       bb_Telegram (snd binding) = Some (se_client se token (tc_APIBaseURL (cf_Telegram cfg)) (tc_Timeout (cf_Telegram cfg))))"

lemma bind_buckets_bindings:
  "bind_buckets se env cfg bs s = (Inr bindings, s') \<Longrightarrow> list_all2 (bound se cfg) bs bindings"
proof (induction bs arbitrary: s bindings)
  case Nil
  then show ?case by (simp add: sret_def)
next
  case (Cons nb rest)
  obtain name bucket where nb: "nb = (name, bucket)" by fastforce
  from Cons.prems obtain token source where t: "ResolveBucketToken (ce_getenv (se_config se)) cfg name = Inr (token, source)"
    "TrimSpace token \<noteq> []"
    by (auto simp: nb sfail_def split: sum.splits if_splits)
  let ?b = "\<lparr>bb_Name = name, bb_ChatID = bc_ChatID bucket, bb_TokenSource = source, bb_TokenKey = tokenKey se token,
     bb_Telegram = Some (se_client se token (tc_APIBaseURL (cf_Telegram cfg)) (tc_Timeout (cf_Telegram cfg)))\<rparr>"
  from Cons.prems obtain r :: "gerror + unit" and s2 where "(case r of Inl err \<Rightarrow> sfail (Wrapf (''upsert bucket '' @ name) err)
         | Inr _ \<Rightarrow> sbind (bind_buckets se env cfg rest) (\<lambda>bs. sret ((name, ?b) # bs))) s2 = (Inr bindings, s')"
    unfolding nb bind_buckets.simps t(1) sum.case prod.case Let_def if_not_P [OF t(2)] sbind_Inr
    by (elim exE conjE) (rule that)
  then obtain bs' where "bind_buckets se env cfg rest s2 = (Inr bs', s')" "bindings = (name, ?b) # bs'"
    by (cases r) (auto simp: sfail_def sbind_Inr sret_def simp del: append_Cons)
  with Cons.IH t show ?case by (simp add: nb bound_def)
qed

lemma case_Inr: "(case r of Inl e \<Rightarrow> Inl (f e) | Inr x \<Rightarrow> g x) = Inr y \<longleftrightarrow> (\<exists>x. r = Inr x \<and> g x = Inr y)"
  by (auto split: sum.splits)

lemma case_Inr_state:
  "(case p of (Inl e, s) \<Rightarrow> Inl (f e s) | (Inr x, s) \<Rightarrow> h x s) = Inr y \<longleftrightarrow> (\<exists>x s. p = (Inr x, s) \<and> h x s = Inr y)"
  by (auto split: sum.splits prod.splits)

lemma TrimSpace_Nil [simp]: "TrimSpace [] = []"
  by code_simp

lemma list_all2_map_of:
  "list_all2 (bound se cfg) bs bindings \<Longrightarrow> map_of bs name = Some bucket \<Longrightarrow>
     \<exists>b. map_of bindings name = Some b \<and> bound se cfg (name, bucket) (name, b)"
  by (induction rule: list_all2_induct) (auto simp: bound_def split: if_splits)

lemma resolve_secrets_map:
  "resolve_secrets getenv creds acc = Inr secrets \<Longrightarrow>
     secrets = acc ++ map_of (rev (map (\<lambda>c. (cc_AccessKey c, getenv (cc_SecretKeyEnv c))) creds)) \<and>
     (\<forall>c \<in> set creds. TrimSpace (getenv (cc_SecretKeyEnv c)) \<noteq> [])"
proof (induction creds arbitrary: acc)
  case (Cons c creds)
  then have ne: "TrimSpace (ResolveSecret getenv (cc_SecretKeyEnv c)) \<noteq> []"
    and rest: "resolve_secrets getenv creds (acc(cc_AccessKey c \<mapsto> ResolveSecret getenv (cc_SecretKeyEnv c))) = Inr secrets"
    by (simp_all add: Let_def split: if_splits)
  from ne have "ResolveSecret getenv (cc_SecretKeyEnv c) = getenv (cc_SecretKeyEnv c)"
    by (auto simp: ResolveSecret_def split: if_splits)
  with Cons.IH [OF rest] ne show ?case by (simp add: map_add_def fun_eq_iff split: option.split)
qed simp

text \<open>The rows of the buckets of the configuration, while they are written one after the other.\<close>

definition rows_enabled :: "string set \<Rightarrow> tables \<Rightarrow> bool" where
  "rows_enabled names t \<longleftrightarrow> names \<subseteq> bk_Name ` set (tb_buckets t) \<and> (\<forall>r \<in> set (tb_buckets t). bk_Name r \<in> names \<longrightarrow> bk_Enabled r)"

lemma upsert_by_cases: "r \<in> set (upsert_by f x rs) \<Longrightarrow> r = x \<or> r \<in> set rs \<and> f r \<noteq> f x"
  by (cases "f x \<in> f ` set rs") (auto simp: upsert_by_def image_iff split: if_splits)

lemma rows_enabled_upsert:
  assumes "rows_enabled names t" "bk_Enabled b"
  shows "rows_enabled (insert (bk_Name b) names) (t\<lparr>tb_buckets := upsert_by bk_Name (bucket_row b) (tb_buckets t)\<rparr>)"
proof -
  have "bk_Enabled r" if "r \<in> set (upsert_by bk_Name (bucket_row b) (tb_buckets t))" "bk_Name r \<in> insert (bk_Name b) names" for r
    using that assms upsert_by_cases [OF that(1)] by (auto simp: rows_enabled_def bucket_row_def)
  moreover have "insert (bk_Name b) names \<subseteq> bk_Name ` set (upsert_by bk_Name (bucket_row b) (tb_buckets t))"
    using assms(1) unfolding image_upsert_by by (auto simp: rows_enabled_def bucket_row_def)
  ultimately show ?thesis by (simp add: rows_enabled_def)
qed

lemma bind_buckets_rows:
  "bind_buckets se env cfg bs s = (Inr bindings, s') \<Longrightarrow> rows_enabled names (tabs s) \<Longrightarrow>
     rows_enabled (names \<union> fst ` set bs) (tabs s')"
proof (induction bs arbitrary: s bindings names)
  case Nil
  then show ?case by (simp add: sret_def)
next
  case (Cons nb rest)
  obtain name bucket where nb: "nb = (name, bucket)" by fastforce
  from Cons.prems(1) obtain token source where t: "ResolveBucketToken (ce_getenv (se_config se)) cfg name = Inr (token, source)"
    "TrimSpace token \<noteq> []"
    by (auto simp: nb sfail_def split: sum.splits if_splits)
  obtain now s1 where now: "time_Now env s = (Inr now, s1)" "tabs s1 = tabs s" by (simp add: time_Now_def)
  let ?row = "\<lparr>bk_Name = name, bk_ChatID = bc_ChatID bucket, bk_CreatedAt = now, bk_Enabled = True\<rparr>"
  from Cons.prems(1) now(1) obtain s2 bs' where up: "UpsertBucket env ?row s1 = (Inr (), s2)"
    and rest: "bind_buckets se env cfg rest s2 = (Inr bs', s')"
    unfolding nb bind_buckets.simps t(1) sum.case prod.case Let_def if_not_P [OF t(2)]
    by (auto simp: sbind_def stry_def sfail_def sret_def split: prod.splits sum.splits)
  have "tabs s2 = (tabs s)\<lparr>tb_buckets := upsert_by bk_Name (bucket_row ?row) (tb_buckets (tabs s))\<rparr>"
    using up now(2) by (auto simp: UpsertBucket_def exec_def sql_upsert_bucket_def split: option.splits)
  then have "rows_enabled (insert name names) (tabs s2)"
    using rows_enabled_upsert [OF Cons.prems(2), of ?row] by simp
  from Cons.IH [OF rest this] show ?case by (simp add: nb)
qed

lemma DisableBucketsExcept_rows:
  assumes "DisableBucketsExcept env names s = (Inr x, s')" "rows_enabled (set names) (tabs s)"
  shows "set names \<subseteq> bk_Name ` set (tb_buckets (tabs s'))"
    "\<forall>r \<in> set (tb_buckets (tabs s')). bk_Enabled r \<longleftrightarrow> bk_Name r \<in> set names"
proof -
  let ?off = "\<lambda>r. if bk_Enabled r \<and> bk_Name r \<notin> set names then r\<lparr>bk_Enabled := False\<rparr> else r"
  have t: "tb_buckets (tabs s') = map ?off (tb_buckets (tabs s))"
    using assms(1) by (auto simp: DisableBucketsExcept_def exec_def sql_disable_buckets_def split: if_splits option.splits)
  have "bk_Name ` set (tb_buckets (tabs s')) = bk_Name ` set (tb_buckets (tabs s))"
    unfolding t set_map image_image by (intro image_cong) simp_all
  with assms(2) show "set names \<subseteq> bk_Name ` set (tb_buckets (tabs s'))" by (simp add: rows_enabled_def)
  show "\<forall>r \<in> set (tb_buckets (tabs s')). bk_Enabled r \<longleftrightarrow> bk_Name r \<in> set names"
    using assms(2) by (auto simp: t rows_enabled_def)
qed

lemma runService_parts:
  assumes "runService se np env content mode w = Inr (srv, s)" "LoadFile (se_config se) content = Inr cfg"
  shows "sv_keys (srv_verify (sv_s3 srv)) = map_of (rev (map (\<lambda>cred. (cc_AccessKey cred,
       ce_getenv (se_config se) (cc_SecretKeyEnv cred))) (ac_Credentials (cf_Auth cfg)))) \<and>
    sv_keys (srv_verify (sv_s3 srv)) \<noteq> Map.empty \<and>
    (\<forall>key secret. sv_keys (srv_verify (sv_s3 srv)) key = Some secret \<longrightarrow> TrimSpace secret \<noteq> []) \<and>
    sv_region (srv_verify (sv_s3 srv)) = ac_Region (cf_Auth cfg) \<and>
    (sv_dav srv = None \<longleftrightarrow> mode = ModeS3) \<and>
    (\<forall>h ch. sv_dav srv = Some (h, ch) \<longrightarrow> dh_creds h = sv_keys (srv_verify (sv_s3 srv)) \<and>
       dh_prefix h = cf_WebDAV_Prefix cfg \<and> ch_prefix ch = cf_WebDAV_Prefix cfg \<and> ch_davOnly ch = (mode = ModeDAV)) \<and>
    (\<forall>name bucket. map_of (cf_Buckets cfg) name = Some bucket \<longrightarrow>
       (\<exists>b. bucketBinding s name = Inr b \<and> bound se cfg (name, bucket) (name, b))) \<and>
    fst ` set (cf_Buckets cfg) \<subseteq> bk_Name ` set (tb_buckets (tabs s)) \<and>
    (\<forall>r \<in> set (tb_buckets (tabs s)). bk_Enabled r \<longleftrightarrow> bk_Name r \<in> fst ` set (cf_Buckets cfg))"
proof -
  from assms(1) obtain policy caption secrets path db bindings db1 db2 trust s0 x where
    secrets: "resolve_secrets (ce_getenv (se_config se)) (ac_Credentials (cf_Auth cfg)) Map.empty = Inr secrets"
    and bind: "bind_buckets se env cfg (cf_Buckets cfg) db = (Inr bindings, db1)"
    and dis: "DisableBucketsExcept env (map fst (cf_Buckets cfg)) db1 = (Inr x, db2)"
    and store: "NewObjectStore env None (store_options cfg caption bindings) w db2 = Inr s0"
    and res: "Inr (\<lparr>sv_s3 = NewServer (s3OptionsFromConfig cfg secrets True policy),
                sv_dav = (if mode = ModeS3 then None
                   else Some (NewHandler (cf_WebDAV_Prefix cfg) secrets,
                     \<lparr>ch_prefix = cf_WebDAV_Prefix cfg, ch_davOnly = (mode = ModeDAV)\<rparr>)),
                sv_trust = trust, sv_listen = ResolveListen (ce_getenv (se_config se)) cfg\<rparr>, s0) = (Inr (srv, s) :: gerror + _)"
    unfolding runService_def Let_def assms(2) sum.case case_Inr case_Inr_state
    by (elim exE conjE) (rule that)
  have srv: "sv_s3 srv = NewServer (s3OptionsFromConfig cfg secrets True policy)"
      "sv_dav srv = (if mode = ModeS3 then None else Some (NewHandler (cf_WebDAV_Prefix cfg) secrets,
         \<lparr>ch_prefix = cf_WebDAV_Prefix cfg, ch_davOnly = (mode = ModeDAV)\<rparr>))" "s0 = s"
    using res by auto
  have ok: "config_ok cfg" by (rule LoadFile_config_ok [OF assms(2)])
  have keys: "sv_keys (srv_verify (sv_s3 srv)) = secrets" "sv_region (srv_verify (sv_s3 srv)) = ac_Region (cf_Auth cfg)"
    by (simp_all add: srv NewServer_def NewSigV4Verifier_def s3OptionsFromConfig_def)
  have prefix: "cf_WebDAV_Prefix cfg \<noteq> []" "HasPrefix (cf_WebDAV_Prefix cfg) ''/''" "HasSuffix (cf_WebDAV_Prefix cfg) ''/''"
    using ok by (auto simp: config_ok_def HasPrefix_iff)
  have dav: "dh_creds (NewHandler (cf_WebDAV_Prefix cfg) secrets) = secrets"
      "dh_prefix (NewHandler (cf_WebDAV_Prefix cfg) secrets) = cf_WebDAV_Prefix cfg"
    using prefix by (simp_all add: NewHandler_def Let_def)
  have tables: "tabs s = tabs db2"
    using store srv(3) reads_onlyD [OF reads_only_ListBuckets]
    by (auto simp: NewObjectStore_def Let_def split: prod.splits sum.splits option.splits)
  have binding: "\<exists>b. bucketBinding s name = Inr b \<and> bound se cfg (name, bucket) (name, b)"
    if "map_of (cf_Buckets cfg) name = Some bucket" for name bucket
  proof -
    from bind_buckets_bindings [OF bind] that obtain b where b: "map_of bindings name = Some b" "bound se cfg (name, bucket) (name, b)"
      using list_all2_map_of by metis
    have "bucketBindings s name = Some b"
      using store b(1) srv(3) by (auto simp: NewObjectStore_def Let_def store_options_def split: prod.splits sum.splits option.splits)
    moreover have "bb_ChatID b \<noteq> []" "bb_Telegram b \<noteq> None"
      using b(2) ok map_of_SomeD [OF that] by (auto simp: bound_def config_ok_def)
    ultimately have "bucketBinding s name = Inr b"
      by (auto simp: bucketBinding_def Let_def)
    with b(2) show ?thesis by blast
  qed
  have sec: "secrets = map_of (rev (map (\<lambda>cred. (cc_AccessKey cred, ce_getenv (se_config se) (cc_SecretKeyEnv cred)))
       (ac_Credentials (cf_Auth cfg))))"
    and blank: "\<forall>c \<in> set (ac_Credentials (cf_Auth cfg)). TrimSpace (ce_getenv (se_config se) (cc_SecretKeyEnv c)) \<noteq> []"
    using resolve_secrets_map [OF secrets] by simp_all
  have "secrets \<noteq> Map.empty" using ok unfolding sec by (simp add: config_ok_def)
  moreover have "TrimSpace secret \<noteq> []" if "secrets key = Some secret" for key secret
    using that blank map_of_SomeD [of _ key secret] unfolding sec by fastforce
  moreover have "rows_enabled (set (map fst (cf_Buckets cfg))) (tabs db1)"
    using bind_buckets_rows [OF bind, of "{}"] by (simp add: rows_enabled_def)
  note rows = DisableBucketsExcept_rows [OF dis this]
  ultimately show ?thesis using keys dav srv(2) binding sec rows unfolding tables by simp
qed

text \<open>C25: A service that starts is wired as the configuration says. The keys on file are its access keys, each with the
  value of its environment variable (of the last credential, where a key is named twice), there is one and none is
  blank; WebDAV checks passwords against the same keys and serves below the configured prefix; requests are
  checked for the configured region; every configured bucket is bound to its own chat with a client of its own
  token; and in the metadata exactly the configured buckets are enabled, and all of them have a row.\<close>
theorem runService_wires:
  assumes "runService se np env content mode w = Inr (srv, s)" "LoadFile (se_config se) content = Inr cfg"
  shows "sv_keys (srv_verify (sv_s3 srv)) = map_of (rev (map (\<lambda>cred. (cc_AccessKey cred,
       ce_getenv (se_config se) (cc_SecretKeyEnv cred))) (ac_Credentials (cf_Auth cfg)))) \<and>
    sv_keys (srv_verify (sv_s3 srv)) \<noteq> Map.empty \<and>
    (\<forall>key secret. sv_keys (srv_verify (sv_s3 srv)) key = Some secret \<longrightarrow> TrimSpace secret \<noteq> []) \<and>
    sv_region (srv_verify (sv_s3 srv)) = ac_Region (cf_Auth cfg) \<and>
    (sv_dav srv = None \<longleftrightarrow> mode = ModeS3) \<and>
    (\<forall>h ch. sv_dav srv = Some (h, ch) \<longrightarrow> dh_creds h = sv_keys (srv_verify (sv_s3 srv)) \<and>
       dh_prefix h = cf_WebDAV_Prefix cfg \<and> ch_prefix ch = cf_WebDAV_Prefix cfg \<and> ch_davOnly ch = (mode = ModeDAV)) \<and>
    (\<forall>name bucket. map_of (cf_Buckets cfg) name = Some bucket \<longrightarrow>
       (\<exists>b. bucketBinding s name = Inr b \<and> bound se cfg (name, bucket) (name, b))) \<and>
    fst ` set (cf_Buckets cfg) \<subseteq> bk_Name ` set (tb_buckets (tabs s)) \<and>
    (\<forall>r \<in> set (tb_buckets (tabs s)). bk_Enabled r \<longleftrightarrow> bk_Name r \<in> fst ` set (cf_Buckets cfg))"
  by (rule runService_parts [OF assms])

subsection \<open>Where a request goes\<close>

lemma proxied_path [simp]: "u_Path (rq_URL (through_proxy np t r)) = u_Path (rq_URL r)"
  by (simp add: through_proxy_def proxied_request_def Let_def)

text \<open>A path below one segment is not below another.\<close>

lemma first_segment_eq: "CHR ''/'' \<notin> set seg \<Longrightarrow> first_segment (''/'' @ seg @ ''/'' @ rest) = seg"
  by (simp add: first_segment_def Let_def TrimPrefix_def Index_single_append)

lemma prefix_segment:
  assumes "HasPrefix p ''/''" "HasSuffix p ''/''" "p \<noteq> ''/''"
  obtains rest where "p = ''/'' @ first_segment p @ ''/'' @ rest" "CHR ''/'' \<notin> set (first_segment p)"
proof -
  from assms(1) obtain q where q: "p = ''/'' @ q" by (auto simp: HasPrefix_iff)
  with assms(2,3) have "CHR ''/'' \<in> set q" by (cases q rule: rev_cases) (auto simp: HasSuffix_iff)
  then obtain a rest where a: "q = a @ CHR ''/'' # rest" "CHR ''/'' \<notin> set a" by (metis split_list_first)
  with q have "p = ''/'' @ a @ ''/'' @ rest" by simp
  with first_segment_eq [OF a(2), of rest] a(2) that show ?thesis by metis
qed

text \<open>C24: WebDAV does not hide a bucket: with a configuration that was accepted, a request for a path in a
  configured bucket (whose name has no slash) is answered by the S3 API, unless the service only
  speaks WebDAV.\<close>
theorem service_routes_buckets:
  fixes s t :: "'w ostate"
  assumes "runService se np env content mode w = Inr (srv, s)" "LoadFile (se_config se) content = Inr cfg" "mode \<noteq> ModeDAV"
    and "b \<in> fst ` set (cf_Buckets cfg)" "CHR ''/'' \<notin> set b"
    and "u_Path (rq_URL r) = ''/'' @ b \<or> u_Path (rq_URL r) = ''/'' @ b @ ''/'' @ k"
  shows "service_ServeHTTP np s3e de env' srv r t = ServeHTTP s3e env' (sv_s3 srv) (through_proxy np (sv_trust srv) r) t"
proof -
  let ?p = "cf_WebDAV_Prefix cfg" and ?path = "u_Path (rq_URL r)"
  have p: "HasPrefix ?p ''/''" "HasSuffix ?p ''/''" "?p \<noteq> ''/''" "first_segment ?p \<notin> fst ` set (cf_Buckets cfg)"
    using LoadFile_config_ok [OF assms(2)] by (simp_all add: config_ok_def)
  have b: "first_segment (?path @ ''/'') = b"
    using assms(5,6) first_segment_eq [of b "[]"] first_segment_eq [of b "k @ ''/''"] by auto
  have "?path \<noteq> TrimSuffix ?p ''/''"
  proof
    assume "?path = TrimSuffix ?p ''/''"
    with p(2) have "?path @ ''/'' = ?p" by (auto simp: HasSuffix_iff TrimSuffix_def)
    with b p(4) assms(4) show False by auto
  qed
  moreover have "\<not> HasPrefix ?path ?p"
  proof
    assume "HasPrefix ?path ?p"
    then obtain x where x: "?path = ?p @ x" by (auto simp: HasPrefix_iff)
    obtain rest where "?p = ''/'' @ first_segment ?p @ ''/'' @ rest" "CHR ''/'' \<notin> set (first_segment ?p)"
      using prefix_segment [OF p(1-3)] .
    with first_segment_eq [of "first_segment ?p" "rest @ x @ ''/''"] x have "first_segment (?path @ ''/'') = first_segment ?p"
      by (metis append.assoc)
    with b p(4) assms(4) show False by simp
  qed
  ultimately have not_dav: "?path \<noteq> TrimSuffix ?p ''/'' \<and> \<not> HasPrefix ?path ?p" by blast
  show ?thesis
  proof (cases "sv_dav srv")
    case None
    then show ?thesis by (simp add: service_ServeHTTP_def Let_def)
  next
    case (Some hc)
    then obtain h ch where hc: "sv_dav srv = Some (h, ch)" by (metis prod.collapse)
    with runService_parts [OF assms(1,2)] assms(3) have "ch_prefix ch = ?p" "\<not> ch_davOnly ch" by simp_all
    with not_dav show ?thesis by (simp add: service_ServeHTTP_def combined_ServeHTTP_def Let_def hc)
  qed
qed

subsection \<open>Who gets in\<close>

text \<open>C9: No request gets past its authorization, whichever front end it goes to. Seen as the proxy middleware
  passes it on, it carries a signature in its headers that the verifier accepted; or it reads an
  object over S3, with an accepted presigned URL or from a bucket that is read anonymously, and no
  row and no binding has changed; or it goes to WebDAV and carries the password on file of a user; or
  it is answered without the store: whatever the state, the answer is the same and nothing changes.\<close>
theorem service_requests_authorized:
  fixes s s' :: "'w ostate"
  assumes "service_ServeHTTP np s3e de env srv r0 s = (resp, s')"
  defines "r \<equiv> through_proxy np (sv_trust srv) r0"
  shows "(\<exists>ident. Verify (s3_crypto s3e) ((srv_verify (sv_s3 srv))\<lparr>sv_clock := s3_now s3e\<rparr>) r = Inr ident \<and> \<not> id_Presigned ident) \<or>
    allowsPresignedRequest r \<and> same s s' \<and>
      (allowsAnonymousPublicRead (sv_s3 srv) r \<or>
       Verify (s3_crypto s3e) ((srv_verify (sv_s3 srv))\<lparr>sv_clock := s3_now s3e\<rparr>) r \<in> range Inr) \<or>
    (\<exists>h ch user pass. sv_dav srv = Some (h, ch) \<and> BasicAuth r = Some (user, pass) \<and> dh_creds h user = Some pass) \<or>
    (\<forall>t :: 'w ostate. service_ServeHTTP np s3e de env srv r0 t = (resp, t))"
proof -
  let ?s3 = "ServeHTTP s3e env (sv_s3 srv)"
  consider "service_ServeHTTP np s3e de env srv r0 = ?s3 r"
    | h ch where "sv_dav srv = Some (h, ch)" "service_ServeHTTP np s3e de env srv r0 = dav_ServeHTTP de env h r"
    | resp' where "service_ServeHTTP np s3e de env srv r0 = Pair resp'"
  proof (cases "sv_dav srv")
    case None
    then show ?thesis by (intro that(1)) (simp add: service_ServeHTTP_def Let_def r_def)
  next
    case (Some hc)
    then obtain h ch where hc: "sv_dav srv = Some (h, ch)" by (metis prod.collapse)
    then have "service_ServeHTTP np s3e de env srv r0 = combined_ServeHTTP ch ?s3 (dav_ServeHTTP de env h) r"
      by (simp add: service_ServeHTTP_def Let_def r_def)
    with hc show ?thesis
      using that by (auto simp: combined_ServeHTTP_def Let_def split: if_splits)
  qed
  then show ?thesis
  proof cases
    case 1
    with assms(1) have "?s3 r s = (resp, s')" by simp
    from S3_requests_authorized [OF this] show ?thesis unfolding 1 by blast
  next
    case (2 h ch)
    show ?thesis
    proof (cases "basic_auth_ok h r")
      case True
      with 2(1) show ?thesis by (auto simp: basic_auth_ok_def split: option.splits prod.splits)
    next
      case False
      then have "\<forall>t :: 'w ostate. dav_ServeHTTP de env h r t = (fst (dav_ServeHTTP de env h r s), t)"
        by (simp add: dav_ServeHTTP_def)
      with assms(1) show ?thesis unfolding 2(2) by (metis fst_conv)
    qed
  next
    case (3 resp')
    with assms(1) show ?thesis by simp
  qed
qed

subsection \<open>A service\<close>

definition demo_bucket_config :: BucketConfig where
  "demo_bucket_config = \<lparr>bc_ChatID = ''-100'', bc_BotToken = ''1:t'', bc_PublicRead = False, bc_AllowedOrigins = []\<rparr>"

definition demo_config_env :: config_env where
  "demo_config_env = \<lparr>ce_getenv = (\<lambda>_. ''secret''),
     ce_decode = (\<lambda>_ c. Inr (c\<lparr>cf_Auth := \<lparr>ac_Region = ''us'', ac_Credentials = [\<lparr>cc_AccessKey = ''AK'', cc_SecretKeyEnv = ''S''\<rparr>]\<rparr>,
       cf_Buckets := [(''b'', demo_bucket_config)]\<rparr>)),
     ce_ParsePrefix = (\<lambda>_. True)\<rparr>"

definition demo_service_env :: "FakeTelegram service_env" where
  "demo_service_env = \<lparr>se_config = demo_config_env, se_compile = (\<lambda>_. Some (\<lambda>_. False)), se_sha256 = take 2,
     se_client = (\<lambda>_ _ _. fake_client), se_open = (\<lambda>_. Inr demo_state)\<rparr>"

definition demo_netip :: "unit netip" where
  "demo_netip = \<lparr>np_ParsePrefix = (\<lambda>_. None), np_ParseAddr = (\<lambda>_. None)\<rparr>"

definition demo_run_service :: "gerror + unit service \<times> FakeTelegram ostate" where
  "demo_run_service = runService demo_service_env demo_netip demo_oenv (Inr []) ModeAll NewFakeTelegram"

lemma demo_load: "case LoadFile demo_config_env (Inr []) of
    Inr c \<Rightarrow> cf_Buckets c = [(''b'', demo_bucket_config)] \<and> ac_Credentials (cf_Auth c) = [\<lparr>cc_AccessKey = ''AK'', cc_SecretKeyEnv = ''S''\<rparr>]
  | Inl _ \<Rightarrow> False"
  by code_simp

lemma demo_service_starts: "case demo_run_service of Inr (srv, s) \<Rightarrow> sv_listen srv = ''secret'' | Inl _ \<Rightarrow> False"
  by code_simp

lemma demo_loaded:
  obtains c where "LoadFile demo_config_env (Inr []) = Inr c" "cf_Buckets c = [(''b'', demo_bucket_config)]"
    "ac_Credentials (cf_Auth c) = [\<lparr>cc_AccessKey = ''AK'', cc_SecretKeyEnv = ''S''\<rparr>]"
  using demo_load that by (auto split: sum.splits)

lemma demo_started:
  obtains srv s where "runService demo_service_env demo_netip demo_oenv (Inr []) ModeAll NewFakeTelegram = Inr (srv, s)"
  using demo_service_starts that by (auto simp: demo_run_service_def split: sum.splits)

theorem LoadFile_accepts_witness: "\<exists>c. LoadFile demo_config_env (Inr []) = Inr c \<and> HasSuffix (cf_WebDAV_Prefix c) ''/''"
proof -
  obtain c where c: "LoadFile demo_config_env (Inr []) = Inr c" using demo_loaded .
  from LoadFile_accepts [OF c] c show ?thesis by blast
qed

theorem runService_wires_witness:
  "\<exists>srv s b. runService demo_service_env demo_netip demo_oenv (Inr []) ModeAll NewFakeTelegram = Inr (srv, s) \<and>
     bucketBinding s ''b'' = Inr b \<and> bb_ChatID b = ''-100'' \<and> sv_keys (srv_verify (sv_s3 srv)) = [''AK'' \<mapsto> ''secret'']"
proof -
  obtain srv s where run: "runService demo_service_env demo_netip demo_oenv (Inr []) ModeAll NewFakeTelegram = Inr (srv, s)"
    using demo_started .
  obtain c where c: "LoadFile (se_config demo_service_env) (Inr []) = Inr c" "cf_Buckets c = [(''b'', demo_bucket_config)]"
    "ac_Credentials (cf_Auth c) = [\<lparr>cc_AccessKey = ''AK'', cc_SecretKeyEnv = ''S''\<rparr>]"
    using demo_loaded by (auto simp: demo_service_env_def)
  from runService_wires [OF run c(1)] c(2,3) have "\<exists>b. bucketBinding s ''b'' = Inr b \<and>
      bound demo_service_env c (''b'', demo_bucket_config) (''b'', b)" "sv_keys (srv_verify (sv_s3 srv)) = [''AK'' \<mapsto> ''secret'']"
    by (simp_all add: demo_service_env_def demo_config_env_def)
  with run show ?thesis by (auto simp: bound_def demo_bucket_config_def)
qed

theorem service_routes_buckets_witness:
  "\<exists>srv s. runService demo_service_env demo_netip demo_oenv (Inr []) ModeAll NewFakeTelegram = Inr (srv, s) \<and>
     (\<forall>s3e de t. service_ServeHTTP demo_netip s3e de demo_oenv srv demo_PUT t =
        ServeHTTP s3e demo_oenv (sv_s3 srv) (through_proxy demo_netip (sv_trust srv) demo_PUT) (t :: FakeTelegram ostate))"
proof -
  obtain srv s where run: "runService demo_service_env demo_netip demo_oenv (Inr []) ModeAll NewFakeTelegram = Inr (srv, s)"
    using demo_started .
  obtain c where c: "LoadFile (se_config demo_service_env) (Inr []) = Inr c" "cf_Buckets c = [(''b'', demo_bucket_config)]"
    using demo_loaded by (auto simp: demo_service_env_def)
  from service_routes_buckets [OF run c(1), where b = "''b''" and r = demo_PUT and k = "''k''"] c(2) run
  show ?thesis by (simp add: demo_requests)
qed

definition demo_anonymous :: Request where
  "demo_anonymous = demo_PUT\<lparr>rq_Header := []\<rparr>"

theorem service_requests_authorized_witness:
  "\<exists>resp. \<forall>t :: FakeTelegram ostate. service_ServeHTTP demo_netip demo_se demo_dav_env demo_oenv
     \<lparr>sv_s3 = demo_server, sv_dav = None, sv_trust = \<lparr>tp_proxies = [], tp_hosts = {}\<rparr>, sv_listen = []\<rparr> demo_anonymous t = (resp, t)"
proof -
  let ?srv = "\<lparr>sv_s3 = demo_server, sv_dav = None, sv_trust = \<lparr>tp_proxies = [], tp_hosts = {}\<rparr>, sv_listen = []\<rparr> :: unit service"
  obtain resp s' where run: "service_ServeHTTP demo_netip demo_se demo_dav_env demo_oenv ?srv demo_anonymous demo_store = (resp, s')"
    by fastforce
  have proxy: "through_proxy demo_netip (sv_trust ?srv) demo_anonymous = demo_anonymous" by (simp add: through_proxy_def)
  have m: "rq_Method demo_anonymous = ''PUT''" by (simp add: demo_anonymous_def demo_requests)
  have "isl (parseSigV4RequestAuth demo_crypto demo_anonymous)" by code_simp
  then have "Verify demo_crypto v demo_anonymous \<noteq> Inr ident" for v ident
    by (auto simp: Verify_def isl_def)
  then have no: "Verify (s3_crypto demo_se) v (through_proxy demo_netip (sv_trust ?srv) demo_anonymous) \<noteq> Inr ident" for v ident
    by (simp add: proxy [simplified] demo_se_def)
  have "\<not> allowsPresignedRequest (through_proxy demo_netip (sv_trust ?srv) demo_anonymous)"
    using m by (simp add: proxy [simplified] allowsPresignedRequest_def)
  with service_requests_authorized [OF run] no show ?thesis by (elim disjE) (blast, blast, simp, blast)
qed

end
