(* ===== verification/MetaOpen.thy ===== *)
theory MetaOpen
  imports Cli Http
begin

text \<open>
  \<^verbatim>\<open>metadata/sqlite.go\<close>: opening the database. Parameters: \<^verbatim>\<open>filepath.Abs\<close>, and of the driver whether a
  data source can be opened and pinged and what the file holds. A table of a file that was not
  created yet is \<open>None\<close>.
\<close>

record database =
  dt_buckets :: "Bucket list option"
  dt_objects :: "Object list option"
  dt_chunks :: "Chunk list option"

record open_env =
  oe_Abs :: "string \<Rightarrow> gerror + string"
  oe_Open :: "string \<Rightarrow> gerror option"
  oe_Ping :: "string \<Rightarrow> gerror option"
  oe_migrate :: "gerror option"
  oe_database :: "string \<Rightarrow> database"

text \<open>\<^verbatim>\<open>url.QueryEscape\<close>, \<^verbatim>\<open>url.Values.Encode\<close> for pairs sorted by key, and \<^verbatim>\<open>URL.String\<close> for the URL of a file.\<close>

definition QueryEscape :: "string \<Rightarrow> string" where
  "QueryEscape s = concat (map (\<lambda>c. if alnum c \<or> c \<in> set ''-_.~'' then [c] else if c = CHR '' '' then ''+''
     else [CHR ''%'', hex_digit (of_char c div 16), hex_digit (of_char c)]) s)"

definition Values_Encode :: "(string \<times> string) list \<Rightarrow> string" where
  "Values_Encode kvs = Join (map (\<lambda>(k, v). QueryEscape k @ ''='' @ QueryEscape v) kvs) ''&''"

definition file_url :: "string \<Rightarrow> string \<Rightarrow> string" where
  "file_url path qry =
     ''file:'' @ (if path \<noteq> [] then ''//'' else []) @
     EscapedPath \<lparr>u_Scheme = ''file'', u_Host = [], u_Path = path, u_RawPath = [], u_RawQuery = qry\<rparr> @ ''?'' @ qry"

definition sqliteReadWriteDSN :: "string \<Rightarrow> string" where
  "sqliteReadWriteDSN path =
     file_url path (Values_Encode [(''_pragma'', ''busy_timeout(10000)''), (''_pragma'', ''journal_mode(WAL)'')])"

definition sqliteReadOnlyDSN :: "string \<Rightarrow> string" where
  "sqliteReadOnlyDSN path = file_url path (Values_Encode [(''mode'', ''ro'')])"

definition openSQLite :: "open_env \<Rightarrow> string \<Rightarrow> gerror + database" where
  "openSQLite oe dsn =
     (case oe_Open oe dsn of
        Some err \<Rightarrow> Inl err
      | None \<Rightarrow> (case oe_Ping oe dsn of Some err \<Rightarrow> Inl err | None \<Rightarrow> Inr (oe_database oe dsn)))"

text \<open>\<^verbatim>\<open>CREATE TABLE IF NOT EXISTS\<close>.\<close>

definition create_table :: "'r list option \<Rightarrow> 'r list option" where
  "create_table t = (case t of None \<Rightarrow> Some [] | Some rows \<Rightarrow> Some rows)"

definition migrate :: "open_env \<Rightarrow> database \<Rightarrow> gerror + database" where
  "migrate oe db =
     (case oe_migrate oe of
        Some err \<Rightarrow> Inl err
      | None \<Rightarrow> Inr \<lparr>dt_buckets = create_table (dt_buckets db), dt_objects = create_table (dt_objects db),
                     dt_chunks = create_table (dt_chunks db)\<rparr>)"

definition OpenSQLite :: "open_env \<Rightarrow> string \<Rightarrow> gerror + database" where
  "OpenSQLite oe path =
     (case oe_Abs oe path of
        Inl err \<Rightarrow> Inl err
      | Inr absolutePath \<Rightarrow>
          (case openSQLite oe (sqliteReadWriteDSN absolutePath) of
             Inl err \<Rightarrow> Inl err
           | Inr db \<Rightarrow> migrate oe db))"

definition OpenSQLiteReadOnly :: "open_env \<Rightarrow> string \<Rightarrow> gerror + database" where
  "OpenSQLiteReadOnly oe path =
     (case oe_Abs oe path of
        Inl err \<Rightarrow> Inl err
      | Inr absolutePath \<Rightarrow> openSQLite oe (sqliteReadOnlyDSN absolutePath))"

text \<open>\<^verbatim>\<open>openMetadataFromConfig\<close> of \<^verbatim>\<open>cmd/tgnas/main.go\<close>, which \<^verbatim>\<open>ls\<close> and \<^verbatim>\<open>lsd\<close> use; \<open>content\<close> is the configuration file.\<close>

definition openMetadataFromConfig :: "open_env \<Rightarrow> config_env \<Rightarrow> gerror + bytes \<Rightarrow> gerror + database \<times> string" where
  "openMetadataFromConfig oe ce content =
     (case loadSQLitePathForLocalCLI ce content of
        Inl err \<Rightarrow> Inl err
      | Inr sqlitePath \<Rightarrow>
          (case OpenSQLiteReadOnly oe sqlitePath of
             Inl err \<Rightarrow> Inl (Wrapf ''open sqlite metadata'' err)
           | Inr db \<Rightarrow> Inr (db, sqlitePath)))"

text \<open>The state the methods of the store work on.\<close>

definition store_of :: "database \<Rightarrow> sqlite option" where
  "store_of db =
     (case (dt_buckets db, dt_objects db, dt_chunks db) of
        (Some bs, Some obs, Some cks) \<Rightarrow> Some \<lparr>tabs = \<lparr>tb_buckets = bs, tb_objects = obs, tb_chunks = cks\<rparr>, tick = 0\<rparr>
      | _ \<Rightarrow> None)"

text \<open>A database that was opened for writing has its three tables, with the rows that were there; opening it again
  changes nothing.\<close>

lemma migrate_tables:
  assumes "migrate oe db = Inr db'"
  shows "\<exists>s. store_of db' = Some s" and "\<And>s. store_of db = Some s \<Longrightarrow> store_of db' = Some s" and "migrate oe db' = Inr db'"
proof -
  have m: "oe_migrate oe = None"
    "db' = \<lparr>dt_buckets = create_table (dt_buckets db), dt_objects = create_table (dt_objects db), dt_chunks = create_table (dt_chunks db)\<rparr>"
    using assms by (auto simp: migrate_def split: option.splits)
  show "\<exists>s. store_of db' = Some s" "migrate oe db' = Inr db'" "\<And>s. store_of db = Some s \<Longrightarrow> store_of db' = Some s"
    using m by (cases "dt_buckets db"; cases "dt_objects db"; cases "dt_chunks db"; simp add: store_of_def create_table_def migrate_def)+
qed

lemma OpenSQLite_tables:
  assumes "OpenSQLite oe path = Inr db"
  shows "\<exists>abs s. oe_Abs oe path = Inr abs \<and> store_of db = Some s \<and>
    (\<forall>s0. store_of (oe_database oe (sqliteReadWriteDSN abs)) = Some s0 \<longrightarrow> s = s0)"
proof -
  obtain abs where abs: "oe_Abs oe path = Inr abs"
    "migrate oe (oe_database oe (sqliteReadWriteDSN abs)) = Inr db"
    using assms by (auto simp: OpenSQLite_def openSQLite_def split: sum.splits option.splits)
  show ?thesis
    using abs migrate_tables(1, 2)[OF abs(2)] by fastforce
qed

text \<open>The commands that only read open the database read-only, as it is: they never create a table.\<close>

lemma openMetadataFromConfig_reads:
  assumes "openMetadataFromConfig oe ce content = Inr (db, path)"
  shows "loadSQLitePathForLocalCLI ce content = Inr path" and
    "\<exists>abs. oe_Abs oe path = Inr abs \<and> db = oe_database oe (sqliteReadOnlyDSN abs)"
  using assms
  by (auto simp: openMetadataFromConfig_def OpenSQLiteReadOnly_def openSQLite_def split: sum.splits option.splits)

lemma sqlite_dsn: "sqliteReadWriteDSN ''/data/a b.db'' = ''file:///data/a%20b.db?_pragma=busy_timeout%2810000%29&_pragma=journal_mode%28WAL%29''"
  by code_simp

end
