(* ===== verification/Divergences.thy ===== *)
theory Divergences
  imports DavProps MultiProps
begin

text \<open>
  Concrete runs in which the code does what its callers would not expect.
\<close>

subsection \<open>Copies share messages\<close>

text \<open>A copy within one chat only copies rows; when the source is deleted its messages go, and the copy, whose
  row and chunks are still there, is left without its bytes. (The fake client only records the deletions.)\<close>

definition demo_copied :: "FakeTelegram ostate" where
  "demo_copied = snd (Store_CopyObject demo_oenv ''b'' ''k'' ''b'' ''c'' demo_stored)"

definition demo_source_gone :: "FakeTelegram ostate" where
  "demo_source_gone = snd (Store_DeleteObject demo_oenv ''b'' ''k'' demo_copied)"

lemma copy_shares_messages:
  "object_bytes fake_msgs demo_copied (''b'', ''c'') = Some ''abcdefgh''"
  "case contents (tabs demo_source_gone) (''b'', ''c'') of
     Some (ob, cks) \<Rightarrow> cks \<noteq> [] \<and> (\<forall>ck \<in> set cks. ck_TelegramMessageID ck \<in> set (fk_DeletedMessageIDs (world demo_source_gone)))
   | None \<Rightarrow> False"
  by code_simp+

subsection \<open>WebDAV\<close>

text \<open>The path of a request is decoded already: an object whose key has a percent sign cannot be addressed, or is
  addressed under another key.\<close>

lemma parsePath_unescapes_again:
  "parsePath ''/b/100%.txt'' = Inl (Sent DavErrBadRequest)"
  "parsePath ''/b/a%20b'' = Inr (''b'', ''a b'', False)"
  by code_simp+

text \<open>A DELETE removes the rows and leaves the messages in the chat.\<close>

lemma dav_delete_keeps_messages:
  "fst (RemoveAll demo_oenv ''/b/k'' demo_dav_closed) = Inr ()"
  "contents (tabs (snd (RemoveAll demo_oenv ''/b/k'' demo_dav_closed))) (''b'', ''k'') = None"
  "fk_DeletedMessageIDs (world (snd (RemoveAll demo_oenv ''/b/k'' demo_dav_closed))) = []"
  by code_simp+

subsection \<open>Short downloads\<close>

text \<open>When the client delivers less than a chunk holds, the stream goes on with the next chunk and ends without an
  error.\<close>

definition demo_truncated :: "FakeTelegram ostate" where
  "demo_truncated = demo_stored\<lparr>world := (world demo_stored)\<lparr>fk_Files := (fk_Files (world demo_stored))(''file-1'' \<mapsto> ''a'')\<rparr>\<rparr>"

lemma short_download_is_silent:
  "fst (Store_GetObject demo_oenv ''b'' ''k'' None demo_truncated) = Inr ((''adefgh'', None), demo_info)"
  by code_simp

subsection \<open>Small inputs\<close>

text \<open>Numbers of a range may have signs; the body of a put with length 0 is not looked at.\<close>

lemma range_with_signs: "ParseRange ''bytes=+1-+2'' 10 = Inr \<lparr>br_start = 1, br_end = 2\<rparr>"
  by code_simp

lemma empty_put_ignores_body:
  "\<not> isl (fst (Store_PutObject demo_oenv ((demo_input ''e'' ''abc'')\<lparr>pi_Size := 0\<rparr>) demo_store))"
  "object_bytes fake_msgs (snd (Store_PutObject demo_oenv ((demo_input ''e'' ''abc'')\<lparr>pi_Size := 0\<rparr>) demo_store)) (''b'', ''e'') = Some []"
  by code_simp+

end
