(* ===== verification/Spec2Isabelle.thy ===== *)
theory Spec2Isabelle
  imports CoreProps MetaProps TelegramProps StoreProps MultiAccept StoreListProps S3Session SigV4Props ListTokenProps CorsProps DavProps DavTree CliProps ServiceProps MetaOpen Divergences
begin

text \<open>
  A development on tgnas, an object store whose bytes lie in Telegram chats and whose metadata lie in an SQLite
  database; it is served over the S3 API and over WebDAV. Paths below are those of the repository without its
  leading directory of sources.

  \<^bold>\<open>The program and its parts.\<close> A request comes in through the service (\<^verbatim>\<open>cmd/tgnas/main.go\<close>), which takes the
  client's address and scheme from trusted proxies and chooses between the S3 handler
  (\<^verbatim>\<open>internal/s3api\<close>: CORS, AWS signatures, routing, XML answers) and the WebDAV handler (\<^verbatim>\<open>internal/dav\<close>: Basic
  authentication, COPY and MOVE of its own, a file system for the handler of \<^verbatim>\<open>golang.org/x/net/webdav\<close>). Both call
  the object store (\<^verbatim>\<open>store\<close>), which cuts bodies into chunks, sends each as a message of the bucket's chat through a
  Telegram client (\<^verbatim>\<open>telegram\<close>), and keeps rows of objects and chunks in the metadata store (\<^verbatim>\<open>metadata\<close>).
  The configuration (\<^verbatim>\<open>config\<close>) says which buckets there are; the command line lists keys and renames buckets.

  \<^bold>\<open>Theories and sources.\<close> Names of definitions are those of the Go functions, with a prefix where two
  packages use the same one (\<open>Store_PutObject\<close> of the store, \<open>PutObject\<close> of the metadata, \<open>h_putObject\<close> of the
  S3 handler) and \<open>a_b\<close> for the method \<open>b\<close> of a type \<open>a\<close>.

  \<^item> Prelude, Runtime, Json, Http: what the sources use of Go and its library: strings as lists of bytes, \<^verbatim>\<open>int64\<close> with
    its wrap-around written out (\<open>i64\<close>), error values and chains, readers as data with a final error, JSON
    decoding, URLs, headers and queries. Steps that read and change a state and may fail are functions
    \<open>state \<Rightarrow> (gerror + result) \<times> state\<close>, composed with \<open>sbind\<close>; \<open>wp\<close> is their weakest precondition with one
    postcondition for results and one for errors.
  \<^item> Ranges, UploadStrategies, Captions, Locks: \<^verbatim>\<open>store/range.go\<close>, \<^verbatim>\<open>store/upload_strategy.go\<close>,
    \<^verbatim>\<open>telegram/caption.go\<close> and \<^verbatim>\<open>store/locks.go\<close>; their properties are in CoreProps. The lock is a step
    relation of the critical sections of any number of goroutines.
  \<^item> SqlLike, MetaTables, Metadata, MetaOpen: \<^verbatim>\<open>metadata/sqlite.go\<close> and \<^verbatim>\<open>metadata/types.go\<close>: the tables as lists of
    rows, the statements as functions on them, every method of \<^verbatim>\<open>SQLiteStore\<close> with its transaction, opening and
    migrating a database. MetaSpec and MetaStore give the tables an abstract state, a map from (bucket, key) to an object
    with its chunks, and the effect of each operation on it; MetaOps adds listing, copying, moving and
    renaming; MetaProps has the properties, PrefixCopy what a prefix copy or move leaves under every key.
  \<^item> TelegramClient, TelegramProps: \<^verbatim>\<open>telegram/client.go\<close> with its retries, over a parameter for the exchange of
    HTTP requests. FakeTelegram: \<^verbatim>\<open>internal/testutil\<close>.
  \<^item> StoreState, StorePut, StoreGet, StoreMultipart, StoreList: \<^verbatim>\<open>store/store.go\<close> and \<^verbatim>\<open>store/types.go\<close>. The state of the store
    extends that of the metadata store, so that the metadata methods run on it as they are.
    StoreFrames says what steps leave alone, StoreSpec has the abstract state and the invariant, StoreCorrect,
    StoreRefine, StoreReads, MultiEffects and StoreUploads the effects of the operations, StoreProps, MultiProps,
    MultiAccept and StoreListProps their properties.
  \<^item> Responses, S3Errors, Cors, ListToken, SigV4, S3Server: \<^verbatim>\<open>internal/s3api\<close>; the properties are in SigV4Props,
    ListTokenProps, S3Props, CorsProps and S3Session.
  \<^item> DavFS, DavHandler: \<^verbatim>\<open>internal/dav\<close>; DavProps has the properties of files and of COPY and MOVE, DavTree those of
    the tree of collections.
  \<^item> Config: \<^verbatim>\<open>config/config.go\<close>. Cli, CliProps, Service, ServiceProps: \<^verbatim>\<open>cmd/tgnas/main.go\<close>.
  \<^item> Divergences: runs in which the code does what its callers would not expect.

  \<^bold>\<open>Interfaces.\<close> \<open>like_operator\<close> (SqlLike) is what the prefix filters need of SQLite's \<^verbatim>\<open>LIKE\<close>, interpreted on its
  documented matching. \<open>object_map\<close> (MetaStore) is the contract of a metadata store, \<open>paged_listing\<close> and
  \<open>listing_loop\<close> (MetaOps) that of a listing by pages and of a client that reads all pages; they are
  interpreted on the model of \<^verbatim>\<open>metadata/sqlite.go\<close>. \<open>telegram_chat\<close> (StoreSpec) is the contract of a
  \<^verbatim>\<open>telegram.Client\<close>: an upload adds a message under a fresh id and keeps the others, a download gives a
  beginning of the file and all of it unless the stream ends with an error, a deletion concerns one
  message. The refinements of the store are proved over it, and it is interpreted on the repository's fake client.

  \<^bold>\<open>What the lemmas show.\<close>

  \<^item> The store is a map. \<open>object_bytes\<close> is the map from (bucket, key) to the bytes that the rows and the messages
    they name spell out, \<open>store_inv\<close> the invariant. Putting, deleting and completing a multipart upload
    are updates of the map, also when a later step fails; reading streams the bytes or the range asked
    for. Over these, S3Session shows of sessions of requests to the S3 handler that they keep the
    invariant of the server and are runs of an abstract server of objects and open uploads; left out are
    copies within one chat and token, which share messages, and deletions that fail half way.
  \<^item> Requests: a PUT followed by a GET, ranges and lengths of answers, who may do what over both protocols,
    what a signature binds, the canonical query as a normal form, which answers are opened to another
    origin, pages of listings as segments of one pass over the sorted rows, continuation tokens.
  \<^item> Metadata: a failed write changes no row, keys stay unique after any sequence of writes, listings are
    complete, trees are copied and moved as a whole between prefixes that do not contain each other, as long as no
    key differs from those below them in case alone: the runs that go wrong otherwise are in MetaProps, PrefixCopy
    and DavTree.
  \<^item> The rest: locks (exclusion, no leaks, progress), captions, strategies, the bounds of the retries, no token in
    error texts, files and collections over WebDAV, which configurations are accepted, what the commands print.

  \<^bold>\<open>Bounds and termination.\<close> The loops of the sources are recursive functions with a termination measure (the bytes or
  rows left, the rows behind the cursor, the time left), so that returning is part of each definition. Only the
  parser of JSON texts in ListToken counts down a number: one more than the length of the text, of which
  every step takes at least one character. The number of open uploads is bounded by 1000, the requests of one
  upload by four. The properties that add up sizes assume that they stay within 64 bits.

  \<^bold>\<open>Parameters.\<close> The SQLite driver (when a call fails) and the clock, the network behind the Telegram client, the hash functions
  and \<^verbatim>\<open>crypto/rand\<close>, errors of temporary files, the order in which a Go map is ranged over, which branch of a
  \<^verbatim>\<open>select\<close> with a cancelled context is taken, the handler of \<^verbatim>\<open>golang.org/x/net/webdav\<close>, \<^verbatim>\<open>url.Parse\<close>, the
  decoders of YAML and of the XML body of a completion, \<^verbatim>\<open>net/netip\<close>, \<^verbatim>\<open>regexp\<close> (as the set of strings that match),
  \<^verbatim>\<open>time.ParseDuration\<close> and the parsing of integer flags. What is assumed of them is in the statements.

  \<^bold>\<open>Not modelled.\<close> Goroutines: calls to the store are taken one after the other, and the goroutine that fills the
  pipe of \<^verbatim>\<open>GetObject\<close> runs while the pipe is read; the concurrent part that the sources implement themselves, the
  lock per key, is modelled as such. Log lines, except those of the store about messages and metadata,
  and with them \<^verbatim>\<open>sanitizeLogError\<close> of \<^verbatim>\<open>internal/s3api/server.go\<close>, \<^verbatim>\<open>signedHeaderValueHashes\<close> of
  \<^verbatim>\<open>internal/s3api/sigv4.go\<close> and the debug loggers. Listening, signals and closing the database. The functional
  options of the constructors, which set fields that are fields of the records here. Three simplifications: \<^verbatim>\<open>strings.TrimSpace\<close>,
  \<^verbatim>\<open>ToLower\<close> and \<^verbatim>\<open>EqualFold\<close> know ASCII only, \<^verbatim>\<open>%q\<close> puts quotes around a text without escaping in it, which
  concerns error texts, and a transaction whose COMMIT fails is taken to be rolled back, as SQLite documents it.
\<close>

end
